(* ===== verification/Prelude.thy ===== *)
theory Prelude
  imports Main "HOL-Library.Word"
begin

text \<open>
  Shared vocabulary of the development: the machine integers of the two programs, the
  error codes of \<open>cp-amm\<close> (\<open>programs/cp-amm/src/error.rs\<close>), the result type that every
  fallible function returns, the two-element arrays the accounts hold, and the rounding
  lemmas on natural numbers that the arithmetic proofs share.
\<close>

section \<open>Machine integers and keys\<close>

type_synonym u8 = "8 word"
type_synonym u16 = "16 word"
type_synonym u32 = "32 word"
type_synonym u64 = "64 word"
type_synonym u128 = "128 word"
type_synonym u256 = "256 word"
type_synonym u512 = "512 word"

text \<open>
  A public key is 32 bytes; it is read here as one 256-bit big-endian number, so that the
  order of the words is the byte order of the keys and \<open>Pubkey::default()\<close> is 0.
\<close>

type_synonym pubkey = "256 word"

abbreviation (input) default_pubkey :: pubkey where
  "default_pubkey \<equiv> 0"

section \<open>Failures and results\<close>

datatype pool_error =
    MathOverflow
  | InvalidFee
  | ExceededSlippage
  | PoolDisabled
  | ExceedMaxFeeBps
  | InvalidAdmin
  | AmountIsZero
  | TypeCastFailed
  | UnableToModifyActivationPoint
  | InvalidAuthorityToCreateThePool
  | InvalidActivationType
  | InvalidActivationPoint
  | InvalidQuoteMint
  | InvalidFeeCurve
  | InvalidPriceRange
  | PriceRangeViolation
  | InvalidParameters
  | InvalidCollectFeeMode
  | InvalidInput
  | CannotCreateTokenBadgeOnSupportedMint
  | InvalidTokenBadge
  | InvalidMinimumLiquidity
  | InvalidVestingInfo
  | InsufficientLiquidity
  | InvalidVestingAccount
  | InvalidPoolStatus
  | UnsupportNativeMintToken2022
  | InvalidRewardIndex
  | InvalidRewardDuration
  | RewardInitialized
  | RewardUninitialized
  | InvalidRewardVault
  | MustWithdrawnIneligibleReward
  | IdenticalRewardDuration
  | RewardCampaignInProgress
  | IdenticalFunder
  | InvalidFunder
  | RewardNotEnded
  | FeeInverseIsIncorrect
  | PositionIsNotEmpty
  | InvalidPoolCreatorAuthority
  | InvalidConfigType
  | InvalidPoolCreator
  | RewardVaultFrozenSkipRequired
  | InvalidSplitPositionParameters
  | UnsupportPositionHasVestingLock
  | SamePosition

text \<open>
  An instruction ends with an error code of its program, with a violated account
  constraint (checked before the handler runs), or with a panic (an \<open>assert!\<close>, an
  \<open>unwrap\<close> of \<open>None\<close>, an unchecked subtraction below zero under
  \<open>overflow-checks = true\<close> of the workspace's release profile). All three abort the
  transaction and leave every account as it was.
\<close>

datatype constraint =
    ConstraintHasOne
  | ConstraintRaw
  | ConstraintTokenOwner
  | ConstraintAddress
  | ConstraintSigner
  | ConstraintSeeds
  | ConstraintMintTokenProgram
  | ConstraintTokenMint
  | ConstraintTokenTokenProgram | ConstraintAssociated
  | ConstraintAssociatedTokenTokenProgram
  | ConstraintAccountLoader
  | ConstraintAccountInit
  | AccountOwnedByWrongProgram
  | InvalidProgramId

datatype 'e failure =
    Err 'e
  | Constraint constraint
  | Panic

type_synonym 'a result = "pool_error failure + 'a"

definition bindr :: "'e + 'a \<Rightarrow> ('a \<Rightarrow> 'e + 'b) \<Rightarrow> 'e + 'b" where
  "bindr m f = (case m of Inl e \<Rightarrow> Inl e | Inr x \<Rightarrow> f x)"

definition require :: "bool \<Rightarrow> 'e \<Rightarrow> 'e + unit" where
  "require b e = (if b then Inr () else Inl e)"

text \<open>An account constraint.\<close>

abbreviation check :: "bool \<Rightarrow> constraint \<Rightarrow> 'e failure + unit" where
  "check b c \<equiv> require b (Constraint c)"

definition ok_or :: "'a option \<Rightarrow> 'e \<Rightarrow> 'e + 'a" where
  "ok_or m e = (case m of None \<Rightarrow> Inl e | Some x \<Rightarrow> Inr x)"

text \<open>
  \<open>ok_iff\<close> collects, for each fallible operation, when it returns a given value;
  \<open>auto simp: ok_iff\<close> decomposes a successful run into its steps. \<open>unat_eqs\<close> collects
  how the natural-number value of a result depends on the values of the arguments.
\<close>

named_theorems ok_iff
named_theorems unat_eqs

lemma bindr_Inr [simp]: "bindr (Inr x) f = f x"
  by (simp add: bindr_def)

lemma bindr_Inl [simp]: "bindr (Inl e) f = Inl e"
  by (simp add: bindr_def)

lemma bindr_assoc [simp]: "bindr (bindr m f) g = bindr m (\<lambda>x. bindr (f x) g)"
  by (simp add: bindr_def split: sum.splits)

lemma bindr_eq_Inr [ok_iff]: "bindr m f = Inr y \<longleftrightarrow> (\<exists>x. m = Inr x \<and> f x = Inr y)"
  by (cases m) auto

lemma bindr_eq_Inl: "bindr m f = Inl e \<longleftrightarrow> m = Inl e \<or> (\<exists>x. m = Inr x \<and> f x = Inl e)"
  by (cases m) auto

text \<open>For evaluating a run on concrete values: nothing is simplified under a bind that is not reached.\<close>

lemma bindr_weak_cong: "m = m' \<Longrightarrow> bindr m f = bindr m' f"
  by simp

lemma bindr_cong [fundef_cong]:
  "m = m' \<Longrightarrow> (\<And>x. m' = Inr x \<Longrightarrow> f x = f' x) \<Longrightarrow> bindr m f = bindr m' f'"
  by (cases m') auto

lemma require_eq_Inr [ok_iff]: "require b e = Inr u \<longleftrightarrow> b"
  by (simp add: require_def)

lemma require_eq_Inl: "require b e = Inl e' \<longleftrightarrow> \<not> b \<and> e' = e"
  by (auto simp: require_def)

lemma require_simps [simp]: "require True e = Inr ()" "require False e = Inl e"
  by (simp_all add: require_def)

lemma ok_or_eq_Inr [ok_iff]: "ok_or m e = Inr x \<longleftrightarrow> m = Some x"
  by (auto simp: ok_or_def split: option.splits)

lemma ok_or_eq_Inl: "ok_or m e = Inl e' \<longleftrightarrow> m = None \<and> e' = e"
  by (auto simp: ok_or_def split: option.splits)

lemma ok_or_simps [simp]: "ok_or (Some x) e = Inr x" "ok_or None e = Inl e"
  by (simp_all add: ok_or_def)

section \<open>Arrays of two elements\<close>

text \<open>
  \<open>[RewardInfo; NUM_REWARDS]\<close> with \<open>NUM_REWARDS = 2\<close>: the length is in the type, and an
  index outside of it panics.
\<close>

datatype 'a array2 = Array2 (elem0: 'a) (elem1: 'a)

fun arr_get :: "'a array2 \<Rightarrow> nat \<Rightarrow> 'e failure + 'a" where
  "arr_get (Array2 x y) i = (if i = 0 then Inr x else if i = 1 then Inr y else Inl Panic)"

fun arr_set :: "'a array2 \<Rightarrow> nat \<Rightarrow> 'a \<Rightarrow> 'a array2" where
  "arr_set (Array2 x y) i z = (if i = 0 then Array2 z y else if i = 1 then Array2 x z else Array2 x y)"

lemma arr_get_eq_Inr [ok_iff]:
  "arr_get a i = Inr x \<longleftrightarrow> (i = 0 \<and> x = elem0 a) \<or> (i = 1 \<and> x = elem1 a)"
  by (cases a) auto

lemma arr_get_set_same: "i < 2 \<Longrightarrow> arr_get (arr_set a i z) i = Inr z"
  by (cases a) auto

lemma arr_get_set_other: "i \<noteq> j \<Longrightarrow> arr_get (arr_set a i z) j = arr_get a j"
  by (cases a) auto

lemma elem_arr_set [simp]:
  "elem0 (arr_set a i z) = (if i = 0 then z else elem0 a)"
  "elem1 (arr_set a i z) = (if i = 1 then z else elem1 a)"
  by (cases a; simp)+

section \<open>Division rounded up\<close>

definition cdiv :: "nat \<Rightarrow> nat \<Rightarrow> nat" where
  "cdiv a b = (if a mod b = 0 then a div b else a div b + 1)"

lemma cdiv_le_iff:
  assumes "0 < b"
  shows "cdiv a b \<le> c \<longleftrightarrow> a \<le> c * b"
proof -
  have split: "a = a div b * b + a mod b" by simp
  have lt: "a mod b < b" using assms by simp
  show ?thesis
  proof (cases "a mod b = 0")
    case True
    then have "a = a div b * b" using split by simp
    then show ?thesis using True assms
      by (metis cdiv_def mult_le_cancel2)
  next
    case False
    have "a div b + 1 \<le> c \<longleftrightarrow> a < c * b"
      using assms by (metis Suc_eq_plus1 Suc_le_eq div_less_iff_less_mult)
    moreover have "a \<noteq> c * b" using False by auto
    ultimately show ?thesis using False by (auto simp: cdiv_def)
  qed
qed

lemma le_cdiv_mult: "0 < b \<Longrightarrow> a \<le> cdiv a b * b"
  using cdiv_le_iff [of b a "cdiv a b"] by simp

lemma div_le_cdiv: "a div b \<le> cdiv a b"
  by (simp add: cdiv_def)

lemma cdiv_le_Suc_div: "cdiv a b \<le> a div b + 1"
  by (simp add: cdiv_def)

lemma cdiv_mono: "0 < b \<Longrightarrow> a \<le> a' \<Longrightarrow> cdiv a b \<le> cdiv a' b"
  by (metis cdiv_le_iff le_cdiv_mult le_trans)

lemma cdiv_pos_iff: "0 < b \<Longrightarrow> 0 < cdiv a b \<longleftrightarrow> 0 < a"
  using cdiv_le_iff [of b a 0] by auto

lemma cdiv_less:
  assumes "0 < b"
  shows "cdiv a b * b < a + b"
proof -
  have eq: "a div b * b + a mod b = a" and lt: "a mod b < b" using assms by simp_all
  show ?thesis
  proof (cases "a mod b = 0")
    case True
    then show ?thesis using eq assms by (simp add: cdiv_def)
  next
    case False
    then have "cdiv a b * b = a div b * b + b" by (simp add: cdiv_def)
    then show ?thesis using eq False by linarith
  qed
qed

lemma div_mult_le_nat: "(a::nat) div b * b \<le> a"
  by simp

end
