(* ===== verification/SafeMath.thy ===== *)
theory SafeMath
  imports Prelude
begin

text \<open>
  \<open>programs/cp-amm/src/math/safe_math.rs\<close>: the trait \<open>SafeMath\<close>, whose operations return
  \<open>MathOverflow\<close> where the checked operation of the integer type returns \<open>None\<close>. The
  macro instantiates the trait at every unsigned width with the same body, so the model is
  one polymorphic definition per operation. The shifts of the primitive types and those of
  the 256-bit and 512-bit types differ: \<open>u128::checked_shl\<close> only refuses an offset of at
  least the width and drops the bits shifted out, \<open>U256::checked_shl\<close> also refuses to
  drop a set bit. The signed instances (\<open>i32\<close>, \<open>i64\<close>, \<open>i128\<close>) are not used outside tests.
\<close>

section \<open>Checked operations of the integer types\<close>

definition checked_add :: "'a::len word \<Rightarrow> 'a word \<Rightarrow> 'a word option" where
  "checked_add a b = (if unat a + unat b < 2 ^ LENGTH('a) then Some (a + b) else None)"

definition checked_sub :: "'a::len word \<Rightarrow> 'a word \<Rightarrow> 'a word option" where
  "checked_sub a b = (if b \<le> a then Some (a - b) else None)"

definition checked_mul :: "'a::len word \<Rightarrow> 'a word \<Rightarrow> 'a word option" where
  "checked_mul a b = (if unat a * unat b < 2 ^ LENGTH('a) then Some (a * b) else None)"

definition checked_div :: "'a::len word \<Rightarrow> 'a word \<Rightarrow> 'a word option" where
  "checked_div a b = (if b = 0 then None else Some (a div b))"

definition checked_rem :: "'a::len word \<Rightarrow> 'a word \<Rightarrow> 'a word option" where
  "checked_rem a b = (if b = 0 then None else Some (a mod b))"

definition checked_shl :: "'a::len word \<Rightarrow> nat \<Rightarrow> 'a word option" where
  "checked_shl a n = (if n < LENGTH('a) then Some (push_bit n a) else None)"

definition checked_shr :: "'a::len word \<Rightarrow> nat \<Rightarrow> 'a word option" where
  "checked_shr a n = (if n < LENGTH('a) then Some (drop_bit n a) else None)"

definition uint_checked_shl :: "'a::len word \<Rightarrow> nat \<Rightarrow> 'a word option" where
  "uint_checked_shl a n =
     (if n < LENGTH('a) \<and> unat a * 2 ^ n < 2 ^ LENGTH('a) then Some (push_bit n a) else None)"

text \<open>\<open>try_from\<close> / \<open>try_into\<close> between unsigned types, and \<open>T::from_u128\<close>.\<close>

definition try_cast :: "'a::len word \<Rightarrow> 'b::len word option" where
  "try_cast a = (if unat a < 2 ^ LENGTH('b) then Some (ucast a) else None)"

text \<open>Rounded-up division; the divisor is not zero where it is called.\<close>

definition div_ceil :: "'a::len word \<Rightarrow> 'a word \<Rightarrow> 'a word" where
  "div_ceil a b = (if a mod b = 0 then a div b else a div b + 1)"

text \<open>The operator \<open>-\<close> of the source: it panics below zero, as overflow checks are on.\<close>

definition sub_or_panic :: "'a::len word \<Rightarrow> 'a word \<Rightarrow> 'a word result" where
  "sub_or_panic a b = ok_or (checked_sub a b) Panic"

section \<open>The trait\<close>

definition safe_add :: "'a::len word \<Rightarrow> 'a word \<Rightarrow> 'a word result" where
  "safe_add a v = ok_or (checked_add a v) (Err MathOverflow)"

definition safe_sub :: "'a::len word \<Rightarrow> 'a word \<Rightarrow> 'a word result" where
  "safe_sub a v = ok_or (checked_sub a v) (Err MathOverflow)"

definition safe_mul :: "'a::len word \<Rightarrow> 'a word \<Rightarrow> 'a word result" where
  "safe_mul a v = ok_or (checked_mul a v) (Err MathOverflow)"

definition safe_div :: "'a::len word \<Rightarrow> 'a word \<Rightarrow> 'a word result" where
  "safe_div a v = ok_or (checked_div a v) (Err MathOverflow)"

definition safe_rem :: "'a::len word \<Rightarrow> 'a word \<Rightarrow> 'a word result" where
  "safe_rem a v = ok_or (checked_rem a v) (Err MathOverflow)"

definition safe_shl :: "'a::len word \<Rightarrow> nat \<Rightarrow> 'a word result" where
  "safe_shl a v = ok_or (checked_shl a v) (Err MathOverflow)"

definition safe_shr :: "'a::len word \<Rightarrow> nat \<Rightarrow> 'a word result" where
  "safe_shr a v = ok_or (checked_shr a v) (Err MathOverflow)"

definition uint_safe_shl :: "'a::len word \<Rightarrow> nat \<Rightarrow> 'a word result" where
  "uint_safe_shl a v = ok_or (uint_checked_shl a v) (Err MathOverflow)"

section \<open>Values of results\<close>

lemma unat_less [simp]: "unat (a::'a::len word) < 2 ^ LENGTH('a)"
  by (rule unsigned_less)

lemma unat_plus: "unat a + unat b < 2 ^ LENGTH('a) \<Longrightarrow> unat (a + b :: 'a::len word) = unat a + unat b"
  by (simp add: unat_word_ariths)

lemma unat_times: "unat a * unat b < 2 ^ LENGTH('a) \<Longrightarrow> unat (a * b :: 'a::len word) = unat a * unat b"
  by (simp add: unat_word_ariths)

lemma unat_minus: "b \<le> a \<Longrightarrow> unat (a - b :: 'a::len word) = unat a - unat b"
  by (rule unat_sub)

lemma unat_drop: "unat (drop_bit n a :: 'a::len word) = unat a div 2 ^ n"
  by (subst unat_drop_bit_eq) (simp only: drop_bit_eq_div)

lemma unat_push:
  "unat a * 2 ^ n < 2 ^ LENGTH('a) \<Longrightarrow> unat (push_bit n a :: 'a::len word) = unat a * 2 ^ n"
  by (simp add: unsigned_push_bit_eq take_bit_nat_eq_self push_bit_eq_mult [where 'a = nat] del: push_bit_eq_mult)

lemma unat_widen:
  "LENGTH('a) \<le> LENGTH('b) \<Longrightarrow> unat (ucast (a::'a::len word) :: 'b::len word) = unat a"
proof -
  assume "LENGTH('a) \<le> LENGTH('b)"
  then have "(2::nat) ^ LENGTH('a) \<le> 2 ^ LENGTH('b)" by (rule power_increasing) simp
  then have "unat a < 2 ^ LENGTH('b)" using unat_less [of a] by linarith
  then show ?thesis by (simp add: unsigned_ucast_eq take_bit_nat_eq_self)
qed

lemma word_eq_unat: "(a = b) \<longleftrightarrow> unat a = unat b"
  by (simp add: word_unat_eq_iff)

lemma word_pos: "0 < (x::'a::len word) \<longleftrightarrow> 0 < unat x"
  by (simp add: word_less_nat_alt)

lemma checked_add_eq_Some [ok_iff]:
  "checked_add a b = Some c \<longleftrightarrow> unat c = unat a + unat b" for a :: "'a::len word"
proof
  assume "unat c = unat a + unat b"
  moreover have "unat c < 2 ^ LENGTH('a)" by simp
  ultimately show "checked_add a b = Some c"
    by (simp add: checked_add_def word_eq_unat unat_plus)
qed (auto simp: checked_add_def unat_plus split: if_splits)

lemma checked_sub_eq_Some [ok_iff]:
  "checked_sub a b = Some c \<longleftrightarrow> unat a = unat b + unat c"
proof
  assume *: "unat a = unat b + unat c"
  then have "b \<le> a" by (simp add: word_le_nat_alt)
  with * show "checked_sub a b = Some c"
    by (simp add: checked_sub_def word_eq_unat unat_minus)
qed (auto simp: checked_sub_def unat_minus word_le_nat_alt split: if_splits)

lemma checked_mul_eq_Some [ok_iff]:
  "checked_mul a b = Some c \<longleftrightarrow> unat c = unat a * unat b" for a :: "'a::len word"
proof
  assume "unat c = unat a * unat b"
  moreover have "unat c < 2 ^ LENGTH('a)" by simp
  ultimately show "checked_mul a b = Some c"
    by (simp add: checked_mul_def word_eq_unat unat_times)
qed (auto simp: checked_mul_def unat_times split: if_splits)

lemma checked_div_eq_Some [ok_iff]:
  "checked_div a b = Some c \<longleftrightarrow> b \<noteq> 0 \<and> unat c = unat a div unat b"
  by (auto simp: checked_div_def word_eq_unat unat_div)

lemma checked_rem_eq_Some [ok_iff]:
  "checked_rem a b = Some c \<longleftrightarrow> b \<noteq> 0 \<and> unat c = unat a mod unat b"
  by (auto simp: checked_rem_def word_eq_unat unat_mod)

lemma checked_shr_eq_Some [ok_iff]:
  "checked_shr a n = Some c \<longleftrightarrow> n < LENGTH('a) \<and> unat c = unat a div 2 ^ n"
  for a :: "'a::len word"
  by (auto simp: checked_shr_def word_eq_unat unat_drop)

lemma uint_checked_shl_eq_Some [ok_iff]:
  "uint_checked_shl a n = Some c \<longleftrightarrow> n < LENGTH('a) \<and> unat c = unat a * 2 ^ n"
  for a :: "'a::len word"
proof
  assume *: "n < LENGTH('a) \<and> unat c = unat a * 2 ^ n"
  moreover have "unat c < 2 ^ LENGTH('a)" by simp
  ultimately show "uint_checked_shl a n = Some c"
    by (simp add: uint_checked_shl_def word_eq_unat unat_push)
qed (auto simp: uint_checked_shl_def unat_push split: if_splits)

lemma try_cast_eq_Some [ok_iff]:
  "(try_cast (a::'a::len word) :: 'b::len word option) = Some c \<longleftrightarrow> unat c = unat a"
proof
  assume *: "unat c = unat a"
  then have lt: "unat a < 2 ^ LENGTH('b)" by (metis unat_less)
  then have "unat (ucast a :: 'b word) = unat a"
    by (simp add: unsigned_ucast_eq take_bit_nat_eq_self)
  then show "(try_cast a :: 'b word option) = Some c"
    using * lt by (simp add: try_cast_def word_eq_unat)
qed (auto simp: try_cast_def unsigned_ucast_eq take_bit_nat_eq_self split: if_splits)

lemma unat_div_ceil [unat_eqs]: "b \<noteq> 0 \<Longrightarrow> unat (div_ceil a b) = cdiv (unat a) (unat b)"
  for a :: "'a::len word"
proof -
  assume b: "b \<noteq> 0"
  have "unat (a div b + 1) = unat a div unat b + 1" if "a mod b \<noteq> 0"
  proof -
    have m: "unat a mod unat b \<noteq> 0" using that by (metis unat_eq_zero unat_mod)
    then have "1 < unat b" and "0 < unat a"
      using b by (metis One_nat_def mod_by_1 less_one linorder_neqE_nat unat_eq_zero mod_0 neq0_conv)
        (metis m mod_0 neq0_conv)
    then have "unat a div unat b < unat a" by simp
    then have "unat a div unat b + 1 < 2 ^ LENGTH('a)" using unat_less [of a] by linarith
    then have "unat (a div b) + unat (1::'a word) < 2 ^ LENGTH('a)"
      by (simp add: unat_div)
    then show ?thesis by (simp add: unat_plus unat_div)
  qed
  moreover have "a mod b = 0 \<longleftrightarrow> unat a mod unat b = 0"
    by (simp add: word_eq_unat unat_mod)
  ultimately show ?thesis by (simp add: div_ceil_def cdiv_def unat_div)
qed

lemma safe_add_eq_Inr [ok_iff]: "safe_add a b = Inr c \<longleftrightarrow> unat c = unat a + unat b"
  by (simp add: safe_add_def ok_iff)

lemma safe_sub_eq_Inr [ok_iff]: "safe_sub a b = Inr c \<longleftrightarrow> unat a = unat b + unat c"
  by (simp add: safe_sub_def ok_iff)

lemma sub_or_panic_eq_Inr [ok_iff]: "sub_or_panic a b = Inr c \<longleftrightarrow> unat a = unat b + unat c"
  by (simp add: sub_or_panic_def ok_iff)

lemma safe_mul_eq_Inr [ok_iff]: "safe_mul a b = Inr c \<longleftrightarrow> unat c = unat a * unat b"
  by (simp add: safe_mul_def ok_iff)

lemma safe_div_eq_Inr [ok_iff]:
  "safe_div a b = Inr c \<longleftrightarrow> b \<noteq> 0 \<and> unat c = unat a div unat b"
  by (simp add: safe_div_def ok_iff)

lemma safe_rem_eq_Inr [ok_iff]:
  "safe_rem a b = Inr c \<longleftrightarrow> b \<noteq> 0 \<and> unat c = unat a mod unat b"
  by (simp add: safe_rem_def ok_iff)

lemma safe_shr_eq_Inr [ok_iff]:
  "safe_shr a n = Inr c \<longleftrightarrow> n < LENGTH('a) \<and> unat c = unat a div 2 ^ n" for a :: "'a::len word"
  by (simp add: safe_shr_def ok_iff)

lemma uint_safe_shl_eq_Inr [ok_iff]:
  "uint_safe_shl a n = Inr c \<longleftrightarrow> n < LENGTH('a) \<and> unat c = unat a * 2 ^ n" for a :: "'a::len word"
  by (simp add: uint_safe_shl_def ok_iff)

text \<open>When the operations return at all; every failure is \<open>MathOverflow\<close>.\<close>

lemma safe_add_total:
  "unat a + unat b < 2 ^ LENGTH('a) \<Longrightarrow> safe_add a b = Inr (a + b)" for a :: "'a::len word"
  by (simp add: safe_add_def checked_add_def)

lemma safe_sub_total: "b \<le> a \<Longrightarrow> safe_sub a b = Inr (a - b)"
  by (simp add: safe_sub_def checked_sub_def)

lemma safe_mul_total:
  "unat a * unat b < 2 ^ LENGTH('a) \<Longrightarrow> safe_mul a b = Inr (a * b)" for a :: "'a::len word"
  by (simp add: safe_mul_def checked_mul_def)

lemma safe_div_total: "b \<noteq> 0 \<Longrightarrow> safe_div a b = Inr (a div b)"
  by (simp add: safe_div_def checked_div_def)

lemma safe_error:
  "safe_add a b = Inl e \<Longrightarrow> e = Err MathOverflow"
  "safe_sub a b = Inl e \<Longrightarrow> e = Err MathOverflow"
  "safe_mul a b = Inl e \<Longrightarrow> e = Err MathOverflow"
  "safe_div a b = Inl e \<Longrightarrow> e = Err MathOverflow"
  by (auto simp: safe_add_def safe_sub_def safe_mul_def safe_div_def ok_or_eq_Inl)

text \<open>Evaluation of the operations on numerals.\<close>

lemmas safe_eval =
  safe_add_def safe_sub_def safe_mul_def safe_div_def safe_rem_def safe_shl_def safe_shr_def
  uint_safe_shl_def sub_or_panic_def checked_add_def checked_sub_def checked_mul_def checked_div_def
  checked_rem_def checked_shl_def checked_shr_def uint_checked_shl_def try_cast_def div_ceil_def

end
