(* ===== verification/U128x128Math.thy ===== *)
theory U128x128Math
  imports SafeMath
begin

text \<open>
  \<open>programs/cp-amm/src/math/u128x128_math.rs\<close> and \<open>utils_math.rs\<close>: multiplication and
  division of 128-bit numbers through 256-bit and 512-bit intermediates, with a rounding
  direction. Every definition is characterised by the exact natural-number result, and by
  the inputs on which it fails.
\<close>

datatype rounding = Up | Down

text \<open>Rounding down never gives more than rounding up: the direction is an order.\<close>

instantiation rounding :: linorder
begin

definition less_eq_rounding :: "rounding \<Rightarrow> rounding \<Rightarrow> bool" where
  "less_eq_rounding r s \<longleftrightarrow> r = Down \<or> s = Up"

definition less_rounding :: "rounding \<Rightarrow> rounding \<Rightarrow> bool" where
  "less_rounding r s \<longleftrightarrow> r = Down \<and> s = Up"

instance
proof
  fix r s t :: rounding
  show "r < s \<longleftrightarrow> r \<le> s \<and> \<not> s \<le> r" by (cases r; cases s) (simp_all add: less_eq_rounding_def less_rounding_def)
  show "r \<le> r" by (cases r) (simp_all add: less_eq_rounding_def)
  show "r \<le> s \<Longrightarrow> s \<le> t \<Longrightarrow> r \<le> t" by (cases s) (simp_all add: less_eq_rounding_def)
  show "r \<le> s \<Longrightarrow> s \<le> r \<Longrightarrow> r = s" by (cases r; cases s) (simp_all add: less_eq_rounding_def)
  show "r \<le> s \<or> s \<le> r" by (cases r; cases s) (simp_all add: less_eq_rounding_def)
qed

end

lemma rounding_le [simp]: "Down \<le> r" "r \<le> Up"
  by (simp_all add: less_eq_rounding_def)

section \<open>u128x128_math.rs\<close>

definition mul_shr :: "u128 \<Rightarrow> u128 \<Rightarrow> nat \<Rightarrow> u128 option" where
  "mul_shr x y offset =
     Option.bind (checked_mul (ucast x :: u256) (ucast y)) (\<lambda>prod.
       try_cast (drop_bit offset prod))"

definition mul_shr_256 :: "u256 \<Rightarrow> u256 \<Rightarrow> nat \<Rightarrow> u128 option" where
  "mul_shr_256 x y offset =
     Option.bind (checked_mul (ucast x :: u512) (ucast y)) (\<lambda>prod.
       try_cast (drop_bit offset prod))"

definition shl_div :: "u128 \<Rightarrow> u128 \<Rightarrow> nat \<Rightarrow> rounding \<Rightarrow> u128 option" where
  "shl_div x y offset r =
     (if y = 0 then None
      else Option.bind (uint_checked_shl (ucast x :: u256) offset) (\<lambda>prod.
        try_cast (case r of Up \<Rightarrow> div_ceil prod (ucast y) | Down \<Rightarrow> prod div ucast y)))"

definition shl_div_256 :: "u128 \<Rightarrow> u128 \<Rightarrow> nat \<Rightarrow> u256 option" where
  "shl_div_256 x y offset =
     (if y = 0 then None
      else Option.bind (uint_checked_shl (ucast x :: u256) offset) (\<lambda>prod.
        checked_div prod (ucast y)))"

definition mul_div_u256 :: "u256 \<Rightarrow> u256 \<Rightarrow> u256 \<Rightarrow> rounding \<Rightarrow> u256 option" where
  "mul_div_u256 x y denominator r =
     (if denominator = 0 then None
      else Option.bind (checked_mul (ucast x :: u512) (ucast y)) (\<lambda>prod.
        let res = (case r of Up \<Rightarrow> div_ceil prod (ucast denominator)
                           | Down \<Rightarrow> prod div ucast denominator)
        in if res > ucast (- 1 :: u256) then None else Some (ucast res)))"

section \<open>utils_math.rs\<close>

definition safe_mul_shr_cast :: "u128 \<Rightarrow> u128 \<Rightarrow> nat \<Rightarrow> 'a::len word result" where
  "safe_mul_shr_cast x y offset =
     bindr (ok_or (mul_shr x y offset) (Err MathOverflow)) (\<lambda>v.
       ok_or (try_cast v) (Err TypeCastFailed))"

definition safe_mul_shr_256_cast :: "u256 \<Rightarrow> u256 \<Rightarrow> nat \<Rightarrow> 'a::len word result" where
  "safe_mul_shr_256_cast x y offset =
     bindr (ok_or (mul_shr_256 x y offset) (Err MathOverflow)) (\<lambda>v.
       ok_or (try_cast v) (Err TypeCastFailed))"

definition safe_mul_div_cast_u64 :: "u64 \<Rightarrow> u64 \<Rightarrow> u64 \<Rightarrow> rounding \<Rightarrow> 'a::len word result" where
  "safe_mul_div_cast_u64 x y denominator0 r =
     bindr (safe_mul (ucast x :: u128) (ucast y)) (\<lambda>prod.
     let denominator = ucast denominator0 in
     bindr (case r of
         Up \<Rightarrow> bindr (safe_add prod denominator) (\<lambda>s.
               bindr (safe_sub s 1) (\<lambda>s'. safe_div s' denominator))
       | Down \<Rightarrow> safe_div prod denominator) (\<lambda>res.
     ok_or (try_cast res) (Err TypeCastFailed)))"

definition safe_mul_div_cast_u128 :: "u128 \<Rightarrow> u128 \<Rightarrow> u128 \<Rightarrow> rounding \<Rightarrow> u128 result" where
  "safe_mul_div_cast_u128 x y denominator0 r =
     bindr (safe_mul (ucast x :: u256) (ucast y)) (\<lambda>prod.
     let denominator = ucast denominator0 in
     bindr (case r of
         Up \<Rightarrow> if denominator = 0 then Inl Panic else Inr (div_ceil prod denominator)
       | Down \<Rightarrow> safe_div prod denominator) (\<lambda>res.
     ok_or (try_cast res) (Err TypeCastFailed)))"

definition safe_shl_div_cast :: "u128 \<Rightarrow> u128 \<Rightarrow> nat \<Rightarrow> rounding \<Rightarrow> 'a::len word result" where
  "safe_shl_div_cast x y offset r =
     bindr (ok_or (shl_div x y offset r) (Err MathOverflow)) (\<lambda>v.
       ok_or (try_cast v) (Err TypeCastFailed))"

section \<open>Exact values\<close>

text \<open>The rounded quotient of natural numbers that the code computes.\<close>

definition rdiv :: "rounding \<Rightarrow> nat \<Rightarrow> nat \<Rightarrow> nat" where
  "rdiv r a b = (case r of Up \<Rightarrow> cdiv a b | Down \<Rightarrow> a div b)"

lemma rdiv_simps [simp]: "rdiv Up a b = cdiv a b" "rdiv Down a b = a div b"
  by (simp_all add: rdiv_def)

lemma rdiv_mono: "0 < b \<Longrightarrow> r \<le> s \<Longrightarrow> a \<le> a' \<Longrightarrow> rdiv r a b \<le> rdiv s a' b"
  by (cases r; cases s)
    (auto simp: less_eq_rounding_def intro: cdiv_mono div_le_mono order.trans [OF div_le_mono div_le_cdiv])

lemma Option_bind_eq_Some [ok_iff]:
  "Option.bind m f = Some y \<longleftrightarrow> (\<exists>x. m = Some x \<and> f x = Some y)"
  by (cases m) auto

lemma unat_ucast_256 [simp]: "unat (ucast (x::u128) :: u256) = unat x"
  by (rule unat_widen) simp

lemma unat_ucast_512 [simp]: "unat (ucast (x::u256) :: u512) = unat x"
  by (rule unat_widen) simp

lemma unat_ucast_64_128 [simp]: "unat (ucast (x::u64) :: u128) = unat x"
  by (rule unat_widen) simp

lemma unat_ucast_64_256 [simp]: "unat (ucast (x::u64) :: u256) = unat x"
  by (rule unat_widen) simp

lemma ucast_128_eq_0 [simp]: "(ucast (x::u128) :: u256) = 0 \<longleftrightarrow> x = 0"
  by (simp add: word_eq_unat)

lemma ucast_256_eq_0 [simp]: "(ucast (x::u256) :: u512) = 0 \<longleftrightarrow> x = 0"
  by (simp add: word_eq_unat)

lemma ucast_64_eq_0 [simp]: "(ucast (x::u64) :: u128) = 0 \<longleftrightarrow> x = 0"
  by (simp add: word_eq_unat)

lemma wide_product:
  fixes x y :: "'a::len word"
  assumes "2 * LENGTH('a) \<le> n"
  shows "unat x * unat y < 2 ^ n"
proof -
  have "unat x * unat y < 2 ^ LENGTH('a) * 2 ^ LENGTH('a)"
    by (rule mult_strict_mono) auto
  also have "\<dots> = 2 ^ (2 * LENGTH('a))"
    by (simp add: mult_2 power_add)
  also have "\<dots> \<le> (2::nat) ^ n" using assms by (simp add: power_increasing)
  finally show ?thesis .
qed

lemma ex_unat: "n < 2 ^ LENGTH('a) \<Longrightarrow> \<exists>p::'a::len word. unat p = n"
  by (rule exI [of _ "of_nat n"]) (simp add: unsigned_of_nat take_bit_nat_eq_self)

lemma mul_add_eq_Inr:
  "bindr (safe_mul a b) (\<lambda>m. safe_add c m) = Inr t \<longleftrightarrow> unat t = unat c + unat a * unat b"
  for a :: "'a::len word"
proof -
  have "\<exists>m :: 'a word. unat m = unat a * unat b \<and> unat t = unat c + unat m" if t: "unat t = unat c + unat a * unat b"
  proof -
    have "unat a * unat b < 2 ^ LENGTH('a)" using t unat_less [of t] by linarith
    then show ?thesis using t ex_unat [of "unat a * unat b", where 'a = 'a] by auto
  qed
  then show ?thesis by (auto simp: bindr_eq_Inr safe_mul_eq_Inr safe_add_eq_Inr)
qed

lemma wide_mul_128:
  "\<exists>p. checked_mul (ucast (x::u128) :: u256) (ucast (y::u128)) = Some p \<and> unat p = unat x * unat y"
  using ex_unat [of "unat x * unat y", where 'a = 256] wide_product [of 256 x y]
  by (auto simp: ok_iff)

lemma wide_mul_256:
  "\<exists>p. checked_mul (ucast (x::u256) :: u512) (ucast (y::u256)) = Some p \<and> unat p = unat x * unat y"
  using ex_unat [of "unat x * unat y", where 'a = 512] wide_product [of 512 x y]
  by (auto simp: ok_iff)

lemma wide_mul_64:
  "\<exists>p. checked_mul (ucast (x::u64) :: u128) (ucast (y::u64)) = Some p \<and> unat p = unat x * unat y"
  using ex_unat [of "unat x * unat y", where 'a = 128] wide_product [of 128 x y]
  by (auto simp: ok_iff)

lemma mul_shr_eq_Some [ok_iff]:
  "mul_shr x y n = Some r \<longleftrightarrow> unat r = unat x * unat y div 2 ^ n"
  using wide_mul_128 [of x y] by (auto simp: mul_shr_def try_cast_eq_Some unat_drop)

lemma mul_shr_256_eq_Some [ok_iff]:
  "mul_shr_256 x y n = Some r \<longleftrightarrow> unat r = unat x * unat y div 2 ^ n"
  using wide_mul_256 [of x y] by (auto simp: mul_shr_256_def try_cast_eq_Some unat_drop)

lemma unat_round:
  "b \<noteq> 0 \<Longrightarrow> unat (case r of Up \<Rightarrow> div_ceil a b | Down \<Rightarrow> a div b) = rdiv r (unat a) (unat b)"
  for a b :: "'a::len word"
  by (cases r) (simp_all add: unat_div_ceil unat_div)

lemma uint_shl_eq_None:
  "uint_checked_shl a n = None \<longleftrightarrow> \<not> (n < LENGTH('a) \<and> unat a * 2 ^ n < 2 ^ LENGTH('a))"
  for a :: "'a::len word"
  by (simp add: uint_checked_shl_def)

lemma uint_shl_bound:
  "uint_checked_shl a n = Some p \<Longrightarrow> unat a * 2 ^ n < 2 ^ LENGTH('a)" for a :: "'a::len word"
  by (metis uint_checked_shl_eq_Some unat_less)

lemma shl_div_eq_Some [ok_iff]:
  "shl_div x y n r = Some z \<longleftrightarrow>
     y \<noteq> 0 \<and> n < 256 \<and> unat x * 2 ^ n < 2 ^ 256 \<and> unat z = rdiv r (unat x * 2 ^ n) (unat y)"
proof (cases "uint_checked_shl (ucast x :: u256) n")
  case None
  then have "\<not> (n < 256 \<and> unat x * 2 ^ n < 2 ^ 256)" by (simp only: uint_shl_eq_None) simp
  then show ?thesis using None by (auto simp only: shl_div_def bind.simps split: if_splits)
next
  case (Some p)
  then have "n < 256" and "unat p = unat x * 2 ^ n" and "unat x * 2 ^ n < 2 ^ 256"
    using uint_shl_bound [OF Some] by (simp_all add: uint_checked_shl_eq_Some)
  then show ?thesis using Some
    by (cases "y = 0") (simp_all add: shl_div_def try_cast_eq_Some unat_round)
qed

lemma shl_div_256_eq_Some [ok_iff]:
  "shl_div_256 x y n = Some z \<longleftrightarrow>
     y \<noteq> 0 \<and> n < 256 \<and> unat x * 2 ^ n < 2 ^ 256 \<and> unat z = unat x * 2 ^ n div unat y"
proof (cases "uint_checked_shl (ucast x :: u256) n")
  case None
  then have "\<not> (n < 256 \<and> unat x * 2 ^ n < 2 ^ 256)" by (simp only: uint_shl_eq_None) simp
  then show ?thesis using None by (auto simp only: shl_div_256_def bind.simps split: if_splits)
next
  case (Some p)
  then have "n < 256" and "unat p = unat x * 2 ^ n" and "unat x * 2 ^ n < 2 ^ 256"
    using uint_shl_bound [OF Some] by (simp_all add: uint_checked_shl_eq_Some)
  then show ?thesis using Some
    by (cases "y = 0") (simp_all add: shl_div_256_def checked_div_eq_Some)
qed

lemma mul_div_u256_eq_Some [ok_iff]:
  "mul_div_u256 x y d r = Some z \<longleftrightarrow>
     d \<noteq> 0 \<and> unat z = rdiv r (unat x * unat y) (unat d)"
proof (cases "d = 0")
  case False
  obtain p where p: "checked_mul (ucast x :: u512) (ucast y) = Some p" "unat p = unat x * unat y"
    using wide_mul_256 [of x y] by blast
  let ?q = "case r of Up \<Rightarrow> div_ceil p (ucast d) | Down \<Rightarrow> p div ucast d"
  have q: "unat ?q = rdiv r (unat x * unat y) (unat d)"
    using False p(2) by (simp add: unat_round)
  have max: "unat (ucast (- 1 :: u256) :: u512) = 2 ^ 256 - 1"
    by (simp only: unat_ucast_512 unsigned_minus_1_eq_mask mask_eq_exp_minus_1) simp
  have "mul_div_u256 x y d r = (if 2 ^ 256 - 1 < unat ?q then None else Some (ucast ?q))"
    using False p(1) max by (simp add: mul_div_u256_def Let_def word_less_nat_alt)
  also have "\<dots> = (try_cast ?q :: u256 option)"
    by (simp add: try_cast_def)
  finally show ?thesis using False q by (simp add: try_cast_eq_Some)
qed (simp add: mul_div_u256_def)

lemma ex_mid_cast:
  "(\<exists>v::'a::len word. unat v = n \<and> unat z = unat v) \<longleftrightarrow> unat z = n \<and> n < 2 ^ LENGTH('a)"
  by (metis ex_unat unat_less)

lemma safe_mul_shr_cast_eq_Inr [ok_iff]:
  "safe_mul_shr_cast x y n = Inr z \<longleftrightarrow>
     unat z = unat x * unat y div 2 ^ n \<and> unat x * unat y div 2 ^ n < 2 ^ 128"
  using ex_mid_cast [of "unat x * unat y div 2 ^ n" z, where 'a = 128]
  by (simp add: safe_mul_shr_cast_def bindr_eq_Inr ok_or_eq_Inr mul_shr_eq_Some try_cast_eq_Some)

lemma safe_mul_shr_256_cast_eq_Inr [ok_iff]:
  "safe_mul_shr_256_cast x y n = Inr z \<longleftrightarrow>
     unat z = unat x * unat y div 2 ^ n \<and> unat x * unat y div 2 ^ n < 2 ^ 128"
  using ex_mid_cast [of "unat x * unat y div 2 ^ n" z, where 'a = 128]
  by (simp add: safe_mul_shr_256_cast_def bindr_eq_Inr ok_or_eq_Inr mul_shr_256_eq_Some try_cast_eq_Some)

lemma safe_shl_div_cast_eq_Inr [ok_iff]:
  "safe_shl_div_cast x y n r = Inr z \<longleftrightarrow>
     y \<noteq> 0 \<and> n < 256 \<and> unat x * 2 ^ n < 2 ^ 256 \<and> unat z = rdiv r (unat x * 2 ^ n) (unat y) \<and>
     rdiv r (unat x * 2 ^ n) (unat y) < 2 ^ 128"
  using ex_mid_cast [of "rdiv r (unat x * 2 ^ n) (unat y)" z, where 'a = 128]
  by (auto simp add: safe_shl_div_cast_def bindr_eq_Inr ok_or_eq_Inr shl_div_eq_Some try_cast_eq_Some)

lemma cdiv_alt: "0 < b \<Longrightarrow> (a + b - 1) div b = cdiv a b"
proof -
  assume b: "0 < b"
  have "(a + b - 1) div b \<le> c \<longleftrightarrow> cdiv a b \<le> c" for c
  proof -
    have "(a + b - 1) div b \<le> c \<longleftrightarrow> (a + b - 1) div b < c + 1" by auto
    also have "\<dots> \<longleftrightarrow> a + b - 1 < (c + 1) * b" using b by (rule div_less_iff_less_mult)
    also have "\<dots> \<longleftrightarrow> a \<le> c * b" using b by (auto simp: algebra_simps)
    finally show ?thesis using b by (simp add: cdiv_le_iff)
  qed
  then show ?thesis by (meson le_antisym order_refl)
qed

lemma up_sum_bound:
  fixes x y d :: u64
  shows "unat x * unat y + unat d < 2 ^ 128"
proof -
  have le: "unat x \<le> 2 ^ 64 - 1" "unat y \<le> 2 ^ 64 - 1" "unat d \<le> 2 ^ 64 - 1"
    using unat_less [of x] unat_less [of y] unat_less [of d] by simp_all
  have "unat x * unat y + unat d \<le> (2 ^ 64 - 1) * (2 ^ 64 - 1) + (2 ^ 64 - 1)"
    by (intro add_mono mult_mono le) auto
  then show ?thesis by simp
qed

lemma safe_mul_div_cast_u64_eq_Inr [ok_iff]:
  "safe_mul_div_cast_u64 x y d r = Inr z \<longleftrightarrow> d \<noteq> 0 \<and> unat z = rdiv r (unat x * unat y) (unat d)"
proof -
  obtain p where p: "safe_mul (ucast x :: u128) (ucast y) = Inr p" and up: "unat p = unat x * unat y"
    using wide_mul_64 [of x y] by (auto simp: safe_mul_def)
  have d0: "d \<noteq> 0 \<longleftrightarrow> 0 < unat d" by (simp add: unat_gt_0)
  have small: "rdiv r (unat x * unat y) (unat d) < 2 ^ 128" if "0 < unat d"
  proof -
    have "rdiv r (unat x * unat y) (unat d) \<le> unat x * unat y"
      using that by (cases r) (simp_all add: cdiv_le_iff)
    then show ?thesis using wide_product [of 128 x y] by simp
  qed
  show ?thesis
  proof (cases r)
    case Up
    obtain s where s: "safe_add p (ucast d) = Inr s" and us: "unat s = unat p + unat d"
      using ex_unat [of "unat p + unat d", where 'a = 128] up_sum_bound [of x y d] up
      by (auto simp: safe_add_eq_Inr)
    have "(\<exists>s'. safe_sub s (1::u128) = Inr s' \<and> (\<exists>q. safe_div s' (ucast d) = Inr q \<and> unat z = unat q))
            \<longleftrightarrow> d \<noteq> 0 \<and> unat z = cdiv (unat x * unat y) (unat d)"
    proof (cases "d = 0")
      case True
      then show ?thesis by (simp add: safe_div_eq_Inr)
    next
      case False
      then have "1 \<le> unat s" using us d0 by simp
      then have "1 \<le> s" by (simp add: word_le_nat_alt)
      then obtain s' where s': "safe_sub s (1::u128) = Inr s'" using safe_sub_total by blast
      then have us': "unat s = 1 + unat s'" by (simp add: safe_sub_eq_Inr)
      have *: "unat s' = unat x * unat y + unat d - 1" using us' us up by simp
      have "cdiv (unat x * unat y) (unat d) = unat s' div unat d"
        unfolding * using False d0 by (intro cdiv_alt [symmetric]) simp
      moreover have "\<exists>q::u128. unat q = unat s' div unat d"
        by (rule ex_unat) (metis div_le_dividend le_less_trans unat_less)
      ultimately show ?thesis using False s' by (auto simp: safe_div_eq_Inr)
    qed
    then show ?thesis using Up p s
      by (simp add: safe_mul_div_cast_u64_def Let_def bindr_eq_Inr ok_or_eq_Inr try_cast_eq_Some)
  next
    case Down
    have "\<exists>q::u128. unat q = unat x * unat y div unat d"
      by (rule ex_unat) (metis div_le_dividend le_less_trans unat_less up)
    then show ?thesis using Down p up
      by (auto simp: safe_mul_div_cast_u64_def Let_def bindr_eq_Inr ok_or_eq_Inr try_cast_eq_Some safe_div_eq_Inr)
  qed
qed

lemma safe_mul_div_cast_u128_eq_Inr [ok_iff]:
  "safe_mul_div_cast_u128 x y d r = Inr z \<longleftrightarrow> d \<noteq> 0 \<and> unat z = rdiv r (unat x * unat y) (unat d)"
proof -
  obtain p where p: "safe_mul (ucast x :: u256) (ucast y) = Inr p" and up: "unat p = unat x * unat y"
    using wide_mul_128 [of x y] by (auto simp: safe_mul_def)
  have "\<exists>q::u256. unat q = unat x * unat y div unat d"
    by (rule ex_unat) (metis div_le_dividend le_less_trans unat_less up)
  then show ?thesis using p up
    by (cases r; cases "d = 0")
      (auto simp: safe_mul_div_cast_u128_def Let_def bindr_eq_Inr ok_or_eq_Inr try_cast_eq_Some
        safe_div_eq_Inr unat_div_ceil)
qed

text \<open>Evaluation of the operations on numerals.\<close>

lemmas wide_eval =
  mul_shr_def mul_shr_256_def shl_div_def shl_div_256_def mul_div_u256_def safe_mul_shr_cast_def
  safe_mul_shr_256_cast_def safe_mul_div_cast_u64_def safe_mul_div_cast_u128_def
  safe_shl_div_cast_def Let_def safe_eval

end
