(* ===== verification/Curve.thy ===== *)
theory Curve
  imports U128x128Math
begin

text \<open>
  \<open>programs/cp-amm/src/curve.rs\<close>: the constant-product curve in terms of a liquidity \<open>L\<close>
  and the square root \<open>P\<close> of the price, both scaled by \<open>2 ^ 64\<close>. Between two prices the pool
  holds \<open>L * (1 / P_lower - 1 / P_upper)\<close> of token A and \<open>L * (P_upper - P_lower)\<close> of
  token B. Each function is characterised by the exact rounded result, and the last section
  states what a price step costs and yields.
\<close>

section \<open>The code\<close>

definition RESOLUTION :: nat where
  "RESOLUTION = 64"

definition u64_max :: u64 where
  "u64_max = 18446744073709551615"

definition get_delta_amount_a_unsigned_unchecked ::
  "u128 \<Rightarrow> u128 \<Rightarrow> u128 \<Rightarrow> rounding \<Rightarrow> u256 result" where
  "get_delta_amount_a_unsigned_unchecked lower_sqrt_price upper_sqrt_price liquidity rnd =
     (let numerator_1 = ucast liquidity in
      bindr (sub_or_panic upper_sqrt_price lower_sqrt_price) (\<lambda>diff.
      let numerator_2 = ucast diff in
      bindr (safe_mul (ucast lower_sqrt_price) (ucast upper_sqrt_price)) (\<lambda>denominator.
      bindr (require (0 < denominator) Panic) (\<lambda>_.
      ok_or (mul_div_u256 numerator_1 numerator_2 denominator rnd) (Err MathOverflow)))))"

definition get_delta_amount_a_unsigned ::
  "u128 \<Rightarrow> u128 \<Rightarrow> u128 \<Rightarrow> rounding \<Rightarrow> u64 result" where
  "get_delta_amount_a_unsigned lower_sqrt_price upper_sqrt_price liquidity rnd =
     bindr (get_delta_amount_a_unsigned_unchecked lower_sqrt_price upper_sqrt_price liquidity rnd) (\<lambda>res.
     bindr (require (res \<le> ucast u64_max) (Err MathOverflow)) (\<lambda>_.
     ok_or (try_cast res) (Err TypeCastFailed)))"

definition get_delta_amount_b_unsigned_unchecked ::
  "u128 \<Rightarrow> u128 \<Rightarrow> u128 \<Rightarrow> rounding \<Rightarrow> u256 result" where
  "get_delta_amount_b_unsigned_unchecked lower_sqrt_price upper_sqrt_price liquidity rnd =
     bindr (sub_or_panic upper_sqrt_price lower_sqrt_price) (\<lambda>delta_sqrt_price.
     bindr (safe_mul (ucast liquidity :: u256) (ucast delta_sqrt_price)) (\<lambda>prod.
     case rnd of
       Up \<Rightarrow> bindr (uint_safe_shl 1 (RESOLUTION * 2)) (\<lambda>denominator. Inr (div_ceil prod denominator))
     | Down \<Rightarrow> Inr (drop_bit (RESOLUTION * 2) prod)))"

definition get_delta_amount_b_unsigned ::
  "u128 \<Rightarrow> u128 \<Rightarrow> u128 \<Rightarrow> rounding \<Rightarrow> u64 result" where
  "get_delta_amount_b_unsigned lower_sqrt_price upper_sqrt_price liquidity rnd =
     bindr (get_delta_amount_b_unsigned_unchecked lower_sqrt_price upper_sqrt_price liquidity rnd) (\<lambda>res.
     bindr (require (res \<le> ucast u64_max) (Err MathOverflow)) (\<lambda>_.
     ok_or (try_cast res) (Err TypeCastFailed)))"

definition get_initialize_amounts :: "u128 \<Rightarrow> u128 \<Rightarrow> u128 \<Rightarrow> u128 \<Rightarrow> (u64 \<times> u64) result" where
  "get_initialize_amounts sqrt_min_price sqrt_max_price sqrt_price liquidity =
     bindr (get_delta_amount_a_unsigned sqrt_price sqrt_max_price liquidity Up) (\<lambda>amount_a.
     bindr (get_delta_amount_b_unsigned sqrt_min_price sqrt_price liquidity Up) (\<lambda>amount_b.
     Inr (amount_a, amount_b)))"

definition get_next_sqrt_price_from_amount_a_rounding_up :: "u128 \<Rightarrow> u128 \<Rightarrow> u64 \<Rightarrow> u128 result" where
  "get_next_sqrt_price_from_amount_a_rounding_up sqrt_price liquidity amount =
     (if amount = 0 then Inr sqrt_price
      else bindr (safe_mul (ucast amount :: u256) (ucast sqrt_price)) (\<lambda>product.
           bindr (safe_add (ucast liquidity) product) (\<lambda>denominator.
           bindr (ok_or (mul_div_u256 (ucast liquidity) (ucast sqrt_price) denominator Up)
                    (Err MathOverflow)) (\<lambda>res.
           ok_or (try_cast res) (Err TypeCastFailed)))))"

definition get_next_sqrt_price_from_amount_b_rounding_down :: "u128 \<Rightarrow> u128 \<Rightarrow> u64 \<Rightarrow> u128 result" where
  "get_next_sqrt_price_from_amount_b_rounding_down sqrt_price liquidity amount =
     bindr (uint_safe_shl (ucast amount :: u256) (RESOLUTION * 2)) (\<lambda>shifted.
     bindr (safe_div shifted (ucast liquidity)) (\<lambda>quotient.
     bindr (safe_add (ucast sqrt_price) quotient) (\<lambda>res.
     ok_or (try_cast res) (Err TypeCastFailed))))"

definition get_next_sqrt_price_from_input :: "u128 \<Rightarrow> u128 \<Rightarrow> u64 \<Rightarrow> bool \<Rightarrow> u128 result" where
  "get_next_sqrt_price_from_input sqrt_price liquidity amount_in a_for_b =
     bindr (require (0 < sqrt_price) Panic) (\<lambda>_.
     bindr (require (0 < liquidity) Panic) (\<lambda>_.
     if a_for_b
     then get_next_sqrt_price_from_amount_a_rounding_up sqrt_price liquidity amount_in
     else get_next_sqrt_price_from_amount_b_rounding_down sqrt_price liquidity amount_in))"

lemma ucast_u64_max: "(ucast u64_max :: u256) = 0xFFFFFFFFFFFFFFFF"
  by (simp add: word_eq_unat u64_max_def)

lemmas curve_eval =
  get_delta_amount_a_unsigned_unchecked_def get_delta_amount_a_unsigned_def
  get_delta_amount_b_unsigned_unchecked_def get_delta_amount_b_unsigned_def
  get_initialize_amounts_def get_next_sqrt_price_from_amount_a_rounding_up_def
  get_next_sqrt_price_from_amount_b_rounding_down_def get_next_sqrt_price_from_input_def
  RESOLUTION_def ucast_u64_max wide_eval

section \<open>Exact results\<close>

lemma delta_a_unchecked_eq_Inr [ok_iff]:
  "get_delta_amount_a_unsigned_unchecked lo up L r = Inr z \<longleftrightarrow>
     lo \<le> up \<and> 0 < lo \<and> unat z = rdiv r (unat L * (unat up - unat lo)) (unat lo * unat up)"
proof (cases "lo \<le> up")
  case False
  then show ?thesis
    by (auto simp: get_delta_amount_a_unsigned_unchecked_def bindr_eq_Inr sub_or_panic_eq_Inr
        word_le_nat_alt Let_def)
next
  case True
  then obtain d where d: "sub_or_panic up lo = Inr d" and ud: "unat up = unat lo + unat d"
    using safe_sub_total [of lo up]
    by (auto simp: sub_or_panic_def safe_sub_def ok_or_eq_Inr checked_sub_eq_Some)
  obtain m where m: "safe_mul (ucast lo :: u256) (ucast up) = Inr m" and um: "unat m = unat lo * unat up"
    using wide_mul_128 [of lo up] by (auto simp: safe_mul_def)
  have "m \<noteq> 0 \<longleftrightarrow> 0 < lo"
    using um True ud by (auto simp: word_eq_unat word_pos)
  then show ?thesis using True d ud m um
    by (auto simp: get_delta_amount_a_unsigned_unchecked_def bindr_eq_Inr Let_def require_eq_Inr
        ok_or_eq_Inr mul_div_u256_eq_Some word_pos word_eq_unat)
qed

lemma cast_u64: 
  "bindr (require (res \<le> ucast u64_max) (Err MathOverflow)) (\<lambda>_. ok_or (try_cast (res::u256)) (Err TypeCastFailed))
     = Inr (z::u64) \<longleftrightarrow> unat z = unat res"
proof -
  have "unat (ucast u64_max :: u256) = 2 ^ 64 - 1" by (simp add: u64_max_def)
  then show ?thesis using unat_less [of z]
    by (auto simp: bindr_eq_Inr require_eq_Inr ok_or_eq_Inr try_cast_eq_Some word_le_nat_alt)
qed

lemma delta_a_eq_Inr [ok_iff]:
  "get_delta_amount_a_unsigned lo up L r = Inr z \<longleftrightarrow>
     lo \<le> up \<and> 0 < lo \<and> unat z = rdiv r (unat L * (unat up - unat lo)) (unat lo * unat up)"
proof -
  have "(\<exists>w::u256. unat w = n \<and> unat z = unat w) \<longleftrightarrow> unat z = n" for n
    using ex_mid_cast [of n z, where 'a = 256] unat_less [of z] by auto
  then show ?thesis
    by (auto simp: get_delta_amount_a_unsigned_def bindr_eq_Inr [where m = "get_delta_amount_a_unsigned_unchecked lo up L r"]
        cast_u64 delta_a_unchecked_eq_Inr)
qed

lemma delta_b_unchecked_eq_Inr [ok_iff]:
  "get_delta_amount_b_unsigned_unchecked lo up L r = Inr z \<longleftrightarrow>
     lo \<le> up \<and> unat z = rdiv r (unat L * (unat up - unat lo)) (2 ^ 128)"
proof (cases "lo \<le> up")
  case False
  then show ?thesis
    by (auto simp: get_delta_amount_b_unsigned_unchecked_def bindr_eq_Inr sub_or_panic_eq_Inr
        word_le_nat_alt)
next
  case True
  then obtain d where d: "sub_or_panic up lo = Inr d" and ud: "unat up = unat lo + unat d"
    using safe_sub_total [of lo up]
    by (auto simp: sub_or_panic_def safe_sub_def ok_or_eq_Inr checked_sub_eq_Some)
  obtain m where m: "safe_mul (ucast L :: u256) (ucast d) = Inr m" and um: "unat m = unat L * unat d"
    using wide_mul_128 [of L d] by (auto simp: safe_mul_def)
  have one: "uint_safe_shl (1::u256) (RESOLUTION * 2) = Inr (push_bit 128 1)"
    by (simp add: uint_safe_shl_def uint_checked_shl_def RESOLUTION_def)
  have v: "unat (push_bit 128 1 :: u256) = 2 ^ 128" by simp
  then have nz: "(push_bit 128 1 :: u256) \<noteq> 0" by (metis unat_0 power_not_zero zero_neq_numeral)
  have up: "unat (div_ceil m (push_bit 128 1)) = cdiv (unat m) (2 ^ 128)"
    unfolding unat_div_ceil [OF nz] v ..
  have down: "unat (drop_bit (RESOLUTION * 2) m) = unat m div 2 ^ 128"
    unfolding unat_drop by (simp add: RESOLUTION_def)
  have *: "unat up - unat lo = unat d" using ud by simp
  show ?thesis using True d m one up down um unfolding *
    by (cases r) (auto simp: get_delta_amount_b_unsigned_unchecked_def word_eq_unat)
qed

lemma delta_b_eq_Inr [ok_iff]:
  "get_delta_amount_b_unsigned lo up L r = Inr z \<longleftrightarrow>
     lo \<le> up \<and> unat z = rdiv r (unat L * (unat up - unat lo)) (2 ^ 128)"
proof -
  have "(\<exists>w::u256. unat w = n \<and> unat z = unat w) \<longleftrightarrow> unat z = n" for n
    using ex_mid_cast [of n z, where 'a = 256] unat_less [of z] by auto
  then show ?thesis
    by (auto simp: get_delta_amount_b_unsigned_def bindr_eq_Inr [where m = "get_delta_amount_b_unsigned_unchecked lo up L r"]
        cast_u64 delta_b_unchecked_eq_Inr)
qed

lemma next_a_eq_Inr [ok_iff]:
  "get_next_sqrt_price_from_amount_a_rounding_up P L a = Inr P' \<longleftrightarrow>
     (if a = 0 then P' = P
      else unat L + unat a * unat P \<noteq> 0 \<and>
           unat P' = cdiv (unat L * unat P) (unat L + unat a * unat P))"
proof (cases "a = 0")
  case False
  have aP: "unat a * unat P < 2 ^ 192"
  proof -
    have "unat a * unat P < 2 ^ 64 * 2 ^ 128"
      using unat_less [of a] unat_less [of P] by (intro mult_strict_mono) auto
    then show ?thesis by simp
  qed
  have L: "unat L < 2 ^ 128" using unat_less [of L] by simp
  obtain m where m: "safe_mul (ucast a :: u256) (ucast P) = Inr m" and um: "unat m = unat a * unat P"
    using ex_unat [of "unat a * unat P", where 'a = 256] aP by (auto simp: safe_mul_eq_Inr)
  obtain d where d: "safe_add (ucast L :: u256) m = Inr d" and ud: "unat d = unat L + unat a * unat P"
    using ex_unat [of "unat L + unat a * unat P", where 'a = 256] aP L um by (auto simp: safe_add_eq_Inr)
  have "(\<exists>w::u256. d \<noteq> 0 \<and> unat w = rdiv Up (unat L * unat P) (unat d) \<and> unat P' = unat w) \<longleftrightarrow>
        unat d \<noteq> 0 \<and> unat P' = cdiv (unat L * unat P) (unat d)"
    using ex_mid_cast [of "cdiv (unat L * unat P) (unat d)" P', where 'a = 256] unat_less [of P']
    by (auto simp: word_eq_unat)
  then show ?thesis using False m d
    by (simp add: get_next_sqrt_price_from_amount_a_rounding_up_def bindr_eq_Inr ok_or_eq_Inr
        mul_div_u256_eq_Some try_cast_eq_Some ud)
qed (auto simp: get_next_sqrt_price_from_amount_a_rounding_up_def)

lemma next_b_eq_Inr [ok_iff]:
  "get_next_sqrt_price_from_amount_b_rounding_down P L a = Inr P' \<longleftrightarrow>
     L \<noteq> 0 \<and> unat P' = unat P + unat a * 2 ^ 128 div unat L"
proof -
  have a: "unat a * 2 ^ 128 < 2 ^ 192" using unat_less [of a] by simp
  obtain m where m: "uint_safe_shl (ucast a :: u256) (RESOLUTION * 2) = Inr m"
    and um: "unat m = unat a * 2 ^ 128"
    using ex_unat [of "unat a * 2 ^ 128", where 'a = 256] a
    by (auto simp: uint_safe_shl_eq_Inr RESOLUTION_def)
  define q where "q = unat m div unat L"
  have "q \<le> unat m" by (simp add: q_def)
  then have q: "q < 2 ^ 192" using a um by linarith
  have P: "unat P < 2 ^ 128" using unat_less [of P] by simp
  obtain w where w: "unat (w::u256) = unat P + q"
    using ex_unat [of "unat P + q", where 'a = 256] q P by auto
  obtain qw where qw: "unat (qw::u256) = q" using ex_unat [of q, where 'a = 256] q by auto
  have "(\<exists>x::u256. ucast L \<noteq> (0::u256) \<and> unat x = q \<and>
           (\<exists>y::u256. unat y = unat P + unat x \<and> unat P' = unat y)) \<longleftrightarrow> L \<noteq> 0 \<and> unat P' = unat P + q"
    using w qw by (auto, metis)
  moreover have "unat a * 2 ^ 128 div unat L = q" by (simp add: q_def um)
  ultimately show ?thesis using m
    by (simp add: get_next_sqrt_price_from_amount_b_rounding_down_def bindr_eq_Inr ok_or_eq_Inr
        safe_div_eq_Inr safe_add_eq_Inr try_cast_eq_Some q_def [symmetric])
qed

lemma next_from_input_eq_Inr [ok_iff]:
  "get_next_sqrt_price_from_input P L a a_for_b = Inr P' \<longleftrightarrow>
     0 < P \<and> 0 < L \<and>
     (if a_for_b then unat P' = cdiv (unat L * unat P) (unat L + unat a * unat P)
      else unat P' = unat P + unat a * 2 ^ 128 div unat L)"
  by (auto simp: get_next_sqrt_price_from_input_def bindr_eq_Inr require_eq_Inr next_a_eq_Inr
      next_b_eq_Inr word_pos cdiv_def word_eq_unat)

section \<open>What a price step costs and yields\<close>

text \<open>
  Selling \<open>a\<close> of token A moves the price down, never to zero, and not further than what \<open>a\<close>
  pays for; selling \<open>b\<close> of token B moves it up, not further than what \<open>b\<close> pays for.
\<close>

lemma next_a_le: "0 < L \<Longrightarrow> cdiv (L * P) (L + a * P) \<le> P"
  by (simp add: cdiv_le_iff algebra_simps)

lemma next_a_pos: "0 < L \<Longrightarrow> 0 < P \<Longrightarrow> 0 < cdiv (L * P) (L + a * P)"
  by (simp add: cdiv_pos_iff)

lemma next_a_pays:
  assumes "0 < L"
  shows "L * (P - cdiv (L * P) (L + a * P)) \<le> a * (cdiv (L * P) (L + a * P) * P)"
proof -
  let ?p = "cdiv (L * P) (L + a * P)"
  have "L * P \<le> ?p * (L + a * P)" using assms by (intro le_cdiv_mult) simp
  then have "L * P - L * ?p \<le> a * (?p * P)" by (simp add: algebra_simps)
  then show ?thesis by (simp add: diff_mult_distrib2)
qed

lemma next_b_pays: "L * (a * 2 ^ 128 div L) \<le> a * (2 ^ 128 :: nat)"
  by (simp add: mult.commute)

end
