(* ===== verification/Constants.thy ===== *)
theory Constants
  imports Prelude
begin

text \<open>
  \<open>programs/cp-amm/src/constants.rs\<close>, in the default build (neither the \<open>local\<close> nor the
  \<open>devnet\<close> feature): scales, fee limits, durations and the keys of the supported quote
  mints, which are the base-58 literals of the source read as 256-bit numbers. The last
  section states the compile-time assertions of the source as lemmas.
\<close>

section \<open>Prices and scales\<close>

definition MIN_SQRT_PRICE :: u128 where "MIN_SQRT_PRICE = 4295048016"
definition MAX_SQRT_PRICE :: u128 where "MAX_SQRT_PRICE = 79226673521066979257578248091"
definition LIQUIDITY_SCALE :: nat where "LIQUIDITY_SCALE = 128"
definition REWARD_RATE_SCALE :: nat where "REWARD_RATE_SCALE = 64"
definition TOTAL_REWARD_SCALE :: nat where "TOTAL_REWARD_SCALE = 192"
definition ONE_Q64 :: u128 where "ONE_Q64 = 18446744073709551616"
definition BIN_STEP_BPS_DEFAULT :: u16 where "BIN_STEP_BPS_DEFAULT = 1"
definition BIN_STEP_BPS_U128_DEFAULT :: u128 where "BIN_STEP_BPS_U128_DEFAULT = 1844674407370955"
definition BASIS_POINT_MAX :: u64 where "BASIS_POINT_MAX = 10000"
definition U24_MAX :: u32 where "U24_MAX = 16777215"

definition NUM_REWARDS :: nat where "NUM_REWARDS = 2"
definition REWARD_INDEX_0 :: nat where "REWARD_INDEX_0 = 0"
definition REWARD_INDEX_1 :: nat where "REWARD_INDEX_1 = 1"
definition MIN_REWARD_DURATION :: u64 where "MIN_REWARD_DURATION = 86400"
definition MAX_REWARD_DURATION :: u64 where "MAX_REWARD_DURATION = 31536000"
definition SPLIT_POSITION_DENOMINATOR :: u32 where "SPLIT_POSITION_DENOMINATOR = 1000000000"

section \<open>Activation\<close>

definition SLOT_BUFFER :: u64 where "SLOT_BUFFER = 9000"
definition TIME_BUFFER :: u64 where "TIME_BUFFER = 3600"
definition MAX_ACTIVATION_SLOT_DURATION :: u64 where "MAX_ACTIVATION_SLOT_DURATION = SLOT_BUFFER * 24 * 31"
definition MAX_ACTIVATION_TIME_DURATION :: u64 where "MAX_ACTIVATION_TIME_DURATION = TIME_BUFFER * 24 * 31"
definition MAX_VESTING_SLOT_DURATION :: u64 where "MAX_VESTING_SLOT_DURATION = SLOT_BUFFER * 24 * 365 * 10"
definition MAX_VESTING_TIME_DURATION :: u64 where "MAX_VESTING_TIME_DURATION = TIME_BUFFER * 24 * 365 * 10"
definition FIVE_MINUTES_SLOT_BUFFER :: u64 where "FIVE_MINUTES_SLOT_BUFFER = SLOT_BUFFER div 12"
definition FIVE_MINUTES_TIME_BUFFER :: u64 where "FIVE_MINUTES_TIME_BUFFER = TIME_BUFFER div 12"
definition MAX_FEE_CURVE_TIME_DURATION :: u64 where "MAX_FEE_CURVE_TIME_DURATION = 3600 * 24"
definition MAX_FEE_CURVE_SLOT_DURATION :: u64 where "MAX_FEE_CURVE_SLOT_DURATION = 9000 * 24"
definition MAX_HIGH_TAX_TIME_DURATION :: u64 where "MAX_HIGH_TAX_TIME_DURATION = TIME_BUFFER div 6"
definition MAX_HIGH_TAX_SLOT_DURATION :: u64 where "MAX_HIGH_TAX_SLOT_DURATION = SLOT_BUFFER div 6"

section \<open>Fees\<close>

definition FEE_DENOMINATOR :: u64 where "FEE_DENOMINATOR = 1000000000"
definition MAX_FEE_BPS :: u64 where "MAX_FEE_BPS = 5000"
definition MAX_FEE_NUMERATOR :: u64 where "MAX_FEE_NUMERATOR = 500000000"
definition MAX_BASIS_POINT :: u64 where "MAX_BASIS_POINT = 10000"
definition MIN_FEE_BPS :: u64 where "MIN_FEE_BPS = 1"
definition MIN_FEE_NUMERATOR :: u64 where "MIN_FEE_NUMERATOR = 100000"
definition PROTOCOL_FEE_PERCENT :: u8 where "PROTOCOL_FEE_PERCENT = 20"
definition HOST_FEE_PERCENT :: u8 where "HOST_FEE_PERCENT = 20"
definition PARTNER_FEE_PERCENT :: u8 where "PARTNER_FEE_PERCENT = 0"

section \<open>Keys\<close>

definition treasury_ID :: pubkey where
  "treasury_ID = 21727535938288308403021297414759049205188552038661585225452133841714577128533"

definition SOL :: pubkey where
  "SOL = 2988679396378646993494765771507681406623014513651778753134412041978399162369"

definition USDC :: pubkey where
  "USDC = 90000504370102394704099784797280792267247599056409324908524740370261802442081"

definition DEFAULT_QUOTE_MINTS :: "pubkey list" where
  "DEFAULT_QUOTE_MINTS = [SOL, USDC]"

section \<open>The assertions of the source\<close>

lemmas scale_defs =
  LIQUIDITY_SCALE_def REWARD_RATE_SCALE_def TOTAL_REWARD_SCALE_def ONE_Q64_def

lemmas fee_const_defs =
  FEE_DENOMINATOR_def MAX_FEE_BPS_def MAX_FEE_NUMERATOR_def MAX_BASIS_POINT_def MIN_FEE_BPS_def
  MIN_FEE_NUMERATOR_def PROTOCOL_FEE_PERCENT_def HOST_FEE_PERCENT_def PARTNER_FEE_PERCENT_def
  BASIS_POINT_MAX_def

lemmas activation_const_defs =
  SLOT_BUFFER_def TIME_BUFFER_def MAX_ACTIVATION_SLOT_DURATION_def MAX_ACTIVATION_TIME_DURATION_def
  MAX_VESTING_SLOT_DURATION_def MAX_VESTING_TIME_DURATION_def FIVE_MINUTES_SLOT_BUFFER_def
  FIVE_MINUTES_TIME_BUFFER_def MAX_FEE_CURVE_TIME_DURATION_def MAX_FEE_CURVE_SLOT_DURATION_def
  MAX_HIGH_TAX_TIME_DURATION_def MAX_HIGH_TAX_SLOT_DURATION_def

lemma total_reward_scale: "LIQUIDITY_SCALE + REWARD_RATE_SCALE = TOTAL_REWARD_SCALE"
  by (simp add: scale_defs)

lemma fee_limits_consistent:
  "MAX_FEE_BPS * FEE_DENOMINATOR div MAX_BASIS_POINT = MAX_FEE_NUMERATOR"
  "MIN_FEE_BPS * FEE_DENOMINATOR div MAX_BASIS_POINT = MIN_FEE_NUMERATOR"
  "PROTOCOL_FEE_PERCENT \<le> 50" "HOST_FEE_PERCENT \<le> 50" "PARTNER_FEE_PERCENT \<le> 50"
  by (simp_all add: fee_const_defs)

lemma unat_ONE_Q64 [simp]: "unat ONE_Q64 = 2 ^ 64"
  by (simp add: ONE_Q64_def)

end
