(* ===== verification/FeeMath.thy ===== *)
theory FeeMath
  imports Constants U128x128Math
begin

unbundle bit_operations_syntax

text \<open>
  \<open>programs/cp-amm/src/math/fee_math.rs\<close>: the power of a Q64.64 number by repeated
  squaring, and the exponential fee schedule built on it. The source unrolls the loop over
  the 19 bits of the exponent; the model runs the same body over the list of the masks it
  tests, in the same order.
\<close>

type_synonym i32 = "32 word"

definition MAX_EXPONENTIAL :: u32 where
  "MAX_EXPONENTIAL = 0x80000"

definition SCALE_OFFSET :: nat where
  "SCALE_OFFSET = 64"

text \<open>\<open>(a.checked_mul(b)?) >> SCALE_OFFSET\<close>\<close>

definition mul_q64 :: "u128 \<Rightarrow> u128 \<Rightarrow> u128 option" where
  "mul_q64 a b = map_option (drop_bit SCALE_OFFSET) (checked_mul a b)"

definition pow_masks :: "u32 list" where
  "pow_masks = [0x2, 0x4, 0x8, 0x10, 0x20, 0x40, 0x80, 0x100, 0x200, 0x400, 0x800, 0x1000,
                0x2000, 0x4000, 0x8000, 0x10000, 0x20000, 0x40000]"

fun pow_steps :: "u32 list \<Rightarrow> u32 \<Rightarrow> u128 \<Rightarrow> u128 \<Rightarrow> u128 option" where
  "pow_steps [] exp squared_base res = Some res"
| "pow_steps (m # ms) exp squared_base res =
     Option.bind (mul_q64 squared_base squared_base) (\<lambda>squared_base'.
     Option.bind (if 0 < exp AND m then mul_q64 res squared_base' else Some res) (\<lambda>res'.
     pow_steps ms exp squared_base' res'))"

text \<open>
  \<open>exp.abs()\<close> panics on \<open>i32::MIN\<close> (overflow checks are on), hence the outer result.
\<close>

definition pow :: "u128 \<Rightarrow> i32 \<Rightarrow> u128 option result" where
  "pow base exp0 =
     (let invert = sint exp0 < 0 in
      if exp0 = 0 then Inr (Some ONE_Q64)
      else bindr (require (exp0 \<noteq> 0x80000000) Panic) (\<lambda>_.
      let exp = (if invert then - exp0 else exp0) in
      Inr (if MAX_EXPONENTIAL \<le> exp then None
        else Option.bind (if ONE_Q64 \<le> base then checked_div (- 1) base else Some base) (\<lambda>squared_base.
             let invert = (if ONE_Q64 \<le> base then \<not> invert else invert) in
             Option.bind (if 0 < exp AND 0x1 then mul_q64 ONE_Q64 squared_base else Some ONE_Q64) (\<lambda>res0.
             Option.bind (pow_steps pow_masks exp squared_base res0) (\<lambda>res.
             if res = 0 then None
             else if invert then checked_div (- 1) res else Some res))))))"

definition get_fee_in_period :: "u64 \<Rightarrow> u64 \<Rightarrow> u16 \<Rightarrow> u64 result" where
  "get_fee_in_period cliff_fee_numerator reduction_factor passed_period =
     (if reduction_factor = 0 then Inr cliff_fee_numerator
      else bindr (safe_shl (ucast reduction_factor :: u128) SCALE_OFFSET) (\<lambda>shifted.
           bindr (safe_div shifted (ucast BASIS_POINT_MAX)) (\<lambda>bps.
           bindr (safe_sub ONE_Q64 bps) (\<lambda>base.
           bindr (pow base (ucast passed_period)) (\<lambda>power.
           bindr (ok_or power (Err MathOverflow)) (\<lambda>res.
           bindr (safe_mul res (ucast cliff_fee_numerator)) (\<lambda>prod.
           let fee = drop_bit SCALE_OFFSET prod in
           ok_or (try_cast fee) (Err TypeCastFailed))))))))"

lemmas fee_math_eval =
  pow_def get_fee_in_period_def mul_q64_def pow_masks_def MAX_EXPONENTIAL_def SCALE_OFFSET_def
  ONE_Q64_def BASIS_POINT_MAX_def wide_eval

section \<open>The power never overestimates\<close>

lemma mul_q64_eq_Some [ok_iff]:
  "mul_q64 a b = Some c \<longleftrightarrow> unat a * unat b < 2 ^ 128 \<and> unat c = unat a * unat b div 2 ^ 64"
proof (cases "unat a * unat b < 2 ^ 128")
  case True
  then have "checked_mul a b = Some (a * b)" and "unat (a * b) = unat a * unat b"
    by (simp_all add: checked_mul_def unat_times)
  then show ?thesis using True by (auto simp: mul_q64_def SCALE_OFFSET_def word_eq_unat unat_drop)
qed (simp add: mul_q64_def checked_mul_def)

text \<open>
  The invariant of the loop, with \<open>b\<close> the base: after the bit of weight \<open>n\<close>, the squared
  base is at most \<open>b ^ n\<close> and the result at most \<open>b ^ e\<close> for the part \<open>e\<close> of the exponent
  consumed so far, both as fixed-point numbers.
\<close>

lemma mul_q64_below:
  assumes "mul_q64 x y = Some z"
    and "unat x * 2 ^ (64 * m) \<le> b ^ m * 2 ^ 64"
    and "unat y * 2 ^ (64 * n) \<le> b ^ n * 2 ^ 64"
  shows "unat z * 2 ^ (64 * (m + n)) \<le> b ^ (m + n) * 2 ^ 64"
proof -
  have "unat z * 2 ^ 64 \<le> unat x * unat y"
    using assms(1) by (simp add: mul_q64_eq_Some)
  then have "(unat z * 2 ^ 64) * 2 ^ (64 * (m + n)) \<le> (unat x * unat y) * 2 ^ (64 * (m + n))"
    by (rule mult_le_mono1)
  also have "\<dots> = (unat x * 2 ^ (64 * m)) * (unat y * 2 ^ (64 * n))"
    by (simp add: power_add algebra_simps)
  also have "\<dots> \<le> (b ^ m * 2 ^ 64) * (b ^ n * 2 ^ 64)"
    by (rule mult_le_mono) (use assms in auto)
  finally have "2 ^ 64 * (unat z * 2 ^ (64 * (m + n))) \<le> 2 ^ 64 * (b ^ (m + n) * 2 ^ 64)"
    by (simp add: power_add algebra_simps)
  then show ?thesis by (simp only: mult_le_cancel1) simp
qed

text \<open>The fraction of a power: \<open>x\<close> is at most \<open>(b / 2 ^ 64) ^ m\<close>, scaled by \<open>2 ^ 64\<close>.\<close>

definition below_power :: "nat \<Rightarrow> nat \<Rightarrow> nat \<Rightarrow> bool" where
  "below_power b m x \<longleftrightarrow> x * 2 ^ (64 * m) \<le> b ^ m * 2 ^ 64"

lemma below_power_mul:
  "mul_q64 x y = Some z \<Longrightarrow> below_power b m (unat x) \<Longrightarrow> below_power b n (unat y) \<Longrightarrow>
     below_power b (m + n) (unat z)"
  unfolding below_power_def by (rule mul_q64_below)

lemma below_power_0: "below_power b 0 (unat ONE_Q64)"
  by (simp add: below_power_def ONE_Q64_def)

lemma below_power_1: "below_power b 1 b"
  by (simp add: below_power_def)

lemma and_mask_pos: "0 < exp AND (2 ^ i :: u32) \<longleftrightarrow> bit exp i"
  if "i < 32"
proof -
  have "exp AND (2 ^ i :: u32) = (if bit exp i then 2 ^ i else 0)"
    using that by (intro bit_eqI) (auto simp: bit_simps)
  then show ?thesis using that by (simp add: word_neq_0_conv [symmetric])
qed

lemma take_bit_step:
  "take_bit (Suc i) (unat (e::u32)) = take_bit i (unat e) + (if bit e i then 2 ^ i else 0)"
proof -
  have "bit (unat e) i \<longleftrightarrow> bit e i" by (auto simp: bit_unsigned_iff dest: bit_imp_le_length)
  then show ?thesis
    by (simp add: take_bit_Suc_from_most)
qed

lemma pow_steps_below:
  assumes "pow_steps (map (\<lambda>i. 2 ^ i) [Suc i..<Suc i + k]) exp sb res = Some r"
    and "Suc i + k \<le> 32"
    and "below_power b (2 ^ i) (unat sb)"
    and "below_power b (take_bit (Suc i) (unat exp)) (unat res)"
  shows "below_power b (take_bit (Suc i + k) (unat exp)) (unat r)"
  using assms
proof (induction k arbitrary: i sb res)
  case (Suc k)
  have "[Suc i..<Suc i + Suc k] = Suc i # [Suc (Suc i)..<Suc (Suc i) + k]"
    by (simp add: upt_rec)
  with Suc.prems(1) obtain sb' res' where sb': "mul_q64 sb sb = Some sb'"
    and res': "(if 0 < exp AND 2 ^ Suc i then mul_q64 res sb' else Some res) = Some res'"
    and rest: "pow_steps (map (\<lambda>i. 2 ^ i) [Suc (Suc i)..<Suc (Suc i) + k]) exp sb' res' = Some r"
    by (auto simp: Option_bind_eq_Some simp del: upt_Suc power_Suc)
  have sq: "below_power b (2 ^ Suc i) (unat sb')"
    using below_power_mul [OF sb' Suc.prems(3) Suc.prems(3)] by (simp add: mult_2)
  have "below_power b (take_bit (Suc (Suc i)) (unat exp)) (unat res')"
  proof (cases "bit exp (Suc i)")
    case True
    then have "mul_q64 res sb' = Some res'"
      using res' Suc.prems(2) by (simp add: and_mask_pos del: power_Suc)
    from below_power_mul [OF this Suc.prems(4) sq] show ?thesis
      using True by (simp only: take_bit_step if_True)
  next
    case False
    then have "res' = res" using res' Suc.prems(2) by (simp add: and_mask_pos del: power_Suc)
    then show ?thesis using Suc.prems(4) False take_bit_step [of "Suc i" exp] by simp
  qed
  then show ?case using Suc.IH [OF rest _ sq] Suc.prems(2) by simp
qed (simp add: Option_bind_eq_Some)

lemma pow_masks_powers: "pow_masks = map (\<lambda>i. 2 ^ i) [Suc 0..<Suc 0 + 18]"
  by (simp add: pow_masks_def upt_rec)

lemma pow_below:
  assumes "pow base exp = Inr (Some r)" and "base < ONE_Q64" and "0 \<le> sint exp"
  shows "below_power (unat base) (unat exp) (unat r)"
proof (cases "exp = 0")
  case True
  then show ?thesis using assms(1) below_power_0 by (auto simp: pow_def Let_def)
next
  case False
  let ?b = "unat base"
  have nb: "\<not> ONE_Q64 \<le> base" using assms(2) by simp
  obtain res0 where small: "exp < MAX_EXPONENTIAL"
    and res0: "(if 0 < exp AND 1 then mul_q64 ONE_Q64 base else Some ONE_Q64) = Some res0"
    and steps: "pow_steps pow_masks exp base res0 = Some r"
    using assms(1,3) False nb
    by (auto simp: pow_def Let_def bindr_eq_Inr require_eq_Inr Option_bind_eq_Some split: if_splits)
  have "unat exp < 2 ^ 19"
    using small by (simp add: MAX_EXPONENTIAL_def word_less_nat_alt)
  then have all: "take_bit 19 (unat exp) = unat exp" by (simp add: take_bit_nat_eq_self)
  have "below_power ?b (take_bit (Suc 0) (unat exp)) (unat res0)"
  proof (cases "bit exp 0")
    case True
    then have "mul_q64 ONE_Q64 base = Some res0"
      using res0 and_mask_pos [of 0 exp] by simp
    from below_power_mul [OF this below_power_0 below_power_1] show ?thesis
      using True by (simp only: take_bit_step) simp
  next
    case False
    then have "res0 = ONE_Q64" using res0 and_mask_pos [of 0 exp] by simp
    then show ?thesis using False below_power_0 by (simp only: take_bit_step) simp
  qed
  with steps pow_steps_below [of 0 18 exp base res0 r ?b] all
  show ?thesis by (simp add: pow_masks_powers below_power_def)
qed

lemma unat_ucast_u16 [simp]: "unat (ucast (n::u16) :: i32) = unat n"
  by (rule unat_widen) simp

lemma sint_ucast_u16: "0 \<le> sint (ucast (n::u16) :: i32)"
proof -
  have "\<not> bit (ucast n :: i32) 31" by (auto simp: bit_simps dest: bit_imp_le_length)
  then show ?thesis using bit_last_iff [of "ucast n :: i32"] by simp
qed

lemma shl_64: "safe_shl (ucast (a::u64) :: u128) 64 = Inr c \<longleftrightarrow> unat c = unat a * 2 ^ 64"
proof -
  have "unat a * 2 ^ 64 < 2 ^ 64 * 2 ^ 64"
    using unat_less [of a] by simp
  then have "unat (push_bit 64 (ucast a) :: u128) = unat a * 2 ^ 64"
    by (subst unat_push) simp_all
  then show ?thesis by (auto simp: safe_shl_def checked_shl_def word_eq_unat)
qed

text \<open>
  The exponential schedule never charges more than the real power of the (rounded up) base
  \<open>1 - reduction_factor / 10_000\<close>, and never more than the cliff fee.
\<close>

lemma get_fee_in_period_below:
  assumes "get_fee_in_period cliff rf n = Inr fee"
  shows "unat rf \<le> 10000"
    and "unat fee * 2 ^ (64 * unat n) \<le> unat cliff * (2 ^ 64 - unat rf * 2 ^ 64 div 10000) ^ unat n"
proof -
  have "unat rf \<le> 10000 \<and>
    unat fee * 2 ^ (64 * unat n) \<le> unat cliff * (2 ^ 64 - unat rf * 2 ^ 64 div 10000) ^ unat n"
  proof (cases "rf = 0")
    case True
    then show ?thesis using assms by (simp add: get_fee_in_period_def power_mult)
  next
    case False
    obtain bps base res prod :: u128 where bps: "unat bps = unat rf * 2 ^ 64 div 10000"
      and base: "2 ^ 64 = unat bps + unat base"
      and res: "pow base (ucast n) = Inr (Some res)"
      and prod: "unat prod = unat res * unat cliff" and fee: "unat fee = unat prod div 2 ^ 64"
      using assms False
      by (auto simp: get_fee_in_period_def bindr_eq_Inr ok_or_eq_Inr SCALE_OFFSET_def shl_64 safe_div_eq_Inr
          safe_sub_eq_Inr safe_mul_eq_Inr Let_def try_cast_eq_Some unat_drop BASIS_POINT_MAX_def ONE_Q64_def)
    have rf: "1 \<le> unat rf" using False by (simp add: Suc_le_eq unat_gt_0)
    then have "0 < unat bps" unfolding bps by simp
    then have "base < ONE_Q64" using base by (simp add: ONE_Q64_def word_less_nat_alt)
    from pow_below [OF res this sint_ucast_u16]
    have "unat res * 2 ^ (64 * unat n) \<le> unat base ^ unat n * 2 ^ 64"
      by (simp add: below_power_def)
    then have pow_le: "unat cliff * (unat res * 2 ^ (64 * unat n)) \<le> unat cliff * (unat base ^ unat n * 2 ^ 64)"
      by (rule mult_le_mono2)
    have "unat fee * 2 ^ 64 \<le> unat res * unat cliff" using fee prod by simp
    then have "(unat fee * 2 ^ 64) * 2 ^ (64 * unat n) \<le> (unat res * unat cliff) * 2 ^ (64 * unat n)"
      by (rule mult_le_mono1)
    also have "\<dots> = unat cliff * (unat res * 2 ^ (64 * unat n))" by (simp only: ac_simps)
    also note pow_le
    finally have "2 ^ 64 * (unat fee * 2 ^ (64 * unat n)) \<le> 2 ^ 64 * (unat cliff * unat base ^ unat n)"
      by (simp only: ac_simps)
    then have "unat fee * 2 ^ (64 * unat n) \<le> unat cliff * unat base ^ unat n"
      by (simp only: mult_le_cancel1) simp
    moreover have "unat base = 2 ^ 64 - unat rf * 2 ^ 64 div 10000" using base bps by simp
    moreover have "unat rf * 2 ^ 64 div 10000 \<le> 2 ^ 64" using base bps by simp
    then have "unat rf \<le> 10000" by simp
    ultimately show ?thesis by simp
  qed
  then show "unat rf \<le> 10000"
    and "unat fee * 2 ^ (64 * unat n) \<le> unat cliff * (2 ^ 64 - unat rf * 2 ^ 64 div 10000) ^ unat n"
    by simp_all
qed

lemma get_fee_in_period_le_cliff:
  assumes "get_fee_in_period cliff rf n = Inr fee"
  shows "fee \<le> cliff"
proof -
  have "(2 ^ 64 - unat rf * 2 ^ 64 div 10000) ^ unat n \<le> ((2::nat) ^ 64) ^ unat n"
    by (rule power_mono) simp_all
  then have "unat fee * 2 ^ (64 * unat n) \<le> unat cliff * (2 ^ 64) ^ unat n"
    using get_fee_in_period_below(2) [OF assms] by (meson le_trans mult_le_mono2)
  then have "unat fee \<le> unat cliff" by (simp add: power_mult)
  then show ?thesis by (simp add: word_le_nat_alt)
qed

end
