(* ===== verification/Fee.thy ===== *)
theory Fee
  imports FeeMath
begin

text \<open>
  \<open>programs/cp-amm/src/state/fee.rs\<close> and the small enumerations it works with
  (\<open>params/swap.rs\<close>, and \<open>CollectFeeMode\<close> of \<open>state/pool.rs\<close>): the fee scheduler, the
  volatility accumulator of the dynamic fee, the split of a trading fee, and the choice of
  the token the fee is taken in. Padding fields are left out.
\<close>

section \<open>Data\<close>

datatype trade_direction = AtoB | BtoA

datatype collect_fee_mode = BothToken | OnlyB

definition collect_fee_mode_try_from :: "u8 \<Rightarrow> collect_fee_mode option" where
  "collect_fee_mode_try_from x = (if x = 0 then Some BothToken else if x = 1 then Some OnlyB else None)"

datatype fee_scheduler_mode = Linear | Exponential

definition fee_scheduler_mode_try_from :: "u8 \<Rightarrow> fee_scheduler_mode option" where
  "fee_scheduler_mode_try_from x =
     (if x = 0 then Some Linear else if x = 1 then Some Exponential else None)"

record fee_on_amount_result =
  fr_amount :: u64
  fr_lp_fee :: u64
  fr_protocol_fee :: u64
  fr_partner_fee :: u64
  fr_referral_fee :: u64

record base_fee_struct =
  bf_cliff_fee_numerator :: u64
  bf_fee_scheduler_mode :: u8
  bf_number_of_period :: u16
  bf_period_frequency :: u64
  bf_reduction_factor :: u64

record dynamic_fee_struct =
  df_initialized :: u8
  df_max_volatility_accumulator :: u32
  df_variable_fee_control :: u32
  df_bin_step :: u16
  df_filter_period :: u16
  df_decay_period :: u16
  df_reduction_factor :: u16
  df_last_update_timestamp :: u64
  df_bin_step_u128 :: u128
  df_sqrt_price_reference :: u128
  df_volatility_accumulator :: u128
  df_volatility_reference :: u128

record pool_fees_struct =
  pf_base_fee :: base_fee_struct
  pf_protocol_fee_percent :: u8
  pf_partner_fee_percent :: u8
  pf_referral_fee_percent :: u8
  pf_dynamic_fee :: dynamic_fee_struct

section \<open>The fee scheduler\<close>

definition get_max_base_fee_numerator :: "base_fee_struct \<Rightarrow> u64" where
  "get_max_base_fee_numerator bf = bf_cliff_fee_numerator bf"

definition get_current_base_fee_numerator :: "base_fee_struct \<Rightarrow> u64 \<Rightarrow> u64 \<Rightarrow> u64 result" where
  "get_current_base_fee_numerator bf current_point activation_point =
     (if bf_period_frequency bf = 0 then Inr (bf_cliff_fee_numerator bf)
      else
        bindr (if current_point < activation_point then Inr (ucast (bf_number_of_period bf))
               else bindr (safe_sub current_point activation_point) (\<lambda>elapsed.
                    bindr (safe_div elapsed (bf_period_frequency bf)) (\<lambda>period.
                    Inr (min period (ucast (bf_number_of_period bf)))))) (\<lambda>period.
        bindr (ok_or (fee_scheduler_mode_try_from (bf_fee_scheduler_mode bf)) (Err TypeCastFailed)) (\<lambda>mode.
        case mode of
          Linear \<Rightarrow> bindr (safe_mul period (bf_reduction_factor bf)) (\<lambda>reduction.
                    safe_sub (bf_cliff_fee_numerator bf) reduction)
        | Exponential \<Rightarrow> bindr (ok_or (try_cast period) (Err MathOverflow)) (\<lambda>period.
                    get_fee_in_period (bf_cliff_fee_numerator bf) (bf_reduction_factor bf) period))))"

definition get_min_base_fee_numerator :: "base_fee_struct \<Rightarrow> u64 result" where
  "get_min_base_fee_numerator bf = get_current_base_fee_numerator bf 0 1"

section \<open>The dynamic fee\<close>

definition get_delta_bin_id :: "u128 \<Rightarrow> u128 \<Rightarrow> u128 \<Rightarrow> u128 result" where
  "get_delta_bin_id bin_step_u128 sqrt_price_a sqrt_price_b =
     (let (upper_sqrt_price, lower_sqrt_price) =
            (if sqrt_price_a > sqrt_price_b then (sqrt_price_a, sqrt_price_b)
             else (sqrt_price_b, sqrt_price_a)) in
      bindr (safe_shl_div_cast upper_sqrt_price lower_sqrt_price 64 Down) (\<lambda>price_ratio.
      bindr (safe_sub price_ratio ONE_Q64) (\<lambda>excess.
      bindr (safe_div excess bin_step_u128) (\<lambda>delta_bin_id.
      safe_mul delta_bin_id 2))))"

definition update_volatility_accumulator ::
  "dynamic_fee_struct \<Rightarrow> u128 \<Rightarrow> dynamic_fee_struct result" where
  "update_volatility_accumulator df sqrt_price =
     bindr (get_delta_bin_id (df_bin_step_u128 df) sqrt_price (df_sqrt_price_reference df)) (\<lambda>delta_price.
     bindr (safe_mul delta_price (ucast BASIS_POINT_MAX)) (\<lambda>scaled.
     bindr (safe_add (df_volatility_reference df) scaled) (\<lambda>acc.
     Inr (df\<lparr> df_volatility_accumulator := min acc (ucast (df_max_volatility_accumulator df)) \<rparr>))))"

definition update_references ::
  "dynamic_fee_struct \<Rightarrow> u128 \<Rightarrow> u64 \<Rightarrow> dynamic_fee_struct result" where
  "update_references df sqrt_price_current current_timestamp =
     bindr (safe_sub current_timestamp (df_last_update_timestamp df)) (\<lambda>elapsed.
     if ucast (df_filter_period df) \<le> elapsed
     then let df = df\<lparr> df_sqrt_price_reference := sqrt_price_current \<rparr> in
          if elapsed < ucast (df_decay_period df)
          then bindr (safe_mul (df_volatility_accumulator df) (ucast (df_reduction_factor df))) (\<lambda>scaled.
               bindr (safe_div scaled (ucast BASIS_POINT_MAX)) (\<lambda>ref.
               Inr (df\<lparr> df_volatility_reference := ref \<rparr>)))
          else Inr (df\<lparr> df_volatility_reference := 0 \<rparr>)
     else Inr df)"

definition is_dynamic_fee_enable :: "dynamic_fee_struct \<Rightarrow> bool" where
  "is_dynamic_fee_enable df \<longleftrightarrow> df_initialized df \<noteq> 0"

definition get_variable_fee :: "dynamic_fee_struct \<Rightarrow> u128 result" where
  "get_variable_fee df =
     (if is_dynamic_fee_enable df
      then bindr (safe_mul (df_volatility_accumulator df) (ucast (df_bin_step df))) (\<lambda>vfa_bin.
           bindr (ok_or (checked_mul vfa_bin vfa_bin) Panic) (\<lambda>square_vfa_bin.
           bindr (safe_mul square_vfa_bin (ucast (df_variable_fee_control df))) (\<lambda>v_fee.
           bindr (safe_add v_fee 99999999999) (\<lambda>v.
           safe_div v 100000000000))))
      else Inr 0)"

section \<open>The split of a trading fee\<close>

definition get_total_trading_fee :: "pool_fees_struct \<Rightarrow> u64 \<Rightarrow> u64 \<Rightarrow> u128 result" where
  "get_total_trading_fee pf current_point activation_point =
     bindr (get_current_base_fee_numerator (pf_base_fee pf) current_point activation_point) (\<lambda>base.
     bindr (get_variable_fee (pf_dynamic_fee pf)) (\<lambda>variable.
     safe_add variable (ucast base)))"

definition get_fee_on_amount ::
  "pool_fees_struct \<Rightarrow> u64 \<Rightarrow> bool \<Rightarrow> u64 \<Rightarrow> u64 \<Rightarrow> bool \<Rightarrow> fee_on_amount_result result" where
  "get_fee_on_amount pf amount0 has_referral current_point activation_point has_partner =
     bindr (get_total_trading_fee pf current_point activation_point) (\<lambda>trade_fee.
     bindr (if trade_fee > ucast MAX_FEE_NUMERATOR then Inr MAX_FEE_NUMERATOR
            else ok_or (try_cast trade_fee) Panic) (\<lambda>trade_fee_numerator.
     bindr (safe_mul_div_cast_u64 amount0 trade_fee_numerator FEE_DENOMINATOR Up) (\<lambda>fee.
     bindr (safe_sub amount0 fee) (\<lambda>amount.
     bindr (safe_mul_div_cast_u64 fee (ucast (pf_protocol_fee_percent pf)) 100 Down) (\<lambda>protocol_fee.
     bindr (safe_sub fee protocol_fee) (\<lambda>lp_fee.
     bindr (if has_referral
            then safe_mul_div_cast_u64 protocol_fee (ucast (pf_referral_fee_percent pf)) 100 Down
            else Inr 0) (\<lambda>referral_fee.
     bindr (safe_sub protocol_fee referral_fee) (\<lambda>after_referral.
     bindr (if has_partner \<and> pf_partner_fee_percent pf > 0
            then safe_mul_div_cast_u64 after_referral (ucast (pf_partner_fee_percent pf)) 100 Down
            else Inr 0) (\<lambda>partner_fee.
     bindr (safe_sub after_referral partner_fee) (\<lambda>protocol_fee.
     Inr \<lparr> fr_amount = amount, fr_lp_fee = lp_fee, fr_protocol_fee = protocol_fee,
           fr_partner_fee = partner_fee, fr_referral_fee = referral_fee \<rparr>))))))))))"

section \<open>The token a fee is taken in\<close>

record fee_mode =
  fees_on_input :: bool
  fees_on_token_a :: bool
  has_referral :: bool

definition get_fee_mode :: "u8 \<Rightarrow> trade_direction \<Rightarrow> bool \<Rightarrow> fee_mode result" where
  "get_fee_mode collect_fee_mode direction referral =
     bindr (ok_or (collect_fee_mode_try_from collect_fee_mode) (Err InvalidCollectFeeMode)) (\<lambda>mode.
     let (on_input, on_a) =
       (case (mode, direction) of
          (BothToken, AtoB) \<Rightarrow> (False, False)
        | (BothToken, BtoA) \<Rightarrow> (False, True)
        | (OnlyB, AtoB) \<Rightarrow> (False, False)
        | (OnlyB, BtoA) \<Rightarrow> (True, False)) in
     Inr \<lparr> fees_on_input = on_input, fees_on_token_a = on_a, has_referral = referral \<rparr>)"

lemmas fee_eval =
  collect_fee_mode_try_from_def fee_scheduler_mode_try_from_def get_max_base_fee_numerator_def
  get_current_base_fee_numerator_def get_min_base_fee_numerator_def get_delta_bin_id_def
  update_volatility_accumulator_def update_references_def is_dynamic_fee_enable_def
  get_variable_fee_def get_total_trading_fee_def get_fee_on_amount_def get_fee_mode_def
  MAX_FEE_NUMERATOR_def FEE_DENOMINATOR_def fee_math_eval

section \<open>The base fee stays between its extremes\<close>

lemma unat_ucast_u16_u64 [simp]: "unat (ucast (n::u16) :: u64) = unat n"
  by (rule unat_widen) simp

lemma unat_ucast_u8_u64 [simp]: "unat (ucast (n::u8) :: u64) = unat n"
  by (rule unat_widen) simp

lemma unat_ucast_u32_u128 [simp]: "unat (ucast (n::u32) :: u128) = unat n"
  by (rule unat_widen) simp

lemma unat_ucast_u16_u128 [simp]: "unat (ucast (n::u16) :: u128) = unat n"
  by (rule unat_widen) simp

text \<open>The number of reductions that apply at a point.\<close>

definition elapsed_periods :: "base_fee_struct \<Rightarrow> u64 \<Rightarrow> u64 \<Rightarrow> nat" where
  "elapsed_periods bf current_point activation_point =
     (if current_point < activation_point then unat (bf_number_of_period bf)
      else min ((unat current_point - unat activation_point) div unat (bf_period_frequency bf))
             (unat (bf_number_of_period bf)))"

lemma elapsed_periods_le: "elapsed_periods bf p a \<le> unat (bf_number_of_period bf)"
  by (simp add: elapsed_periods_def)

lemma elapsed_periods_small: "elapsed_periods bf p a < 2 ^ 16"
  using elapsed_periods_le [of bf p a] unat_less [of "bf_number_of_period bf"] by simp

lemma unat_elapsed [simp]: "unat (of_nat (elapsed_periods bf p a) :: u64) = elapsed_periods bf p a"
  using elapsed_periods_small [of bf p a] by (simp add: unsigned_of_nat take_bit_nat_eq_self)

lemma period_eq_Inr:
  assumes "bf_period_frequency bf \<noteq> 0"
  shows "(if current_point < activation_point then Inr (ucast (bf_number_of_period bf))
          else bindr (safe_sub current_point activation_point) (\<lambda>elapsed.
               bindr (safe_div elapsed (bf_period_frequency bf)) (\<lambda>period.
               Inr (min period (ucast (bf_number_of_period bf)))))) =
         Inr (of_nat (elapsed_periods bf current_point activation_point) :: u64)"
proof (cases "current_point < activation_point")
  case True
  have "of_nat (unat (bf_number_of_period bf)) = (ucast (bf_number_of_period bf) :: u64)"
    using True unat_elapsed [of bf current_point activation_point]
    by (simp add: word_eq_unat elapsed_periods_def del: unat_elapsed)
  then show ?thesis using True by (simp add: elapsed_periods_def)
next
  case False
  let ?q = "(current_point - activation_point) div bf_period_frequency bf"
  have "unat (min ?q (ucast (bf_number_of_period bf))) = elapsed_periods bf current_point activation_point"
    using False by (auto simp: elapsed_periods_def min_def word_le_nat_alt unat_div unat_sub word_less_nat_alt)
  then have "min ?q (ucast (bf_number_of_period bf)) = of_nat (elapsed_periods bf current_point activation_point)"
    by (simp add: word_eq_unat)
  then show ?thesis using False assms by (simp add: safe_sub_total safe_div_total)
qed

lemma base_fee_linear:
  assumes "bf_period_frequency bf \<noteq> 0" and "bf_fee_scheduler_mode bf = 0"
  shows "get_current_base_fee_numerator bf p a = Inr fee \<longleftrightarrow>
    unat (bf_cliff_fee_numerator bf) = elapsed_periods bf p a * unat (bf_reduction_factor bf) + unat fee"
proof -
  have "\<exists>c::u64. unat c = n" if "unat (bf_cliff_fee_numerator bf) = n + unat fee" for n
    by (rule ex_unat) (use that unat_less [of "bf_cliff_fee_numerator bf"] in simp)
  then show ?thesis using assms
    by (auto simp: get_current_base_fee_numerator_def period_eq_Inr fee_scheduler_mode_try_from_def
        bindr_eq_Inr safe_mul_eq_Inr safe_sub_eq_Inr) metis
qed

lemma base_fee_exponential:
  assumes "bf_period_frequency bf \<noteq> 0" and "bf_fee_scheduler_mode bf = 1"
  shows "get_current_base_fee_numerator bf p a =
    get_fee_in_period (bf_cliff_fee_numerator bf) (bf_reduction_factor bf)
      (of_nat (elapsed_periods bf p a))"
proof -
  have "try_cast (of_nat (elapsed_periods bf p a) :: u64) = Some (of_nat (elapsed_periods bf p a) :: u16)"
    using elapsed_periods_small [of bf p a] by (simp add: try_cast_eq_Some unsigned_of_nat take_bit_nat_eq_self)
  then show ?thesis using assms
    by (simp add: get_current_base_fee_numerator_def period_eq_Inr fee_scheduler_mode_try_from_def)
qed

lemma base_fee_cases:
  assumes "get_current_base_fee_numerator bf p a = Inr fee"
  obtains (flat) "bf_period_frequency bf = 0" "fee = bf_cliff_fee_numerator bf"
  | (linear) "bf_period_frequency bf \<noteq> 0" "bf_fee_scheduler_mode bf = 0"
      "unat (bf_cliff_fee_numerator bf) = elapsed_periods bf p a * unat (bf_reduction_factor bf) + unat fee"
  | (exponential) "bf_period_frequency bf \<noteq> 0" "bf_fee_scheduler_mode bf = 1"
      "get_fee_in_period (bf_cliff_fee_numerator bf) (bf_reduction_factor bf)
         (of_nat (elapsed_periods bf p a)) = Inr fee"
proof (cases "bf_period_frequency bf = 0")
  case True
  then show ?thesis using assms flat by (simp add: get_current_base_fee_numerator_def)
next
  case False
  then have "bf_fee_scheduler_mode bf = 0 \<or> bf_fee_scheduler_mode bf = 1"
    using assms by (auto simp: get_current_base_fee_numerator_def period_eq_Inr bindr_eq_Inr ok_or_eq_Inr
        fee_scheduler_mode_try_from_def split: if_splits)
  then show ?thesis using False assms linear exponential
    by (auto simp: base_fee_linear base_fee_exponential)
qed

lemma base_fee_le_cliff:
  "get_current_base_fee_numerator bf p a = Inr fee \<Longrightarrow> fee \<le> get_max_base_fee_numerator bf"
  by (erule base_fee_cases) (auto simp: get_max_base_fee_numerator_def word_le_nat_alt
      dest: get_fee_in_period_le_cliff [THEN word_le_nat_alt [THEN iffD1]])

lemma elapsed_periods_mono:
  "a \<le> p \<Longrightarrow> p \<le> q \<Longrightarrow> elapsed_periods bf p a \<le> elapsed_periods bf q a"
  by (auto simp: elapsed_periods_def word_le_nat_alt word_less_nat_alt min_le_iff_disj
      intro!: div_le_mono diff_le_mono)

section \<open>The variable fee\<close>

text \<open>
  The fee is the square of accumulator times bin step, times the control, scaled down by
  \<open>10 ^ 11\<close> and rounded up. With the accumulator within its maximum no step overflows, so
  the \<open>unwrap\<close> of \<open>checked_pow\<close> cannot panic.
\<close>

definition variable_fee_spec :: "dynamic_fee_struct \<Rightarrow> nat" where
  "variable_fee_spec df =
     cdiv ((unat (df_volatility_accumulator df) * unat (df_bin_step df))\<^sup>2 * unat (df_variable_fee_control df))
       (10 ^ 11)"

lemma cdiv_1e11: "cdiv s (10 ^ 11) = (s + 99999999999) div 100000000000"
  using cdiv_alt [of "10 ^ 11" s] by simp

lemma variable_fee_value:
  assumes "get_variable_fee df = Inr v"
  shows "unat v = (if is_dynamic_fee_enable df then variable_fee_spec df else 0)"
proof (cases "is_dynamic_fee_enable df")
  case True
  then obtain x y z w :: u128 where "unat x = unat (df_volatility_accumulator df) * unat (df_bin_step df)"
    "unat y = unat x * unat x" "unat z = unat y * unat (df_variable_fee_control df)"
    "unat w = unat z + 99999999999" "unat v = unat w div 100000000000"
    using assms by (auto simp: get_variable_fee_def bindr_eq_Inr ok_or_eq_Inr safe_mul_eq_Inr
        checked_mul_eq_Some safe_add_eq_Inr safe_div_eq_Inr)
  then show ?thesis using True
    by (simp only: variable_fee_spec_def cdiv_1e11 power2_eq_square if_True)
next
  case False
  then show ?thesis using assms by (auto simp: get_variable_fee_def)
qed

lemma variable_fee_bounds:
  assumes "acc \<le> 2 ^ 32 - 1" and "step \<le> 2 ^ 16 - 1" and "control \<le> 2 ^ 32 - (1::nat)"
  shows "acc * step < 2 ^ 128" and "(acc * step) * (acc * step) < 2 ^ 128"
    and "(acc * step) * (acc * step) * control < 2 ^ 128 - 2 ^ 100"
proof -
  have x: "acc * step \<le> (2 ^ 32 - 1) * (2 ^ 16 - 1)" using assms by (intro mult_le_mono) auto
  then show "acc * step < 2 ^ 128" by simp
  have y: "(acc * step) * (acc * step) \<le> ((2 ^ 32 - 1) * (2 ^ 16 - 1)) * ((2 ^ 32 - 1) * (2 ^ 16 - 1))"
    using x x by (rule mult_le_mono)
  then show "(acc * step) * (acc * step) < 2 ^ 128" by simp
  have "(acc * step) * (acc * step) * control
          \<le> ((2 ^ 32 - 1) * (2 ^ 16 - 1)) * ((2 ^ 32 - 1) * (2 ^ 16 - 1)) * (2 ^ 32 - 1)"
    using y assms(3) by (rule mult_le_mono)
  then show "(acc * step) * (acc * step) * control < 2 ^ 128 - 2 ^ 100" by simp
qed

lemma variable_fee_total:
  assumes "unat (df_volatility_accumulator df) \<le> unat (df_max_volatility_accumulator df)"
  shows "\<exists>v. get_variable_fee df = Inr v \<and> unat v < 2 ^ 92"
proof (cases "is_dynamic_fee_enable df")
  case False
  then show ?thesis by (simp add: get_variable_fee_def)
next
  case True
  let ?acc = "unat (df_volatility_accumulator df)" and ?step = "unat (df_bin_step df)"
    and ?control = "unat (df_variable_fee_control df)"
  have acc: "?acc \<le> 2 ^ 32 - 1" using assms unat_less [of "df_max_volatility_accumulator df"] by simp
  have step: "?step \<le> 2 ^ 16 - 1" using unat_less [of "df_bin_step df"] by simp
  have control: "?control \<le> 2 ^ 32 - 1" using unat_less [of "df_variable_fee_control df"] by simp
  note b = variable_fee_bounds [OF acc step control]
  obtain x :: u128 where x: "unat x = ?acc * ?step"
    using ex_unat [of "?acc * ?step", where 'a = 128] b(1) by auto
  obtain y :: u128 where y: "unat y = unat x * unat x"
    using ex_unat [of "unat x * unat x", where 'a = 128] b(2) x by auto
  obtain z :: u128 where z: "unat z = unat y * ?control"
    using ex_unat [of "unat y * ?control", where 'a = 128] b(3) x y by auto
  obtain w :: u128 where w: "unat w = unat z + 99999999999"
    using ex_unat [of "unat z + 99999999999", where 'a = 128] b(3) x y z by auto
  have steps: "safe_mul (df_volatility_accumulator df) (ucast (df_bin_step df)) = Inr x"
    "checked_mul x x = Some y" "safe_mul y (ucast (df_variable_fee_control df)) = Inr z"
    "safe_add z 99999999999 = Inr w" "safe_div w 100000000000 = Inr (w div 100000000000)"
    by (simp_all add: safe_mul_eq_Inr checked_mul_eq_Some safe_add_eq_Inr safe_div_total x y z w)
  have eq: "get_variable_fee df = Inr (w div 100000000000)"
    using True by (simp add: get_variable_fee_def steps)
  have "unat w < 2 ^ 128" using unat_less [of w] by simp
  then have "unat (w div 100000000000) < 2 ^ 92" by (simp add: unat_div div_less_iff_less_mult)
  with eq show ?thesis by blast
qed

lemma total_trading_fee_total:
  assumes "unat (df_volatility_accumulator (pf_dynamic_fee pf)) \<le> unat (df_max_volatility_accumulator (pf_dynamic_fee pf))"
    and base: "get_current_base_fee_numerator (pf_base_fee pf) p a = Inr base"
  shows "\<exists>t. get_total_trading_fee pf p a = Inr t"
proof -
  obtain v where v: "get_variable_fee (pf_dynamic_fee pf) = Inr v" "unat v < 2 ^ 92"
    using variable_fee_total [OF assms(1)] by blast
  have "unat base < 2 ^ 64" using unat_less [of base] by simp
  then have "unat v + unat (ucast base :: u128) < 2 ^ 128" using v(2) by simp
  then have "safe_add v (ucast base) = Inr (v + ucast base)"
    by (intro safe_add_total) simp
  then show ?thesis using v base by (simp add: get_total_trading_fee_def)
qed

section \<open>The split is exact\<close>

text \<open>The fee taken from an amount at a total numerator: rounded up, capped at one half.\<close>

definition trade_fee_spec :: "u64 \<Rightarrow> u128 \<Rightarrow> nat" where
  "trade_fee_spec amount numerator =
     cdiv (unat amount * min (unat numerator) (unat MAX_FEE_NUMERATOR)) (unat FEE_DENOMINATOR)"

lemma trade_fee_spec_le: "2 * trade_fee_spec amount numerator \<le> unat amount + 1"
proof -
  have "trade_fee_spec amount numerator \<le> cdiv (unat amount * 500000000) 1000000000"
    by (auto simp: trade_fee_spec_def MAX_FEE_NUMERATOR_def FEE_DENOMINATOR_def intro!: cdiv_mono)
  also have "\<dots> \<le> (unat amount + 1) div 2"
    by (simp add: cdiv_le_iff)
  finally show ?thesis by linarith
qed

lemma trade_fee_spec_le_amount: "trade_fee_spec amount numerator \<le> unat amount"
  using trade_fee_spec_le [of amount numerator]
  by (cases "unat amount = 0") (auto simp: trade_fee_spec_def cdiv_def)

lemma capped_numerator:
  "(if trade_fee > ucast MAX_FEE_NUMERATOR then Inr MAX_FEE_NUMERATOR
    else ok_or (try_cast trade_fee) Panic) = (Inr n :: u64 result) \<longleftrightarrow>
   unat n = min (unat (trade_fee :: u128)) (unat MAX_FEE_NUMERATOR)"
  by (auto simp: ok_or_eq_Inr try_cast_eq_Some word_less_nat_alt word_eq_unat MAX_FEE_NUMERATOR_def)

lemma fee_on_amount_exact:
  assumes "get_fee_on_amount pf amount referral p a partner = Inr r"
  obtains t fee protocol where "get_total_trading_fee pf p a = Inr t"
    and "fee = trade_fee_spec amount t"
    and "unat amount = unat (fr_amount r) + fee"
    and "protocol = fee * unat (pf_protocol_fee_percent pf) div 100"
    and "fee = unat (fr_lp_fee r) + protocol"
    and "protocol = unat (fr_protocol_fee r) + unat (fr_partner_fee r) + unat (fr_referral_fee r)"
    and "unat (fr_referral_fee r) =
           (if referral then protocol * unat (pf_referral_fee_percent pf) div 100 else 0)"
    and "unat (fr_partner_fee r) =
           (if partner then (protocol - unat (fr_referral_fee r)) * unat (pf_partner_fee_percent pf) div 100 else 0)"
proof -
  obtain t n fee amount' prot lp ref after part prot' where t: "get_total_trading_fee pf p a = Inr t"
    and n: "unat n = min (unat t) (unat MAX_FEE_NUMERATOR)"
    and fee: "safe_mul_div_cast_u64 amount n FEE_DENOMINATOR Up = Inr (fee :: u64)"
    and amount': "unat amount = unat fee + unat amount'"
    and prot: "safe_mul_div_cast_u64 fee (ucast (pf_protocol_fee_percent pf)) 100 Down = Inr (prot :: u64)"
    and lp: "unat fee = unat prot + unat lp"
    and ref: "(if referral then safe_mul_div_cast_u64 prot (ucast (pf_referral_fee_percent pf)) 100 Down else Inr 0)
               = Inr (ref :: u64)"
    and after: "unat prot = unat ref + unat (after :: u64)"
    and part: "(if partner \<and> pf_partner_fee_percent pf > 0
                then safe_mul_div_cast_u64 after (ucast (pf_partner_fee_percent pf)) 100 Down else Inr 0)
               = Inr (part :: u64)"
    and prot': "unat after = unat part + unat prot'"
    and r: "r = \<lparr> fr_amount = amount', fr_lp_fee = lp, fr_protocol_fee = prot', fr_partner_fee = part, fr_referral_fee = ref \<rparr>"
    using assms
    by (simp only: get_fee_on_amount_def bindr_eq_Inr capped_numerator safe_sub_eq_Inr sum.inject) metis
  have 1: "unat fee = trade_fee_spec amount t"
    using fee n by (simp add: safe_mul_div_cast_u64_eq_Inr trade_fee_spec_def)
  have 2: "unat prot = unat fee * unat (pf_protocol_fee_percent pf) div 100"
    using prot by (simp add: safe_mul_div_cast_u64_eq_Inr)
  have 3: "unat ref = (if referral then unat prot * unat (pf_referral_fee_percent pf) div 100 else 0)"
    using ref by (auto simp: safe_mul_div_cast_u64_eq_Inr split: if_splits)
  have 4: "unat part = (if partner then (unat prot - unat ref) * unat (pf_partner_fee_percent pf) div 100 else 0)"
  proof (cases "partner \<and> pf_partner_fee_percent pf > 0")
    case True
    then show ?thesis using part after by (simp add: safe_mul_div_cast_u64_eq_Inr)
  next
    case False
    then have "partner \<longrightarrow> unat (pf_partner_fee_percent pf) = 0" by (metis word_pos gr0I)
    then show ?thesis using False part by auto
  qed
  have 5: "unat prot = unat prot' + unat part + unat ref"
    using after prot' by linarith
  have 6: "unat amount = unat amount' + unat fee" using amount' by simp
  have 7: "unat fee = unat lp + unat prot" using lp by simp
  show ?thesis
    by (rule that [OF t 1 _ 2], unfold r fee_on_amount_result.select_convs) (rule 6 7 5 3 4)+
qed

lemma fee_on_amount_sum:
  assumes "get_fee_on_amount pf amount referral p a partner = Inr r"
  shows "unat amount = unat (fr_amount r) + unat (fr_lp_fee r) + unat (fr_protocol_fee r) +
           unat (fr_partner_fee r) + unat (fr_referral_fee r)"
  using assms by (rule fee_on_amount_exact) linarith

text \<open>A share of at most 100 percent is always computed, and is at most the whole.\<close>

lemma percent_total:
  assumes "percent \<le> (100 :: u8)"
  shows "\<exists>z :: u64. safe_mul_div_cast_u64 x (ucast percent) 100 Down = Inr z \<and> z \<le> x"
proof -
  have "unat percent \<le> 100" using assms by (simp add: word_le_nat_alt)
  then have "unat x * unat percent \<le> unat x * 100" by (rule mult_le_mono2)
  then have "unat x * unat percent div 100 \<le> unat x * 100 div 100" by (rule div_le_mono)
  then have le: "unat x * unat percent div 100 \<le> unat x" by simp
  then obtain z :: u64 where "unat z = unat x * unat percent div 100"
    using ex_unat [of "unat x * unat percent div 100", where 'a = 64] unat_less [of x] by fastforce
  then show ?thesis using le by (auto simp: safe_mul_div_cast_u64_eq_Inr word_le_nat_alt intro!: exI [of _ z])
qed

lemma fee_on_amount_total:
  assumes "get_total_trading_fee pf p a = Inr t"
    and "pf_protocol_fee_percent pf \<le> 100" "pf_partner_fee_percent pf \<le> 100" "pf_referral_fee_percent pf \<le> 100"
  shows "\<exists>r. get_fee_on_amount pf amount referral p a partner = Inr r"
proof -
  have "min (unat t) (unat MAX_FEE_NUMERATOR) < 2 ^ LENGTH(64)"
    by (rule le_less_trans [OF min.cobounded2]) (rule unat_less)
  then obtain n :: u64 where n: "unat n = min (unat t) (unat MAX_FEE_NUMERATOR)"
    using ex_unat by blast
  obtain fee :: u64 where ufee: "unat fee = trade_fee_spec amount t"
    using ex_unat [of "trade_fee_spec amount t", where 'a = 64] trade_fee_spec_le_amount [of amount t] unat_less [of amount]
    by auto
  then have fee: "safe_mul_div_cast_u64 amount n FEE_DENOMINATOR Up = Inr fee"
    using n by (simp add: safe_mul_div_cast_u64_eq_Inr trade_fee_spec_def FEE_DENOMINATOR_def)
  have le: "fee \<le> amount" using ufee trade_fee_spec_le_amount by (simp add: word_le_nat_alt)
  obtain prot :: u64 where prot: "safe_mul_div_cast_u64 fee (ucast (pf_protocol_fee_percent pf)) 100 Down = Inr prot" "prot \<le> fee"
    using percent_total assms(2) by blast
  obtain ref :: u64 where ref: "(if referral then safe_mul_div_cast_u64 prot (ucast (pf_referral_fee_percent pf)) 100 Down else Inr 0) = Inr ref" "ref \<le> prot"
    using percent_total [OF assms(4), of prot] by (cases referral) auto
  obtain part :: u64 where part: "(if partner \<and> pf_partner_fee_percent pf > 0
      then safe_mul_div_cast_u64 (prot - ref) (ucast (pf_partner_fee_percent pf)) 100 Down else Inr 0) = Inr part" "part \<le> prot - ref"
    using percent_total [OF assms(3), of "prot - ref"] by (cases "partner \<and> pf_partner_fee_percent pf > 0") auto
  show ?thesis
    unfolding get_fee_on_amount_def assms(1) bindr_Inr capped_numerator [THEN iffD2, OF n] fee
      safe_sub_total [OF le] prot(1) safe_sub_total [OF prot(2)] ref(1) safe_sub_total [OF ref(2)] part(1)
      safe_sub_total [OF part(2)]
    by blast
qed

section \<open>The volatility accumulator\<close>

lemma update_volatility_accumulator_frame:
  assumes "update_volatility_accumulator df P = Inr df'"
  obtains acc where "df' = df\<lparr> df_volatility_accumulator := min acc (ucast (df_max_volatility_accumulator df)) \<rparr>"
  using assms by (auto simp: update_volatility_accumulator_def bindr_eq_Inr)

lemma update_volatility_accumulator_bounded:
  "update_volatility_accumulator df P = Inr df' \<Longrightarrow>
     unat (df_volatility_accumulator df') \<le> unat (df_max_volatility_accumulator df')"
  by (erule update_volatility_accumulator_frame) (simp add: min_def word_le_nat_alt)

lemma update_references_frame:
  assumes "update_references df P now = Inr df'"
  shows "df_volatility_accumulator df' = df_volatility_accumulator df"
    and "df_max_volatility_accumulator df' = df_max_volatility_accumulator df"
    and "df_initialized df' = df_initialized df"
    and "df_bin_step_u128 df' = df_bin_step_u128 df"
  using assms by (auto simp: update_references_def bindr_eq_Inr Let_def split: if_splits)

text \<open>The three windows of \<open>update_references\<close>.\<close>

lemma update_references_windows:
  assumes "update_references df P now = Inr df'"
  defines "elapsed \<equiv> unat now - unat (df_last_update_timestamp df)"
  shows "elapsed < unat (df_filter_period df) \<Longrightarrow> df' = df"
    and "unat (df_filter_period df) \<le> elapsed \<Longrightarrow> unat (df_decay_period df) \<le> elapsed \<Longrightarrow>
           df' = df\<lparr> df_sqrt_price_reference := P, df_volatility_reference := 0 \<rparr>"
    and "unat (df_filter_period df) \<le> elapsed \<Longrightarrow> elapsed < unat (df_decay_period df) \<Longrightarrow>
           unat (df_volatility_reference df') =
             unat (df_volatility_accumulator df) * unat (df_reduction_factor df) div 10000 \<and>
           df_sqrt_price_reference df' = P"
proof -
  obtain e where e: "safe_sub now (df_last_update_timestamp df) = Inr e"
    using assms(1) by (auto simp: update_references_def bindr_eq_Inr)
  then have ue: "unat e = elapsed" by (simp add: safe_sub_eq_Inr elapsed_def)
  have f: "ucast (df_filter_period df) \<le> e \<longleftrightarrow> unat (df_filter_period df) \<le> elapsed"
    and d: "e < ucast (df_decay_period df) \<longleftrightarrow> elapsed < unat (df_decay_period df)"
    by (simp_all add: word_le_nat_alt word_less_nat_alt ue)
  show "elapsed < unat (df_filter_period df) \<Longrightarrow> df' = df"
    using assms(1) by (simp add: update_references_def e f)
  show "unat (df_filter_period df) \<le> elapsed \<Longrightarrow> unat (df_decay_period df) \<le> elapsed \<Longrightarrow>
      df' = df\<lparr> df_sqrt_price_reference := P, df_volatility_reference := 0 \<rparr>"
    using assms(1) by (auto simp: update_references_def e f d)
  assume "unat (df_filter_period df) \<le> elapsed" "elapsed < unat (df_decay_period df)"
  then obtain x :: u128 and ref where "unat x = unat (df_volatility_accumulator df) * unat (df_reduction_factor df)"
    "unat ref = unat x div unat (ucast BASIS_POINT_MAX :: u128)"
    "df' = df\<lparr> df_sqrt_price_reference := P, df_volatility_reference := ref \<rparr>"
    using assms(1) by (auto simp: update_references_def e f d bindr_eq_Inr safe_mul_eq_Inr safe_div_eq_Inr)
  then show "unat (df_volatility_reference df') =
      unat (df_volatility_accumulator df) * unat (df_reduction_factor df) div 10000 \<and>
      df_sqrt_price_reference df' = P"
    by (simp add: BASIS_POINT_MAX_def)
qed

end
