(* ===== verification/Pool.thy ===== *)
theory Pool
  imports Curve Fee
begin

text \<open>
  \<open>programs/cp-amm/src/state/pool.rs\<close>: the pool account, its metrics and reward
  campaigns, the computation of a swap, and the operations on a pool that need no position
  (those are in \<open>PoolPosition\<close>). The admin list of \<open>instructions/admin/auth.rs\<close> is here
  because the pool's own methods consult it. Padding is left out, and a \<open>[u8; 32]\<close>
  accumulator is a 256-bit word.
\<close>

section \<open>Admins\<close>

definition ADMINS :: "pubkey list" where
  "ADMINS =
     [32998256351533825417764253663733480195709361172400272661065538267444903811895,
      82539355200100436862679245557804009291181602352806945813909493401019714209824]"

definition assert_eq_admin :: "pubkey \<Rightarrow> bool" where
  "assert_eq_admin admin \<longleftrightarrow> list_ex (\<lambda>predefined_admin. predefined_admin = admin) ADMINS"

section \<open>Data\<close>

datatype pool_status = Enable | Disable

definition pool_status_u8 :: "pool_status \<Rightarrow> u8" where
  "pool_status_u8 s = (case s of Enable \<Rightarrow> 0 | Disable \<Rightarrow> 1)"

definition pool_status_try_from :: "u8 \<Rightarrow> pool_status option" where
  "pool_status_try_from x = (if x = 0 then Some Enable else if x = 1 then Some Disable else None)"

datatype pool_kind = Permissionless | Customizable

definition pool_type_u8 :: "pool_kind \<Rightarrow> u8" where
  "pool_type_u8 t = (case t of Permissionless \<Rightarrow> 0 | Customizable \<Rightarrow> 1)"

record pool_metrics =
  mt_total_lp_a_fee :: u128
  mt_total_lp_b_fee :: u128
  mt_total_protocol_a_fee :: u64
  mt_total_protocol_b_fee :: u64
  mt_total_partner_a_fee :: u64
  mt_total_partner_b_fee :: u64
  mt_total_position :: u64

record reward_info =
  ri_initialized :: u8
  ri_reward_token_flag :: u8
  ri_mint :: pubkey
  ri_vault :: pubkey
  ri_funder :: pubkey
  ri_reward_duration :: u64
  ri_reward_duration_end :: u64
  ri_reward_rate :: u128
  ri_reward_per_token_stored :: u256
  ri_last_update_time :: u64
  ri_cumulative_seconds_with_empty_liquidity_reward :: u64

record pool =
  pool_fees :: pool_fees_struct
  pool_token_a_mint :: pubkey
  pool_token_b_mint :: pubkey
  pool_token_a_vault :: pubkey
  pool_token_b_vault :: pubkey
  pool_whitelisted_vault :: pubkey
  pool_partner :: pubkey
  pool_liquidity :: u128
  pool_protocol_a_fee :: u64
  pool_protocol_b_fee :: u64
  pool_partner_a_fee :: u64
  pool_partner_b_fee :: u64
  pool_sqrt_min_price :: u128
  pool_sqrt_max_price :: u128
  pool_sqrt_price :: u128
  pool_activation_point :: u64
  pool_activation_type :: u8
  pool_pool_status :: u8
  pool_token_a_flag :: u8
  pool_token_b_flag :: u8
  pool_collect_fee_mode :: u8
  pool_pool_type :: u8
  pool_fee_a_per_liquidity :: u256
  pool_fee_b_per_liquidity :: u256
  pool_permanent_lock_liquidity :: u128
  pool_metrics :: pool_metrics
  pool_creator :: pubkey
  pool_reward_infos :: "reward_info array2"

record swap_result =
  sr_output_amount :: u64
  sr_next_sqrt_price :: u128
  sr_lp_fee :: u64
  sr_protocol_fee :: u64
  sr_partner_fee :: u64
  sr_referral_fee :: u64

record swap_amount =
  sa_output_amount :: u64
  sa_next_sqrt_price :: u128

record modify_liquidity_result =
  ml_token_a_amount :: u64
  ml_token_b_amount :: u64

definition default_base_fee :: base_fee_struct where
  "default_base_fee = \<lparr> bf_cliff_fee_numerator = 0, bf_fee_scheduler_mode = 0,
     bf_number_of_period = 0, bf_period_frequency = 0, bf_reduction_factor = 0 \<rparr>"

definition default_dynamic_fee :: dynamic_fee_struct where
  "default_dynamic_fee = \<lparr> df_initialized = 0, df_max_volatility_accumulator = 0,
     df_variable_fee_control = 0, df_bin_step = 0, df_filter_period = 0, df_decay_period = 0,
     df_reduction_factor = 0, df_last_update_timestamp = 0, df_bin_step_u128 = 0,
     df_sqrt_price_reference = 0, df_volatility_accumulator = 0, df_volatility_reference = 0 \<rparr>"

definition default_pool_fees :: pool_fees_struct where
  "default_pool_fees = \<lparr> pf_base_fee = default_base_fee, pf_protocol_fee_percent = 0,
     pf_partner_fee_percent = 0, pf_referral_fee_percent = 0, pf_dynamic_fee = default_dynamic_fee \<rparr>"

definition default_reward_info :: reward_info where
  "default_reward_info = \<lparr> ri_initialized = 0, ri_reward_token_flag = 0, ri_mint = 0, ri_vault = 0,
     ri_funder = 0, ri_reward_duration = 0, ri_reward_duration_end = 0, ri_reward_rate = 0,
     ri_reward_per_token_stored = 0, ri_last_update_time = 0,
     ri_cumulative_seconds_with_empty_liquidity_reward = 0 \<rparr>"

definition default_pool_metrics :: pool_metrics where
  "default_pool_metrics = \<lparr> mt_total_lp_a_fee = 0, mt_total_lp_b_fee = 0, mt_total_protocol_a_fee = 0,
     mt_total_protocol_b_fee = 0, mt_total_partner_a_fee = 0, mt_total_partner_b_fee = 0,
     mt_total_position = 0 \<rparr>"

definition default_pool :: pool where
  "default_pool = \<lparr> pool_fees = default_pool_fees, pool_token_a_mint = 0, pool_token_b_mint = 0,
     pool_token_a_vault = 0, pool_token_b_vault = 0, pool_whitelisted_vault = 0, pool_partner = 0,
     pool_liquidity = 0, pool_protocol_a_fee = 0, pool_protocol_b_fee = 0, pool_partner_a_fee = 0,
     pool_partner_b_fee = 0, pool_sqrt_min_price = 0, pool_sqrt_max_price = 0, pool_sqrt_price = 0,
     pool_activation_point = 0, pool_activation_type = 0, pool_pool_status = 0, pool_token_a_flag = 0,
     pool_token_b_flag = 0, pool_collect_fee_mode = 0, pool_pool_type = 0,
     pool_fee_a_per_liquidity = 0, pool_fee_b_per_liquidity = 0, pool_permanent_lock_liquidity = 0,
     pool_metrics = default_pool_metrics, pool_creator = 0,
     pool_reward_infos = Array2 default_reward_info default_reward_info \<rparr>"

section \<open>Metrics\<close>

definition increase_position :: "pool_metrics \<Rightarrow> pool_metrics" where
  "increase_position m = m\<lparr> mt_total_position := mt_total_position m + 1 \<rparr>"

definition reduce_position :: "pool_metrics \<Rightarrow> pool_metrics" where
  "reduce_position m = m\<lparr> mt_total_position := mt_total_position m - 1 \<rparr>"

definition accumulate_fee :: "pool_metrics \<Rightarrow> u64 \<Rightarrow> u64 \<Rightarrow> u64 \<Rightarrow> bool \<Rightarrow> pool_metrics result" where
  "accumulate_fee m lp_fee protocol_fee partner_fee is_token_a =
     (if is_token_a
      then bindr (safe_add (mt_total_lp_a_fee m) (ucast lp_fee)) (\<lambda>lp.
           bindr (safe_add (mt_total_protocol_a_fee m) protocol_fee) (\<lambda>protocol.
           bindr (safe_add (mt_total_partner_a_fee m) partner_fee) (\<lambda>partner.
           Inr (m\<lparr> mt_total_lp_a_fee := lp, mt_total_protocol_a_fee := protocol,
                   mt_total_partner_a_fee := partner \<rparr>))))
      else bindr (safe_add (mt_total_lp_b_fee m) (ucast lp_fee)) (\<lambda>lp.
           bindr (safe_add (mt_total_protocol_b_fee m) protocol_fee) (\<lambda>protocol.
           bindr (safe_add (mt_total_partner_b_fee m) partner_fee) (\<lambda>partner.
           Inr (m\<lparr> mt_total_lp_b_fee := lp, mt_total_protocol_b_fee := protocol,
                   mt_total_partner_b_fee := partner \<rparr>)))))"

section \<open>Reward campaigns\<close>

definition ri_is_initialized :: "reward_info \<Rightarrow> bool" where
  "ri_is_initialized ri \<longleftrightarrow> ri_initialized ri \<noteq> 0"

definition is_valid_funder :: "reward_info \<Rightarrow> pubkey \<Rightarrow> bool" where
  "is_valid_funder ri funder \<longleftrightarrow> assert_eq_admin funder \<or> funder = ri_funder ri"

definition init_reward :: "reward_info \<Rightarrow> pubkey \<Rightarrow> pubkey \<Rightarrow> pubkey \<Rightarrow> u64 \<Rightarrow> u8 \<Rightarrow> reward_info" where
  "init_reward ri mint vault funder reward_duration reward_token_flag =
     ri\<lparr> ri_initialized := 1, ri_mint := mint, ri_vault := vault, ri_funder := funder,
        ri_reward_duration := reward_duration, ri_reward_token_flag := reward_token_flag \<rparr>"

definition update_last_update_time :: "reward_info \<Rightarrow> u64 \<Rightarrow> reward_info" where
  "update_last_update_time ri current_time =
     ri\<lparr> ri_last_update_time := min current_time (ri_reward_duration_end ri) \<rparr>"

definition get_seconds_elapsed_since_last_update :: "reward_info \<Rightarrow> u64 \<Rightarrow> u64 result" where
  "get_seconds_elapsed_since_last_update ri current_time =
     (let last_time_reward_applicable = min current_time (ri_reward_duration_end ri) in
      safe_sub last_time_reward_applicable (ri_last_update_time ri))"

definition calculate_reward_per_token_stored_since_last_update ::
  "reward_info \<Rightarrow> u64 \<Rightarrow> u128 \<Rightarrow> u256 result" where
  "calculate_reward_per_token_stored_since_last_update ri current_time liquidity_supply =
     bindr (get_seconds_elapsed_since_last_update ri current_time) (\<lambda>time_period.
     bindr (safe_mul (ucast time_period) (ri_reward_rate ri)) (\<lambda>total_reward.
     ok_or (shl_div_256 total_reward liquidity_supply LIQUIDITY_SCALE)
       (Err MathOverflow)))"

definition accumulate_reward_per_token_stored :: "reward_info \<Rightarrow> u256 \<Rightarrow> reward_info result" where
  "accumulate_reward_per_token_stored ri delta =
     bindr (safe_add (ri_reward_per_token_stored ri) delta) (\<lambda>s.
     Inr (ri\<lparr> ri_reward_per_token_stored := s \<rparr>))"

definition ri_update_rewards :: "reward_info \<Rightarrow> u128 \<Rightarrow> u64 \<Rightarrow> reward_info result" where
  "ri_update_rewards ri liquidity_supply current_time =
     (if ri_is_initialized ri
      then bindr (if 0 < liquidity_supply
                  then bindr (calculate_reward_per_token_stored_since_last_update ri current_time liquidity_supply)
                         (accumulate_reward_per_token_stored ri)
                  else bindr (get_seconds_elapsed_since_last_update ri current_time) (\<lambda>time_period.
                       bindr (safe_add (ri_cumulative_seconds_with_empty_liquidity_reward ri) time_period) (\<lambda>c.
                       Inr (ri\<lparr> ri_cumulative_seconds_with_empty_liquidity_reward := c \<rparr>)))) (\<lambda>ri.
           Inr (update_last_update_time ri current_time))
      else Inr ri)"

definition update_rate_after_funding :: "reward_info \<Rightarrow> u64 \<Rightarrow> u64 \<Rightarrow> reward_info result" where
  "update_rate_after_funding ri current_time funding_amount =
     bindr (if ri_reward_duration_end ri \<le> current_time then Inr funding_amount
            else bindr (safe_sub (ri_reward_duration_end ri) current_time) (\<lambda>remaining_seconds.
                 bindr (safe_mul_shr_cast (ri_reward_rate ri) (ucast remaining_seconds) REWARD_RATE_SCALE) (\<lambda>leftover.
                 safe_add funding_amount leftover))) (\<lambda>total_amount.
     bindr (safe_shl_div_cast (ucast total_amount) (ucast (ri_reward_duration ri)) REWARD_RATE_SCALE Down) (\<lambda>rate.
     bindr (safe_add current_time (ri_reward_duration ri)) (\<lambda>duration_end.
     Inr (ri\<lparr> ri_reward_rate := rate, ri_last_update_time := current_time,
             ri_reward_duration_end := duration_end \<rparr>))))"

section \<open>Swap\<close>

definition has_partner :: "pool \<Rightarrow> bool" where
  "has_partner p \<longleftrightarrow> pool_partner p \<noteq> default_pubkey"

definition get_swap_result_from_a_to_b :: "pool \<Rightarrow> u64 \<Rightarrow> swap_amount result" where
  "get_swap_result_from_a_to_b p amount_in =
     bindr (get_next_sqrt_price_from_input (pool_sqrt_price p) (pool_liquidity p) amount_in True) (\<lambda>next_sqrt_price.
     if next_sqrt_price < pool_sqrt_min_price p then Inl (Err PriceRangeViolation)
     else bindr (get_delta_amount_b_unsigned next_sqrt_price (pool_sqrt_price p) (pool_liquidity p) Down) (\<lambda>output_amount.
          Inr \<lparr> sa_output_amount = output_amount, sa_next_sqrt_price = next_sqrt_price \<rparr>))"

definition get_swap_result_from_b_to_a :: "pool \<Rightarrow> u64 \<Rightarrow> swap_amount result" where
  "get_swap_result_from_b_to_a p amount_in =
     bindr (get_next_sqrt_price_from_input (pool_sqrt_price p) (pool_liquidity p) amount_in False) (\<lambda>next_sqrt_price.
     if next_sqrt_price > pool_sqrt_max_price p then Inl (Err PriceRangeViolation)
     else bindr (get_delta_amount_a_unsigned (pool_sqrt_price p) next_sqrt_price (pool_liquidity p) Down) (\<lambda>output_amount.
          Inr \<lparr> sa_output_amount = output_amount, sa_next_sqrt_price = next_sqrt_price \<rparr>))"

text \<open>A fee of nothing, the initial value of the four \<open>actual_*_fee\<close> variables.\<close>

definition no_fee :: "u64 \<Rightarrow> fee_on_amount_result" where
  "no_fee amount = \<lparr> fr_amount = amount, fr_lp_fee = 0, fr_protocol_fee = 0, fr_partner_fee = 0,
                     fr_referral_fee = 0 \<rparr>"

definition get_swap_result ::
  "pool \<Rightarrow> u64 \<Rightarrow> fee_mode \<Rightarrow> trade_direction \<Rightarrow> u64 \<Rightarrow> swap_result result" where
  "get_swap_result p amount_in fm direction current_point =
     bindr (if fees_on_input fm
            then get_fee_on_amount (pool_fees p) amount_in (has_referral fm) current_point
                   (pool_activation_point p) (has_partner p)
            else Inr (no_fee amount_in)) (\<lambda>fee_in.
     bindr (case direction of
              AtoB \<Rightarrow> get_swap_result_from_a_to_b p (fr_amount fee_in)
            | BtoA \<Rightarrow> get_swap_result_from_b_to_a p (fr_amount fee_in)) (\<lambda>swap.
     bindr (if fees_on_input fm then Inr (fee_in\<lparr> fr_amount := sa_output_amount swap \<rparr>)
            else get_fee_on_amount (pool_fees p) (sa_output_amount swap) (has_referral fm) current_point
                   (pool_activation_point p) (has_partner p)) (\<lambda>fee.
     Inr \<lparr> sr_output_amount = fr_amount fee, sr_next_sqrt_price = sa_next_sqrt_price swap,
           sr_lp_fee = fr_lp_fee fee, sr_protocol_fee = fr_protocol_fee fee,
           sr_partner_fee = fr_partner_fee fee, sr_referral_fee = fr_referral_fee fee \<rparr>)))"

definition update_pre_swap :: "pool \<Rightarrow> u64 \<Rightarrow> pool result" where
  "update_pre_swap p current_timestamp =
     (let df = pf_dynamic_fee (pool_fees p) in
      if is_dynamic_fee_enable df
      then bindr (update_references df (pool_sqrt_price p) current_timestamp) (\<lambda>df.
           Inr (p\<lparr> pool_fees := (pool_fees p)\<lparr> pf_dynamic_fee := df \<rparr> \<rparr>))
      else Inr p)"

definition update_post_swap :: "pool \<Rightarrow> u128 \<Rightarrow> u64 \<Rightarrow> pool result" where
  "update_post_swap p old_sqrt_price current_timestamp =
     (let df = pf_dynamic_fee (pool_fees p) in
      if is_dynamic_fee_enable df
      then bindr (update_volatility_accumulator df (pool_sqrt_price p)) (\<lambda>df.
           bindr (get_delta_bin_id (df_bin_step_u128 df) old_sqrt_price (pool_sqrt_price p)) (\<lambda>delta_price.
           let df = (if delta_price > 0 then df\<lparr> df_last_update_timestamp := current_timestamp \<rparr> else df) in
           Inr (p\<lparr> pool_fees := (pool_fees p)\<lparr> pf_dynamic_fee := df \<rparr> \<rparr>)))
      else Inr p)"

definition apply_swap_result :: "pool \<Rightarrow> swap_result \<Rightarrow> fee_mode \<Rightarrow> u64 \<Rightarrow> pool result" where
  "apply_swap_result p sr fm current_timestamp =
     (let old_sqrt_price = pool_sqrt_price p;
          p = p\<lparr> pool_sqrt_price := sr_next_sqrt_price sr \<rparr> in
      bindr (ok_or (shl_div_256 (ucast (sr_lp_fee sr)) (pool_liquidity p) LIQUIDITY_SCALE)
               (Err MathOverflow)) (\<lambda>fee_per_token_stored.
      bindr (if fees_on_token_a fm
             then bindr (safe_add (pool_partner_a_fee p) (sr_partner_fee sr)) (\<lambda>partner.
                  bindr (safe_add (pool_protocol_a_fee p) (sr_protocol_fee sr)) (\<lambda>protocol.
                  bindr (safe_add (pool_fee_a_per_liquidity p) fee_per_token_stored) (\<lambda>g.
                  bindr (accumulate_fee (pool_metrics p) (sr_lp_fee sr) (sr_protocol_fee sr)
                           (sr_partner_fee sr) True) (\<lambda>m.
                  Inr (p\<lparr> pool_partner_a_fee := partner, pool_protocol_a_fee := protocol,
                          pool_fee_a_per_liquidity := g, pool_metrics := m \<rparr>)))))
             else bindr (safe_add (pool_partner_b_fee p) (sr_partner_fee sr)) (\<lambda>partner.
                  bindr (safe_add (pool_protocol_b_fee p) (sr_protocol_fee sr)) (\<lambda>protocol.
                  bindr (safe_add (pool_fee_b_per_liquidity p) fee_per_token_stored) (\<lambda>g.
                  bindr (accumulate_fee (pool_metrics p) (sr_lp_fee sr) (sr_protocol_fee sr)
                           (sr_partner_fee sr) False) (\<lambda>m.
                  Inr (p\<lparr> pool_partner_b_fee := partner, pool_protocol_b_fee := protocol,
                          pool_fee_b_per_liquidity := g, pool_metrics := m \<rparr>)))))) (\<lambda>p.
      update_post_swap p old_sqrt_price current_timestamp)))"

section \<open>Other operations of the pool\<close>

definition pool_initialize ::
  "pool \<Rightarrow> pubkey \<Rightarrow> pool_fees_struct \<Rightarrow> pubkey \<Rightarrow> pubkey \<Rightarrow> pubkey \<Rightarrow> pubkey \<Rightarrow> pubkey \<Rightarrow> pubkey \<Rightarrow>
   u128 \<Rightarrow> u128 \<Rightarrow> u128 \<Rightarrow> u64 \<Rightarrow> u8 \<Rightarrow> u8 \<Rightarrow> u8 \<Rightarrow> u128 \<Rightarrow> u8 \<Rightarrow> u8 \<Rightarrow> pool" where
  "pool_initialize p creator fees token_a_mint token_b_mint token_a_vault token_b_vault
     whitelisted_vault partner sqrt_min_price sqrt_max_price sqrt_price activation_point
     activation_type token_a_flag token_b_flag liquidity collect_fee_mode kind =
     p\<lparr> pool_creator := creator, pool_fees := fees, pool_token_a_mint := token_a_mint,
        pool_token_b_mint := token_b_mint, pool_token_a_vault := token_a_vault,
        pool_token_b_vault := token_b_vault, pool_whitelisted_vault := whitelisted_vault,
        pool_partner := partner, pool_sqrt_min_price := sqrt_min_price,
        pool_sqrt_max_price := sqrt_max_price, pool_activation_point := activation_point,
        pool_activation_type := activation_type, pool_token_a_flag := token_a_flag,
        pool_token_b_flag := token_b_flag, pool_liquidity := liquidity,
        pool_sqrt_price := sqrt_price, pool_collect_fee_mode := collect_fee_mode,
        pool_pool_type := kind \<rparr>"

definition pool_reward_initialized :: "pool \<Rightarrow> bool" where
  "pool_reward_initialized p \<longleftrightarrow>
     ri_is_initialized (elem0 (pool_reward_infos p)) \<or> ri_is_initialized (elem1 (pool_reward_infos p))"

definition get_amounts_for_modify_liquidity :: "pool \<Rightarrow> u128 \<Rightarrow> rounding \<Rightarrow> modify_liquidity_result result" where
  "get_amounts_for_modify_liquidity p liquidity_delta rnd =
     bindr (get_delta_amount_a_unsigned (pool_sqrt_price p) (pool_sqrt_max_price p) liquidity_delta rnd) (\<lambda>a.
     bindr (get_delta_amount_b_unsigned (pool_sqrt_min_price p) (pool_sqrt_price p) liquidity_delta rnd) (\<lambda>b.
     Inr \<lparr> ml_token_a_amount = a, ml_token_b_amount = b \<rparr>))"

definition get_max_amount_in :: "pool \<Rightarrow> trade_direction \<Rightarrow> u64 result" where
  "get_max_amount_in p direction =
     bindr (case direction of
              AtoB \<Rightarrow> get_delta_amount_a_unsigned_unchecked (pool_sqrt_min_price p) (pool_sqrt_price p)
                        (pool_liquidity p) Down
            | BtoA \<Rightarrow> get_delta_amount_a_unsigned_unchecked (pool_sqrt_price p) (pool_sqrt_max_price p)
                        (pool_liquidity p) Down) (\<lambda>amount.
     if amount > ucast u64_max then Inr u64_max else ok_or (try_cast amount) Panic)"

definition accumulate_permanent_locked_liquidity :: "pool \<Rightarrow> u128 \<Rightarrow> pool result" where
  "accumulate_permanent_locked_liquidity p l =
     bindr (safe_add (pool_permanent_lock_liquidity p) l) (\<lambda>t.
     Inr (p\<lparr> pool_permanent_lock_liquidity := t \<rparr>))"

definition claim_protocol_fee :: "pool \<Rightarrow> u64 \<Rightarrow> u64 \<Rightarrow> (pool \<times> u64 \<times> u64) result" where
  "claim_protocol_fee p max_amount_a max_amount_b =
     (let token_a_amount = min (pool_protocol_a_fee p) max_amount_a;
          token_b_amount = min (pool_protocol_b_fee p) max_amount_b in
      bindr (safe_sub (pool_protocol_a_fee p) token_a_amount) (\<lambda>a.
      bindr (safe_sub (pool_protocol_b_fee p) token_b_amount) (\<lambda>b.
      Inr (p\<lparr> pool_protocol_a_fee := a, pool_protocol_b_fee := b \<rparr>, token_a_amount, token_b_amount))))"

definition claim_partner_fee :: "pool \<Rightarrow> u64 \<Rightarrow> u64 \<Rightarrow> (pool \<times> u64 \<times> u64) result" where
  "claim_partner_fee p max_amount_a max_amount_b =
     (let token_a_amount = min (pool_partner_a_fee p) max_amount_a;
          token_b_amount = min (pool_partner_b_fee p) max_amount_b in
      bindr (safe_sub (pool_partner_a_fee p) token_a_amount) (\<lambda>a.
      bindr (safe_sub (pool_partner_b_fee p) token_b_amount) (\<lambda>b.
      Inr (p\<lparr> pool_partner_a_fee := a, pool_partner_b_fee := b \<rparr>, token_a_amount, token_b_amount))))"

definition pool_update_rewards :: "pool \<Rightarrow> u64 \<Rightarrow> pool result" where
  "pool_update_rewards p current_time =
     bindr (ri_update_rewards (elem0 (pool_reward_infos p)) (pool_liquidity p) current_time) (\<lambda>r0.
     bindr (ri_update_rewards (elem1 (pool_reward_infos p)) (pool_liquidity p) current_time) (\<lambda>r1.
     Inr (p\<lparr> pool_reward_infos := Array2 r0 r1 \<rparr>)))"

definition claim_ineligible_reward :: "pool \<Rightarrow> nat \<Rightarrow> (pool \<times> u64) result" where
  "claim_ineligible_reward p reward_index =
     bindr (arr_get (pool_reward_infos p) reward_index) (\<lambda>ri.
     bindr (safe_mul_shr_cast (ucast (ri_cumulative_seconds_with_empty_liquidity_reward ri))
              (ri_reward_rate ri) REWARD_RATE_SCALE) (\<lambda>ineligible_reward.
     Inr (p\<lparr> pool_reward_infos := arr_set (pool_reward_infos p) reward_index
               (ri\<lparr> ri_cumulative_seconds_with_empty_liquidity_reward := 0 \<rparr>) \<rparr>, ineligible_reward)))"

definition validate_authority_to_edit_reward :: "pool \<Rightarrow> nat \<Rightarrow> pubkey \<Rightarrow> unit result" where
  "validate_authority_to_edit_reward p reward_index signer =
     (if signer = pool_creator p then require (reward_index = 0) (Err InvalidRewardIndex)
      else require (assert_eq_admin signer) (Err InvalidAdmin))"

lemmas pool_eval =
  ADMINS_def assert_eq_admin_def default_base_fee_def default_dynamic_fee_def default_pool_fees_def
  default_reward_info_def default_pool_metrics_def default_pool_def increase_position_def
  reduce_position_def accumulate_fee_def ri_is_initialized_def is_valid_funder_def init_reward_def
  update_last_update_time_def get_seconds_elapsed_since_last_update_def
  calculate_reward_per_token_stored_since_last_update_def accumulate_reward_per_token_stored_def
  ri_update_rewards_def update_rate_after_funding_def has_partner_def get_swap_result_from_a_to_b_def
  get_swap_result_from_b_to_a_def no_fee_def get_swap_result_def update_pre_swap_def
  update_post_swap_def apply_swap_result_def pool_initialize_def pool_reward_initialized_def
  get_amounts_for_modify_liquidity_def get_max_amount_in_def
  accumulate_permanent_locked_liquidity_def claim_protocol_fee_def claim_partner_fee_def
  pool_update_rewards_def claim_ineligible_reward_def validate_authority_to_edit_reward_def
  scale_defs curve_eval fee_eval

section \<open>What a swap computes\<close>

lemma swap_a_to_b_exact:
  assumes "get_swap_result_from_a_to_b p amount_in = Inr sa"
  defines "L \<equiv> unat (pool_liquidity p)" and "P \<equiv> unat (pool_sqrt_price p)"
    and "P' \<equiv> unat (sa_next_sqrt_price sa)"
  shows "0 < L" and "0 < P" and "P' = cdiv (L * P) (L + unat amount_in * P)"
    and "unat (pool_sqrt_min_price p) \<le> P'" and "P' \<le> P" and "0 < P'"
    and "unat (sa_output_amount sa) = L * (P - P') div 2 ^ 128"
proof -
  have *: "0 < L \<and> 0 < P \<and> P' = cdiv (L * P) (L + unat amount_in * P) \<and>
      unat (pool_sqrt_min_price p) \<le> P' \<and> P' \<le> P \<and> unat (sa_output_amount sa) = L * (P - P') div 2 ^ 128"
    using assms(1) unfolding L_def P_def P'_def
    by (auto simp: get_swap_result_from_a_to_b_def bindr_eq_Inr next_from_input_eq_Inr delta_b_eq_Inr
        word_pos word_le_nat_alt not_less split: if_splits)
  then show "0 < L" "0 < P" "P' = cdiv (L * P) (L + unat amount_in * P)"
    "unat (pool_sqrt_min_price p) \<le> P'" "P' \<le> P" "unat (sa_output_amount sa) = L * (P - P') div 2 ^ 128"
    by blast+
  show "0 < P'" using * by (metis next_a_pos)
qed

lemma swap_b_to_a_exact:
  assumes "get_swap_result_from_b_to_a p amount_in = Inr sa"
  defines "L \<equiv> unat (pool_liquidity p)" and "P \<equiv> unat (pool_sqrt_price p)"
    and "P' \<equiv> unat (sa_next_sqrt_price sa)"
  shows "0 < L" and "0 < P" and "P' = P + unat amount_in * 2 ^ 128 div L"
    and "P' \<le> unat (pool_sqrt_max_price p)" and "P \<le> P'"
    and "unat (sa_output_amount sa) = L * (P' - P) div (P * P')"
proof -
  have *: "0 < L \<and> 0 < P \<and> P' = P + unat amount_in * 2 ^ 128 div L \<and>
      P' \<le> unat (pool_sqrt_max_price p) \<and> unat (sa_output_amount sa) = L * (P' - P) div (P * P')"
    using assms(1) unfolding L_def P_def P'_def
    by (auto simp: get_swap_result_from_b_to_a_def bindr_eq_Inr next_from_input_eq_Inr delta_a_eq_Inr
        word_pos word_le_nat_alt not_less split: if_splits)
  then show "0 < L" "0 < P" "P' = P + unat amount_in * 2 ^ 128 div L"
    "P' \<le> unat (pool_sqrt_max_price p)" "unat (sa_output_amount sa) = L * (P' - P) div (P * P')"
    by blast+
  show "P \<le> P'" using * by linarith
qed

definition swap_step :: "trade_direction \<Rightarrow> pool \<Rightarrow> u64 \<Rightarrow> swap_amount result" where
  "swap_step direction p amount_in =
     (case direction of AtoB \<Rightarrow> get_swap_result_from_a_to_b p amount_in
                      | BtoA \<Rightarrow> get_swap_result_from_b_to_a p amount_in)"

definition sr_total_fee :: "swap_result \<Rightarrow> nat" where
  "sr_total_fee sr = unat (sr_lp_fee sr) + unat (sr_protocol_fee sr) + unat (sr_partner_fee sr) +
                     unat (sr_referral_fee sr)"

text \<open>
  A swap moves the curve by the amount net of the input fee; the fee and the rest make up
  the input exactly when it is taken from the input, and the curve's output otherwise.
\<close>

lemma get_swap_result_split:
  assumes "get_swap_result p amount_in fm direction cp = Inr sr"
  obtains net sa where "swap_step direction p net = Inr sa"
    and "sr_next_sqrt_price sr = sa_next_sqrt_price sa"
    and "fees_on_input fm \<longrightarrow> unat amount_in = unat net + sr_total_fee sr \<and> sr_output_amount sr = sa_output_amount sa"
    and "\<not> fees_on_input fm \<longrightarrow> net = amount_in \<and>
           unat (sa_output_amount sa) = unat (sr_output_amount sr) + sr_total_fee sr"
proof (cases "fees_on_input fm")
  case True
  then obtain fee sa where fee: "get_fee_on_amount (pool_fees p) amount_in (has_referral fm) cp
      (pool_activation_point p) (has_partner p) = Inr fee"
    and sa: "swap_step direction p (fr_amount fee) = Inr sa"
    and sr: "sr = \<lparr> sr_output_amount = sa_output_amount sa, sr_next_sqrt_price = sa_next_sqrt_price sa,
           sr_lp_fee = fr_lp_fee fee, sr_protocol_fee = fr_protocol_fee fee,
           sr_partner_fee = fr_partner_fee fee, sr_referral_fee = fr_referral_fee fee \<rparr>"
    using assms by (auto simp: get_swap_result_def bindr_eq_Inr swap_step_def [symmetric])
  have "unat amount_in = unat (fr_amount fee) + sr_total_fee sr"
    using fee_on_amount_sum [OF fee] by (simp add: sr_total_fee_def sr)
  then show ?thesis using True sa sr by (intro that [of "fr_amount fee" sa]) simp_all
next
  case False
  then obtain fee sa where fee: "get_fee_on_amount (pool_fees p) (sa_output_amount sa) (has_referral fm) cp
      (pool_activation_point p) (has_partner p) = Inr fee"
    and sa: "swap_step direction p amount_in = Inr sa"
    and sr: "sr = \<lparr> sr_output_amount = fr_amount fee, sr_next_sqrt_price = sa_next_sqrt_price sa,
           sr_lp_fee = fr_lp_fee fee, sr_protocol_fee = fr_protocol_fee fee,
           sr_partner_fee = fr_partner_fee fee, sr_referral_fee = fr_referral_fee fee \<rparr>"
    using assms by (auto simp: get_swap_result_def bindr_eq_Inr swap_step_def [symmetric] no_fee_def)
  have "unat (sa_output_amount sa) = unat (sr_output_amount sr) + sr_total_fee sr"
    using fee_on_amount_sum [OF fee] by (simp add: sr_total_fee_def sr)
  then show ?thesis using False sa sr by (intro that [of amount_in sa]) simp_all
qed

section \<open>What applying a swap changes\<close>

lemma update_post_swap_frame:
  assumes "update_post_swap p old ts = Inr p'"
  obtains df where "p' = p\<lparr> pool_fees := (pool_fees p)\<lparr> pf_dynamic_fee := df \<rparr> \<rparr>"
    and "df_max_volatility_accumulator df = df_max_volatility_accumulator (pf_dynamic_fee (pool_fees p))"
    and "is_dynamic_fee_enable df \<longleftrightarrow> is_dynamic_fee_enable (pf_dynamic_fee (pool_fees p))"
    and "is_dynamic_fee_enable df \<Longrightarrow>
           unat (df_volatility_accumulator df) \<le> unat (df_max_volatility_accumulator df)"
proof (cases "is_dynamic_fee_enable (pf_dynamic_fee (pool_fees p))")
  case True
  then obtain df x where df: "update_volatility_accumulator (pf_dynamic_fee (pool_fees p)) (pool_sqrt_price p) = Inr df"
    and p': "p' = p\<lparr> pool_fees := (pool_fees p)\<lparr> pf_dynamic_fee :=
      (if x then df\<lparr> df_last_update_timestamp := ts \<rparr> else df) \<rparr> \<rparr>"
    using assms by (auto simp: update_post_swap_def Let_def bindr_eq_Inr)
  obtain acc where frame: "df = (pf_dynamic_fee (pool_fees p))\<lparr> df_volatility_accumulator :=
      min acc (ucast (df_max_volatility_accumulator (pf_dynamic_fee (pool_fees p)))) \<rparr>"
    by (rule update_volatility_accumulator_frame [OF df])
  show ?thesis
    using update_volatility_accumulator_bounded [OF df] frame
    by (intro that [OF p']) (simp_all add: is_dynamic_fee_enable_def)
next
  case False
  then have eq: "p' = p\<lparr> pool_fees := (pool_fees p)\<lparr> pf_dynamic_fee := pf_dynamic_fee (pool_fees p) \<rparr> \<rparr>"
    using assms by (simp add: update_post_swap_def Let_def)
  show ?thesis by (rule that [OF eq]) (simp_all add: False)
qed

lemma apply_swap_result_frame:
  assumes "apply_swap_result p sr fm ts = Inr p'"
  obtains f m partner protocol g where
    "0 < pool_liquidity p"
    "p' = (if fees_on_token_a fm
           then p\<lparr> pool_sqrt_price := sr_next_sqrt_price sr, pool_partner_a_fee := partner, pool_protocol_a_fee := protocol,
                   pool_fee_a_per_liquidity := g, pool_metrics := m, pool_fees := f \<rparr>
           else p\<lparr> pool_sqrt_price := sr_next_sqrt_price sr, pool_partner_b_fee := partner, pool_protocol_b_fee := protocol,
                   pool_fee_b_per_liquidity := g, pool_metrics := m, pool_fees := f \<rparr>)"
    "unat partner = unat (if fees_on_token_a fm then pool_partner_a_fee p else pool_partner_b_fee p) + unat (sr_partner_fee sr)"
    "unat protocol = unat (if fees_on_token_a fm then pool_protocol_a_fee p else pool_protocol_b_fee p) + unat (sr_protocol_fee sr)"
    "unat g = unat (if fees_on_token_a fm then pool_fee_a_per_liquidity p else pool_fee_b_per_liquidity p) +
       unat (sr_lp_fee sr) * 2 ^ 128 div unat (pool_liquidity p)"
    "accumulate_fee (pool_metrics p) (sr_lp_fee sr) (sr_protocol_fee sr) (sr_partner_fee sr) (fees_on_token_a fm) = Inr m"
    "pf_base_fee f = pf_base_fee (pool_fees p)"
    "pf_protocol_fee_percent f = pf_protocol_fee_percent (pool_fees p)"
    "pf_partner_fee_percent f = pf_partner_fee_percent (pool_fees p)"
    "pf_referral_fee_percent f = pf_referral_fee_percent (pool_fees p)"
proof -
  obtain q where q: "shl_div_256 (ucast (sr_lp_fee sr)) (pool_liquidity p) 128 = Some q"
    using assms by (auto simp: apply_swap_result_def Let_def bindr_eq_Inr ok_or_eq_Inr LIQUIDITY_SCALE_def)
  have pos: "0 < pool_liquidity p" and uq: "unat q = unat (sr_lp_fee sr) * 2 ^ 128 div unat (pool_liquidity p)"
    using q by (simp_all add: shl_div_256_eq_Some word_pos unat_gt_0)
  show ?thesis
  proof (cases "fees_on_token_a fm")
    case True
    then obtain partner protocol g m where *: "unat partner = unat (pool_partner_a_fee p) + unat (sr_partner_fee sr)"
      "unat protocol = unat (pool_protocol_a_fee p) + unat (sr_protocol_fee sr)"
      "unat g = unat (pool_fee_a_per_liquidity p) + unat q"
      "accumulate_fee (pool_metrics p) (sr_lp_fee sr) (sr_protocol_fee sr) (sr_partner_fee sr) True = Inr m"
      and post: "update_post_swap (p\<lparr> pool_sqrt_price := sr_next_sqrt_price sr, pool_partner_a_fee := partner,
            pool_protocol_a_fee := protocol, pool_fee_a_per_liquidity := g, pool_metrics := m \<rparr>)
          (pool_sqrt_price p) ts = Inr p'"
      using assms q by (auto simp: apply_swap_result_def Let_def bindr_eq_Inr LIQUIDITY_SCALE_def safe_add_eq_Inr)
    obtain df where "p' = p\<lparr> pool_sqrt_price := sr_next_sqrt_price sr, pool_partner_a_fee := partner,
            pool_protocol_a_fee := protocol, pool_fee_a_per_liquidity := g, pool_metrics := m,
            pool_fees := (pool_fees p)\<lparr> pf_dynamic_fee := df \<rparr> \<rparr>"
      by (rule update_post_swap_frame [OF post]) simp
    with * uq pos True show ?thesis
      by (intro that [of "(pool_fees p)\<lparr> pf_dynamic_fee := df \<rparr>" m g protocol partner]) simp_all
  next
    case False
    then obtain partner protocol g m where *: "unat partner = unat (pool_partner_b_fee p) + unat (sr_partner_fee sr)"
      "unat protocol = unat (pool_protocol_b_fee p) + unat (sr_protocol_fee sr)"
      "unat g = unat (pool_fee_b_per_liquidity p) + unat q"
      "accumulate_fee (pool_metrics p) (sr_lp_fee sr) (sr_protocol_fee sr) (sr_partner_fee sr) False = Inr m"
      and post: "update_post_swap (p\<lparr> pool_sqrt_price := sr_next_sqrt_price sr, pool_partner_b_fee := partner,
            pool_protocol_b_fee := protocol, pool_fee_b_per_liquidity := g, pool_metrics := m \<rparr>)
          (pool_sqrt_price p) ts = Inr p'"
      using assms q by (auto simp: apply_swap_result_def Let_def bindr_eq_Inr LIQUIDITY_SCALE_def safe_add_eq_Inr)
    obtain df where "p' = p\<lparr> pool_sqrt_price := sr_next_sqrt_price sr, pool_partner_b_fee := partner,
            pool_protocol_b_fee := protocol, pool_fee_b_per_liquidity := g, pool_metrics := m,
            pool_fees := (pool_fees p)\<lparr> pf_dynamic_fee := df \<rparr> \<rparr>"
      by (rule update_post_swap_frame [OF post]) simp
    with * uq pos False show ?thesis
      by (intro that [of "(pool_fees p)\<lparr> pf_dynamic_fee := df \<rparr>" m g protocol partner]) simp_all
  qed
qed

end
