(* ===== verification/Checkpoint.thy ===== *)
theory Checkpoint
  imports Prelude
begin

text \<open>
  The contract between a growing per-liquidity accumulator and the accounts that are paid
  from it. An account has a weight (its liquidity), the accumulator value it was last
  settled at and an amount pending; settling it at the value \<open>G\<close> moves the checkpoint to
  \<open>G\<close> and credits weight times growth, scaled down and rounded down. The liquidity fees of
  both tokens (\<open>Position::update_fee\<close>) and the farming rewards
  (\<open>UserRewardInfo::update_rewards\<close>) are instances.
\<close>

locale growth_checkpoint =
  fixes scale :: nat
    and weight checkpoint pending :: "'s \<Rightarrow> nat"
    and settle :: "nat \<Rightarrow> 's \<Rightarrow> 's \<Rightarrow> bool"
  assumes settle_weight: "settle G s s' \<Longrightarrow> weight s' = weight s"
    and settle_checkpoint: "settle G s s' \<Longrightarrow> checkpoint s' = G"
    and settle_growth: "settle G s s' \<Longrightarrow> 0 < weight s \<Longrightarrow> checkpoint s \<le> G"
    and settle_pending:
      "settle G s s' \<Longrightarrow> pending s' = pending s + weight s * (G - checkpoint s) div 2 ^ scale"
begin

text \<open>A sequence of settlements at the accumulator values of a list.\<close>

fun settles :: "nat list \<Rightarrow> 's \<Rightarrow> 's \<Rightarrow> bool" where
  "settles [] s s' \<longleftrightarrow> s' = s"
| "settles (G # Gs) s s'' \<longleftrightarrow> (\<exists>s'. settle G s s' \<and> settles Gs s' s'')"

definition final_growth :: "nat list \<Rightarrow> 's \<Rightarrow> nat" where
  "final_growth Gs s = (if Gs = [] then checkpoint s else last Gs)"

lemma settles_weight: "settles Gs s s' \<Longrightarrow> weight s' = weight s"
proof (induction Gs arbitrary: s)
  case (Cons G Gs)
  then obtain s1 where "settle G s s1" "settles Gs s1 s'" by auto
  then show ?case using Cons.IH [of s1] settle_weight [of G s s1] by simp
qed simp

lemma settles_checkpoint: "settles Gs s s' \<Longrightarrow> checkpoint s' = final_growth Gs s"
proof (induction Gs arbitrary: s)
  case (Cons G Gs)
  then obtain s1 where "settle G s s1" "settles Gs s1 s'" by auto
  then show ?case using Cons.IH [of s1] settle_checkpoint [of G s s1] by (simp add: final_growth_def)
qed (simp add: final_growth_def)

lemma settles_growth:
  assumes "settles Gs s s'" "0 < weight s" shows "checkpoint s \<le> final_growth Gs s"
  using assms
proof (induction Gs arbitrary: s)
  case (Cons G Gs)
  then obtain s1 where s1: "settle G s s1" "settles Gs s1 s'" by auto
  have "checkpoint s1 \<le> final_growth Gs s1"
    using Cons s1 by (simp add: settle_weight [OF s1(1)])
  moreover have "final_growth (G # Gs) s = final_growth Gs s1"
    using s1(1) by (simp add: final_growth_def settle_checkpoint)
  ultimately show ?case using Cons.prems settle_growth [OF s1(1)] settle_checkpoint [OF s1(1)] by simp
qed (simp add: final_growth_def)

text \<open>
  Settling in several steps never credits more than settling once at the end, and loses
  less than one unit per step.
\<close>

lemma settles_pending_bounds:
  assumes "settles Gs s s'"
  shows "(pending s' - pending s) * 2 ^ scale \<le> weight s * (final_growth Gs s - checkpoint s)"
    and "pending s \<le> pending s'"
    and "weight s * (final_growth Gs s - checkpoint s) \<le> (pending s' - pending s + length Gs) * 2 ^ scale"
proof -
  have "pending s \<le> pending s' \<and>
        (pending s' - pending s) * 2 ^ scale \<le> weight s * (final_growth Gs s - checkpoint s) \<and>
        weight s * (final_growth Gs s - checkpoint s) \<le> (pending s' - pending s + length Gs) * 2 ^ scale"
    using assms
  proof (induction Gs arbitrary: s)
    case (Cons G Gs)
    then obtain s1 where s1: "settle G s s1" "settles Gs s1 s'" by auto
    let ?w = "weight s" and ?F = "final_growth Gs s1" and ?S = "2 ^ scale :: nat"
    note IH = Cons.IH [OF s1(2)]
    have F: "final_growth (G # Gs) s = ?F"
      using s1(1) by (simp add: final_growth_def settle_checkpoint)
    have w: "weight s1 = ?w" and c: "checkpoint s1 = G" using s1(1) by (simp_all add: settle_weight settle_checkpoint)
    define q where "q = ?w * (G - checkpoint s) div ?S"
    have p: "pending s1 = pending s + q" unfolding q_def by (rule settle_pending [OF s1(1)])
    have q: "q * ?S \<le> ?w * (G - checkpoint s)" "?w * (G - checkpoint s) \<le> (q + 1) * ?S"
      using dividend_less_div_times [of ?S "?w * (G - checkpoint s)"] by (simp_all add: q_def)
    have split: "?w * (?F - checkpoint s) = ?w * (G - checkpoint s) + ?w * (?F - G)"
    proof (cases "?w = 0")
      case False
      then have "checkpoint s \<le> G" "G \<le> ?F"
        using settle_growth [OF s1(1)] settles_growth [OF s1(2)] w c by simp_all
      then show ?thesis by (simp add: distrib_left [symmetric])
    qed simp
    have d: "pending s' - pending s = q + (pending s' - pending s1)" "pending s \<le> pending s'"
      using IH p by auto
    have "(q + (pending s' - pending s1)) * ?S = q * ?S + (pending s' - pending s1) * ?S"
      "(q + (pending s' - pending s1) + length (G # Gs)) * ?S =
         (q + 1) * ?S + (pending s' - pending s1 + length Gs) * ?S"
      by (simp_all only: distrib_right [symmetric]) simp
    with IH q d(2) show ?case unfolding F split w c d(1) by (elim conjE, intro conjI; linarith)
  qed (simp add: final_growth_def)
  then show "(pending s' - pending s) * 2 ^ scale \<le> weight s * (final_growth Gs s - checkpoint s)"
    "pending s \<le> pending s'"
    "weight s * (final_growth Gs s - checkpoint s) \<le> (pending s' - pending s + length Gs) * 2 ^ scale"
    by blast+
qed

lemma settles_at_most_once:
  assumes "settles Gs s s'" and "Gs \<noteq> []" and "settle (last Gs) s s1"
  shows "pending s' \<le> pending s1" and "pending s1 \<le> pending s' + length Gs"
proof -
  let ?x = "weight s * (last Gs - checkpoint s)"
  have F: "final_growth Gs s = last Gs" using assms(2) by (simp add: final_growth_def)
  note b = settles_pending_bounds [OF assms(1), unfolded F]
  have p1: "pending s1 = pending s + ?x div 2 ^ scale" by (rule settle_pending [OF assms(3)])
  have "pending s' - pending s \<le> ?x div 2 ^ scale"
    using b(1) by (simp add: less_eq_div_iff_mult_less_eq)
  then show "pending s' \<le> pending s1" using p1 by simp
  have "?x div 2 ^ scale \<le> (pending s' - pending s + length Gs) * 2 ^ scale div 2 ^ scale"
    by (rule div_le_mono [OF b(3)])
  then show "pending s1 \<le> pending s' + length Gs" using p1 b(2) by simp
qed

end

end
