(* ===== verification/Position.thy ===== *)
theory Position
  imports U128x128Math Constants Checkpoint
begin

text \<open>
  \<open>programs/cp-amm/src/state/position.rs\<close>: a position of a pool, its three kinds of
  liquidity (unlocked, vested, permanently locked), the fees and rewards it has earned, and
  the operations on it that need no pool. The methods that take a pool are in
  \<open>PoolPosition\<close>. A \<open>[u8; 32]\<close> accumulator, which the code only reads and writes as a
  256-bit number, is a 256-bit word here; padding is left out.
\<close>

section \<open>Data\<close>

record user_reward_info =
  uri_reward_per_token_checkpoint :: u256
  uri_reward_pendings :: u64
  uri_total_claimed_rewards :: u64

record position_metrics =
  pm_total_claimed_a_fee :: u64
  pm_total_claimed_b_fee :: u64

record position =
  pos_pool :: pubkey
  pos_nft_mint :: pubkey
  pos_fee_a_per_token_checkpoint :: u256
  pos_fee_b_per_token_checkpoint :: u256
  pos_fee_a_pending :: u64
  pos_fee_b_pending :: u64
  pos_unlocked_liquidity :: u128
  pos_vested_liquidity :: u128
  pos_permanent_locked_liquidity :: u128
  pos_metrics :: position_metrics
  pos_reward_infos :: "user_reward_info array2"

definition default_user_reward_info :: user_reward_info where
  "default_user_reward_info =
     \<lparr> uri_reward_per_token_checkpoint = 0, uri_reward_pendings = 0, uri_total_claimed_rewards = 0 \<rparr>"

definition default_position :: position where
  "default_position =
     \<lparr> pos_pool = 0, pos_nft_mint = 0, pos_fee_a_per_token_checkpoint = 0,
       pos_fee_b_per_token_checkpoint = 0, pos_fee_a_pending = 0, pos_fee_b_pending = 0,
       pos_unlocked_liquidity = 0, pos_vested_liquidity = 0, pos_permanent_locked_liquidity = 0,
       pos_metrics = \<lparr> pm_total_claimed_a_fee = 0, pm_total_claimed_b_fee = 0 \<rparr>,
       pos_reward_infos = Array2 default_user_reward_info default_user_reward_info \<rparr>"

record split_fee_amount =
  sfa_fee_a_amount :: u64
  sfa_fee_b_amount :: u64

section \<open>Rewards of a position\<close>

definition uri_update_rewards :: "user_reward_info \<Rightarrow> u128 \<Rightarrow> u256 \<Rightarrow> user_reward_info result" where
  "uri_update_rewards uri position_liquidity reward_per_token_stored =
     bindr (safe_sub reward_per_token_stored (uri_reward_per_token_checkpoint uri)) (\<lambda>delta.
     bindr (safe_mul_shr_256_cast (ucast position_liquidity) delta TOTAL_REWARD_SCALE) (\<lambda>new_reward.
     bindr (safe_add new_reward (uri_reward_pendings uri)) (\<lambda>pendings.
     Inr (uri\<lparr> uri_reward_pendings := pendings,
               uri_reward_per_token_checkpoint := reward_per_token_stored \<rparr>))))"

definition remove_reward_pending :: "position \<Rightarrow> nat \<Rightarrow> u64 \<Rightarrow> position result" where
  "remove_reward_pending pos reward_index reward_amount =
     bindr (arr_get (pos_reward_infos pos) reward_index) (\<lambda>uri.
     bindr (safe_sub (uri_reward_pendings uri) reward_amount) (\<lambda>pendings.
     Inr (pos\<lparr> pos_reward_infos :=
                arr_set (pos_reward_infos pos) reward_index (uri\<lparr> uri_reward_pendings := pendings \<rparr>) \<rparr>)))"

definition add_reward_pending :: "position \<Rightarrow> nat \<Rightarrow> u64 \<Rightarrow> position result" where
  "add_reward_pending pos reward_index reward_amount =
     bindr (arr_get (pos_reward_infos pos) reward_index) (\<lambda>uri.
     bindr (safe_add (uri_reward_pendings uri) reward_amount) (\<lambda>pendings.
     Inr (pos\<lparr> pos_reward_infos :=
                arr_set (pos_reward_infos pos) reward_index (uri\<lparr> uri_reward_pendings := pendings \<rparr>) \<rparr>)))"

definition get_total_reward :: "position \<Rightarrow> nat \<Rightarrow> u64 result" where
  "get_total_reward pos reward_index =
     bindr (arr_get (pos_reward_infos pos) reward_index) (\<lambda>uri. Inr (uri_reward_pendings uri))"

definition accumulate_total_claimed_rewards :: "position \<Rightarrow> nat \<Rightarrow> u64 \<Rightarrow> position result" where
  "accumulate_total_claimed_rewards pos reward_index reward =
     bindr (arr_get (pos_reward_infos pos) reward_index) (\<lambda>uri.
     Inr (pos\<lparr> pos_reward_infos :=
                arr_set (pos_reward_infos pos) reward_index
                  (uri\<lparr> uri_total_claimed_rewards := uri_total_claimed_rewards uri + reward \<rparr>) \<rparr>))"

definition reset_all_pending_reward :: "position \<Rightarrow> nat \<Rightarrow> position result" where
  "reset_all_pending_reward pos reward_index =
     bindr (arr_get (pos_reward_infos pos) reward_index) (\<lambda>uri.
     Inr (pos\<lparr> pos_reward_infos :=
                arr_set (pos_reward_infos pos) reward_index (uri\<lparr> uri_reward_pendings := 0 \<rparr>) \<rparr>))"

definition pos_claim_reward :: "position \<Rightarrow> nat \<Rightarrow> (position \<times> u64) result" where
  "pos_claim_reward pos reward_index =
     bindr (get_total_reward pos reward_index) (\<lambda>total_reward.
     bindr (accumulate_total_claimed_rewards pos reward_index total_reward) (\<lambda>pos.
     bindr (reset_all_pending_reward pos reward_index) (\<lambda>pos.
     Inr (pos, total_reward))))"

section \<open>Liquidity of a position\<close>

definition has_sufficient_liquidity :: "position \<Rightarrow> u128 \<Rightarrow> bool" where
  "has_sufficient_liquidity pos liquidity \<longleftrightarrow> liquidity \<le> pos_unlocked_liquidity pos"

definition get_total_liquidity :: "position \<Rightarrow> u128 result" where
  "get_total_liquidity pos =
     bindr (safe_add (pos_unlocked_liquidity pos) (pos_vested_liquidity pos)) (\<lambda>s.
     safe_add s (pos_permanent_locked_liquidity pos))"

definition pos_add_liquidity :: "position \<Rightarrow> u128 \<Rightarrow> position result" where
  "pos_add_liquidity pos liquidity_delta =
     bindr (safe_add (pos_unlocked_liquidity pos) liquidity_delta) (\<lambda>l.
     Inr (pos\<lparr> pos_unlocked_liquidity := l \<rparr>))"

definition remove_unlocked_liquidity :: "position \<Rightarrow> u128 \<Rightarrow> position result" where
  "remove_unlocked_liquidity pos liquidity_delta =
     bindr (safe_sub (pos_unlocked_liquidity pos) liquidity_delta) (\<lambda>l.
     Inr (pos\<lparr> pos_unlocked_liquidity := l \<rparr>))"

definition lock :: "position \<Rightarrow> u128 \<Rightarrow> position result" where
  "lock pos total_lock_liquidity =
     bindr (require (has_sufficient_liquidity pos total_lock_liquidity) (Err InsufficientLiquidity)) (\<lambda>_.
     bindr (remove_unlocked_liquidity pos total_lock_liquidity) (\<lambda>pos.
     bindr (safe_add (pos_vested_liquidity pos) total_lock_liquidity) (\<lambda>v.
     Inr (pos\<lparr> pos_vested_liquidity := v \<rparr>))))"

definition permanent_lock_liquidity :: "position \<Rightarrow> u128 \<Rightarrow> position result" where
  "permanent_lock_liquidity pos lock_liquidity =
     bindr (require (has_sufficient_liquidity pos lock_liquidity) (Err InsufficientLiquidity)) (\<lambda>_.
     bindr (remove_unlocked_liquidity pos lock_liquidity) (\<lambda>pos.
     bindr (safe_add (pos_permanent_locked_liquidity pos) lock_liquidity) (\<lambda>l.
     Inr (pos\<lparr> pos_permanent_locked_liquidity := l \<rparr>))))"

definition remove_permanent_locked_liquidity :: "position \<Rightarrow> u128 \<Rightarrow> position result" where
  "remove_permanent_locked_liquidity pos delta =
     bindr (require (delta \<le> pos_permanent_locked_liquidity pos) (Err InsufficientLiquidity)) (\<lambda>_.
     bindr (safe_sub (pos_permanent_locked_liquidity pos) delta) (\<lambda>l.
     Inr (pos\<lparr> pos_permanent_locked_liquidity := l \<rparr>)))"

definition add_permanent_locked_liquidity :: "position \<Rightarrow> u128 \<Rightarrow> position result" where
  "add_permanent_locked_liquidity pos delta =
     bindr (safe_add (pos_permanent_locked_liquidity pos) delta) (\<lambda>l.
     Inr (pos\<lparr> pos_permanent_locked_liquidity := l \<rparr>))"

definition release_vested_liquidity :: "position \<Rightarrow> u128 \<Rightarrow> position result" where
  "release_vested_liquidity pos released_liquidity =
     bindr (safe_sub (pos_vested_liquidity pos) released_liquidity) (\<lambda>v.
     pos_add_liquidity (pos\<lparr> pos_vested_liquidity := v \<rparr>) released_liquidity)"

section \<open>Fees of a position\<close>

definition accumulate_claimed_fee :: "position_metrics \<Rightarrow> u64 \<Rightarrow> u64 \<Rightarrow> position_metrics result" where
  "accumulate_claimed_fee m token_a_amount token_b_amount =
     bindr (safe_add (pm_total_claimed_a_fee m) token_a_amount) (\<lambda>a.
     bindr (safe_add (pm_total_claimed_b_fee m) token_b_amount) (\<lambda>b.
     Inr (m\<lparr> pm_total_claimed_a_fee := a, pm_total_claimed_b_fee := b \<rparr>)))"

definition remove_fee_pending :: "position \<Rightarrow> u64 \<Rightarrow> u64 \<Rightarrow> position result" where
  "remove_fee_pending pos fee_a_delta fee_b_delta =
     bindr (safe_sub (pos_fee_a_pending pos) fee_a_delta) (\<lambda>a.
     bindr (safe_sub (pos_fee_b_pending pos) fee_b_delta) (\<lambda>b.
     Inr (pos\<lparr> pos_fee_a_pending := a, pos_fee_b_pending := b \<rparr>)))"

definition add_fee_pending :: "position \<Rightarrow> u64 \<Rightarrow> u64 \<Rightarrow> position result" where
  "add_fee_pending pos fee_a_delta fee_b_delta =
     bindr (safe_add (pos_fee_a_pending pos) fee_a_delta) (\<lambda>a.
     bindr (safe_add (pos_fee_b_pending pos) fee_b_delta) (\<lambda>b.
     Inr (pos\<lparr> pos_fee_a_pending := a, pos_fee_b_pending := b \<rparr>)))"

definition reset_pending_fee :: "position \<Rightarrow> position" where
  "reset_pending_fee pos = pos\<lparr> pos_fee_a_pending := 0, pos_fee_b_pending := 0 \<rparr>"

definition update_fee :: "position \<Rightarrow> u256 \<Rightarrow> u256 \<Rightarrow> position result" where
  "update_fee pos fee_a_per_token_stored fee_b_per_token_stored =
     bindr (get_total_liquidity pos) (\<lambda>liquidity.
     bindr (if 0 < liquidity
            then bindr (safe_sub fee_a_per_token_stored (pos_fee_a_per_token_checkpoint pos)) (\<lambda>delta_a.
                 bindr (safe_mul_shr_256_cast (ucast liquidity) delta_a LIQUIDITY_SCALE) (\<lambda>new_fee_a.
                 bindr (safe_add new_fee_a (pos_fee_a_pending pos)) (\<lambda>a.
                 bindr (safe_sub fee_b_per_token_stored (pos_fee_b_per_token_checkpoint pos)) (\<lambda>delta_b.
                 bindr (safe_mul_shr_256_cast (ucast liquidity) delta_b LIQUIDITY_SCALE) (\<lambda>new_fee_b.
                 bindr (safe_add new_fee_b (pos_fee_b_pending pos)) (\<lambda>b.
                 Inr (pos\<lparr> pos_fee_a_pending := a, pos_fee_b_pending := b \<rparr>)))))))
            else Inr pos) (\<lambda>pos.
     Inr (pos\<lparr> pos_fee_a_per_token_checkpoint := fee_a_per_token_stored,
               pos_fee_b_per_token_checkpoint := fee_b_per_token_stored \<rparr>)))"

definition pos_is_empty :: "position \<Rightarrow> bool result" where
  "pos_is_empty pos =
     bindr (get_total_reward pos 0) (\<lambda>r0.
     if r0 \<noteq> 0 then Inr False
     else bindr (get_total_reward pos 1) (\<lambda>r1.
     if r1 \<noteq> 0 then Inr False
     else bindr (get_total_liquidity pos) (\<lambda>l.
     Inr (l = 0 \<and> pos_fee_a_pending pos = 0 \<and> pos_fee_b_pending pos = 0))))"

section \<open>Shares of a position\<close>

definition get_unlocked_liquidity_by_numerator :: "position \<Rightarrow> u32 \<Rightarrow> u128 result" where
  "get_unlocked_liquidity_by_numerator pos numerator =
     safe_mul_div_cast_u128 (pos_unlocked_liquidity pos) (ucast numerator)
       (ucast SPLIT_POSITION_DENOMINATOR) Down"

definition get_permanent_locked_liquidity_by_numerator :: "position \<Rightarrow> u32 \<Rightarrow> u128 result" where
  "get_permanent_locked_liquidity_by_numerator pos numerator =
     safe_mul_div_cast_u128 (pos_permanent_locked_liquidity pos) (ucast numerator)
       (ucast SPLIT_POSITION_DENOMINATOR) Down"

definition get_pending_fee_by_numerator :: "position \<Rightarrow> u32 \<Rightarrow> u32 \<Rightarrow> split_fee_amount result" where
  "get_pending_fee_by_numerator pos fee_a_numerator fee_b_numerator =
     bindr (safe_mul_div_cast_u64 (pos_fee_a_pending pos) (ucast fee_a_numerator)
              (ucast SPLIT_POSITION_DENOMINATOR) Down) (\<lambda>fee_a_split.
     bindr (safe_mul_div_cast_u64 (pos_fee_b_pending pos) (ucast fee_b_numerator)
              (ucast SPLIT_POSITION_DENOMINATOR) Down) (\<lambda>fee_b_split.
     Inr \<lparr> sfa_fee_a_amount = fee_a_split, sfa_fee_b_amount = fee_b_split \<rparr>))"

definition get_pending_reward_by_numerator :: "position \<Rightarrow> nat \<Rightarrow> u32 \<Rightarrow> u64 result" where
  "get_pending_reward_by_numerator pos reward_index reward_numerator =
     bindr (arr_get (pos_reward_infos pos) reward_index) (\<lambda>position_reward.
     safe_mul_div_cast_u64 (uri_reward_pendings position_reward) (ucast reward_numerator)
       (ucast SPLIT_POSITION_DENOMINATOR) Down)"

lemmas position_eval =
  default_position_def default_user_reward_info_def uri_update_rewards_def remove_reward_pending_def
  add_reward_pending_def get_total_reward_def accumulate_total_claimed_rewards_def
  reset_all_pending_reward_def pos_claim_reward_def has_sufficient_liquidity_def
  get_total_liquidity_def pos_add_liquidity_def remove_unlocked_liquidity_def lock_def
  permanent_lock_liquidity_def remove_permanent_locked_liquidity_def
  add_permanent_locked_liquidity_def release_vested_liquidity_def accumulate_claimed_fee_def
  remove_fee_pending_def add_fee_pending_def reset_pending_fee_def update_fee_def pos_is_empty_def
  get_unlocked_liquidity_by_numerator_def get_permanent_locked_liquidity_by_numerator_def
  get_pending_fee_by_numerator_def get_pending_reward_by_numerator_def
  SPLIT_POSITION_DENOMINATOR_def scale_defs wide_eval

section \<open>Total liquidity\<close>

definition pos_liquidity :: "position \<Rightarrow> nat" where
  "pos_liquidity pos =
     unat (pos_unlocked_liquidity pos) + unat (pos_vested_liquidity pos) +
     unat (pos_permanent_locked_liquidity pos)"

lemma get_total_liquidity_eq_Inr [ok_iff]:
  "get_total_liquidity pos = Inr l \<longleftrightarrow> unat l = pos_liquidity pos"
proof
  assume *: "unat l = pos_liquidity pos"
  have "unat (pos_unlocked_liquidity pos) + unat (pos_vested_liquidity pos) < 2 ^ LENGTH(128)"
    using * unat_less [of l] by (simp add: pos_liquidity_def)
  then obtain s :: u128 where "unat s = unat (pos_unlocked_liquidity pos) + unat (pos_vested_liquidity pos)"
    using ex_unat by blast
  then show "get_total_liquidity pos = Inr l"
    using * by (auto simp: get_total_liquidity_def pos_liquidity_def bindr_eq_Inr safe_add_eq_Inr)
qed (auto simp: get_total_liquidity_def pos_liquidity_def ok_iff)

lemma lock_eq_Inr:
  "lock pos l = Inr pos' \<longleftrightarrow>
     (\<exists>u v. unat (pos_unlocked_liquidity pos) = unat l + unat u \<and>
            unat v = unat (pos_vested_liquidity pos) + unat l \<and>
            pos' = pos\<lparr> pos_unlocked_liquidity := u, pos_vested_liquidity := v \<rparr>)"
  by (simp add: lock_def remove_unlocked_liquidity_def has_sufficient_liquidity_def bindr_eq_Inr
      require_eq_Inr safe_sub_eq_Inr safe_add_eq_Inr word_le_nat_alt) auto

lemma permanent_lock_liquidity_eq_Inr:
  "permanent_lock_liquidity pos l = Inr pos' \<longleftrightarrow>
     (\<exists>u v. unat (pos_unlocked_liquidity pos) = unat l + unat u \<and>
            unat v = unat (pos_permanent_locked_liquidity pos) + unat l \<and>
            pos' = pos\<lparr> pos_unlocked_liquidity := u, pos_permanent_locked_liquidity := v \<rparr>)"
  by (simp add: permanent_lock_liquidity_def remove_unlocked_liquidity_def has_sufficient_liquidity_def
      bindr_eq_Inr require_eq_Inr safe_sub_eq_Inr safe_add_eq_Inr word_le_nat_alt) auto

lemma release_vested_liquidity_eq_Inr:
  "release_vested_liquidity pos l = Inr pos' \<longleftrightarrow>
     (\<exists>u v. unat (pos_vested_liquidity pos) = unat l + unat v \<and>
            unat u = unat (pos_unlocked_liquidity pos) + unat l \<and>
            pos' = pos\<lparr> pos_vested_liquidity := v, pos_unlocked_liquidity := u \<rparr>)"
  by (auto simp: release_vested_liquidity_def pos_add_liquidity_def bindr_eq_Inr safe_sub_eq_Inr safe_add_eq_Inr)

lemma pos_add_liquidity_eq_Inr:
  "pos_add_liquidity pos l = Inr pos' \<longleftrightarrow>
     (\<exists>u. unat u = unat (pos_unlocked_liquidity pos) + unat l \<and> pos' = pos\<lparr> pos_unlocked_liquidity := u \<rparr>)"
  by (auto simp: pos_add_liquidity_def bindr_eq_Inr safe_add_eq_Inr)

lemma remove_unlocked_liquidity_eq_Inr:
  "remove_unlocked_liquidity pos l = Inr pos' \<longleftrightarrow>
     (\<exists>u. unat (pos_unlocked_liquidity pos) = unat l + unat u \<and> pos' = pos\<lparr> pos_unlocked_liquidity := u \<rparr>)"
  by (auto simp: remove_unlocked_liquidity_def bindr_eq_Inr safe_sub_eq_Inr)

lemmas move_liquidity_eq_Inr =
  lock_eq_Inr permanent_lock_liquidity_eq_Inr release_vested_liquidity_eq_Inr

text \<open>The three moves between the kinds of liquidity keep the total.\<close>

lemma moves_keep_liquidity:
  "lock pos l = Inr pos' \<Longrightarrow> pos_liquidity pos' = pos_liquidity pos"
  "permanent_lock_liquidity pos l = Inr pos' \<Longrightarrow> pos_liquidity pos' = pos_liquidity pos"
  "release_vested_liquidity pos l = Inr pos' \<Longrightarrow> pos_liquidity pos' = pos_liquidity pos"
  by (auto simp: move_liquidity_eq_Inr pos_liquidity_def)

section \<open>Accrual of fees\<close>

lemma accrual_eq_Inr:
  "bindr (safe_sub G c) (\<lambda>delta.
   bindr (safe_mul_shr_256_cast (ucast (L::u128)) delta n) (\<lambda>new. bindr (safe_add new p) f)) = Inr z \<longleftrightarrow>
   c \<le> G \<and> (\<exists>p' :: 'a::len word. unat p' = unat p + unat L * (unat G - unat c) div 2 ^ n \<and>
     unat L * (unat G - unat c) div 2 ^ n < 2 ^ 128 \<and> f p' = Inr z)"
proof -
  have "(\<exists>d new. unat G = unat c + unat (d::u256) \<and> unat (new :: 'a word) = unat L * unat d div 2 ^ n \<and>
      unat L * unat d div 2 ^ n < 2 ^ 128 \<and> (\<exists>p'. unat p' = unat new + unat p \<and> f p' = Inr z)) \<longleftrightarrow>
    c \<le> G \<and> (\<exists>p' :: 'a word. unat p' = unat p + unat L * (unat G - unat c) div 2 ^ n \<and>
     unat L * (unat G - unat c) div 2 ^ n < 2 ^ 128 \<and> f p' = Inr z)" (is "?l \<longleftrightarrow> ?r")
  proof
    assume ?r
    then obtain p' :: "'a word" where le: "c \<le> G" and p': "unat p' = unat p + unat L * (unat G - unat c) div 2 ^ n"
      and b: "unat L * (unat G - unat c) div 2 ^ n < 2 ^ 128" and f: "f p' = Inr z" by blast
    obtain d :: u256 where d: "unat G = unat c + unat d"
      using le safe_sub_total [of c G] by (auto simp: safe_sub_eq_Inr)
    have "unat L * unat d div 2 ^ n < 2 ^ LENGTH('a)"
      using p' d unat_less [of p'] by simp
    then obtain new :: "'a word" where "unat new = unat L * unat d div 2 ^ n" using ex_unat by blast
    then show ?l using d p' b f by (intro exI [of _ d] exI [of _ new] conjI exI [of _ p']) simp_all
  qed (auto simp: word_le_nat_alt add.commute [of "unat p"])
  then show ?thesis
    by (auto simp add: bindr_eq_Inr safe_sub_eq_Inr safe_mul_shr_256_cast_eq_Inr safe_add_eq_Inr word_le_nat_alt)
qed

lemma update_fee_frame:
  assumes "update_fee pos Ga Gb = Inr pos'"
  obtains a b where
    "pos' = pos\<lparr> pos_fee_a_pending := a, pos_fee_b_pending := b,
              pos_fee_a_per_token_checkpoint := Ga, pos_fee_b_per_token_checkpoint := Gb \<rparr>"
    "unat a = unat (pos_fee_a_pending pos) +
       pos_liquidity pos * (unat Ga - unat (pos_fee_a_per_token_checkpoint pos)) div 2 ^ 128"
    "unat b = unat (pos_fee_b_pending pos) +
       pos_liquidity pos * (unat Gb - unat (pos_fee_b_per_token_checkpoint pos)) div 2 ^ 128"
    "0 < pos_liquidity pos \<Longrightarrow> pos_fee_a_per_token_checkpoint pos \<le> Ga \<and> pos_fee_b_per_token_checkpoint pos \<le> Gb"
proof -
  obtain l where l: "get_total_liquidity pos = Inr l" "unat l = pos_liquidity pos"
    using assms by (auto simp: update_fee_def bindr_eq_Inr get_total_liquidity_eq_Inr)
  show ?thesis
  proof (cases "0 < l")
    case True
    then obtain a b where "pos_fee_a_per_token_checkpoint pos \<le> Ga" "pos_fee_b_per_token_checkpoint pos \<le> Gb"
      "unat a = unat (pos_fee_a_pending pos) +
         unat l * (unat Ga - unat (pos_fee_a_per_token_checkpoint pos)) div 2 ^ 128"
      "unat b = unat (pos_fee_b_pending pos) +
         unat l * (unat Gb - unat (pos_fee_b_per_token_checkpoint pos)) div 2 ^ 128"
      "pos' = pos\<lparr> pos_fee_a_pending := a, pos_fee_b_pending := b,
              pos_fee_a_per_token_checkpoint := Ga, pos_fee_b_per_token_checkpoint := Gb \<rparr>"
      using assms l(1) by (auto simp: update_fee_def accrual_eq_Inr LIQUIDITY_SCALE_def)
    then show ?thesis using that l(2) by auto
  next
    case False
    then have "l = 0" by (simp add: word_neq_0_conv [symmetric])
    then have "pos_liquidity pos = 0" and
      "pos' = pos\<lparr> pos_fee_a_pending := pos_fee_a_pending pos, pos_fee_b_pending := pos_fee_b_pending pos,
              pos_fee_a_per_token_checkpoint := Ga, pos_fee_b_per_token_checkpoint := Gb \<rparr>"
      using assms l by (simp_all add: update_fee_def)
    then show ?thesis using that [of "pos_fee_b_pending pos" "pos_fee_a_pending pos"] by simp
  qed
qed

lemma uri_update_rewards_frame:
  assumes "uri_update_rewards uri L G = Inr uri'"
  obtains p where
    "uri' = uri\<lparr> uri_reward_pendings := p, uri_reward_per_token_checkpoint := G \<rparr>"
    "unat p = unat (uri_reward_pendings uri) +
       unat L * (unat G - unat (uri_reward_per_token_checkpoint uri)) div 2 ^ 192"
    "uri_reward_per_token_checkpoint uri \<le> G"
  using assms that unfolding uri_update_rewards_def accrual_eq_Inr
  by (auto simp: TOTAL_REWARD_SCALE_def)

text \<open>The three accumulators are instances of the contract.\<close>

definition settle_fee_a :: "nat \<Rightarrow> position \<Rightarrow> position \<Rightarrow> bool" where
  "settle_fee_a G pos pos' \<longleftrightarrow> (\<exists>Ga Gb. unat Ga = G \<and> update_fee pos Ga Gb = Inr pos')"

definition settle_fee_b :: "nat \<Rightarrow> position \<Rightarrow> position \<Rightarrow> bool" where
  "settle_fee_b G pos pos' \<longleftrightarrow> (\<exists>Ga Gb. unat Gb = G \<and> update_fee pos Ga Gb = Inr pos')"

definition settle_reward :: "nat \<Rightarrow> u128 \<times> user_reward_info \<Rightarrow> u128 \<times> user_reward_info \<Rightarrow> bool" where
  "settle_reward G s s' \<longleftrightarrow>
     fst s' = fst s \<and> (\<exists>g. unat g = G \<and> uri_update_rewards (snd s) (fst s) g = Inr (snd s'))"

lemma pos_liquidity_simps [simp]:
  "pos_liquidity (pos\<lparr> pos_fee_a_pending := a \<rparr>) = pos_liquidity pos"
  "pos_liquidity (pos\<lparr> pos_fee_b_pending := b \<rparr>) = pos_liquidity pos"
  "pos_liquidity (pos\<lparr> pos_fee_a_per_token_checkpoint := Ga \<rparr>) = pos_liquidity pos"
  "pos_liquidity (pos\<lparr> pos_fee_b_per_token_checkpoint := Gb \<rparr>) = pos_liquidity pos"
  "pos_liquidity (pos\<lparr> pos_metrics := m \<rparr>) = pos_liquidity pos"
  "pos_liquidity (pos\<lparr> pos_reward_infos := r \<rparr>) = pos_liquidity pos"
  by (simp_all add: pos_liquidity_def)

interpretation fee_a: growth_checkpoint 128 pos_liquidity
  "\<lambda>pos. unat (pos_fee_a_per_token_checkpoint pos)" "\<lambda>pos. unat (pos_fee_a_pending pos)" settle_fee_a
  by unfold_locales (auto simp: settle_fee_a_def word_le_nat_alt elim!: update_fee_frame)

interpretation fee_b: growth_checkpoint 128 pos_liquidity
  "\<lambda>pos. unat (pos_fee_b_per_token_checkpoint pos)" "\<lambda>pos. unat (pos_fee_b_pending pos)" settle_fee_b
  by unfold_locales (auto simp: settle_fee_b_def word_le_nat_alt elim!: update_fee_frame)

interpretation reward: growth_checkpoint 192 "\<lambda>s. unat (fst s)"
  "\<lambda>s. unat (uri_reward_per_token_checkpoint (snd s))" "\<lambda>s. unat (uri_reward_pendings (snd s))" settle_reward
  by unfold_locales (auto simp: settle_reward_def word_le_nat_alt elim!: uri_update_rewards_frame)

end
