(* ===== verification/PoolPosition.thy ===== *)
theory PoolPosition
  imports Pool Position
begin

text \<open>
  The methods that work on a pool and its positions together: those of
  \<open>state/position.rs\<close> that take a pool and those of \<open>state/pool.rs\<close> that take positions.
  An operation returns every account it writes.
\<close>

section \<open>The code\<close>

definition pos_initialize :: "position \<Rightarrow> pool \<Rightarrow> pubkey \<Rightarrow> pubkey \<Rightarrow> u128 \<Rightarrow> position \<times> pool" where
  "pos_initialize pos pool_state p_key nft_mint liquidity =
     (pos\<lparr> pos_pool := p_key, pos_nft_mint := nft_mint, pos_unlocked_liquidity := liquidity \<rparr>,
      pool_state\<lparr> pool_metrics := increase_position (pool_metrics pool_state) \<rparr>)"

text \<open>The body of the loop over the reward indices, for one index.\<close>

definition update_position_reward_at :: "reward_info \<Rightarrow> u128 \<Rightarrow> user_reward_info \<Rightarrow> user_reward_info result" where
  "update_position_reward_at pool_reward_info position_liquidity uri =
     (if ri_is_initialized pool_reward_info
      then uri_update_rewards uri position_liquidity (ri_reward_per_token_stored pool_reward_info)
      else Inr uri)"

definition update_position_reward :: "position \<Rightarrow> pool \<Rightarrow> position result" where
  "update_position_reward pos p =
     bindr (get_total_liquidity pos) (\<lambda>position_liquidity.
     bindr (update_position_reward_at (elem0 (pool_reward_infos p)) position_liquidity
              (elem0 (pos_reward_infos pos))) (\<lambda>u0.
     bindr (update_position_reward_at (elem1 (pool_reward_infos p)) position_liquidity
              (elem1 (pos_reward_infos pos))) (\<lambda>u1.
     Inr (pos\<lparr> pos_reward_infos := Array2 u0 u1 \<rparr>))))"

definition pos_update_rewards :: "position \<Rightarrow> pool \<Rightarrow> u64 \<Rightarrow> (position \<times> pool) result" where
  "pos_update_rewards pos p current_time =
     (if pool_reward_initialized p
      then bindr (pool_update_rewards p current_time) (\<lambda>p.
           bindr (update_position_reward pos p) (\<lambda>pos.
           Inr (pos, p)))
      else Inr (pos, p))"

definition apply_add_liquidity :: "pool \<Rightarrow> position \<Rightarrow> u128 \<Rightarrow> (pool \<times> position) result" where
  "apply_add_liquidity p pos liquidity_delta =
     bindr (update_fee pos (pool_fee_a_per_liquidity p) (pool_fee_b_per_liquidity p)) (\<lambda>pos.
     bindr (pos_add_liquidity pos liquidity_delta) (\<lambda>pos.
     bindr (safe_add (pool_liquidity p) liquidity_delta) (\<lambda>l.
     Inr (p\<lparr> pool_liquidity := l \<rparr>, pos))))"

definition apply_remove_liquidity :: "pool \<Rightarrow> position \<Rightarrow> u128 \<Rightarrow> (pool \<times> position) result" where
  "apply_remove_liquidity p pos liquidity_delta =
     bindr (update_fee pos (pool_fee_a_per_liquidity p) (pool_fee_b_per_liquidity p)) (\<lambda>pos.
     bindr (remove_unlocked_liquidity pos liquidity_delta) (\<lambda>pos.
     bindr (safe_sub (pool_liquidity p) liquidity_delta) (\<lambda>l.
     Inr (p\<lparr> pool_liquidity := l \<rparr>, pos))))"

record split_amount_info =
  si_permanent_locked_liquidity :: u128
  si_unlocked_liquidity :: u128
  si_fee_a :: u64
  si_fee_b :: u64
  si_reward_0 :: u64
  si_reward_1 :: u64

text \<open>The four parts of \<open>apply_split_position\<close>, each returning both positions and the amounts moved.\<close>

definition split_unlocked :: "position \<Rightarrow> position \<Rightarrow> u32 \<Rightarrow> (position \<times> position \<times> u128) result" where
  "split_unlocked first_position second_position numerator =
     (if 0 < numerator
      then bindr (get_unlocked_liquidity_by_numerator first_position numerator) (\<lambda>delta.
           bindr (remove_unlocked_liquidity first_position delta) (\<lambda>first_position.
           bindr (pos_add_liquidity second_position delta) (\<lambda>second_position.
           Inr (first_position, second_position, delta))))
      else Inr (first_position, second_position, 0))"

definition split_permanent :: "position \<Rightarrow> position \<Rightarrow> u32 \<Rightarrow> (position \<times> position \<times> u128) result" where
  "split_permanent first_position second_position numerator =
     (if 0 < numerator
      then bindr (get_permanent_locked_liquidity_by_numerator first_position numerator) (\<lambda>delta.
           bindr (remove_permanent_locked_liquidity first_position delta) (\<lambda>first_position.
           bindr (add_permanent_locked_liquidity second_position delta) (\<lambda>second_position.
           Inr (first_position, second_position, delta))))
      else Inr (first_position, second_position, 0))"

definition split_fees :: "position \<Rightarrow> position \<Rightarrow> u32 \<Rightarrow> u32 \<Rightarrow> (position \<times> position \<times> u64 \<times> u64) result" where
  "split_fees first_position second_position fee_a_numerator fee_b_numerator =
     (if 0 < fee_a_numerator \<or> 0 < fee_b_numerator
      then bindr (get_pending_fee_by_numerator first_position fee_a_numerator fee_b_numerator) (\<lambda>s.
           bindr (remove_fee_pending first_position (sfa_fee_a_amount s) (sfa_fee_b_amount s)) (\<lambda>first_position.
           bindr (add_fee_pending second_position (sfa_fee_a_amount s) (sfa_fee_b_amount s)) (\<lambda>second_position.
           Inr (first_position, second_position, sfa_fee_a_amount s, sfa_fee_b_amount s))))
      else Inr (first_position, second_position, 0, 0))"

definition split_reward ::
  "pool \<Rightarrow> nat \<Rightarrow> position \<Rightarrow> position \<Rightarrow> u32 \<Rightarrow> (position \<times> position \<times> u64) result" where
  "split_reward p reward_index first_position second_position numerator =
     (if 0 < numerator
      then bindr (arr_get (pool_reward_infos p) reward_index) (\<lambda>pool_reward_info.
           if ri_is_initialized pool_reward_info
           then bindr (get_pending_reward_by_numerator first_position reward_index numerator) (\<lambda>amount.
                bindr (remove_reward_pending first_position reward_index amount) (\<lambda>first_position.
                bindr (add_reward_pending second_position reward_index amount) (\<lambda>second_position.
                Inr (first_position, second_position, amount))))
           else Inr (first_position, second_position, 0))
      else Inr (first_position, second_position, 0))"

definition apply_split_position ::
  "pool \<Rightarrow> position \<Rightarrow> position \<Rightarrow> u32 \<Rightarrow> u32 \<Rightarrow> u32 \<Rightarrow> u32 \<Rightarrow> u32 \<Rightarrow> u32 \<Rightarrow>
   (position \<times> position \<times> split_amount_info) result" where
  "apply_split_position p first_position second_position unlocked_liquidity_numerator
     permanent_locked_liquidity_numerator fee_a_numerator fee_b_numerator reward_0_numerator
     reward_1_numerator =
     bindr (update_fee first_position (pool_fee_a_per_liquidity p) (pool_fee_b_per_liquidity p)) (\<lambda>first_position.
     bindr (update_fee second_position (pool_fee_a_per_liquidity p) (pool_fee_b_per_liquidity p)) (\<lambda>second_position.
     bindr (split_unlocked first_position second_position unlocked_liquidity_numerator)
       (\<lambda>(first_position, second_position, unlocked_split).
     bindr (split_permanent first_position second_position permanent_locked_liquidity_numerator)
       (\<lambda>(first_position, second_position, permanent_split).
     bindr (split_fees first_position second_position fee_a_numerator fee_b_numerator)
       (\<lambda>(first_position, second_position, fee_a_split, fee_b_split).
     bindr (if pool_reward_initialized p
            then bindr (split_reward p REWARD_INDEX_0 first_position second_position reward_0_numerator)
                   (\<lambda>(first_position, second_position, reward_0_split).
                 bindr (split_reward p REWARD_INDEX_1 first_position second_position reward_1_numerator)
                   (\<lambda>(first_position, second_position, reward_1_split).
                 Inr (first_position, second_position, reward_0_split, reward_1_split)))
            else Inr (first_position, second_position, 0, 0))
       (\<lambda>(first_position, second_position, reward_0_split, reward_1_split).
     Inr (first_position, second_position,
          \<lparr> si_permanent_locked_liquidity = permanent_split, si_unlocked_liquidity = unlocked_split,
            si_fee_a = fee_a_split, si_fee_b = fee_b_split, si_reward_0 = reward_0_split,
            si_reward_1 = reward_1_split \<rparr>)))))))"

lemmas pool_position_eval =
  pos_initialize_def update_position_reward_at_def update_position_reward_def pos_update_rewards_def
  apply_add_liquidity_def apply_remove_liquidity_def split_unlocked_def split_permanent_def
  split_fees_def split_reward_def apply_split_position_def REWARD_INDEX_0_def REWARD_INDEX_1_def
  position_eval pool_eval

section \<open>Adding and removing liquidity\<close>

lemma apply_add_liquidity_frame:
  assumes "apply_add_liquidity p pos d = Inr (p', pos')"
  obtains l pos1 u where
    "update_fee pos (pool_fee_a_per_liquidity p) (pool_fee_b_per_liquidity p) = Inr pos1"
    "pos' = pos1\<lparr> pos_unlocked_liquidity := u \<rparr>" "p' = p\<lparr> pool_liquidity := l \<rparr>"
    "unat u = unat (pos_unlocked_liquidity pos1) + unat d" "unat l = unat (pool_liquidity p) + unat d"
  using assms
  by (auto simp: apply_add_liquidity_def bindr_eq_Inr pos_add_liquidity_eq_Inr safe_add_eq_Inr)

lemma apply_remove_liquidity_frame:
  assumes "apply_remove_liquidity p pos d = Inr (p', pos')"
  obtains l pos1 u where
    "update_fee pos (pool_fee_a_per_liquidity p) (pool_fee_b_per_liquidity p) = Inr pos1"
    "pos' = pos1\<lparr> pos_unlocked_liquidity := u \<rparr>" "p' = p\<lparr> pool_liquidity := l \<rparr>"
    "unat (pos_unlocked_liquidity pos1) = unat d + unat u" "unat (pool_liquidity p) = unat d + unat l"
  using assms
  by (auto simp: apply_remove_liquidity_def bindr_eq_Inr remove_unlocked_liquidity_eq_Inr safe_sub_eq_Inr)

lemma update_fee_liquidity:
  assumes "update_fee pos Ga Gb = Inr pos'"
  shows "pos_liquidity pos' = pos_liquidity pos" "pos_unlocked_liquidity pos' = pos_unlocked_liquidity pos"
    "pos_vested_liquidity pos' = pos_vested_liquidity pos"
    "pos_permanent_locked_liquidity pos' = pos_permanent_locked_liquidity pos"
    "pos_reward_infos pos' = pos_reward_infos pos" "pos_pool pos' = pos_pool pos"
    "pos_nft_mint pos' = pos_nft_mint pos" "pos_metrics pos' = pos_metrics pos"
    "pos_fee_a_per_token_checkpoint pos' = Ga" "pos_fee_b_per_token_checkpoint pos' = Gb"
  by (rule update_fee_frame [OF assms]; simp)+

lemma add_liquidity_totals:
  assumes "apply_add_liquidity p pos d = Inr (p', pos')"
  shows "unat (pool_liquidity p') = unat (pool_liquidity p) + unat d"
    and "pos_liquidity pos' = pos_liquidity pos + unat d"
  by (rule apply_add_liquidity_frame [OF assms];
      use update_fee_liquidity in \<open>fastforce simp: pos_liquidity_def\<close>)+

lemma remove_liquidity_totals:
  assumes "apply_remove_liquidity p pos d = Inr (p', pos')"
  shows "unat (pool_liquidity p) = unat (pool_liquidity p') + unat d"
    and "pos_liquidity pos = pos_liquidity pos' + unat d"
  by (rule apply_remove_liquidity_frame [OF assms];
      use update_fee_liquidity in \<open>fastforce simp: pos_liquidity_def\<close>)+

section \<open>Amounts for a change of liquidity\<close>

lemma get_amounts_exact:
  assumes "get_amounts_for_modify_liquidity p d rnd = Inr m"
  defines "P \<equiv> unat (pool_sqrt_price p)"
  shows "unat (ml_token_a_amount m) =
           rdiv rnd (unat d * (unat (pool_sqrt_max_price p) - P)) (P * unat (pool_sqrt_max_price p))"
    and "unat (ml_token_b_amount m) = rdiv rnd (unat d * (P - unat (pool_sqrt_min_price p))) (2 ^ 128)"
    and "unat (pool_sqrt_min_price p) \<le> P" "P \<le> unat (pool_sqrt_max_price p)" "0 < P"
  using assms
  by (auto simp: get_amounts_for_modify_liquidity_def bindr_eq_Inr delta_a_eq_Inr delta_b_eq_Inr
      word_le_nat_alt word_pos)

section \<open>Splitting\<close>

definition same_reward_checkpoints :: "position \<Rightarrow> position \<Rightarrow> bool" where
  "same_reward_checkpoints pos pos' \<longleftrightarrow>
     uri_reward_per_token_checkpoint (elem0 (pos_reward_infos pos')) = uri_reward_per_token_checkpoint (elem0 (pos_reward_infos pos)) \<and>
     uri_reward_per_token_checkpoint (elem1 (pos_reward_infos pos')) = uri_reward_per_token_checkpoint (elem1 (pos_reward_infos pos))"

definition same_totals :: "position \<Rightarrow> position \<Rightarrow> position \<Rightarrow> position \<Rightarrow> bool" where
  "same_totals f s f' s' \<longleftrightarrow>
     unat (pos_unlocked_liquidity f') + unat (pos_unlocked_liquidity s') =
       unat (pos_unlocked_liquidity f) + unat (pos_unlocked_liquidity s) \<and>
     unat (pos_permanent_locked_liquidity f') + unat (pos_permanent_locked_liquidity s') =
       unat (pos_permanent_locked_liquidity f) + unat (pos_permanent_locked_liquidity s) \<and>
     pos_vested_liquidity f' = pos_vested_liquidity f \<and> pos_vested_liquidity s' = pos_vested_liquidity s \<and>
     unat (pos_fee_a_pending f') + unat (pos_fee_a_pending s') =
       unat (pos_fee_a_pending f) + unat (pos_fee_a_pending s) \<and>
     unat (pos_fee_b_pending f') + unat (pos_fee_b_pending s') =
       unat (pos_fee_b_pending f) + unat (pos_fee_b_pending s) \<and>
     unat (uri_reward_pendings (elem0 (pos_reward_infos f'))) + unat (uri_reward_pendings (elem0 (pos_reward_infos s'))) =
       unat (uri_reward_pendings (elem0 (pos_reward_infos f))) + unat (uri_reward_pendings (elem0 (pos_reward_infos s))) \<and>
     unat (uri_reward_pendings (elem1 (pos_reward_infos f'))) + unat (uri_reward_pendings (elem1 (pos_reward_infos s'))) =
       unat (uri_reward_pendings (elem1 (pos_reward_infos f))) + unat (uri_reward_pendings (elem1 (pos_reward_infos s))) \<and>
     pos_fee_a_per_token_checkpoint f' = pos_fee_a_per_token_checkpoint f \<and>
     pos_fee_b_per_token_checkpoint f' = pos_fee_b_per_token_checkpoint f \<and>
     pos_fee_a_per_token_checkpoint s' = pos_fee_a_per_token_checkpoint s \<and>
     pos_fee_b_per_token_checkpoint s' = pos_fee_b_per_token_checkpoint s \<and>
     same_reward_checkpoints f f' \<and> same_reward_checkpoints s s'"

lemma same_totals_refl: "same_totals f s f s"
  by (simp add: same_totals_def same_reward_checkpoints_def)

lemma same_totals_trans: "same_totals f s f1 s1 \<Longrightarrow> same_totals f1 s1 f2 s2 \<Longrightarrow> same_totals f s f2 s2"
  by (simp add: same_totals_def same_reward_checkpoints_def)

lemma split_unlocked_totals: "split_unlocked f s n = Inr (f', s', d) \<Longrightarrow> same_totals f s f' s'"
  by (auto simp: split_unlocked_def same_totals_def same_reward_checkpoints_def bindr_eq_Inr pos_add_liquidity_eq_Inr
      remove_unlocked_liquidity_eq_Inr split: if_splits)

lemma split_permanent_totals: "split_permanent f s n = Inr (f', s', d) \<Longrightarrow> same_totals f s f' s'"
  by (auto simp: split_permanent_def same_totals_def same_reward_checkpoints_def bindr_eq_Inr remove_permanent_locked_liquidity_def
      add_permanent_locked_liquidity_def safe_sub_eq_Inr safe_add_eq_Inr split: if_splits)

lemma split_fees_totals: "split_fees f s n m = Inr (f', s', a, b) \<Longrightarrow> same_totals f s f' s'"
  by (auto simp: split_fees_def same_totals_def same_reward_checkpoints_def bindr_eq_Inr remove_fee_pending_def add_fee_pending_def
      safe_sub_eq_Inr safe_add_eq_Inr split: if_splits)

lemma split_reward_totals: "split_reward p i f s n = Inr (f', s', r) \<Longrightarrow> same_totals f s f' s'"
  by (auto simp: split_reward_def same_totals_def same_reward_checkpoints_def bindr_eq_Inr remove_reward_pending_def add_reward_pending_def
      safe_sub_eq_Inr safe_add_eq_Inr arr_get_eq_Inr split: if_splits)

lemma apply_split_position_totals:
  assumes "apply_split_position p f s n1 n2 n3 n4 n5 n6 = Inr (f', s', info)"
  obtains f1 s1 where "update_fee f (pool_fee_a_per_liquidity p) (pool_fee_b_per_liquidity p) = Inr f1"
    and "update_fee s (pool_fee_a_per_liquidity p) (pool_fee_b_per_liquidity p) = Inr s1"
    and "same_totals f1 s1 f' s'"
  using assms
  by (auto simp: apply_split_position_def bindr_eq_Inr split: if_splits
      dest!: split_unlocked_totals split_permanent_totals split_fees_totals split_reward_totals)
    (metis same_totals_trans)+

end
