(* ===== verification/Market.thy ===== *)
theory Market
  imports Complex_Main Pool
begin

text \<open>
  What the pool promises a trader and its liquidity providers: the contract of a market
  with two reserves, stated as a locale, and the laws of it for the swap of the pool
  (the part of \<open>ix_swap.rs\<close> between the transfer fees: \<open>update_pre_swap\<close>, \<open>get_fee_mode\<close>,
  \<open>get_swap_result\<close> and \<open>apply_swap_result\<close>); the locale is interpreted on the instruction
  in SwapHandler. Reserves are the real numbers the curve stands for:
  \<open>L / P\<close> of token A and \<open>L * P / 2 ^ 128\<close> of token B, up to the constants of the price range.
\<close>

section \<open>The contract\<close>

text \<open>
  A history of a market, given by its trade relation, lists direction, input and output of
  each trade; then what the traders paid and got in all trades of a direction.
\<close>

fun trades ::
  "(trade_direction \<Rightarrow> 's \<Rightarrow> nat \<Rightarrow> nat \<Rightarrow> 's \<Rightarrow> bool) \<Rightarrow> 's \<Rightarrow> (trade_direction \<times> nat \<times> nat) list \<Rightarrow> 's \<Rightarrow> bool" where
  "trades trade s [] s' \<longleftrightarrow> s' = s"
| "trades trade s ((d, x, y) # ts) s'' \<longleftrightarrow> (\<exists>s'. trade d s x y s' \<and> trades trade s' ts s'')"

fun paid :: "trade_direction \<Rightarrow> (trade_direction \<times> nat \<times> nat) list \<Rightarrow> nat" where
  "paid d [] = 0"
| "paid d ((d', x, y) # ts) = (if d' = d then x else 0) + paid d ts"

fun got :: "trade_direction \<Rightarrow> (trade_direction \<times> nat \<times> nat) list \<Rightarrow> nat" where
  "got d [] = 0"
| "got d ((d', x, y) # ts) = (if d' = d then y else 0) + got d ts"

locale two_sided_market =
  fixes trade :: "trade_direction \<Rightarrow> 's \<Rightarrow> nat \<Rightarrow> nat \<Rightarrow> 's \<Rightarrow> bool"
    and reserve_a reserve_b :: "'s \<Rightarrow> real"
    and same_curve :: "'s \<Rightarrow> 's \<Rightarrow> bool"
  assumes sell_a: "trade AtoB s x y s' \<Longrightarrow>
      reserve_a s' \<le> reserve_a s + real x \<and> reserve_b s' \<le> reserve_b s - real y"
    and sell_b: "trade BtoA s x y s' \<Longrightarrow>
      reserve_b s' \<le> reserve_b s + real x \<and> reserve_a s' \<le> reserve_a s - real y"
    and trade_curve: "trade d s x y s' \<Longrightarrow> same_curve s s'"
    and curve_trans: "same_curve s s' \<Longrightarrow> same_curve s' s'' \<Longrightarrow> same_curve s s''"
    and trade_off: "same_curve s s' \<Longrightarrow>
      (reserve_a s' < reserve_a s \<longleftrightarrow> reserve_b s < reserve_b s') \<and>
      (reserve_b s' < reserve_b s \<longleftrightarrow> reserve_a s < reserve_a s')"
begin

lemma trades_curve: "trades trade s ts s' \<Longrightarrow> ts \<noteq> [] \<Longrightarrow> same_curve s s'"
proof (induction ts arbitrary: s)
  case (Cons t ts)
  obtain d x y where t: "t = (d, x, y)" by (cases t)
  then obtain s1 where s1: "trade d s x y s1" "trades trade s1 ts s'" using Cons.prems by auto
  show ?case
  proof (cases "ts = []")
    case True
    then show ?thesis using s1 trade_curve by simp
  next
    case False
    then show ?thesis using Cons.IH [OF s1(2)] trade_curve [OF s1(1)] curve_trans by blast
  qed
qed simp

lemma trades_reserves:
  "trades trade s ts s' \<Longrightarrow>
     reserve_a s' \<le> reserve_a s + real (paid AtoB ts) - real (got BtoA ts) \<and>
     reserve_b s' \<le> reserve_b s + real (paid BtoA ts) - real (got AtoB ts)"
proof (induction ts arbitrary: s)
  case (Cons t ts)
  obtain d x y where t: "t = (d, x, y)" by (cases t)
  then obtain s1 where s1: "trade d s x y s1" "trades trade s1 ts s'" using Cons.prems by auto
  note IH = Cons.IH [OF s1(2)]
  show ?case
  proof (cases d)
    case AtoB
    then show ?thesis using sell_a [of s x y s1] s1(1) IH t by simp
  next
    case BtoA
    then show ?thesis using sell_b [of s x y s1] s1(1) IH t by simp
  qed
qed simp

text \<open>
  However the trades are ordered and sized, whoever made them has not gained in one token
  without paying for it in the other.
\<close>

theorem no_free_lunch:
  assumes "trades trade s ts s'"
  shows "paid AtoB ts < got BtoA ts \<Longrightarrow> got AtoB ts < paid BtoA ts"
    and "paid BtoA ts < got AtoB ts \<Longrightarrow> got BtoA ts < paid AtoB ts"
proof -
  note r = trades_reserves [OF assms]
  show "got AtoB ts < paid BtoA ts" if lt: "paid AtoB ts < got BtoA ts"
  proof -
    have "ts \<noteq> []" using lt by auto
    moreover have "reserve_a s' < reserve_a s" using r lt by linarith
    ultimately have "reserve_b s < reserve_b s'" using trade_off trades_curve [OF assms] by blast
    then show ?thesis using r by linarith
  qed
  show "got BtoA ts < paid AtoB ts" if lt: "paid BtoA ts < got AtoB ts"
  proof -
    have "ts \<noteq> []" using lt by auto
    moreover have "reserve_b s' < reserve_b s" using r lt by linarith
    ultimately have "reserve_a s < reserve_a s'" using trade_off trades_curve [OF assms] by blast
    then show ?thesis using r by linarith
  qed
qed

lemma round_trip_from_a:
  assumes "trade AtoB s x y s1" and "trade BtoA s1 y' z s2" and "y' \<le> y"
  shows "z \<le> x"
  using no_free_lunch(1) [of s "[(AtoB, x, y), (BtoA, y', z)]" s2] assms by fastforce

lemma round_trip_from_b:
  assumes "trade BtoA s x y s1" and "trade AtoB s1 y' z s2" and "y' \<le> y"
  shows "z \<le> x"
  using no_free_lunch(2) [of s "[(BtoA, x, y), (AtoB, y', z)]" s2] assms by fastforce

end

section \<open>The pool as a market\<close>

definition curve_reserve_a :: "pool \<Rightarrow> real" where
  "curve_reserve_a p = real (unat (pool_liquidity p)) / real (unat (pool_sqrt_price p))"

definition curve_reserve_b :: "pool \<Rightarrow> real" where
  "curve_reserve_b p = real (unat (pool_liquidity p)) * real (unat (pool_sqrt_price p)) / 2 ^ 128"

text \<open>Rounded quotients against the exact ones.\<close>

lemma rdiv_real:
  assumes "0 < b"
  shows "real (rdiv Down x b) \<le> real x / real b" "real x / real b < real (rdiv Down x b) + 1"
    "real x / real b \<le> real (rdiv Up x b)" "real (rdiv Up x b) < real x / real b + 1"
proof -
  have b: "0 < real b" using assms by simp
  have "x div b * b \<le> x" "x < (x div b + 1) * b" using assms by (simp_all add: dividend_less_div_times)
  then have "real (x div b) * real b \<le> real x" "real x < (real (x div b) + 1) * real b"
    by (metis of_nat_le_iff of_nat_mult, metis of_nat_less_iff of_nat_mult of_nat_add of_nat_1)
  then show "real (rdiv Down x b) \<le> real x / real b" "real x / real b < real (rdiv Down x b) + 1"
    using b by (simp_all add: pos_le_divide_eq pos_divide_less_eq)
  have "x \<le> cdiv x b * b" "cdiv x b * b < x + b" using le_cdiv_mult [OF assms] cdiv_less [OF assms] by blast+
  then have "real x \<le> real (cdiv x b) * real b" "real (cdiv x b) * real b < real x + real b"
    by (metis of_nat_le_iff of_nat_mult, metis of_nat_less_iff of_nat_mult of_nat_add)
  then have "real x / real b \<le> real (cdiv x b)" "real (cdiv x b) < (real x + real b) / real b"
    using b by (simp_all add: pos_divide_le_eq pos_less_divide_eq)
  then show "real x / real b \<le> real (rdiv Up x b)" "real (rdiv Up x b) < real x / real b + 1"
    using b by (simp_all add: add_divide_distrib)
qed

lemma div_le_real: "real (a div b) \<le> real a / real b"
  by (rule of_nat_div_le_of_nat)

lemma a_to_b_reserves:
  assumes "get_swap_result_from_a_to_b p amount_in = Inr sa"
  shows "curve_reserve_a (p\<lparr> pool_sqrt_price := sa_next_sqrt_price sa \<rparr>) \<le> curve_reserve_a p + real (unat amount_in)"
    and "curve_reserve_b (p\<lparr> pool_sqrt_price := sa_next_sqrt_price sa \<rparr>) \<le> curve_reserve_b p - real (unat (sa_output_amount sa))"
proof -
  define L P P' a where "L = unat (pool_liquidity p)" and "P = unat (pool_sqrt_price p)"
    and "P' = unat (sa_next_sqrt_price sa)" and "a = unat amount_in"
  note defs = L_def P_def P'_def a_def
  note x = swap_a_to_b_exact [OF assms, folded defs]
  have "L * (P - P') \<le> a * (P' * P)"
    unfolding x(3) by (rule next_a_pays) (rule x(1))
  then have "real (L * (P - P')) \<le> real (a * (P' * P))" by (simp only: of_nat_le_iff)
  then have le: "real L * (real P - real P') \<le> real a * (real P' * real P)"
    using x(5) by (simp add: of_nat_diff)
  have "real L / real P' - real L / real P = real L * (real P - real P') / (real P' * real P)"
    using x(2,6) by (simp add: field_simps)
  also have "\<dots> \<le> real a" using le x(2,6) by (simp add: divide_le_eq)
  finally show "curve_reserve_a (p\<lparr> pool_sqrt_price := sa_next_sqrt_price sa \<rparr>) \<le> curve_reserve_a p + real (unat amount_in)"
    by (simp add: curve_reserve_a_def flip: defs)
  have "real (L * (P - P') div 2 ^ 128) \<le> real L * (real P - real P') / 2 ^ 128"
    using div_le_real [of "L * (P - P')" "2 ^ 128"] x(5) by (simp add: of_nat_diff)
  then show "curve_reserve_b (p\<lparr> pool_sqrt_price := sa_next_sqrt_price sa \<rparr>) \<le> curve_reserve_b p - real (unat (sa_output_amount sa))"
    unfolding x(7) by (simp add: curve_reserve_b_def diff_divide_distrib right_diff_distrib flip: defs)
qed

lemma b_to_a_reserves:
  assumes "get_swap_result_from_b_to_a p amount_in = Inr sa"
  shows "curve_reserve_b (p\<lparr> pool_sqrt_price := sa_next_sqrt_price sa \<rparr>) \<le> curve_reserve_b p + real (unat amount_in)"
    and "curve_reserve_a (p\<lparr> pool_sqrt_price := sa_next_sqrt_price sa \<rparr>) \<le> curve_reserve_a p - real (unat (sa_output_amount sa))"
proof -
  define L P P' b where "L = unat (pool_liquidity p)" and "P = unat (pool_sqrt_price p)"
    and "P' = unat (sa_next_sqrt_price sa)" and "b = unat amount_in"
  note defs = L_def P_def P'_def b_def
  note x = swap_b_to_a_exact [OF assms, folded defs]
  have "L * (P' - P) \<le> b * 2 ^ 128" unfolding x(3) using next_b_pays [of L b] by simp
  then have "real (L * (P' - P)) \<le> real (b * 2 ^ 128)" by (simp only: of_nat_le_iff)
  then have "real L * (real P' - real P) \<le> real b * 2 ^ 128"
    using x(5) by (simp add: of_nat_diff)
  then show "curve_reserve_b (p\<lparr> pool_sqrt_price := sa_next_sqrt_price sa \<rparr>) \<le> curve_reserve_b p + real (unat amount_in)"
    by (simp add: curve_reserve_b_def field_simps flip: defs)
  have "real (L * (P' - P) div (P * P')) \<le> real L * (real P' - real P) / (real P * real P')"
    using div_le_real [of "L * (P' - P)" "P * P'"] x(5) by (simp add: of_nat_diff)
  also have "\<dots> = real L / real P - real L / real P'"
    using x(2,5) by (simp add: field_simps)
  finally show "curve_reserve_a (p\<lparr> pool_sqrt_price := sa_next_sqrt_price sa \<rparr>) \<le> curve_reserve_a p - real (unat (sa_output_amount sa))"
    unfolding x(6) by (simp add: curve_reserve_a_def flip: defs)
qed

text \<open>
  One swap on the pool, the part of \<open>handle_swap\<close> between the transfer fee of the input and the
  transfers: the references of the dynamic fee, the fee mode, the result, and its application. The
  referral account, the point and the time are those of the transaction. The instruction
  checks the slippage before it applies the result, which can only refuse the swap.
\<close>

definition pool_swap ::
  "trade_direction \<Rightarrow> pool \<Rightarrow> u64 \<Rightarrow> bool \<Rightarrow> u64 \<Rightarrow> u64 \<Rightarrow> (pool \<times> swap_result) result" where
  "pool_swap direction p amount_in referral current_point current_timestamp =
     bindr (update_pre_swap p current_timestamp) (\<lambda>p.
     bindr (get_fee_mode (pool_collect_fee_mode p) direction referral) (\<lambda>fm.
     bindr (get_swap_result p amount_in fm direction current_point) (\<lambda>sr.
     bindr (apply_swap_result p sr fm current_timestamp) (\<lambda>p.
     Inr (p, sr)))))"

lemma update_pre_swap_frame:
  assumes "update_pre_swap p ts = Inr p'"
  obtains df where "p' = p\<lparr> pool_fees := (pool_fees p)\<lparr> pf_dynamic_fee := df \<rparr> \<rparr>"
    and "df_volatility_accumulator df = df_volatility_accumulator (pf_dynamic_fee (pool_fees p))"
    and "df_max_volatility_accumulator df = df_max_volatility_accumulator (pf_dynamic_fee (pool_fees p))"
proof (cases "is_dynamic_fee_enable (pf_dynamic_fee (pool_fees p))")
  case True
  then obtain df where df: "update_references (pf_dynamic_fee (pool_fees p)) (pool_sqrt_price p) ts = Inr df"
    and "p' = p\<lparr> pool_fees := (pool_fees p)\<lparr> pf_dynamic_fee := df \<rparr> \<rparr>"
    using assms by (auto simp: update_pre_swap_def Let_def bindr_eq_Inr)
  then show ?thesis using update_references_frame [OF df] that by blast
next
  case False
  then have "p' = p\<lparr> pool_fees := (pool_fees p)\<lparr> pf_dynamic_fee := pf_dynamic_fee (pool_fees p) \<rparr> \<rparr>"
    using assms by (simp add: update_pre_swap_def Let_def)
  then show ?thesis using that by blast
qed

lemma apply_swap_result_reserves:
  assumes "apply_swap_result p sr fm ts = Inr p'"
  shows "pool_sqrt_price p' = sr_next_sqrt_price sr" "pool_liquidity p' = pool_liquidity p"
  by (rule apply_swap_result_frame [OF assms]; simp)+

lemma pool_swap_reserves:
  assumes "pool_swap d p0 amount_in referral cp ts = Inr (p', sr)"
  defines "x \<equiv> unat amount_in" and "y \<equiv> unat (sr_output_amount sr)"
  shows "d = AtoB \<Longrightarrow> curve_reserve_a p' \<le> curve_reserve_a p0 + real x \<and> curve_reserve_b p' \<le> curve_reserve_b p0 - real y"
    and "d = BtoA \<Longrightarrow> curve_reserve_b p' \<le> curve_reserve_b p0 + real x \<and> curve_reserve_a p' \<le> curve_reserve_a p0 - real y"
    and "pool_liquidity p' = pool_liquidity p0"
    and "0 < pool_liquidity p0" and "0 < pool_sqrt_price p0" and "0 < pool_sqrt_price p'"
proof -
  obtain p fm where pre: "update_pre_swap p0 ts = Inr p" and sr: "get_swap_result p amount_in fm d cp = Inr sr"
    and p': "apply_swap_result p sr fm ts = Inr p'"
    using assms(1) by (auto simp: pool_swap_def bindr_eq_Inr)
  have same: "pool_liquidity p = pool_liquidity p0" "pool_sqrt_price p = pool_sqrt_price p0"
    by (rule update_pre_swap_frame [OF pre]; simp)+
  then have reserves: "curve_reserve_a p = curve_reserve_a p0" "curve_reserve_b p = curve_reserve_b p0"
    by (simp_all add: curve_reserve_a_def curve_reserve_b_def)
  obtain net sa where sa: "swap_step d p net = Inr sa" and next_price: "sr_next_sqrt_price sr = sa_next_sqrt_price sa"
    and on_in: "fees_on_input fm \<longrightarrow> unat amount_in = unat net + sr_total_fee sr \<and> sr_output_amount sr = sa_output_amount sa"
    and on_out: "\<not> fees_on_input fm \<longrightarrow> net = amount_in \<and>
           unat (sa_output_amount sa) = unat (sr_output_amount sr) + sr_total_fee sr"
    by (rule get_swap_result_split [OF sr])
  have net: "unat net \<le> x" and out: "y \<le> unat (sa_output_amount sa)"
    using on_in on_out unfolding x_def y_def by (metis le_add1 order_refl)+
  have eq: "curve_reserve_a p' = curve_reserve_a (p\<lparr> pool_sqrt_price := sa_next_sqrt_price sa \<rparr>)"
    "curve_reserve_b p' = curve_reserve_b (p\<lparr> pool_sqrt_price := sa_next_sqrt_price sa \<rparr>)"
    using apply_swap_result_reserves [OF p'] next_price
    by (simp_all add: curve_reserve_a_def curve_reserve_b_def)
  have le: "real (unat net) \<le> real x" "real y \<le> real (unat (sa_output_amount sa))"
    using net out by (simp_all only: of_nat_le_iff)
  show "curve_reserve_a p' \<le> curve_reserve_a p0 + real x \<and> curve_reserve_b p' \<le> curve_reserve_b p0 - real y" if "d = AtoB"
  proof -
    have "get_swap_result_from_a_to_b p net = Inr sa" using sa that by (simp add: swap_step_def)
    from a_to_b_reserves [OF this] le show ?thesis unfolding eq reserves by (intro conjI; linarith)
  qed
  show "curve_reserve_b p' \<le> curve_reserve_b p0 + real x \<and> curve_reserve_a p' \<le> curve_reserve_a p0 - real y" if "d = BtoA"
  proof -
    have "get_swap_result_from_b_to_a p net = Inr sa" using sa that by (simp add: swap_step_def)
    from b_to_a_reserves [OF this] le show ?thesis unfolding eq reserves by (intro conjI; linarith)
  qed
  show "pool_liquidity p' = pool_liquidity p0" using apply_swap_result_reserves(2) [OF p'] same(1) by simp
  have "0 < unat (pool_liquidity p) \<and> 0 < unat (pool_sqrt_price p) \<and> 0 < unat (sa_next_sqrt_price sa)"
  proof (cases d)
    case AtoB
    then show ?thesis using swap_a_to_b_exact [of p net sa] sa by (simp add: swap_step_def)
  next
    case BtoA
    then show ?thesis using swap_b_to_a_exact [of p net sa] sa by (simp add: swap_step_def)
  qed
  then show "0 < pool_liquidity p0" "0 < pool_sqrt_price p0" "0 < pool_sqrt_price p'"
    using apply_swap_result_reserves [OF p'] next_price same by (simp_all add: word_pos)
qed

text \<open>Two states of a pool with the same liquidity, both with a price.\<close>

definition same_liquidity :: "pool \<Rightarrow> pool \<Rightarrow> bool" where
  "same_liquidity p p' \<longleftrightarrow> pool_liquidity p' = pool_liquidity p \<and> 0 < unat (pool_liquidity p) \<and>
     0 < unat (pool_sqrt_price p) \<and> 0 < unat (pool_sqrt_price p')"

lemma reserves_by_price:
  assumes "same_liquidity p p'"
  shows "curve_reserve_a p' < curve_reserve_a p \<longleftrightarrow> unat (pool_sqrt_price p) < unat (pool_sqrt_price p')"
    and "curve_reserve_b p < curve_reserve_b p' \<longleftrightarrow> unat (pool_sqrt_price p) < unat (pool_sqrt_price p')"
proof -
  define L P P' where v: "L = unat (pool_liquidity p)" "P = unat (pool_sqrt_price p)" "P' = unat (pool_sqrt_price p')"
  then have pos: "0 < L" "0 < P" "0 < P'" and L': "pool_liquidity p' = pool_liquidity p"
    using assms by (simp_all add: same_liquidity_def)
  have "real L / real P' < real L / real P \<longleftrightarrow> real P < real P'"
    using pos by (simp add: frac_less_eq divide_less_cancel field_simps)
  then show "curve_reserve_a p' < curve_reserve_a p \<longleftrightarrow> unat (pool_sqrt_price p) < unat (pool_sqrt_price p')"
    by (simp add: curve_reserve_a_def L' flip: v)
  show "curve_reserve_b p < curve_reserve_b p' \<longleftrightarrow> unat (pool_sqrt_price p) < unat (pool_sqrt_price p')"
    using pos by (simp add: curve_reserve_b_def L' divide_less_cancel flip: v)
qed

lemma same_liquidity_trans: "same_liquidity p p'' \<Longrightarrow> same_liquidity p'' p' \<Longrightarrow> same_liquidity p p'"
  by (simp add: same_liquidity_def)

lemma reserves_trade_off:
  assumes "same_liquidity p p'"
  shows "(curve_reserve_a p' < curve_reserve_a p \<longleftrightarrow> curve_reserve_b p < curve_reserve_b p') \<and>
    (curve_reserve_b p' < curve_reserve_b p \<longleftrightarrow> curve_reserve_a p < curve_reserve_a p')"
proof -
  have "same_liquidity p' p" using assms by (simp add: same_liquidity_def)
  then show ?thesis using reserves_by_price [OF assms] reserves_by_price [of p' p] by simp
qed

end
