(* ===== verification/Activation.thy ===== *)
theory Activation
  imports SafeMath Constants
begin

text \<open>
  When a pool starts to trade: \<open>utils/activation_handler.rs\<close>, the timing constraints of
  \<open>state/config.rs\<close> and \<open>params/activation.rs\<close>. The clock sysvar is an argument; its
  \<open>unix_timestamp\<close> is kept as the 64-bit pattern that the cast \<open>as u64\<close> reads.
\<close>

section \<open>Clock and activation type\<close>

record clock =
  clk_slot :: u64
  clk_unix_timestamp :: u64

datatype activation_type = Slot | Timestamp

definition activation_type_try_from :: "u8 \<Rightarrow> activation_type option" where
  "activation_type_try_from x = (if x = 0 then Some Slot else if x = 1 then Some Timestamp else None)"

definition to_activation_type :: "u8 \<Rightarrow> activation_type result" where
  "to_activation_type x = ok_or (activation_type_try_from x) (Err InvalidActivationType)"

section \<open>The handler\<close>

record activation_handler =
  ah_curr_point :: u64
  ah_activation_point :: u64
  ah_buffer_duration :: u64
  ah_whitelisted_vault :: pubkey

definition get_current_point :: "clock \<Rightarrow> u8 \<Rightarrow> u64 result" where
  "get_current_point clk activation_type =
     bindr (to_activation_type activation_type) (\<lambda>t.
     Inr (case t of Slot \<Rightarrow> clk_slot clk | Timestamp \<Rightarrow> clk_unix_timestamp clk))"

definition get_current_point_and_max_vesting_duration :: "clock \<Rightarrow> u8 \<Rightarrow> (u64 \<times> u64) result" where
  "get_current_point_and_max_vesting_duration clk activation_type =
     bindr (to_activation_type activation_type) (\<lambda>t.
     Inr (case t of Slot \<Rightarrow> (clk_slot clk, MAX_VESTING_SLOT_DURATION)
                  | Timestamp \<Rightarrow> (clk_unix_timestamp clk, MAX_VESTING_TIME_DURATION)))"

definition get_current_point_and_buffer_duration :: "clock \<Rightarrow> u8 \<Rightarrow> (u64 \<times> u64) result" where
  "get_current_point_and_buffer_duration clk activation_type =
     bindr (to_activation_type activation_type) (\<lambda>t.
     Inr (case t of Slot \<Rightarrow> (clk_slot clk, SLOT_BUFFER)
                  | Timestamp \<Rightarrow> (clk_unix_timestamp clk, TIME_BUFFER)))"

definition get_max_activation_point :: "clock \<Rightarrow> u8 \<Rightarrow> u64 result" where
  "get_max_activation_point clk activation_type =
     bindr (to_activation_type activation_type) (\<lambda>t.
     let (curr_point, max_activation_duration) =
       (case t of Slot \<Rightarrow> (clk_slot clk, MAX_ACTIVATION_SLOT_DURATION)
                | Timestamp \<Rightarrow> (clk_unix_timestamp clk, MAX_ACTIVATION_TIME_DURATION)) in
     safe_add curr_point max_activation_duration)"

definition get_pre_activation_start_point :: "activation_handler \<Rightarrow> u64 result" where
  "get_pre_activation_start_point ah = safe_sub (ah_activation_point ah) (ah_buffer_duration ah)"

definition get_last_join_point :: "activation_handler \<Rightarrow> u64 result" where
  "get_last_join_point ah =
     bindr (get_pre_activation_start_point ah) (\<lambda>pre_activation_start_point.
     bindr (safe_div (ah_buffer_duration ah) 12) (\<lambda>five_minutes.
     safe_sub pre_activation_start_point five_minutes))"

section \<open>Timing constraints\<close>

record timing_constraint =
  tc_current_point :: u64
  tc_min_activation_duration :: u64
  tc_max_activation_duration :: u64
  tc_pre_activation_swap_duration :: u64
  tc_last_join_buffer :: u64
  tc_max_fee_curve_duration :: u64
  tc_max_high_tax_duration :: u64

definition get_timing_constraint_by_activation_type :: "activation_type \<Rightarrow> clock \<Rightarrow> timing_constraint" where
  "get_timing_constraint_by_activation_type t clk =
     (case t of
        Slot \<Rightarrow> \<lparr> tc_current_point = clk_slot clk, tc_min_activation_duration = SLOT_BUFFER,
          tc_max_activation_duration = MAX_ACTIVATION_SLOT_DURATION,
          tc_pre_activation_swap_duration = SLOT_BUFFER, tc_last_join_buffer = FIVE_MINUTES_SLOT_BUFFER,
          tc_max_fee_curve_duration = MAX_FEE_CURVE_SLOT_DURATION,
          tc_max_high_tax_duration = MAX_HIGH_TAX_SLOT_DURATION \<rparr>
      | Timestamp \<Rightarrow> \<lparr> tc_current_point = clk_unix_timestamp clk, tc_min_activation_duration = TIME_BUFFER,
          tc_max_activation_duration = MAX_ACTIVATION_TIME_DURATION,
          tc_pre_activation_swap_duration = TIME_BUFFER, tc_last_join_buffer = FIVE_MINUTES_TIME_BUFFER,
          tc_max_fee_curve_duration = MAX_FEE_CURVE_TIME_DURATION,
          tc_max_high_tax_duration = MAX_HIGH_TAX_TIME_DURATION \<rparr>)"

definition tc_max_activation_point_from_current_time :: "timing_constraint \<Rightarrow> u64 result" where
  "tc_max_activation_point_from_current_time tc =
     safe_add (tc_current_point tc) (tc_max_activation_duration tc)"

section \<open>Activation parameters of a new pool\<close>

record activation_params =
  ap_activation_point :: "u64 option"
  ap_has_alpha_vault :: bool
  ap_activation_type :: u8

definition activation_params_validate :: "clock \<Rightarrow> activation_params \<Rightarrow> unit result" where
  "activation_params_validate clk ap =
     bindr (to_activation_type (ap_activation_type ap)) (\<lambda>t.
     let tc = get_timing_constraint_by_activation_type t clk;
         current_point = tc_current_point tc in
     if ap_has_alpha_vault ap
     then case ap_activation_point ap of
            Some activation_point \<Rightarrow>
              bindr (require (activation_point > current_point) (Err InvalidActivationPoint)) (\<lambda>_.
              bindr (safe_sub activation_point current_point) (\<lambda>activation_duration.
              bindr (require (tc_min_activation_duration tc \<le> activation_duration \<and>
                              activation_duration \<le> tc_max_activation_duration tc)
                       (Err InvalidActivationPoint)) (\<lambda>_.
              bindr (get_last_join_point
                       \<lparr> ah_curr_point = current_point, ah_activation_point = activation_point,
                         ah_buffer_duration = tc_pre_activation_swap_duration tc,
                         ah_whitelisted_vault = default_pubkey \<rparr>) (\<lambda>last_join_point.
              bindr (safe_sub last_join_point (tc_last_join_buffer tc)) (\<lambda>pre_last_join_point.
              require (pre_last_join_point \<ge> current_point) (Err InvalidActivationPoint))))))
          | None \<Rightarrow> Inl (Err InvalidActivationPoint)
     else case ap_activation_point ap of
            Some activation_point \<Rightarrow>
              if activation_point \<ge> current_point
              then bindr (safe_add current_point (tc_max_activation_duration tc)) (\<lambda>latest.
                   require (latest \<ge> activation_point) (Err InvalidActivationPoint))
              else Inl (Err InvalidActivationPoint)
          | None \<Rightarrow> Inr ())"

lemmas activation_eval =
  activation_type_try_from_def to_activation_type_def get_current_point_def
  get_current_point_and_max_vesting_duration_def get_current_point_and_buffer_duration_def
  get_max_activation_point_def get_pre_activation_start_point_def get_last_join_point_def
  get_timing_constraint_by_activation_type_def tc_max_activation_point_from_current_time_def
  activation_params_validate_def activation_const_defs

section \<open>What validation guarantees\<close>

lemma to_activation_type_eq_Inr:
  "to_activation_type x = Inr t \<longleftrightarrow> (x = 0 \<and> t = Slot) \<or> (x = 1 \<and> t = Timestamp)"
  by (auto simp: to_activation_type_def activation_type_try_from_def ok_or_def)

lemma timing_constraint_values:
  "unat (tc_min_activation_duration (get_timing_constraint_by_activation_type t clk)) =
     (case t of Slot \<Rightarrow> 9000 | Timestamp \<Rightarrow> 3600)"
  "unat (tc_max_activation_duration (get_timing_constraint_by_activation_type t clk)) =
     (case t of Slot \<Rightarrow> 9000 | Timestamp \<Rightarrow> 3600) * 24 * 31"
  "unat (tc_pre_activation_swap_duration (get_timing_constraint_by_activation_type t clk)) =
     (case t of Slot \<Rightarrow> 9000 | Timestamp \<Rightarrow> 3600)"
  "unat (tc_last_join_buffer (get_timing_constraint_by_activation_type t clk)) =
     (case t of Slot \<Rightarrow> 750 | Timestamp \<Rightarrow> 300)"
  "tc_current_point (get_timing_constraint_by_activation_type t clk) =
     (case t of Slot \<Rightarrow> clk_slot clk | Timestamp \<Rightarrow> clk_unix_timestamp clk)"
  by (cases t; simp add: get_timing_constraint_by_activation_type_def activation_const_defs)+

text \<open>
  A validated activation point is at most 31 days ahead; with an alpha vault it leaves at
  least the pre-activation hour and ten minutes to join before it.
\<close>

lemma activation_params_validate_sound:
  assumes "activation_params_validate clk ap = Inr u" and "ap_activation_point ap = Some point"
    and "get_current_point clk (ap_activation_type ap) = Inr now"
  defines "hour \<equiv> (if ap_activation_type ap = 0 then 9000 else 3600)"
  shows "unat now \<le> unat point" and "unat point \<le> unat now + hour * 24 * 31"
    and "ap_has_alpha_vault ap \<Longrightarrow> unat now + hour + hour div 6 \<le> unat point"
proof -
  obtain t where t: "to_activation_type (ap_activation_type ap) = Inr t"
    using assms(1) by (auto simp: activation_params_validate_def bindr_eq_Inr)
  let ?tc = "get_timing_constraint_by_activation_type t clk"
  have h: "hour = (case t of Slot \<Rightarrow> 9000 | Timestamp \<Rightarrow> 3600)"
    using t by (auto simp: hour_def to_activation_type_eq_Inr)
  have now: "now = tc_current_point ?tc"
    using t assms(3) by (simp add: get_current_point_def timing_constraint_values)
  note vals = timing_constraint_values(1-4) [of t clk, folded h]
  have join: "unat (tc_last_join_buffer ?tc) = hour div 12" and twelve: "hour div 12 + hour div 12 = hour div 6"
    by (cases t; simp add: timing_constraint_values h)+
  have main: "unat now \<le> unat point \<and> unat point \<le> unat now + hour * 24 * 31 \<and>
      (ap_has_alpha_vault ap \<longrightarrow> unat now + hour + hour div 6 \<le> unat point)"
  proof (cases "ap_has_alpha_vault ap")
    case True
    then obtain duration last_join pre where "unat point = unat now + unat duration"
      "duration \<le> tc_max_activation_duration ?tc"
      and lj: "get_last_join_point \<lparr> ah_curr_point = now, ah_activation_point = point,
             ah_buffer_duration = tc_pre_activation_swap_duration ?tc, ah_whitelisted_vault = 0 \<rparr> = Inr last_join"
      and "unat last_join = unat (tc_last_join_buffer ?tc) + unat pre" "now \<le> pre"
      using assms(1,2) t now
      by (auto simp: activation_params_validate_def Let_def bindr_eq_Inr require_eq_Inr safe_sub_eq_Inr)
    moreover have "unat point = hour + (hour div 12 + unat last_join)"
      using lj by (auto simp: get_last_join_point_def get_pre_activation_start_point_def bindr_eq_Inr
          safe_sub_eq_Inr safe_div_eq_Inr vals)
    ultimately show ?thesis using vals join twelve by (auto simp: word_le_nat_alt)
  next
    case False
    then show ?thesis
      using assms(1,2) t now vals
      by (auto simp: activation_params_validate_def Let_def bindr_eq_Inr require_eq_Inr safe_add_eq_Inr
          word_le_nat_alt split: if_splits)
  qed
  then show "unat now \<le> unat point" "unat point \<le> unat now + hour * 24 * 31"
    "ap_has_alpha_vault ap \<Longrightarrow> unat now + hour + hour div 6 \<le> unat point"
    by blast+
qed

end
