(* ===== verification/Access.thy ===== *)
theory Access
  imports Pool Activation
begin

text \<open>
  \<open>programs/cp-amm/src/pool_action_access\<close>: which actions a pool admits now. The trait
  \<open>PoolActionAccess\<close> is a locale with what the handlers rely on; its one implementation,
  \<open>PermissionlessActionAccess\<close>, is the instance.
\<close>

section \<open>The implementation\<close>

record permissionless_action_access =
  pa_is_enabled :: bool
  pa_activation_point :: u64
  pa_pre_activation_point :: u64
  pa_current_point :: u64
  pa_whitelisted_vault :: pubkey

definition permissionless_new :: "clock \<Rightarrow> pool \<Rightarrow> permissionless_action_access result" where
  "permissionless_new clk p =
     bindr (to_activation_type (pool_activation_type p)) (\<lambda>t.
     let (current_point, buffer_time) =
       (case t of Slot \<Rightarrow> (clk_slot clk, SLOT_BUFFER) | Timestamp \<Rightarrow> (clk_unix_timestamp clk, TIME_BUFFER)) in
     bindr (if pool_activation_point p \<ge> buffer_time then safe_sub (pool_activation_point p) buffer_time
            else Inr 0) (\<lambda>pre_activation_point.
     Inr \<lparr> pa_is_enabled = (pool_pool_status p = pool_status_u8 Enable),
           pa_activation_point = pool_activation_point p,
           pa_pre_activation_point = pre_activation_point, pa_current_point = current_point,
           pa_whitelisted_vault = pool_whitelisted_vault p \<rparr>))"

definition can_add_liquidity :: "permissionless_action_access \<Rightarrow> bool" where
  "can_add_liquidity pa \<longleftrightarrow> pa_is_enabled pa"

definition can_remove_liquidity :: "permissionless_action_access \<Rightarrow> bool" where
  "can_remove_liquidity pa \<longleftrightarrow> pa_current_point pa \<ge> pa_activation_point pa"

definition can_swap :: "permissionless_action_access \<Rightarrow> pubkey \<Rightarrow> bool" where
  "can_swap pa sender \<longleftrightarrow>
     (if pa_is_enabled pa
      then if sender = pa_whitelisted_vault pa then pa_current_point pa \<ge> pa_pre_activation_point pa
           else pa_current_point pa \<ge> pa_activation_point pa
      else False)"

definition can_create_position :: "permissionless_action_access \<Rightarrow> bool" where
  "can_create_position pa \<longleftrightarrow> pa_is_enabled pa"

definition can_lock_position :: "permissionless_action_access \<Rightarrow> bool" where
  "can_lock_position pa \<longleftrightarrow> pa_is_enabled pa"

definition can_split_position :: "permissionless_action_access \<Rightarrow> bool" where
  "can_split_position pa \<longleftrightarrow> pa_is_enabled pa"

definition get_pool_access_validator :: "clock \<Rightarrow> pool \<Rightarrow> permissionless_action_access result" where
  "get_pool_access_validator clk p = permissionless_new clk p"

lemmas access_eval =
  permissionless_new_def can_add_liquidity_def can_remove_liquidity_def can_swap_def
  can_create_position_def can_lock_position_def can_split_position_def
  get_pool_access_validator_def pool_status_u8_def activation_eval

section \<open>What the handlers rely on\<close>

text \<open>
  A disabled pool admits nothing but removing liquidity, and before the activation point
  only the whitelisted vault trades and nobody removes; time only adds permissions.
\<close>

locale pool_action_access =
  fixes validator :: "clock \<Rightarrow> pool \<Rightarrow> 'v result"
    and add_ok remove_ok create_ok lock_ok split_ok :: "'v \<Rightarrow> bool"
    and swap_ok :: "'v \<Rightarrow> pubkey \<Rightarrow> bool"
    and enabled :: "pool \<Rightarrow> bool"
    and active :: "clock \<Rightarrow> pool \<Rightarrow> bool"
  assumes add_enabled: "validator clk p = Inr v \<Longrightarrow> add_ok v \<Longrightarrow> enabled p"
    and create_enabled: "validator clk p = Inr v \<Longrightarrow> create_ok v \<Longrightarrow> enabled p"
    and lock_enabled: "validator clk p = Inr v \<Longrightarrow> lock_ok v \<Longrightarrow> enabled p"
    and split_enabled: "validator clk p = Inr v \<Longrightarrow> split_ok v \<Longrightarrow> enabled p"
    and swap_enabled: "validator clk p = Inr v \<Longrightarrow> swap_ok v sender \<Longrightarrow> enabled p"
    and swap_active: "validator clk p = Inr v \<Longrightarrow> swap_ok v sender \<Longrightarrow>
                        sender \<noteq> pool_whitelisted_vault p \<Longrightarrow> active clk p"
    and remove_active: "validator clk p = Inr v \<Longrightarrow> remove_ok v \<longleftrightarrow> active clk p"
begin

lemma disabled_pool:
  assumes "validator clk p = Inr v" and "\<not> enabled p"
  shows "\<not> add_ok v" "\<not> create_ok v" "\<not> lock_ok v" "\<not> split_ok v" "\<not> swap_ok v sender"
  using assms add_enabled create_enabled lock_enabled split_enabled swap_enabled by blast+

lemma no_sandwich_before_activation:
  assumes "validator clk p = Inr v" and "\<not> active clk p"
  shows "\<not> remove_ok v" and "swap_ok v sender \<Longrightarrow> sender = pool_whitelisted_vault p"
  using assms remove_active swap_active by blast+

end

definition pool_enabled :: "pool \<Rightarrow> bool" where
  "pool_enabled p \<longleftrightarrow> pool_pool_status p = 0"

definition pool_active :: "clock \<Rightarrow> pool \<Rightarrow> bool" where
  "pool_active clk p \<longleftrightarrow>
     pool_activation_point p \<le> (if pool_activation_type p = 0 then clk_slot clk else clk_unix_timestamp clk)"

lemma permissionless_new_frame:
  assumes "get_pool_access_validator clk p = Inr pa"
  shows "pa_is_enabled pa \<longleftrightarrow> pool_enabled p"
    and "pa_activation_point pa \<le> pa_current_point pa \<longleftrightarrow> pool_active clk p"
    and "pa_whitelisted_vault pa = pool_whitelisted_vault p"
    and "unat (pa_pre_activation_point pa) =
           unat (pool_activation_point p) - (if pool_activation_type p = 0 then 9000 else 3600)"
    and "pa_current_point pa = (if pool_activation_type p = 0 then clk_slot clk else clk_unix_timestamp clk)"
  using assms
  by (auto simp: get_pool_access_validator_def permissionless_new_def bindr_eq_Inr to_activation_type_eq_Inr
      pool_enabled_def pool_active_def pool_status_u8_def safe_sub_eq_Inr Let_def activation_const_defs
      word_le_nat_alt split: if_splits)

interpretation permissionless: pool_action_access get_pool_access_validator can_add_liquidity
  can_remove_liquidity can_create_position can_lock_position can_split_position can_swap
  pool_enabled pool_active
  by unfold_locales (auto simp: can_add_liquidity_def can_remove_liquidity_def can_create_position_def
      can_lock_position_def can_split_position_def can_swap_def permissionless_new_frame(1-3) split: if_splits)

end
