(* ===== verification/Token.thy ===== *)
theory Token
  imports SafeMath Activation
begin

text \<open>
  \<open>programs/cp-amm/src/utils/token.rs\<close>: mints, token accounts, the amounts that the transfer
  fee of Token-2022 leaves or requires, and the transfers. The token programs are not under
  \<open>src/\<close>: the fee in force at the current epoch is a record with the functions the code calls
  on it, and a transfer is a request that the handler returns. A request the token program
  refuses aborts the transaction, so a handler's result holds for accepted transfers.
\<close>

section \<open>Accounts of the token programs\<close>

record transfer_fee =
  tf_transfer_fee_basis_points :: u16
  tf_maximum_fee :: u64
  tf_calculate_fee :: "u64 \<Rightarrow> u64 option"
  tf_calculate_inverse_fee :: "u64 \<Rightarrow> u64 option"

datatype extension_type = TransferFeeConfig | MetadataPointer | TokenMetadata | OtherExtension nat

record mint_account =
  mint_key :: pubkey
  mint_program :: pubkey
  mint_is_native_2022 :: bool
  mint_extensions :: "extension_type list"
  mint_epoch_fee :: "transfer_fee option"

record token_account =
  ta_key :: pubkey
  ta_program :: pubkey
  ta_mint :: pubkey
  ta_authority :: pubkey
  ta_amount :: u64
  ta_frozen :: bool

definition TOKEN_PROGRAM_ID :: pubkey where
  "TOKEN_PROGRAM_ID = 3106054211088883198575105191760876350940303353676611666299516346430146937001"

datatype token_program_flags = TokenProgram | TokenProgram2022

definition token_program_flags_u8 :: "token_program_flags \<Rightarrow> u8" where
  "token_program_flags_u8 f = (case f of TokenProgram \<Rightarrow> 0 | TokenProgram2022 \<Rightarrow> 1)"

definition get_token_program_flags :: "mint_account \<Rightarrow> token_program_flags" where
  "get_token_program_flags m = (if mint_program m = TOKEN_PROGRAM_ID then TokenProgram else TokenProgram2022)"

section \<open>Transfer fees\<close>

text \<open>Both \<open>TransferFeeIncludedAmount\<close> and \<open>TransferFeeExcludedAmount\<close>.\<close>

record transfer_fee_amount =
  tfa_amount :: u64
  tfa_transfer_fee :: u64

definition MAX_FEE_BASIS_POINTS :: u16 where
  "MAX_FEE_BASIS_POINTS = 10000"

definition get_epoch_transfer_fee :: "mint_account \<Rightarrow> transfer_fee option" where
  "get_epoch_transfer_fee m = (if mint_program m = TOKEN_PROGRAM_ID then None else mint_epoch_fee m)"

definition calculate_transfer_fee_excluded_amount :: "mint_account \<Rightarrow> u64 \<Rightarrow> transfer_fee_amount result" where
  "calculate_transfer_fee_excluded_amount m transfer_fee_included_amount =
     (case get_epoch_transfer_fee m of
        Some epoch_transfer_fee \<Rightarrow>
          bindr (ok_or (tf_calculate_fee epoch_transfer_fee transfer_fee_included_amount) (Err MathOverflow)) (\<lambda>fee.
          bindr (ok_or (checked_sub transfer_fee_included_amount fee) (Err MathOverflow)) (\<lambda>amount.
          Inr \<lparr> tfa_amount = amount, tfa_transfer_fee = fee \<rparr>))
      | None \<Rightarrow> Inr \<lparr> tfa_amount = transfer_fee_included_amount, tfa_transfer_fee = 0 \<rparr>)"

definition calculate_transfer_fee_included_amount :: "mint_account \<Rightarrow> u64 \<Rightarrow> transfer_fee_amount result" where
  "calculate_transfer_fee_included_amount m transfer_fee_excluded_amount =
     (if transfer_fee_excluded_amount = 0 then Inr \<lparr> tfa_amount = 0, tfa_transfer_fee = 0 \<rparr>
      else case get_epoch_transfer_fee m of
        Some epoch_transfer_fee \<Rightarrow>
          bindr (if tf_transfer_fee_basis_points epoch_transfer_fee = MAX_FEE_BASIS_POINTS
                 then Inr (tf_maximum_fee epoch_transfer_fee)
                 else ok_or (tf_calculate_inverse_fee epoch_transfer_fee transfer_fee_excluded_amount)
                        (Err MathOverflow)) (\<lambda>fee.
          bindr (ok_or (checked_add transfer_fee_excluded_amount fee) (Err MathOverflow)) (\<lambda>amount.
          bindr (ok_or (tf_calculate_fee epoch_transfer_fee amount) Panic) (\<lambda>verification.
          if fee \<noteq> verification then Inl (Err FeeInverseIsIncorrect)
          else Inr \<lparr> tfa_amount = amount, tfa_transfer_fee = fee \<rparr>)))
      | None \<Rightarrow> Inr \<lparr> tfa_amount = transfer_fee_excluded_amount, tfa_transfer_fee = 0 \<rparr>)"

section \<open>Transfers\<close>

record transfer =
  tr_from :: pubkey
  tr_mint :: pubkey
  tr_to :: pubkey
  tr_authority :: pubkey
  tr_amount :: u64

definition transfer_from_user :: "pubkey \<Rightarrow> mint_account \<Rightarrow> token_account \<Rightarrow> token_account \<Rightarrow> u64 \<Rightarrow> transfer" where
  "transfer_from_user authority m owner_account destination amount =
     \<lparr> tr_from = ta_key owner_account, tr_mint = mint_key m, tr_to = ta_key destination,
       tr_authority = authority, tr_amount = amount \<rparr>"

definition transfer_from_pool :: "pubkey \<Rightarrow> mint_account \<Rightarrow> token_account \<Rightarrow> token_account \<Rightarrow> u64 \<Rightarrow> transfer" where
  "transfer_from_pool pool_authority m vault owner_account amount =
     \<lparr> tr_from = ta_key vault, tr_mint = mint_key m, tr_to = ta_key owner_account,
       tr_authority = pool_authority, tr_amount = amount \<rparr>"

section \<open>Which mints a pool accepts\<close>

definition is_supported_mint :: "mint_account \<Rightarrow> bool result" where
  "is_supported_mint m =
     (if mint_program m = TOKEN_PROGRAM_ID then Inr True
      else if mint_is_native_2022 m then Inl (Err UnsupportNativeMintToken2022)
      else Inr (list_all (\<lambda>e. \<not> (e \<noteq> TransferFeeConfig \<and> e \<noteq> MetadataPointer \<and> e \<noteq> TokenMetadata))
                  (mint_extensions m)))"

record token_badge =
  tb_token_mint :: pubkey

definition token_badge_initialize :: "token_badge \<Rightarrow> pubkey \<Rightarrow> token_badge" where
  "token_badge_initialize tb token_mint = tb\<lparr> tb_token_mint := token_mint \<rparr>"

text \<open>The account given as a badge, \<open>None\<close> when \<open>AccountLoader::try_from\<close> refuses it.\<close>

definition is_token_badge_initialized :: "pubkey \<Rightarrow> token_badge option \<Rightarrow> bool result" where
  "is_token_badge_initialized m badge =
     bindr (ok_or badge (Constraint ConstraintAccountLoader)) (\<lambda>tb. Inr (tb_token_mint tb = m))"

text \<open>
  The instructions that admit a new mint require that it is supported, or that the remaining
  account at an index is a badge for it.
\<close>

definition check_mint_supported :: "mint_account \<Rightarrow> token_badge option list \<Rightarrow> nat \<Rightarrow> unit result" where
  "check_mint_supported m remaining_accounts i =
     bindr (is_supported_mint m) (\<lambda>supported.
     if \<not> supported
     then bindr (ok_or (if i < length remaining_accounts then Some (remaining_accounts ! i) else None)
                   (Err InvalidTokenBadge)) (\<lambda>badge.
          bindr (is_token_badge_initialized (mint_key m) badge) (\<lambda>initialized.
          require initialized (Err InvalidTokenBadge)))
     else Inr ())"

text \<open>The lamports that bring an account to the rent-exempt minimum.\<close>

definition update_account_lamports_to_minimum_balance :: "u64 \<Rightarrow> u64 \<Rightarrow> u64 option result" where
  "update_account_lamports_to_minimum_balance minimum_balance current_lamport =
     (if minimum_balance > current_lamport
      then bindr (safe_sub minimum_balance current_lamport) (\<lambda>extra_lamports. Inr (Some extra_lamports))
      else Inr None)"

section \<open>Account constraints shared by the instructions\<close>

text \<open>
  The environment of an instruction: the clock, the address of the pool authority
  (\<open>const_pda.rs\<close>) and the derivation of program addresses from a seed and keys, with that
  of the alpha vault program (\<open>utils/alpha_vault.rs\<close>).
\<close>

record environment =
  env_clock :: clock
  env_pool_authority :: pubkey
  env_pda :: "string \<Rightarrow> pubkey list \<Rightarrow> pubkey"
  env_alpha_vault_pda :: "string \<Rightarrow> pubkey list \<Rightarrow> pubkey"

definition derive_vault_pubkey :: "environment \<Rightarrow> pubkey \<Rightarrow> pubkey \<Rightarrow> pubkey" where
  "derive_vault_pubkey env vault_base p_key = env_alpha_vault_pda env ''vault'' [vault_base, p_key]"

definition current_time :: "environment \<Rightarrow> u64" where
  "current_time env = clk_unix_timestamp (env_clock env)"

text \<open>\<open>token::token_program = program, token::mint = mint\<close>\<close>

definition check_vault :: "token_account \<Rightarrow> pubkey \<Rightarrow> mint_account \<Rightarrow> unit result" where
  "check_vault v program m =
     bindr (check (ta_mint v = mint_key m) ConstraintTokenMint) (\<lambda>_.
     check (ta_program v = program) ConstraintTokenTokenProgram)"

text \<open>The account that holds the NFT of a position, and its owner.\<close>

definition check_position_nft :: "token_account \<Rightarrow> pubkey \<Rightarrow> pubkey \<Rightarrow> unit result" where
  "check_position_nft nft_account nft_mint owner =
     bindr (check (ta_mint nft_account = nft_mint) ConstraintRaw) (\<lambda>_.
     bindr (check (ta_amount nft_account = 1) ConstraintRaw) (\<lambda>_.
     check (ta_authority nft_account = owner) ConstraintTokenOwner))"

lemmas token_eval =
  TOKEN_PROGRAM_ID_def token_program_flags_u8_def get_token_program_flags_def MAX_FEE_BASIS_POINTS_def
  get_epoch_transfer_fee_def calculate_transfer_fee_excluded_amount_def
  calculate_transfer_fee_included_amount_def transfer_from_user_def transfer_from_pool_def
  is_supported_mint_def token_badge_initialize_def is_token_badge_initialized_def check_mint_supported_def
  derive_vault_pubkey_def current_time_def check_vault_def check_position_nft_def

section \<open>Amounts with and without the transfer fee\<close>

text \<open>
  What the token program credits for a transfer of an amount: the amount less the fee that
  the mint charges.
\<close>

definition received :: "mint_account \<Rightarrow> u64 \<Rightarrow> nat option" where
  "received m amount =
     (case get_epoch_transfer_fee m of
        None \<Rightarrow> Some (unat amount)
      | Some fee \<Rightarrow> (case tf_calculate_fee fee amount of
            None \<Rightarrow> None
          | Some f \<Rightarrow> if f \<le> amount then Some (unat amount - unat f) else None))"

lemma excluded_amount_received:
  assumes "calculate_transfer_fee_excluded_amount m amount = Inr r"
  shows "received m amount = Some (unat (tfa_amount r))"
    and "unat amount = unat (tfa_amount r) + unat (tfa_transfer_fee r)"
  using assms
  by (auto simp: calculate_transfer_fee_excluded_amount_def received_def bindr_eq_Inr ok_or_eq_Inr
      checked_sub_eq_Some word_le_nat_alt split: option.splits)

text \<open>
  Sending the fee-included amount credits exactly the excluded amount, whatever the two
  fee functions of the token program are: the code verifies the inverse itself.
\<close>

lemma included_amount_received:
  assumes "calculate_transfer_fee_included_amount m amount = Inr r" and "amount \<noteq> 0"
  shows "received m (tfa_amount r) = Some (unat amount)"
    and "unat (tfa_amount r) = unat amount + unat (tfa_transfer_fee r)"
  using assms
  by (auto simp: calculate_transfer_fee_included_amount_def received_def bindr_eq_Inr ok_or_eq_Inr
      checked_add_eq_Some word_le_nat_alt split: option.splits if_splits)

lemma check_vault_eq_Inr: "check_vault v program m = Inr u \<longleftrightarrow> ta_mint v = mint_key m \<and> ta_program v = program"
  by (auto simp: check_vault_def bindr_eq_Inr require_eq_Inr)

lemma check_mint_supported_eq_Inr:
  "check_mint_supported m badges i = Inr u \<longleftrightarrow> is_supported_mint m = Inr True \<or>
     is_supported_mint m = Inr False \<and> i < length badges \<and> (\<exists>tb. badges ! i = Some tb \<and> tb_token_mint tb = mint_key m)"
  by (auto simp: check_mint_supported_def is_token_badge_initialized_def bindr_eq_Inr ok_or_eq_Inr require_eq_Inr
      split: if_splits)

lemma check_position_nft_eq_Inr:
  "check_position_nft a nft_mint owner = Inr u \<longleftrightarrow>
     ta_mint a = nft_mint \<and> ta_amount a = 1 \<and> ta_authority a = owner"
  by (auto simp: check_position_nft_def bindr_eq_Inr require_eq_Inr)

end
