(* ===== verification/LiquidityHandlers.thy ===== *)
theory LiquidityHandlers
  imports PoolPosition Market Access Token
begin

text \<open>
  The instructions that move liquidity and claim a position's fees:
  \<open>instructions/ix_add_liquidity.rs\<close>, \<open>ix_remove_liquidity.rs\<close> and
  \<open>ix_claim_position_fee.rs\<close>. The three account structures have the same fields (only
  \<open>AddLiquidityCtx\<close> has no pool authority), so one context record serves them. A handler
  returns the accounts it writes and the transfers it requests.
\<close>

section \<open>Accounts\<close>

record liquidity_ctx =
  lc_pool_authority :: pubkey
  lc_pool_key :: pubkey
  lc_pool :: pool
  lc_position :: position
  lc_token_a_account :: token_account
  lc_token_b_account :: token_account
  lc_token_a_vault :: token_account
  lc_token_b_vault :: token_account
  lc_token_a_mint :: mint_account
  lc_token_b_mint :: mint_account
  lc_position_nft_account :: token_account
  lc_owner :: pubkey
  lc_token_a_program :: pubkey
  lc_token_b_program :: pubkey

definition liquidity_constraints :: "liquidity_ctx \<Rightarrow> unit result" where
  "liquidity_constraints ctx =
     bindr (check (pool_token_a_vault (lc_pool ctx) = ta_key (lc_token_a_vault ctx)) ConstraintHasOne) (\<lambda>_.
     bindr (check (pool_token_b_vault (lc_pool ctx) = ta_key (lc_token_b_vault ctx)) ConstraintHasOne) (\<lambda>_.
     bindr (check (pool_token_a_mint (lc_pool ctx) = mint_key (lc_token_a_mint ctx)) ConstraintHasOne) (\<lambda>_.
     bindr (check (pool_token_b_mint (lc_pool ctx) = mint_key (lc_token_b_mint ctx)) ConstraintHasOne) (\<lambda>_.
     bindr (check (pos_pool (lc_position ctx) = lc_pool_key ctx) ConstraintHasOne) (\<lambda>_.
     bindr (check_vault (lc_token_a_vault ctx) (lc_token_a_program ctx) (lc_token_a_mint ctx)) (\<lambda>_.
     bindr (check_vault (lc_token_b_vault ctx) (lc_token_b_program ctx) (lc_token_b_mint ctx)) (\<lambda>_.
     check_position_nft (lc_position_nft_account ctx) (pos_nft_mint (lc_position ctx)) (lc_owner ctx))))))))"

definition check_pool_authority :: "environment \<Rightarrow> pubkey \<Rightarrow> unit result" where
  "check_pool_authority env pool_authority = check (pool_authority = env_pool_authority env) ConstraintAddress"

section \<open>Adding liquidity\<close>

record add_liquidity_parameters =
  al_liquidity_delta :: u128
  al_token_a_amount_threshold :: u64
  al_token_b_amount_threshold :: u64

definition handle_add_liquidity ::
  "environment \<Rightarrow> liquidity_ctx \<Rightarrow> add_liquidity_parameters \<Rightarrow> (pool \<times> position \<times> transfer list) result" where
  "handle_add_liquidity env ctx params =
     bindr (liquidity_constraints ctx) (\<lambda>_.
     bindr (require (al_liquidity_delta params > 0) (Err InvalidParameters)) (\<lambda>_.
     bindr (get_pool_access_validator (env_clock env) (lc_pool ctx)) (\<lambda>access_validator.
     bindr (require (can_add_liquidity access_validator) (Err PoolDisabled)) (\<lambda>_.
     bindr (pos_update_rewards (lc_position ctx) (lc_pool ctx) (current_time env)) (\<lambda>(pos, p).
     bindr (get_amounts_for_modify_liquidity p (al_liquidity_delta params) Up) (\<lambda>m.
     bindr (require (ml_token_a_amount m > 0 \<or> ml_token_b_amount m > 0) (Err AmountIsZero)) (\<lambda>_.
     bindr (apply_add_liquidity p pos (al_liquidity_delta params)) (\<lambda>(p, pos).
     bindr (calculate_transfer_fee_included_amount (lc_token_a_mint ctx) (ml_token_a_amount m)) (\<lambda>total_a.
     bindr (calculate_transfer_fee_included_amount (lc_token_b_mint ctx) (ml_token_b_amount m)) (\<lambda>total_b.
     bindr (require (tfa_amount total_a \<le> al_token_a_amount_threshold params) (Err ExceededSlippage)) (\<lambda>_.
     bindr (require (tfa_amount total_b \<le> al_token_b_amount_threshold params) (Err ExceededSlippage)) (\<lambda>_.
     Inr (p, pos,
       [transfer_from_user (lc_owner ctx) (lc_token_a_mint ctx) (lc_token_a_account ctx)
          (lc_token_a_vault ctx) (tfa_amount total_a),
        transfer_from_user (lc_owner ctx) (lc_token_b_mint ctx) (lc_token_b_account ctx)
          (lc_token_b_vault ctx) (tfa_amount total_b)])))))))))))))"

section \<open>Removing liquidity\<close>

definition handle_remove_liquidity ::
  "environment \<Rightarrow> liquidity_ctx \<Rightarrow> u128 option \<Rightarrow> u64 \<Rightarrow> u64 \<Rightarrow> (pool \<times> position \<times> transfer list) result" where
  "handle_remove_liquidity env ctx liquidity_delta0 token_a_amount_threshold token_b_amount_threshold =
     bindr (check_pool_authority env (lc_pool_authority ctx)) (\<lambda>_.
     bindr (liquidity_constraints ctx) (\<lambda>_.
     bindr (get_pool_access_validator (env_clock env) (lc_pool ctx)) (\<lambda>access_validator.
     bindr (require (can_remove_liquidity access_validator) (Err PoolDisabled)) (\<lambda>_.
     let liquidity_delta = (case liquidity_delta0 of Some d \<Rightarrow> d | None \<Rightarrow> pos_unlocked_liquidity (lc_position ctx)) in
     bindr (require (liquidity_delta \<le> pos_unlocked_liquidity (lc_position ctx) \<and> liquidity_delta > 0)
              (Err InsufficientLiquidity)) (\<lambda>_.
     bindr (pos_update_rewards (lc_position ctx) (lc_pool ctx) (current_time env)) (\<lambda>(pos, p).
     bindr (get_amounts_for_modify_liquidity p liquidity_delta Down) (\<lambda>m.
     bindr (require (ml_token_a_amount m > 0 \<or> ml_token_b_amount m > 0) (Err AmountIsZero)) (\<lambda>_.
     bindr (calculate_transfer_fee_excluded_amount (lc_token_a_mint ctx) (ml_token_a_amount m)) (\<lambda>excluded_a.
     bindr (calculate_transfer_fee_excluded_amount (lc_token_b_mint ctx) (ml_token_b_amount m)) (\<lambda>excluded_b.
     bindr (require (tfa_amount excluded_a \<ge> token_a_amount_threshold) (Err ExceededSlippage)) (\<lambda>_.
     bindr (require (tfa_amount excluded_b \<ge> token_b_amount_threshold) (Err ExceededSlippage)) (\<lambda>_.
     bindr (apply_remove_liquidity p pos liquidity_delta) (\<lambda>(p, pos).
     Inr (p, pos,
       [transfer_from_pool (lc_pool_authority ctx) (lc_token_a_mint ctx) (lc_token_a_vault ctx)
          (lc_token_a_account ctx) (ml_token_a_amount m),
        transfer_from_pool (lc_pool_authority ctx) (lc_token_b_mint ctx) (lc_token_b_vault ctx)
          (lc_token_b_account ctx) (ml_token_b_amount m)]))))))))))))))"

section \<open>Claiming the fees of a position\<close>

definition handle_claim_position_fee ::
  "environment \<Rightarrow> liquidity_ctx \<Rightarrow> (position \<times> transfer list) result" where
  "handle_claim_position_fee env ctx =
     bindr (check_pool_authority env (lc_pool_authority ctx)) (\<lambda>_.
     bindr (liquidity_constraints ctx) (\<lambda>_.
     bindr (update_fee (lc_position ctx) (pool_fee_a_per_liquidity (lc_pool ctx))
              (pool_fee_b_per_liquidity (lc_pool ctx))) (\<lambda>pos.
     bindr (accumulate_claimed_fee (pos_metrics pos) (pos_fee_a_pending pos) (pos_fee_b_pending pos)) (\<lambda>m.
     Inr (reset_pending_fee (pos\<lparr> pos_metrics := m \<rparr>),
       (if pos_fee_a_pending pos > 0
        then [transfer_from_pool (lc_pool_authority ctx) (lc_token_a_mint ctx) (lc_token_a_vault ctx)
                (lc_token_a_account ctx) (pos_fee_a_pending pos)] else []) @
       (if pos_fee_b_pending pos > 0
        then [transfer_from_pool (lc_pool_authority ctx) (lc_token_b_mint ctx) (lc_token_b_vault ctx)
                (lc_token_b_account ctx) (pos_fee_b_pending pos)] else []))))))"

lemmas liquidity_handlers_eval =
  liquidity_constraints_def check_pool_authority_def handle_add_liquidity_def
  handle_remove_liquidity_def handle_claim_position_fee_def token_eval access_eval pool_position_eval

section \<open>Rewards do not touch liquidity or fees\<close>

lemma pos_update_rewards_frame:
  assumes "pos_update_rewards pos p now = Inr (pos', p')"
  obtains ri uri where "p' = p\<lparr> pool_reward_infos := ri \<rparr>" and "pos' = pos\<lparr> pos_reward_infos := uri \<rparr>"
proof (cases "pool_reward_initialized p")
  case True
  then show ?thesis using assms that
    by (auto simp: pos_update_rewards_def bindr_eq_Inr pool_update_rewards_def update_position_reward_def)
next
  case False
  then have "p' = p\<lparr> pool_reward_infos := pool_reward_infos p \<rparr>" "pos' = pos\<lparr> pos_reward_infos := pos_reward_infos pos \<rparr>"
    using assms by (simp_all add: pos_update_rewards_def)
  then show ?thesis by (rule that)
qed

lemma handle_add_liquidity_frame:
  assumes "handle_add_liquidity env ctx params = Inr (p', pos', trs)"
  obtains v p pos m total_a total_b where
    "liquidity_constraints ctx = Inr ()" "0 < al_liquidity_delta params"
    "get_pool_access_validator (env_clock env) (lc_pool ctx) = Inr v" "can_add_liquidity v"
    "pos_update_rewards (lc_position ctx) (lc_pool ctx) (current_time env) = Inr (pos, p)"
    "get_amounts_for_modify_liquidity p (al_liquidity_delta params) Up = Inr m"
    "apply_add_liquidity p pos (al_liquidity_delta params) = Inr (p', pos')"
    "calculate_transfer_fee_included_amount (lc_token_a_mint ctx) (ml_token_a_amount m) = Inr total_a"
    "calculate_transfer_fee_included_amount (lc_token_b_mint ctx) (ml_token_b_amount m) = Inr total_b"
    "tfa_amount total_a \<le> al_token_a_amount_threshold params"
    "tfa_amount total_b \<le> al_token_b_amount_threshold params"
    "trs = [transfer_from_user (lc_owner ctx) (lc_token_a_mint ctx) (lc_token_a_account ctx)
              (lc_token_a_vault ctx) (tfa_amount total_a),
            transfer_from_user (lc_owner ctx) (lc_token_b_mint ctx) (lc_token_b_account ctx)
              (lc_token_b_vault ctx) (tfa_amount total_b)]"
  using assms by (auto simp: handle_add_liquidity_def bindr_eq_Inr require_eq_Inr split: prod.splits)

lemma handle_remove_liquidity_frame:
  assumes "handle_remove_liquidity env ctx d0 min_a min_b = Inr (p', pos', trs)"
  defines "d \<equiv> (case d0 of Some d \<Rightarrow> d | None \<Rightarrow> pos_unlocked_liquidity (lc_position ctx))"
  obtains v p pos m excluded_a excluded_b where
    "liquidity_constraints ctx = Inr ()" "0 < d" "d \<le> pos_unlocked_liquidity (lc_position ctx)"
    "get_pool_access_validator (env_clock env) (lc_pool ctx) = Inr v" "can_remove_liquidity v"
    "pos_update_rewards (lc_position ctx) (lc_pool ctx) (current_time env) = Inr (pos, p)"
    "get_amounts_for_modify_liquidity p d Down = Inr m"
    "apply_remove_liquidity p pos d = Inr (p', pos')"
    "calculate_transfer_fee_excluded_amount (lc_token_a_mint ctx) (ml_token_a_amount m) = Inr excluded_a"
    "calculate_transfer_fee_excluded_amount (lc_token_b_mint ctx) (ml_token_b_amount m) = Inr excluded_b"
    "min_a \<le> tfa_amount excluded_a" "min_b \<le> tfa_amount excluded_b"
    "trs = [transfer_from_pool (lc_pool_authority ctx) (lc_token_a_mint ctx) (lc_token_a_vault ctx)
              (lc_token_a_account ctx) (ml_token_a_amount m),
            transfer_from_pool (lc_pool_authority ctx) (lc_token_b_mint ctx) (lc_token_b_vault ctx)
              (lc_token_b_account ctx) (ml_token_b_amount m)]"
  using assms by (auto simp: handle_remove_liquidity_def bindr_eq_Inr require_eq_Inr Let_def split: prod.splits)

end
