(* ===== verification/PositionHandlers.thy ===== *)
theory PositionHandlers
  imports LiquidityHandlers
begin

text \<open>
  The life of a position: \<open>instructions/ix_create_position.rs\<close>, \<open>ix_close_position.rs\<close>,
  \<open>ix_permanent_lock_position.rs\<close>, \<open>ix_split_position.rs\<close> and \<open>ix_split_position2.rs\<close>.
  The calls to the Token-2022 and system programs that mint and burn the position's NFT are
  effects the handlers return.
\<close>

section \<open>Effects on the NFT\<close>

datatype nft_effect =
    MetadataInitialize pubkey string string string
  | TopUpRent pubkey u64
  | MintTo pubkey pubkey u64
  | Burn pubkey pubkey pubkey u64
  | CloseAccount pubkey pubkey pubkey

text \<open>\<open>minimum_balance\<close> and \<open>current_lamport\<close> are the rent minimum and the balance of the mint account.\<close>

definition create_position_nft :: "pubkey \<Rightarrow> pubkey \<Rightarrow> u64 \<Rightarrow> u64 \<Rightarrow> nft_effect list result" where
  "create_position_nft position_nft_mint position_nft_account minimum_balance current_lamport =
     bindr (update_account_lamports_to_minimum_balance minimum_balance current_lamport) (\<lambda>extra.
     Inr ([MetadataInitialize position_nft_mint ''Meteora Position NFT'' ''MPN''
             ''https://raw.githubusercontent.com/MeteoraAg/token-metadata/main/meteora_position_nft.png''] @
          (case extra of Some lamports \<Rightarrow> [TopUpRent position_nft_mint lamports] | None \<Rightarrow> []) @
          [MintTo position_nft_mint position_nft_account 1]))"

section \<open>Creating and closing\<close>

record create_position_ctx =
  cp_owner :: pubkey
  cp_position_nft_mint :: pubkey
  cp_position_nft_account :: pubkey
  cp_position_key :: pubkey
  cp_accounts_exist :: bool
  cp_pool_key :: pubkey
  cp_pool :: pool
  cp_pool_authority :: pubkey
  cp_minimum_balance :: u64
  cp_current_lamport :: u64

definition handle_create_position ::
  "environment \<Rightarrow> create_position_ctx \<Rightarrow> (pool \<times> position \<times> nft_effect list) result" where
  "handle_create_position env ctx =
     bindr (check (\<not> cp_accounts_exist ctx) ConstraintAccountInit) (\<lambda>_.
     bindr (check (cp_position_nft_account ctx = env_pda env ''position_nft_account'' [cp_position_nft_mint ctx])
              ConstraintSeeds) (\<lambda>_.
     bindr (check (cp_position_key ctx = env_pda env ''position'' [cp_position_nft_mint ctx]) ConstraintSeeds) (\<lambda>_.
     bindr (check_pool_authority env (cp_pool_authority ctx)) (\<lambda>_.
     bindr (get_pool_access_validator (env_clock env) (cp_pool ctx)) (\<lambda>access_validator.
     bindr (require (can_create_position access_validator) (Err PoolDisabled)) (\<lambda>_.
     let (pos, p) = pos_initialize default_position (cp_pool ctx) (cp_pool_key ctx) (cp_position_nft_mint ctx) 0 in
     bindr (create_position_nft (cp_position_nft_mint ctx) (cp_position_nft_account ctx)
              (cp_minimum_balance ctx) (cp_current_lamport ctx)) (\<lambda>nft.
     Inr (p, pos, nft))))))))"

record close_position_ctx =
  cl_position_nft_mint :: pubkey
  cl_position_nft_account :: token_account
  cl_pool_key :: pubkey
  cl_pool :: pool
  cl_position :: position
  cl_pool_authority :: pubkey
  cl_rent_receiver :: pubkey
  cl_owner :: pubkey

text \<open>The position account is closed, so only the pool remains.\<close>

definition handle_close_position ::
  "environment \<Rightarrow> close_position_ctx \<Rightarrow> (pool \<times> nft_effect list) result" where
  "handle_close_position env ctx =
     bindr (check (cl_position_nft_mint ctx = pos_nft_mint (cl_position ctx)) ConstraintAddress) (\<lambda>_.
     bindr (check_position_nft (cl_position_nft_account ctx) (pos_nft_mint (cl_position ctx)) (cl_owner ctx)) (\<lambda>_.
     bindr (check (pos_pool (cl_position ctx) = cl_pool_key ctx) ConstraintHasOne) (\<lambda>_.
     bindr (check_pool_authority env (cl_pool_authority ctx)) (\<lambda>_.
     bindr (pos_is_empty (cl_position ctx)) (\<lambda>empty.
     bindr (require empty (Err PositionIsNotEmpty)) (\<lambda>_.
     Inr ((cl_pool ctx)\<lparr> pool_metrics := reduce_position (pool_metrics (cl_pool ctx)) \<rparr>,
          [Burn (cl_position_nft_mint ctx) (ta_key (cl_position_nft_account ctx)) (cl_owner ctx) 1,
           CloseAccount (ta_key (cl_position_nft_account ctx)) (cl_rent_receiver ctx) (cl_owner ctx),
           CloseAccount (cl_position_nft_mint ctx) (cl_rent_receiver ctx) (cl_pool_authority ctx)])))))))"

section \<open>Permanent lock\<close>

record permanent_lock_ctx =
  pl_pool_key :: pubkey
  pl_pool :: pool
  pl_position :: position
  pl_position_nft_account :: token_account
  pl_owner :: pubkey

definition handle_permanent_lock_position ::
  "environment \<Rightarrow> permanent_lock_ctx \<Rightarrow> u128 \<Rightarrow> (pool \<times> position) result" where
  "handle_permanent_lock_position env ctx permanent_lock =
     bindr (check (pos_pool (pl_position ctx) = pl_pool_key ctx) ConstraintHasOne) (\<lambda>_.
     bindr (check_position_nft (pl_position_nft_account ctx) (pos_nft_mint (pl_position ctx)) (pl_owner ctx)) (\<lambda>_.
     bindr (get_pool_access_validator (env_clock env) (pl_pool ctx)) (\<lambda>access_validator.
     bindr (require (can_lock_position access_validator) (Err PoolDisabled)) (\<lambda>_.
     bindr (permanent_lock_liquidity (pl_position ctx) permanent_lock) (\<lambda>pos.
     bindr (accumulate_permanent_locked_liquidity (pl_pool ctx) permanent_lock) (\<lambda>p.
     Inr (p, pos)))))))"

section \<open>Split\<close>

record split_position_parameters2 =
  s2_unlocked_liquidity_numerator :: u32
  s2_permanent_locked_liquidity_numerator :: u32
  s2_fee_a_numerator :: u32
  s2_fee_b_numerator :: u32
  s2_reward_0_numerator :: u32
  s2_reward_1_numerator :: u32

definition split2_validate :: "split_position_parameters2 \<Rightarrow> unit result" where
  "split2_validate s =
     bindr (require (s2_unlocked_liquidity_numerator s \<le> SPLIT_POSITION_DENOMINATOR) (Err InvalidSplitPositionParameters)) (\<lambda>_.
     bindr (require (s2_permanent_locked_liquidity_numerator s \<le> SPLIT_POSITION_DENOMINATOR) (Err InvalidSplitPositionParameters)) (\<lambda>_.
     bindr (require (s2_fee_a_numerator s \<le> SPLIT_POSITION_DENOMINATOR) (Err InvalidSplitPositionParameters)) (\<lambda>_.
     bindr (require (s2_fee_b_numerator s \<le> SPLIT_POSITION_DENOMINATOR) (Err InvalidSplitPositionParameters)) (\<lambda>_.
     bindr (require (s2_reward_0_numerator s \<le> SPLIT_POSITION_DENOMINATOR) (Err InvalidSplitPositionParameters)) (\<lambda>_.
     bindr (require (s2_reward_1_numerator s \<le> SPLIT_POSITION_DENOMINATOR) (Err InvalidSplitPositionParameters)) (\<lambda>_.
     require (s2_unlocked_liquidity_numerator s > 0 \<or> s2_permanent_locked_liquidity_numerator s > 0 \<or>
              s2_fee_a_numerator s > 0 \<or> s2_fee_b_numerator s > 0 \<or>
              s2_reward_0_numerator s > 0 \<or> s2_reward_1_numerator s > 0)
       (Err InvalidSplitPositionParameters)))))))"

record split_position_parameters =
  s1_unlocked_liquidity_percentage :: u8
  s1_permanent_locked_liquidity_percentage :: u8
  s1_fee_a_percentage :: u8
  s1_fee_b_percentage :: u8
  s1_reward_0_percentage :: u8
  s1_reward_1_percentage :: u8

definition split_validate :: "split_position_parameters \<Rightarrow> unit result" where
  "split_validate s =
     bindr (require (s1_permanent_locked_liquidity_percentage s \<le> 100) (Err InvalidSplitPositionParameters)) (\<lambda>_.
     bindr (require (s1_unlocked_liquidity_percentage s \<le> 100) (Err InvalidSplitPositionParameters)) (\<lambda>_.
     bindr (require (s1_fee_a_percentage s \<le> 100) (Err InvalidSplitPositionParameters)) (\<lambda>_.
     bindr (require (s1_fee_b_percentage s \<le> 100) (Err InvalidSplitPositionParameters)) (\<lambda>_.
     bindr (require (s1_reward_0_percentage s \<le> 100) (Err InvalidSplitPositionParameters)) (\<lambda>_.
     bindr (require (s1_reward_1_percentage s \<le> 100) (Err InvalidSplitPositionParameters)) (\<lambda>_.
     require (s1_unlocked_liquidity_percentage s > 0 \<or> s1_permanent_locked_liquidity_percentage s > 0 \<or>
              s1_fee_a_percentage s > 0 \<or> s1_fee_b_percentage s > 0 \<or>
              s1_reward_0_percentage s > 0 \<or> s1_reward_1_percentage s > 0)
       (Err InvalidSplitPositionParameters)))))))"

definition get_split_position_parameters2 :: "split_position_parameters \<Rightarrow> split_position_parameters2 result" where
  "get_split_position_parameters2 s =
     bindr (split_validate s) (\<lambda>_.
     bindr (safe_div SPLIT_POSITION_DENOMINATOR 100) (\<lambda>numerator_factor.
     bindr (safe_mul numerator_factor (ucast (s1_unlocked_liquidity_percentage s))) (\<lambda>unlocked.
     bindr (safe_mul numerator_factor (ucast (s1_permanent_locked_liquidity_percentage s))) (\<lambda>permanent.
     bindr (safe_mul numerator_factor (ucast (s1_fee_a_percentage s))) (\<lambda>fee_a.
     bindr (safe_mul numerator_factor (ucast (s1_fee_b_percentage s))) (\<lambda>fee_b.
     bindr (safe_mul numerator_factor (ucast (s1_reward_0_percentage s))) (\<lambda>reward_0.
     bindr (safe_mul numerator_factor (ucast (s1_reward_1_percentage s))) (\<lambda>reward_1.
     Inr \<lparr> s2_unlocked_liquidity_numerator = unlocked, s2_permanent_locked_liquidity_numerator = permanent,
           s2_fee_a_numerator = fee_a, s2_fee_b_numerator = fee_b,
           s2_reward_0_numerator = reward_0, s2_reward_1_numerator = reward_1 \<rparr>))))))))"

record split_position_ctx =
  sx_pool_key :: pubkey
  sx_pool :: pool
  sx_first_position_key :: pubkey
  sx_first_position :: position
  sx_first_position_nft_account :: token_account
  sx_second_position_key :: pubkey
  sx_second_position :: position
  sx_second_position_nft_account :: token_account
  sx_first_owner :: pubkey
  sx_second_owner :: pubkey

definition split_constraints :: "split_position_ctx \<Rightarrow> unit result" where
  "split_constraints ctx =
     bindr (check (pos_pool (sx_first_position ctx) = sx_pool_key ctx) ConstraintHasOne) (\<lambda>_.
     bindr (require (sx_first_position_key ctx \<noteq> sx_second_position_key ctx) (Err SamePosition)) (\<lambda>_.
     bindr (check_position_nft (sx_first_position_nft_account ctx) (pos_nft_mint (sx_first_position ctx))
              (sx_first_owner ctx)) (\<lambda>_.
     bindr (check (pos_pool (sx_second_position ctx) = sx_pool_key ctx) ConstraintHasOne) (\<lambda>_.
     check_position_nft (sx_second_position_nft_account ctx) (pos_nft_mint (sx_second_position ctx))
       (sx_second_owner ctx)))))"

record split_position_info =
  sp_liquidity :: u128
  sp_fee_a :: u64
  sp_fee_b :: u64
  sp_reward_0 :: u64
  sp_reward_1 :: u64

text \<open>The summary of a position in the event; its total liquidity is computed there.\<close>

definition position_info :: "position \<Rightarrow> split_position_info result" where
  "position_info pos =
     bindr (get_total_liquidity pos) (\<lambda>l.
     Inr \<lparr> sp_liquidity = l, sp_fee_a = pos_fee_a_pending pos, sp_fee_b = pos_fee_b_pending pos,
           sp_reward_0 = uri_reward_pendings (elem0 (pos_reward_infos pos)),
           sp_reward_1 = uri_reward_pendings (elem1 (pos_reward_infos pos)) \<rparr>)"

definition handle_split_position2 ::
  "environment \<Rightarrow> split_position_ctx \<Rightarrow> split_position_parameters2 \<Rightarrow>
   (pool \<times> position \<times> position \<times> split_amount_info \<times> split_position_info \<times> split_position_info) result" where
  "handle_split_position2 env ctx params =
     bindr (split_constraints ctx) (\<lambda>_.
     bindr (get_pool_access_validator (env_clock env) (sx_pool ctx)) (\<lambda>access_validator.
     bindr (require (can_split_position access_validator) (Err PoolDisabled)) (\<lambda>_.
     bindr (split2_validate params) (\<lambda>_.
     bindr (require (pos_vested_liquidity (sx_first_position ctx) = 0) (Err UnsupportPositionHasVestingLock)) (\<lambda>_.
     bindr (pool_update_rewards (sx_pool ctx) (current_time env)) (\<lambda>p.
     bindr (update_position_reward (sx_first_position ctx) p) (\<lambda>first_position.
     bindr (update_position_reward (sx_second_position ctx) p) (\<lambda>second_position.
     bindr (apply_split_position p first_position second_position
              (s2_unlocked_liquidity_numerator params) (s2_permanent_locked_liquidity_numerator params)
              (s2_fee_a_numerator params) (s2_fee_b_numerator params)
              (s2_reward_0_numerator params) (s2_reward_1_numerator params))
       (\<lambda>(first_position, second_position, amounts).
     bindr (position_info first_position) (\<lambda>first_info.
     bindr (position_info second_position) (\<lambda>second_info.
     Inr (p, first_position, second_position, amounts, first_info, second_info))))))))))))"

text \<open>The two instructions of \<open>lib.rs\<close> that lead to it.\<close>

definition split_position ::
  "environment \<Rightarrow> split_position_ctx \<Rightarrow> split_position_parameters \<Rightarrow>
   (pool \<times> position \<times> position \<times> split_amount_info \<times> split_position_info \<times> split_position_info) result" where
  "split_position env ctx params =
     bindr (split_constraints ctx) (\<lambda>_.
     bindr (get_split_position_parameters2 params) (\<lambda>params2.
     handle_split_position2 env ctx params2))"

definition split_position2 ::
  "environment \<Rightarrow> split_position_ctx \<Rightarrow> u32 \<Rightarrow>
   (pool \<times> position \<times> position \<times> split_amount_info \<times> split_position_info \<times> split_position_info) result" where
  "split_position2 env ctx numerator =
     handle_split_position2 env ctx
       \<lparr> s2_unlocked_liquidity_numerator = numerator, s2_permanent_locked_liquidity_numerator = numerator,
         s2_fee_a_numerator = numerator, s2_fee_b_numerator = numerator,
         s2_reward_0_numerator = numerator, s2_reward_1_numerator = numerator \<rparr>"

lemmas position_handlers_eval =
  create_position_nft_def handle_create_position_def handle_close_position_def
  handle_permanent_lock_position_def split2_validate_def split_validate_def
  get_split_position_parameters2_def split_constraints_def position_info_def
  handle_split_position2_def split_position_def split_position2_def liquidity_handlers_eval

section \<open>What the handlers guarantee\<close>

lemma pos_is_empty_eq_Inr:
  "pos_is_empty pos = Inr True \<longleftrightarrow>
     pos_liquidity pos = 0 \<and> pos_fee_a_pending pos = 0 \<and> pos_fee_b_pending pos = 0 \<and>
     uri_reward_pendings (elem0 (pos_reward_infos pos)) = 0 \<and>
     uri_reward_pendings (elem1 (pos_reward_infos pos)) = 0"
proof -
  have "(\<exists>l. get_total_liquidity pos = Inr l \<and> l = 0) \<longleftrightarrow> pos_liquidity pos = 0"
    by (auto simp: get_total_liquidity_eq_Inr)
  moreover have "get_total_reward pos 0 = Inr (uri_reward_pendings (elem0 (pos_reward_infos pos)))"
    "get_total_reward pos 1 = Inr (uri_reward_pendings (elem1 (pos_reward_infos pos)))"
    by (cases "pos_reward_infos pos"; simp add: get_total_reward_def)+
  ultimately show ?thesis by (auto simp: pos_is_empty_def bindr_eq_Inr)
qed

lemma permanent_lock_frame:
  assumes "handle_permanent_lock_position env ctx l = Inr (p', pos')"
  shows "pos_liquidity pos' = pos_liquidity (pl_position ctx)"
    and "unat (pos_permanent_locked_liquidity pos') = unat (pos_permanent_locked_liquidity (pl_position ctx)) + unat l"
    and "unat (pool_permanent_lock_liquidity p') = unat (pool_permanent_lock_liquidity (pl_pool ctx)) + unat l"
    and "pool_liquidity p' = pool_liquidity (pl_pool ctx)"
proof -
  obtain t where lock: "permanent_lock_liquidity (pl_position ctx) l = Inr pos'"
    and p': "p' = (pl_pool ctx)\<lparr> pool_permanent_lock_liquidity := t \<rparr>"
    and t: "unat t = unat (pool_permanent_lock_liquidity (pl_pool ctx)) + unat l"
    using assms by (auto simp: handle_permanent_lock_position_def bindr_eq_Inr accumulate_permanent_locked_liquidity_def
        safe_add_eq_Inr)
  show "pos_liquidity pos' = pos_liquidity (pl_position ctx)" using lock by (rule moves_keep_liquidity)
  show "unat (pos_permanent_locked_liquidity pos') = unat (pos_permanent_locked_liquidity (pl_position ctx)) + unat l"
    using lock by (auto simp: permanent_lock_liquidity_eq_Inr)
  show "unat (pool_permanent_lock_liquidity p') = unat (pool_permanent_lock_liquidity (pl_pool ctx)) + unat l"
    "pool_liquidity p' = pool_liquidity (pl_pool ctx)"
    using p' t by simp_all
qed

end
