(* ===== verification/Vesting.thy ===== *)
theory Vesting
  imports PoolPosition Access Token
begin

text \<open>
  Locking a position for a time: \<open>state/vesting.rs\<close>, \<open>instructions/ix_lock_position.rs\<close> and
  \<open>instructions/ix_refresh_vesting.rs\<close>. A position may have several vesting accounts; the
  store of vesting accounts is a map from their keys, and the remaining accounts of a
  refresh are a list of keys into it, in which a key may occur twice.
\<close>

section \<open>The vesting account\<close>

record vesting =
  v_position :: pubkey
  v_cliff_point :: u64
  v_period_frequency :: u64
  v_cliff_unlock_liquidity :: u128
  v_liquidity_per_period :: u128
  v_total_released_liquidity :: u128
  v_number_of_period :: u16

definition default_vesting :: vesting where
  "default_vesting = \<lparr> v_position = 0, v_cliff_point = 0, v_period_frequency = 0,
     v_cliff_unlock_liquidity = 0, v_liquidity_per_period = 0, v_total_released_liquidity = 0,
     v_number_of_period = 0 \<rparr>"

definition v_initialize :: "vesting \<Rightarrow> pubkey \<Rightarrow> u64 \<Rightarrow> u64 \<Rightarrow> u128 \<Rightarrow> u128 \<Rightarrow> u16 \<Rightarrow> vesting" where
  "v_initialize v position_key cliff_point period_frequency cliff_unlock_liquidity
     liquidity_per_period number_of_period =
     v\<lparr> v_position := position_key, v_cliff_point := cliff_point,
        v_period_frequency := period_frequency, v_cliff_unlock_liquidity := cliff_unlock_liquidity,
        v_liquidity_per_period := liquidity_per_period, v_number_of_period := number_of_period \<rparr>"

definition v_get_total_lock_amount :: "vesting \<Rightarrow> u128 result" where
  "v_get_total_lock_amount v =
     bindr (safe_mul (v_liquidity_per_period v) (ucast (v_number_of_period v))) (\<lambda>periods.
     safe_add (v_cliff_unlock_liquidity v) periods)"

definition get_max_unlocked_liquidity :: "vesting \<Rightarrow> u64 \<Rightarrow> u128 result" where
  "get_max_unlocked_liquidity v current_point =
     (if current_point < v_cliff_point v then Inr 0
      else if v_period_frequency v = 0 then Inr (v_cliff_unlock_liquidity v)
      else bindr (safe_sub current_point (v_cliff_point v)) (\<lambda>elapsed.
           bindr (safe_div elapsed (v_period_frequency v)) (\<lambda>period.
           let period = (ucast (min period (ucast (v_number_of_period v))) :: u128) in
           bindr (safe_mul period (v_liquidity_per_period v)) (\<lambda>released.
           safe_add (v_cliff_unlock_liquidity v) released))))"

definition get_new_release_liquidity :: "vesting \<Rightarrow> u64 \<Rightarrow> u128 result" where
  "get_new_release_liquidity v current_point =
     bindr (get_max_unlocked_liquidity v current_point) (\<lambda>unlocked_liquidity.
     safe_sub unlocked_liquidity (v_total_released_liquidity v))"

definition accumulate_released_liquidity :: "vesting \<Rightarrow> u128 \<Rightarrow> vesting result" where
  "accumulate_released_liquidity v released_liquidity =
     bindr (safe_add (v_total_released_liquidity v) released_liquidity) (\<lambda>t.
     Inr (v\<lparr> v_total_released_liquidity := t \<rparr>))"

definition v_done :: "vesting \<Rightarrow> bool result" where
  "v_done v = bindr (v_get_total_lock_amount v) (\<lambda>total. Inr (v_total_released_liquidity v = total))"

section \<open>Locking\<close>

record vesting_parameters =
  vp_cliff_point :: "u64 option"
  vp_period_frequency :: u64
  vp_cliff_unlock_liquidity :: u128
  vp_liquidity_per_period :: u128
  vp_number_of_period :: u16

definition get_cliff_point :: "vesting_parameters \<Rightarrow> u64 \<Rightarrow> u64" where
  "get_cliff_point vp current_point = (case vp_cliff_point vp of Some c \<Rightarrow> c | None \<Rightarrow> current_point)"

definition vp_get_total_lock_amount :: "vesting_parameters \<Rightarrow> u128 result" where
  "vp_get_total_lock_amount vp =
     bindr (safe_mul (vp_liquidity_per_period vp) (ucast (vp_number_of_period vp))) (\<lambda>periods.
     safe_add (vp_cliff_unlock_liquidity vp) periods)"

definition vp_validate :: "vesting_parameters \<Rightarrow> u64 \<Rightarrow> u64 \<Rightarrow> unit result" where
  "vp_validate vp current_point max_vesting_duration =
     (let cliff_point = get_cliff_point vp current_point in
      bindr (require (cliff_point \<ge> current_point) (Err InvalidVestingInfo)) (\<lambda>_.
      bindr (if cliff_point = current_point
             then require (vp_number_of_period vp > 0) (Err InvalidVestingInfo) else Inr ()) (\<lambda>_.
      bindr (if vp_number_of_period vp > 0
             then require (vp_period_frequency vp > 0 \<and> vp_liquidity_per_period vp > 0)
                    (Err InvalidVestingInfo) else Inr ()) (\<lambda>_.
      bindr (safe_sub cliff_point current_point) (\<lambda>until_cliff.
      bindr (safe_mul (vp_period_frequency vp) (ucast (vp_number_of_period vp))) (\<lambda>after_cliff.
      bindr (safe_add until_cliff after_cliff) (\<lambda>vesting_duration.
      bindr (require (vesting_duration \<le> max_vesting_duration) (Err InvalidVestingInfo)) (\<lambda>_.
      bindr (vp_get_total_lock_amount vp) (\<lambda>total.
      require (total > 0) (Err InvalidVestingInfo))))))))))"

record lock_position_ctx =
  lk_pool_key :: pubkey
  lk_pool :: pool
  lk_position_key :: pubkey
  lk_position :: position
  lk_vesting_key :: pubkey
  lk_position_nft_account :: token_account
  lk_owner :: pubkey

text \<open>The handler returns the position and the store with the new vesting account.\<close>

definition handle_lock_position ::
  "environment \<Rightarrow> (pubkey \<Rightarrow> vesting option) \<Rightarrow> lock_position_ctx \<Rightarrow> vesting_parameters \<Rightarrow>
   (position \<times> (pubkey \<Rightarrow> vesting option)) result" where
  "handle_lock_position env vs ctx params =
     bindr (check (pos_pool (lk_position ctx) = lk_pool_key ctx) ConstraintHasOne) (\<lambda>_.
     bindr (check (vs (lk_vesting_key ctx) = None) ConstraintAccountInit) (\<lambda>_.
     bindr (check_position_nft (lk_position_nft_account ctx) (pos_nft_mint (lk_position ctx)) (lk_owner ctx)) (\<lambda>_.
     bindr (get_pool_access_validator (env_clock env) (lk_pool ctx)) (\<lambda>access_validator.
     bindr (require (can_lock_position access_validator) (Err PoolDisabled)) (\<lambda>_.
     bindr (get_current_point_and_max_vesting_duration (env_clock env) (pool_activation_type (lk_pool ctx)))
       (\<lambda>(current_point, max_vesting_duration).
     bindr (vp_validate params current_point max_vesting_duration) (\<lambda>_.
     bindr (vp_get_total_lock_amount params) (\<lambda>total_lock_liquidity.
     let v = v_initialize default_vesting (lk_position_key ctx) (get_cliff_point params current_point)
               (vp_period_frequency params) (vp_cliff_unlock_liquidity params)
               (vp_liquidity_per_period params) (vp_number_of_period params) in
     bindr (lock (lk_position ctx) total_lock_liquidity) (\<lambda>pos.
     Inr (pos, vs(lk_vesting_key ctx \<mapsto> v)))))))))))"

section \<open>Releasing\<close>

definition release_vesting_liquidity_to_position ::
  "vesting \<Rightarrow> position \<Rightarrow> u64 \<Rightarrow> (vesting \<times> position) result" where
  "release_vesting_liquidity_to_position v pos current_point =
     bindr (get_new_release_liquidity v current_point) (\<lambda>released_liquidity.
     if released_liquidity > 0
     then bindr (release_vested_liquidity pos released_liquidity) (\<lambda>pos.
          bindr (accumulate_released_liquidity v released_liquidity) (\<lambda>v.
          Inr (v, pos)))
     else Inr (v, pos))"

definition load_and_validate :: "(pubkey \<Rightarrow> vesting option) \<Rightarrow> pubkey \<Rightarrow> pubkey \<Rightarrow> vesting result" where
  "load_and_validate vs key position_key =
     bindr (ok_or (vs key) (Constraint ConstraintAccountLoader)) (\<lambda>v.
     bindr (require (v_position v = position_key) (Err InvalidVestingAccount)) (\<lambda>_.
     Inr v))"

text \<open>The loop over the remaining accounts; a vesting that is done is closed.\<close>

fun refresh_vestings ::
  "(pubkey \<Rightarrow> vesting option) \<Rightarrow> position \<Rightarrow> pubkey \<Rightarrow> u64 \<Rightarrow> pubkey list \<Rightarrow>
   ((pubkey \<Rightarrow> vesting option) \<times> position) result" where
  "refresh_vestings vs pos position_key current_point [] = Inr (vs, pos)"
| "refresh_vestings vs pos position_key current_point (key # remaining_accounts) =
     bindr (load_and_validate vs key position_key) (\<lambda>v.
     bindr (release_vesting_liquidity_to_position v pos current_point) (\<lambda>(v, pos).
     bindr (v_done v) (\<lambda>fin.
     refresh_vestings (if fin then vs(key := None) else vs(key \<mapsto> v)) pos position_key current_point
       remaining_accounts)))"

record refresh_vesting_ctx =
  rv_pool_key :: pubkey
  rv_pool :: pool
  rv_position_key :: pubkey
  rv_position :: position
  rv_position_nft_account :: token_account
  rv_owner :: pubkey

definition handle_refresh_vesting ::
  "environment \<Rightarrow> (pubkey \<Rightarrow> vesting option) \<Rightarrow> refresh_vesting_ctx \<Rightarrow> pubkey list \<Rightarrow>
   ((pubkey \<Rightarrow> vesting option) \<times> position) result" where
  "handle_refresh_vesting env vs ctx remaining_accounts =
     bindr (check (pos_pool (rv_position ctx) = rv_pool_key ctx) ConstraintHasOne) (\<lambda>_.
     bindr (check_position_nft (rv_position_nft_account ctx) (pos_nft_mint (rv_position ctx)) (rv_owner ctx)) (\<lambda>_.
     bindr (get_current_point_and_buffer_duration (env_clock env) (pool_activation_type (rv_pool ctx)))
       (\<lambda>(current_point, _).
     refresh_vestings vs (rv_position ctx) (rv_position_key ctx) current_point remaining_accounts)))"

lemmas vesting_eval =
  default_vesting_def v_initialize_def v_get_total_lock_amount_def get_max_unlocked_liquidity_def
  get_new_release_liquidity_def accumulate_released_liquidity_def v_done_def get_cliff_point_def
  vp_get_total_lock_amount_def vp_validate_def handle_lock_position_def
  release_vesting_liquidity_to_position_def load_and_validate_def handle_refresh_vesting_def
  token_eval access_eval pool_position_eval

section \<open>The schedule\<close>

text \<open>What the schedule promises, in natural numbers.\<close>

definition total_lock :: "vesting \<Rightarrow> nat" where
  "total_lock v = unat (v_cliff_unlock_liquidity v) + unat (v_liquidity_per_period v) * unat (v_number_of_period v)"

definition unlocked_at :: "vesting \<Rightarrow> nat \<Rightarrow> nat" where
  "unlocked_at v point =
     (if point < unat (v_cliff_point v) then 0
      else unat (v_cliff_unlock_liquidity v) +
           unat (v_liquidity_per_period v) *
           (if v_period_frequency v = 0 then 0
            else min ((point - unat (v_cliff_point v)) div unat (v_period_frequency v)) (unat (v_number_of_period v))))"

lemma unlocked_at_mono: "point \<le> point' \<Longrightarrow> unlocked_at v point \<le> unlocked_at v point'"
  by (auto simp: unlocked_at_def min_le_iff_disj intro!: mult_le_mono2 div_le_mono diff_le_mono)

lemma unlocked_at_le_total: "unlocked_at v point \<le> total_lock v"
  by (auto simp: unlocked_at_def total_lock_def)

lemma unlocked_at_end:
  assumes "unat (v_cliff_point v) + unat (v_period_frequency v) * unat (v_number_of_period v) \<le> point"
    and "v_number_of_period v = 0 \<or> v_period_frequency v \<noteq> 0"
  shows "unlocked_at v point = total_lock v"
proof (cases "v_period_frequency v = 0")
  case True
  then show ?thesis using assms by (auto simp: unlocked_at_def total_lock_def)
next
  case False
  then have pos: "0 < unat (v_period_frequency v)" by (simp add: unat_gt_0)
  have "unat (v_number_of_period v) * unat (v_period_frequency v) \<le> point - unat (v_cliff_point v)"
    using assms(1) by (simp add: mult.commute)
  then have "unat (v_number_of_period v) \<le> (point - unat (v_cliff_point v)) div unat (v_period_frequency v)"
    using pos by (simp add: less_eq_div_iff_mult_less_eq)
  then show ?thesis using False assms(1) by (simp add: unlocked_at_def total_lock_def min_absorb2)
qed

lemma v_total_lock_eq_Inr: "v_get_total_lock_amount v = Inr t \<longleftrightarrow> unat t = total_lock v"
  by (simp add: v_get_total_lock_amount_def total_lock_def mul_add_eq_Inr)

lemma vp_total_lock_eq_Inr:
  "vp_get_total_lock_amount vp = Inr t \<longleftrightarrow>
     unat t = unat (vp_cliff_unlock_liquidity vp) + unat (vp_liquidity_per_period vp) * unat (vp_number_of_period vp)"
  by (simp add: vp_get_total_lock_amount_def mul_add_eq_Inr)

lemma max_unlocked_eq_Inr:
  "get_max_unlocked_liquidity v point = Inr u \<longleftrightarrow> unat u = unlocked_at v (unat point)"
proof (cases "point < v_cliff_point v \<or> v_period_frequency v = 0")
  case True
  then show ?thesis
    by (auto simp: get_max_unlocked_liquidity_def unlocked_at_def word_less_nat_alt word_eq_unat)
next
  case False
  let ?q = "(point - v_cliff_point v) div v_period_frequency v"
  let ?n = "ucast (min ?q (ucast (v_number_of_period v))) :: u128"
  have le: "v_cliff_point v \<le> point" using False by auto
  have n: "unat ?n = min ((unat point - unat (v_cliff_point v)) div unat (v_period_frequency v)) (unat (v_number_of_period v))"
    using le by (auto simp: min_def word_le_nat_alt unat_div unat_sub)
  have "bindr (safe_mul ?n (v_liquidity_per_period v)) (\<lambda>m. safe_add (v_cliff_unlock_liquidity v) m) = Inr u \<longleftrightarrow>
      unat u = unat (v_cliff_unlock_liquidity v) + unat ?n * unat (v_liquidity_per_period v)"
    by (rule mul_add_eq_Inr)
  moreover have "unlocked_at v (unat point) = unat (v_cliff_unlock_liquidity v) + unat ?n * unat (v_liquidity_per_period v)"
    using False le unfolding n by (simp add: unlocked_at_def word_le_nat_alt word_less_nat_alt)
  ultimately show ?thesis using False le
    by (simp add: get_max_unlocked_liquidity_def safe_sub_total safe_div_total Let_def)
qed

section \<open>A release\<close>

lemma release_frame:
  assumes "release_vesting_liquidity_to_position v pos point = Inr (v', pos')"
  obtains r u w where "v' = v\<lparr> v_total_released_liquidity := r \<rparr>"
    and "pos' = pos\<lparr> pos_vested_liquidity := w, pos_unlocked_liquidity := u \<rparr>"
    and "unat r = unlocked_at v (unat point)" and "v_total_released_liquidity v \<le> r"
    and "unat (pos_vested_liquidity pos) = unat w + (unat r - unat (v_total_released_liquidity v))"
    and "unat u = unat (pos_unlocked_liquidity pos) + (unat r - unat (v_total_released_liquidity v))"
proof -
  obtain m d :: u128 where m: "unat m = unlocked_at v (unat point)"
    and d: "unat m = unat (v_total_released_liquidity v) + unat d"
    and rest: "(if d > 0
       then bindr (release_vested_liquidity pos d) (\<lambda>pos.
            bindr (accumulate_released_liquidity v d) (\<lambda>v. Inr (v, pos)))
       else Inr (v, pos)) = Inr (v', pos')"
    using assms
    by (auto simp: release_vesting_liquidity_to_position_def get_new_release_liquidity_def bindr_eq_Inr
        max_unlocked_eq_Inr safe_sub_eq_Inr)
  show ?thesis
  proof (cases "d > 0")
    case True
    then obtain r u w where "v' = v\<lparr> v_total_released_liquidity := r \<rparr>"
      "unat r = unat (v_total_released_liquidity v) + unat d"
      "pos' = pos\<lparr> pos_vested_liquidity := w, pos_unlocked_liquidity := u \<rparr>"
      "unat (pos_vested_liquidity pos) = unat d + unat w" "unat u = unat (pos_unlocked_liquidity pos) + unat d"
      using rest by (auto simp: bindr_eq_Inr accumulate_released_liquidity_def release_vested_liquidity_eq_Inr safe_add_eq_Inr)
    then show ?thesis using m d by (intro that [of r u w]) (auto simp: word_le_nat_alt)
  next
    case False
    then have "v' = v" "pos' = pos" "unat d = 0" using rest by (auto simp: word_pos)
    then show ?thesis using m d
      by (intro that [of "v_total_released_liquidity v" "pos_unlocked_liquidity pos" "pos_vested_liquidity pos"])
        (auto simp: word_le_nat_alt)
  qed
qed

lemma release_total:
  assumes "unat (v_total_released_liquidity v) \<le> unlocked_at v (unat point)" and "total_lock v < 2 ^ 128"
    and "total_lock v - unat (v_total_released_liquidity v) \<le> unat (pos_vested_liquidity pos)"
    and "pos_liquidity pos < 2 ^ 128"
  shows "\<exists>v' pos'. release_vesting_liquidity_to_position v pos point = Inr (v', pos')"
proof -
  have le: "unlocked_at v (unat point) \<le> total_lock v" by (rule unlocked_at_le_total)
  obtain m :: u128 where m: "unat m = unlocked_at v (unat point)"
    using ex_unat [of "unlocked_at v (unat point)", where 'a = 128] le assms(2) by auto
  obtain d :: u128 where d: "unat m = unat (v_total_released_liquidity v) + unat d"
    using safe_sub_total [of "v_total_released_liquidity v" m] m assms(1)
    by (auto simp: word_le_nat_alt safe_sub_eq_Inr)
  have new: "get_new_release_liquidity v point = Inr d"
    using m d by (auto simp: get_new_release_liquidity_def bindr_eq_Inr max_unlocked_eq_Inr safe_sub_eq_Inr)
  have dv: "unat d \<le> unat (pos_vested_liquidity pos)" using d m le assms(3) by linarith
  obtain w :: u128 where w: "unat (pos_vested_liquidity pos) = unat d + unat w"
    using safe_sub_total [of d "pos_vested_liquidity pos"] dv by (auto simp: word_le_nat_alt safe_sub_eq_Inr)
  obtain u :: u128 where u: "unat u = unat (pos_unlocked_liquidity pos) + unat d"
    using ex_unat [of "unat (pos_unlocked_liquidity pos) + unat d", where 'a = 128] dv assms(4)
    by (auto simp: pos_liquidity_def)
  have "release_vested_liquidity pos d = Inr (pos\<lparr> pos_vested_liquidity := w, pos_unlocked_liquidity := u \<rparr>)"
    using w u by (auto simp: release_vested_liquidity_eq_Inr)
  moreover have "accumulate_released_liquidity v d = Inr (v\<lparr> v_total_released_liquidity := m \<rparr>)"
    using d by (auto simp: accumulate_released_liquidity_def bindr_eq_Inr safe_add_eq_Inr)
  ultimately show ?thesis using new
    by (auto simp: release_vesting_liquidity_to_position_def)
qed

section \<open>Vested liquidity is backed by the schedules\<close>

definition still_locked :: "vesting \<Rightarrow> nat" where
  "still_locked v = total_lock v - unat (v_total_released_liquidity v)"

definition vestings_of :: "(pubkey \<Rightarrow> vesting option) \<Rightarrow> pubkey \<Rightarrow> pubkey set" where
  "vestings_of vs position_key = {k. \<exists>v. vs k = Some v \<and> v_position v = position_key}"

definition locked_in :: "(pubkey \<Rightarrow> vesting option) \<Rightarrow> pubkey \<Rightarrow> nat" where
  "locked_in vs position_key = (\<Sum>k\<in>vestings_of vs position_key. still_locked (the (vs k)))"

definition vesting_backed :: "(pubkey \<Rightarrow> vesting option) \<Rightarrow> pubkey \<Rightarrow> position \<Rightarrow> bool" where
  "vesting_backed vs position_key pos \<longleftrightarrow>
     unat (pos_vested_liquidity pos) = locked_in vs position_key \<and>
     (\<forall>k v. vs k = Some v \<longrightarrow> v_position v = position_key \<longrightarrow>
        unat (v_total_released_liquidity v) \<le> total_lock v)"

lemma finite_keys: "finite (A :: pubkey set)"
  by (rule finite_subset [OF subset_UNIV]) simp

lemma locked_in_insert:
  assumes "vs k = None" and "v_position v = pk"
  shows "locked_in (vs(k \<mapsto> v)) pk = locked_in vs pk + still_locked v"
proof -
  have "vestings_of (vs(k \<mapsto> v)) pk = insert k (vestings_of vs pk)" "k \<notin> vestings_of vs pk"
    using assms by (auto simp: vestings_of_def)
  moreover have "(\<Sum>j\<in>vestings_of vs pk. still_locked (the ((vs(k \<mapsto> v)) j))) = locked_in vs pk"
    unfolding locked_in_def by (rule sum.cong) (use assms in \<open>auto simp: vestings_of_def\<close>)
  ultimately show ?thesis by (simp add: locked_in_def finite_keys)
qed

lemma locked_in_remove:
  assumes "vs k = Some v" and "v_position v = pk"
  shows "locked_in vs pk = locked_in (vs(k := None)) pk + still_locked v"
  using locked_in_insert [of "vs(k := None)" k v pk] assms by (simp add: fun_upd_idem)

lemma locked_in_other:
  assumes "\<And>v. vs k = Some v \<Longrightarrow> v_position v \<noteq> pk" and "\<And>v. x = Some v \<Longrightarrow> v_position v \<noteq> pk"
  shows "locked_in (vs(k := x)) pk = locked_in vs pk"
  unfolding locked_in_def
  by (rule sum.cong) (use assms in \<open>auto simp: vestings_of_def split: if_splits\<close>)

lemma lock_position_backed:
  assumes "handle_lock_position env vs ctx params = Inr (pos', vs')"
    and "vesting_backed vs (lk_position_key ctx) (lk_position ctx)"
  shows "vesting_backed vs' (lk_position_key ctx) pos'" and "pos_liquidity pos' = pos_liquidity (lk_position ctx)"
proof -
  obtain t cp v where none: "vs (lk_vesting_key ctx) = None"
    and t: "vp_get_total_lock_amount params = Inr t" and lock: "lock (lk_position ctx) t = Inr pos'"
    and v: "v = v_initialize default_vesting (lk_position_key ctx) cp
               (vp_period_frequency params) (vp_cliff_unlock_liquidity params)
               (vp_liquidity_per_period params) (vp_number_of_period params)"
    and vs': "vs' = vs(lk_vesting_key ctx \<mapsto> v)"
    using assms(1)
    by (auto simp: handle_lock_position_def bindr_eq_Inr require_eq_Inr Let_def split: prod.splits)
  have total: "total_lock v = unat t" "v_total_released_liquidity v = 0" "v_position v = lk_position_key ctx"
    using t by (simp_all add: v v_initialize_def default_vesting_def total_lock_def vp_total_lock_eq_Inr)
  show "vesting_backed vs' (lk_position_key ctx) pos'"
    using assms(2) lock locked_in_insert [of vs "lk_vesting_key ctx" v "lk_position_key ctx"] none total
    by (auto simp: vesting_backed_def vs' lock_eq_Inr still_locked_def)
  show "pos_liquidity pos' = pos_liquidity (lk_position ctx)" using lock by (rule moves_keep_liquidity)
qed

lemma refresh_step_backed:
  assumes "load_and_validate vs k pk = Inr v"
    and "release_vesting_liquidity_to_position v pos point = Inr (v', pos')" and "v_done v' = Inr fin"
    and "vesting_backed vs pk pos"
  shows "vesting_backed (if fin then vs(k := None) else vs(k \<mapsto> v')) pk pos'"
    and "pos_liquidity pos' = pos_liquidity pos"
    and "unat (v_total_released_liquidity v') = unlocked_at v (unat point)"
    and "fin \<longleftrightarrow> unlocked_at v (unat point) = total_lock v"
    and "v_position v' = pk" and "total_lock v' = total_lock v"
proof -
  have k: "vs k = Some v" and vpk: "v_position v = pk"
    using assms(1) by (auto simp: load_and_validate_def bindr_eq_Inr ok_or_eq_Inr require_eq_Inr)
  obtain r u w where v': "v' = v\<lparr> v_total_released_liquidity := r \<rparr>"
    and pos': "pos' = pos\<lparr> pos_vested_liquidity := w, pos_unlocked_liquidity := u \<rparr>"
    and r: "unat r = unlocked_at v (unat point)" and ge: "v_total_released_liquidity v \<le> r"
    and w: "unat (pos_vested_liquidity pos) = unat w + (unat r - unat (v_total_released_liquidity v))"
    and u: "unat u = unat (pos_unlocked_liquidity pos) + (unat r - unat (v_total_released_liquidity v))"
    by (rule release_frame [OF assms(2)])
  have tl: "total_lock v' = total_lock v" and unl: "unat r \<le> total_lock v"
    using unlocked_at_le_total [of v "unat point"] by (simp_all add: v' r total_lock_def)
  have fin: "fin \<longleftrightarrow> unat r = total_lock v"
    using assms(3) tl by (auto simp: v_done_def bindr_eq_Inr v_total_lock_eq_Inr v' word_eq_unat)
  then show "fin \<longleftrightarrow> unlocked_at v (unat point) = total_lock v" by (simp add: r)
  show "unat (v_total_released_liquidity v') = unlocked_at v (unat point)" by (simp add: v' r)
  show "v_position v' = pk" by (simp add: v' vpk)
  show "total_lock v' = total_lock v" by (rule tl)
  show "pos_liquidity pos' = pos_liquidity pos" using w u by (simp add: pos' pos_liquidity_def)
  have old: "unat (v_total_released_liquidity v) \<le> total_lock v"
    using assms(4) k vpk by (auto simp: vesting_backed_def)
  have rm: "locked_in vs pk = locked_in (vs(k := None)) pk + still_locked v"
    using locked_in_remove [of vs k v pk] k vpk by simp
  have ins: "locked_in (vs(k \<mapsto> v')) pk = locked_in (vs(k := None)) pk + still_locked v'"
    using locked_in_insert [of "vs(k := None)" k v' pk] vpk by (simp add: v')
  have sl: "still_locked v = still_locked v' + (unat r - unat (v_total_released_liquidity v))"
    using ge old unl tl by (simp add: still_locked_def v' word_le_nat_alt)
  have "fin \<Longrightarrow> still_locked v' = 0" using fin tl by (simp add: still_locked_def v')
  then have "locked_in (if fin then vs(k := None) else vs(k \<mapsto> v')) pk = unat w"
    using ins rm sl w assms(4) by (auto simp: vesting_backed_def)
  then show "vesting_backed (if fin then vs(k := None) else vs(k \<mapsto> v')) pk pos'"
    using assms(4) unl tl by (auto simp: vesting_backed_def pos' v' split: if_splits)
qed

lemma refresh_vestings_backed:
  assumes "refresh_vestings vs pos pk point keys = Inr (vs', pos')" and "vesting_backed vs pk pos"
  shows "vesting_backed vs' pk pos' \<and> pos_liquidity pos' = pos_liquidity pos"
  using assms
proof (induction keys arbitrary: vs pos)
  case (Cons k keys)
  then obtain v v1 pos1 fin where v: "load_and_validate vs k pk = Inr v"
    and rel: "release_vesting_liquidity_to_position v pos point = Inr (v1, pos1)" and fin: "v_done v1 = Inr fin"
    and rest: "refresh_vestings (if fin then vs(k := None) else vs(k \<mapsto> v1)) pos1 pk point keys = Inr (vs', pos')"
    by (auto simp: bindr_eq_Inr split: prod.splits)
  note step = refresh_step_backed [OF v rel fin Cons.prems(2)]
  show ?case using Cons.IH [OF rest step(1)] step(2) by simp
qed simp

end
