(* ===== verification/Config.thy ===== *)
theory Config
  imports Activation Pool
begin

text \<open>
  \<open>params/fee_parameters.rs\<close> and \<open>state/config.rs\<close>: the fees a pool is created with, their
  validation, and the configuration account that stores them. The same fee data exists in
  three shapes in the code (parameters, configuration, pool), with conversions between them.
  The base fee has the same fields in all three, up to padding and order.
\<close>

section \<open>Fee parameters\<close>

record base_fee_parameters =
  bp_cliff_fee_numerator :: u64
  bp_number_of_period :: u16
  bp_period_frequency :: u64
  bp_reduction_factor :: u64
  bp_fee_scheduler_mode :: u8

record dynamic_fee_parameters =
  dp_bin_step :: u16
  dp_bin_step_u128 :: u128
  dp_filter_period :: u16
  dp_decay_period :: u16
  dp_reduction_factor :: u16
  dp_max_volatility_accumulator :: u32
  dp_variable_fee_control :: u32

record pool_fee_parameters =
  pp_base_fee :: base_fee_parameters
  pp_dynamic_fee :: "dynamic_fee_parameters option"

record base_fee_config =
  bc_cliff_fee_numerator :: u64
  bc_fee_scheduler_mode :: u8
  bc_number_of_period :: u16
  bc_period_frequency :: u64
  bc_reduction_factor :: u64

record dynamic_fee_config =
  dc_initialized :: u8
  dc_max_volatility_accumulator :: u32
  dc_variable_fee_control :: u32
  dc_bin_step :: u16
  dc_filter_period :: u16
  dc_decay_period :: u16
  dc_reduction_factor :: u16
  dc_bin_step_u128 :: u128

record pool_fees_config =
  pc_base_fee :: base_fee_config
  pc_dynamic_fee :: dynamic_fee_config
  pc_protocol_fee_percent :: u8
  pc_partner_fee_percent :: u8
  pc_referral_fee_percent :: u8

definition default_dynamic_fee_config :: dynamic_fee_config where
  "default_dynamic_fee_config = \<lparr> dc_initialized = 0, dc_max_volatility_accumulator = 0,
     dc_variable_fee_control = 0, dc_bin_step = 0, dc_filter_period = 0, dc_decay_period = 0,
     dc_reduction_factor = 0, dc_bin_step_u128 = 0 \<rparr>"

definition default_pool_fees_config :: pool_fees_config where
  "default_pool_fees_config =
     \<lparr> pc_base_fee = \<lparr> bc_cliff_fee_numerator = 0, bc_fee_scheduler_mode = 0, bc_number_of_period = 0,
                       bc_period_frequency = 0, bc_reduction_factor = 0 \<rparr>,
       pc_dynamic_fee = default_dynamic_fee_config, pc_protocol_fee_percent = 0,
       pc_partner_fee_percent = 0, pc_referral_fee_percent = 0 \<rparr>"

section \<open>Validation\<close>

definition bp_get_max_base_fee_numerator :: "base_fee_parameters \<Rightarrow> u64" where
  "bp_get_max_base_fee_numerator bp = bp_cliff_fee_numerator bp"

definition bp_get_min_base_fee_numerator :: "base_fee_parameters \<Rightarrow> u64 result" where
  "bp_get_min_base_fee_numerator bp =
     bindr (ok_or (fee_scheduler_mode_try_from (bp_fee_scheduler_mode bp)) (Err TypeCastFailed)) (\<lambda>mode.
     case mode of
       Linear \<Rightarrow> bindr (safe_mul (bp_reduction_factor bp) (ucast (bp_number_of_period bp))) (\<lambda>reduction.
                 safe_sub (bp_cliff_fee_numerator bp) reduction)
     | Exponential \<Rightarrow> get_fee_in_period (bp_cliff_fee_numerator bp) (bp_reduction_factor bp)
                        (bp_number_of_period bp))"

definition validate_fee_fraction :: "u64 \<Rightarrow> u64 \<Rightarrow> unit result" where
  "validate_fee_fraction numerator denominator =
     (if denominator = 0 \<or> numerator \<ge> denominator then Inl (Err InvalidFee) else Inr ())"

definition base_fee_validate :: "base_fee_parameters \<Rightarrow> unit result" where
  "base_fee_validate bp =
     bindr (bp_get_min_base_fee_numerator bp) (\<lambda>min_fee_numerator.
     let max_fee_numerator = bp_get_max_base_fee_numerator bp in
     bindr (validate_fee_fraction min_fee_numerator FEE_DENOMINATOR) (\<lambda>_.
     bindr (validate_fee_fraction max_fee_numerator FEE_DENOMINATOR) (\<lambda>_.
     require (min_fee_numerator \<ge> MIN_FEE_NUMERATOR \<and> max_fee_numerator \<le> MAX_FEE_NUMERATOR)
       (Err ExceedMaxFeeBps))))"

definition dynamic_fee_validate :: "dynamic_fee_parameters \<Rightarrow> unit result" where
  "dynamic_fee_validate dp =
     bindr (require (dp_bin_step dp = BIN_STEP_BPS_DEFAULT) (Err InvalidInput)) (\<lambda>_.
     bindr (require (dp_bin_step_u128 dp = BIN_STEP_BPS_U128_DEFAULT) (Err InvalidInput)) (\<lambda>_.
     bindr (require (dp_filter_period dp < dp_decay_period dp) (Err InvalidInput)) (\<lambda>_.
     bindr (require (dp_reduction_factor dp \<le> ucast BASIS_POINT_MAX) (Err InvalidInput)) (\<lambda>_.
     bindr (require (dp_variable_fee_control dp \<le> U24_MAX) (Err InvalidInput)) (\<lambda>_.
     require (dp_max_volatility_accumulator dp \<le> U24_MAX) (Err InvalidInput))))))"

definition pool_fee_validate :: "pool_fee_parameters \<Rightarrow> unit result" where
  "pool_fee_validate pp =
     bindr (base_fee_validate (pp_base_fee pp)) (\<lambda>_.
     case pp_dynamic_fee pp of Some dynamic_fee \<Rightarrow> dynamic_fee_validate dynamic_fee | None \<Rightarrow> Inr ())"

text \<open>Two helpers kept from the token-swap program.\<close>

definition calculate_fee :: "u128 \<Rightarrow> u128 \<Rightarrow> u128 \<Rightarrow> u128 option" where
  "calculate_fee token_amount fee_numerator fee_denominator =
     (if fee_numerator = 0 \<or> token_amount = 0 then Some 0
      else case checked_mul token_amount fee_numerator of
        None \<Rightarrow> None
      | Some product \<Rightarrow> (case checked_div product fee_denominator of
            None \<Rightarrow> None
          | Some fee \<Rightarrow> if fee = 0 then Some 1 else Some fee))"

definition to_bps :: "u128 \<Rightarrow> u128 \<Rightarrow> u64 option" where
  "to_bps numerator denominator =
     (case checked_mul numerator (ucast MAX_BASIS_POINT) of
        None \<Rightarrow> None
      | Some product \<Rightarrow> (case checked_div product denominator of
            None \<Rightarrow> None
          | Some bps \<Rightarrow> try_cast bps))"

section \<open>Conversions\<close>

definition to_base_fee_struct :: "base_fee_parameters \<Rightarrow> base_fee_struct" where
  "to_base_fee_struct bp =
     default_base_fee\<lparr> bf_cliff_fee_numerator := bp_cliff_fee_numerator bp,
       bf_number_of_period := bp_number_of_period bp, bf_period_frequency := bp_period_frequency bp,
       bf_reduction_factor := bp_reduction_factor bp, bf_fee_scheduler_mode := bp_fee_scheduler_mode bp \<rparr>"

definition to_base_fee_config :: "base_fee_parameters \<Rightarrow> base_fee_config" where
  "to_base_fee_config bp =
     \<lparr> bc_cliff_fee_numerator = bp_cliff_fee_numerator bp,
       bc_fee_scheduler_mode = bp_fee_scheduler_mode bp,
       bc_number_of_period = bp_number_of_period bp, bc_period_frequency = bp_period_frequency bp,
       bc_reduction_factor = bp_reduction_factor bp \<rparr>"

definition to_dynamic_fee_config :: "dynamic_fee_parameters \<Rightarrow> dynamic_fee_config" where
  "to_dynamic_fee_config dp =
     \<lparr> dc_initialized = 1, dc_max_volatility_accumulator = dp_max_volatility_accumulator dp,
       dc_variable_fee_control = dp_variable_fee_control dp, dc_bin_step = dp_bin_step dp,
       dc_filter_period = dp_filter_period dp, dc_decay_period = dp_decay_period dp,
       dc_reduction_factor = dp_reduction_factor dp, dc_bin_step_u128 = dp_bin_step_u128 dp \<rparr>"

definition to_dynamic_fee_struct :: "dynamic_fee_parameters \<Rightarrow> dynamic_fee_struct" where
  "to_dynamic_fee_struct dp =
     default_dynamic_fee\<lparr> df_initialized := 1, df_bin_step := dp_bin_step dp,
       df_bin_step_u128 := dp_bin_step_u128 dp, df_filter_period := dp_filter_period dp,
       df_decay_period := dp_decay_period dp, df_reduction_factor := dp_reduction_factor dp,
       df_max_volatility_accumulator := dp_max_volatility_accumulator dp,
       df_variable_fee_control := dp_variable_fee_control dp \<rparr>"

definition to_pool_fees_config :: "pool_fee_parameters \<Rightarrow> pool_fees_config" where
  "to_pool_fees_config pp =
     (case pp_dynamic_fee pp of
        Some dynamic_fee \<Rightarrow>
          default_pool_fees_config\<lparr> pc_base_fee := to_base_fee_config (pp_base_fee pp),
            pc_protocol_fee_percent := PROTOCOL_FEE_PERCENT, pc_partner_fee_percent := PARTNER_FEE_PERCENT,
            pc_referral_fee_percent := HOST_FEE_PERCENT,
            pc_dynamic_fee := to_dynamic_fee_config dynamic_fee \<rparr>
      | None \<Rightarrow>
          default_pool_fees_config\<lparr> pc_base_fee := to_base_fee_config (pp_base_fee pp),
            pc_protocol_fee_percent := PROTOCOL_FEE_PERCENT, pc_partner_fee_percent := PARTNER_FEE_PERCENT,
            pc_referral_fee_percent := HOST_FEE_PERCENT \<rparr>)"

definition to_pool_fees_struct :: "pool_fee_parameters \<Rightarrow> pool_fees_struct" where
  "to_pool_fees_struct pp =
     (case pp_dynamic_fee pp of
        Some dynamic_fee \<Rightarrow>
          default_pool_fees\<lparr> pf_base_fee := to_base_fee_struct (pp_base_fee pp),
            pf_protocol_fee_percent := PROTOCOL_FEE_PERCENT, pf_partner_fee_percent := PARTNER_FEE_PERCENT,
            pf_referral_fee_percent := HOST_FEE_PERCENT,
            pf_dynamic_fee := to_dynamic_fee_struct dynamic_fee \<rparr>
      | None \<Rightarrow>
          default_pool_fees\<lparr> pf_base_fee := to_base_fee_struct (pp_base_fee pp),
            pf_protocol_fee_percent := PROTOCOL_FEE_PERCENT, pf_partner_fee_percent := PARTNER_FEE_PERCENT,
            pf_referral_fee_percent := HOST_FEE_PERCENT \<rparr>)"

text \<open>And back, from the configuration (the methods of \<open>state/config.rs\<close>).\<close>

definition bc_to_base_fee_parameters :: "base_fee_config \<Rightarrow> base_fee_parameters" where
  "bc_to_base_fee_parameters bc =
     \<lparr> bp_cliff_fee_numerator = bc_cliff_fee_numerator bc, bp_number_of_period = bc_number_of_period bc,
       bp_period_frequency = bc_period_frequency bc, bp_reduction_factor = bc_reduction_factor bc,
       bp_fee_scheduler_mode = bc_fee_scheduler_mode bc \<rparr>"

definition bc_to_base_fee_struct :: "base_fee_config \<Rightarrow> base_fee_struct" where
  "bc_to_base_fee_struct bc =
     default_base_fee\<lparr> bf_cliff_fee_numerator := bc_cliff_fee_numerator bc,
       bf_number_of_period := bc_number_of_period bc, bf_period_frequency := bc_period_frequency bc,
       bf_reduction_factor := bc_reduction_factor bc, bf_fee_scheduler_mode := bc_fee_scheduler_mode bc \<rparr>"

definition dc_to_dynamic_fee_struct :: "dynamic_fee_config \<Rightarrow> dynamic_fee_struct" where
  "dc_to_dynamic_fee_struct dc =
     (if dc_initialized dc = 0 then default_dynamic_fee
      else default_dynamic_fee\<lparr> df_initialized := 1, df_bin_step := dc_bin_step dc,
             df_bin_step_u128 := dc_bin_step_u128 dc, df_filter_period := dc_filter_period dc,
             df_decay_period := dc_decay_period dc, df_reduction_factor := dc_reduction_factor dc,
             df_max_volatility_accumulator := dc_max_volatility_accumulator dc,
             df_variable_fee_control := dc_variable_fee_control dc \<rparr>)"

definition pc_to_pool_fee_parameters :: "pool_fees_config \<Rightarrow> pool_fee_parameters" where
  "pc_to_pool_fee_parameters pc =
     (let dc = pc_dynamic_fee pc in
      if dc_initialized dc = 1
      then \<lparr> pp_base_fee = bc_to_base_fee_parameters (pc_base_fee pc),
             pp_dynamic_fee = Some \<lparr> dp_bin_step = dc_bin_step dc, dp_bin_step_u128 = dc_bin_step_u128 dc,
               dp_filter_period = dc_filter_period dc, dp_decay_period = dc_decay_period dc,
               dp_reduction_factor = dc_reduction_factor dc,
               dp_max_volatility_accumulator = dc_max_volatility_accumulator dc,
               dp_variable_fee_control = dc_variable_fee_control dc \<rparr> \<rparr>
      else \<lparr> pp_base_fee = bc_to_base_fee_parameters (pc_base_fee pc), pp_dynamic_fee = None \<rparr>)"

definition pc_to_pool_fees_struct :: "pool_fees_config \<Rightarrow> pool_fees_struct" where
  "pc_to_pool_fees_struct pc =
     default_pool_fees\<lparr> pf_base_fee := bc_to_base_fee_struct (pc_base_fee pc),
       pf_protocol_fee_percent := pc_protocol_fee_percent pc,
       pf_partner_fee_percent := pc_partner_fee_percent pc,
       pf_referral_fee_percent := pc_referral_fee_percent pc,
       pf_dynamic_fee := dc_to_dynamic_fee_struct (pc_dynamic_fee pc) \<rparr>"

section \<open>The partner\<close>

record partner_info =
  pi_fee_percent :: u8
  pi_partner_authority :: pubkey
  pi_pending_fee_a :: u64
  pi_pending_fee_b :: u64

definition have_partner :: "partner_info \<Rightarrow> bool" where
  "have_partner pinfo \<longleftrightarrow> pi_partner_authority pinfo \<noteq> default_pubkey"

definition partner_info_validate :: "partner_info \<Rightarrow> unit result" where
  "partner_info_validate pinfo =
     (if \<not> have_partner pinfo then require (pi_fee_percent pinfo = 0) (Err InvalidFee) else Inr ())"

section \<open>The configuration account\<close>

datatype config_type = Static | Dynamic

definition config_type_u8 :: "config_type \<Rightarrow> u8" where
  "config_type_u8 t = (case t of Static \<Rightarrow> 0 | Dynamic \<Rightarrow> 1)"

definition config_type_try_from :: "u8 \<Rightarrow> config_type option" where
  "config_type_try_from x = (if x = 0 then Some Static else if x = 1 then Some Dynamic else None)"

record config =
  cf_vault_config_key :: pubkey
  cf_pool_creator_authority :: pubkey
  cf_pool_fees :: pool_fees_config
  cf_activation_type :: u8
  cf_collect_fee_mode :: u8
  cf_config_type :: u8
  cf_index :: u64
  cf_sqrt_min_price :: u128
  cf_sqrt_max_price :: u128

text \<open>A fresh account is all zero.\<close>

definition default_config :: config where
  "default_config = \<lparr> cf_vault_config_key = 0, cf_pool_creator_authority = 0,
     cf_pool_fees = default_pool_fees_config, cf_activation_type = 0, cf_collect_fee_mode = 0,
     cf_config_type = 0, cf_index = 0, cf_sqrt_min_price = 0, cf_sqrt_max_price = 0 \<rparr>"

definition init_static_config ::
  "config \<Rightarrow> u64 \<Rightarrow> pool_fee_parameters \<Rightarrow> pubkey \<Rightarrow> pubkey \<Rightarrow> u8 \<Rightarrow> u128 \<Rightarrow> u128 \<Rightarrow> u8 \<Rightarrow> config" where
  "init_static_config cf index fees vault_config_key pool_creator_authority activation_type
     sqrt_min_price sqrt_max_price collect_fee_mode =
     cf\<lparr> cf_index := index, cf_pool_fees := to_pool_fees_config fees,
        cf_vault_config_key := vault_config_key, cf_pool_creator_authority := pool_creator_authority,
        cf_activation_type := activation_type, cf_sqrt_min_price := sqrt_min_price,
        cf_sqrt_max_price := sqrt_max_price, cf_collect_fee_mode := collect_fee_mode,
        cf_config_type := config_type_u8 Static \<rparr>"

definition get_config_type :: "config \<Rightarrow> config_type result" where
  "get_config_type cf = ok_or (config_type_try_from (cf_config_type cf)) (Err TypeCastFailed)"

definition init_dynamic_config :: "config \<Rightarrow> u64 \<Rightarrow> pubkey \<Rightarrow> config" where
  "init_dynamic_config cf index pool_creator_authority =
     cf\<lparr> cf_index := index, cf_pool_creator_authority := pool_creator_authority,
        cf_config_type := config_type_u8 Dynamic \<rparr>"

definition get_partner_info :: "config \<Rightarrow> partner_info" where
  "get_partner_info cf =
     \<lparr> pi_fee_percent = pc_partner_fee_percent (cf_pool_fees cf),
       pi_partner_authority = cf_pool_creator_authority cf, pi_pending_fee_a = 0, pi_pending_fee_b = 0 \<rparr>"

definition has_alpha_vault :: "config \<Rightarrow> bool" where
  "has_alpha_vault cf \<longleftrightarrow> cf_vault_config_key cf \<noteq> default_pubkey"

definition cf_max_activation_point_from_current_time :: "config \<Rightarrow> clock \<Rightarrow> u64 result" where
  "cf_max_activation_point_from_current_time cf clk =
     bindr (to_activation_type (cf_activation_type cf)) (\<lambda>t.
     tc_max_activation_point_from_current_time (get_timing_constraint_by_activation_type t clk))"

lemmas config_eval =
  default_dynamic_fee_config_def default_pool_fees_config_def bp_get_max_base_fee_numerator_def
  bp_get_min_base_fee_numerator_def validate_fee_fraction_def base_fee_validate_def
  dynamic_fee_validate_def pool_fee_validate_def calculate_fee_def to_bps_def to_base_fee_struct_def
  to_base_fee_config_def to_dynamic_fee_config_def to_dynamic_fee_struct_def to_pool_fees_config_def
  to_pool_fees_struct_def bc_to_base_fee_parameters_def bc_to_base_fee_struct_def
  dc_to_dynamic_fee_struct_def pc_to_pool_fee_parameters_def pc_to_pool_fees_struct_def
  have_partner_def partner_info_validate_def config_type_u8_def config_type_try_from_def
  default_config_def init_static_config_def get_config_type_def init_dynamic_config_def
  get_partner_info_def has_alpha_vault_def cf_max_activation_point_from_current_time_def

end
