(* ===== verification/FeeSchedule.thy ===== *)
theory FeeSchedule
  imports Complex_Main Market Config
begin

text \<open>
  What validating the fees of a new pool buys later: with parameters that
  \<open>PoolFeeParameters::validate\<close> accepts, no fee computation of the pool can fail or panic at
  any point in time. For the exponential schedule this needs the error of the fixed-point
  power from below (\<open>FeeMath\<close> has it from above): each multiplication loses less than one
  unit of \<open>2 ^ -64\<close>.
\<close>

section \<open>The error of the power\<close>

definition q64 :: "nat \<Rightarrow> real" where
  "q64 x = real x / 2 ^ 64"

text \<open>\<open>x\<close> is short of the \<open>m\<close>-th power of \<open>b\<close> by at most \<open>e\<close> units.\<close>

definition short_of_power :: "nat \<Rightarrow> nat \<Rightarrow> nat \<Rightarrow> nat \<Rightarrow> bool" where
  "short_of_power b m e x \<longleftrightarrow> q64 b ^ m \<le> q64 x + q64 e"

lemma q64_nonneg [simp]: "0 \<le> q64 x"
  by (simp add: q64_def)

lemma q64_add: "q64 (x + y) = q64 x + q64 y"
  by (simp add: q64_def add_divide_distrib)

lemma q64_le_1 [simp]: "q64 x \<le> 1 \<longleftrightarrow> x \<le> 2 ^ 64"
  using of_nat_le_iff [of x "2 ^ 64", where 'a = real] by (simp add: q64_def)

lemma q64_le [simp]: "q64 x \<le> q64 y \<longleftrightarrow> x \<le> y"
  by (simp add: q64_def divide_le_cancel)

lemma q64_div: "q64 x * q64 y \<le> q64 (x * y div 2 ^ 64) + q64 1"
proof -
  have "x * y \<le> (x * y div 2 ^ 64 + 1) * 2 ^ 64"
    using div_mult_mod_eq [of "x * y" "2 ^ 64"] mod_less_divisor [of "2 ^ 64" "x * y"] by simp
  then have "real (x * y) \<le> real ((x * y div 2 ^ 64 + 1) * 2 ^ 64)" by (rule of_nat_mono)
  then have "real x * real y / 2 ^ 128 \<le> real (x * y div 2 ^ 64 + 1) * 2 ^ 64 / 2 ^ 128"
    by (intro divide_right_mono) simp_all
  moreover have "real (x * y div 2 ^ 64 + 1) * 2 ^ 64 / 2 ^ 128 = real (x * y div 2 ^ 64 + 1) / 2 ^ 64"
    by simp
  moreover have "q64 x * q64 y = real x * real y / 2 ^ 128" by (simp add: q64_def)
  ultimately show ?thesis by (simp only: q64_add [symmetric]) (simp add: q64_def)
qed

lemma below_power_q64:
  assumes "below_power b m x"
  shows "q64 x \<le> q64 b ^ m"
proof -
  define c where "c = (2 :: real) ^ 64"
  have c: "0 < c" by (simp add: c_def)
  have "real (x * (2 ^ 64) ^ m) \<le> real (b ^ m * 2 ^ 64)"
    using assms unfolding below_power_def power_mult of_nat_le_iff .
  then have "real x * c ^ m \<le> real b ^ m * c" unfolding c_def by (simp only: of_nat_mult of_nat_power of_nat_numeral)
  then have "real x \<le> real b ^ m * c / c ^ m" using c by (simp add: pos_le_divide_eq)
  then have "real x / c \<le> real b ^ m * c / c ^ m / c" using c by (intro divide_right_mono) simp_all
  also have "\<dots> = (real b / c) ^ m" using c by (simp add: power_divide)
  finally show ?thesis by (simp only: q64_def c_def)
qed

lemma short_of_power_mul:
  assumes "mul_q64 x y = Some z" and "b \<le> 2 ^ 64" and "unat y \<le> 2 ^ 64"
    and "short_of_power b m e (unat x)" and "short_of_power b n f (unat y)"
  shows "short_of_power b (m + n) (e + f + 1) (unat z)"
proof -
  let ?X = "q64 b ^ m" and ?Y = "q64 b ^ n" and ?x = "q64 (unat x)" and ?y = "q64 (unat y)"
  have X: "0 \<le> ?X" "?X \<le> 1" using assms(2) by (auto intro: power_le_one)
  have y: "0 \<le> ?y" "?y \<le> 1" using assms(3) by auto
  have "?X * (?Y - ?y) \<le> ?X * q64 f"
    using assms(5) X by (intro mult_left_mono) (auto simp: short_of_power_def)
  also have "\<dots> \<le> q64 f" using X by (intro mult_left_le_one_le) auto
  finally have a: "?X * (?Y - ?y) \<le> q64 f" .
  have "?y * (?X - ?x) \<le> ?y * q64 e"
    using assms(4) y by (intro mult_left_mono) (auto simp: short_of_power_def)
  also have "\<dots> \<le> q64 e" using y by (intro mult_left_le_one_le) auto
  finally have b: "?y * (?X - ?x) \<le> q64 e" .
  have "?X * ?Y \<le> ?x * ?y + q64 e + q64 f" using a b by (simp add: algebra_simps)
  moreover have "?x * ?y \<le> q64 (unat z) + q64 1"
    using assms(1) q64_div [of "unat x" "unat y"] by (simp add: mul_q64_eq_Some)
  ultimately show ?thesis unfolding short_of_power_def power_add q64_add by linarith
qed

lemma mul_q64_small:
  assumes "unat x \<le> 2 ^ 64" and "unat y < 2 ^ 64"
  shows "\<exists>z. mul_q64 x y = Some z \<and> unat z \<le> unat x \<and> unat z \<le> unat y"
proof -
  have lt: "unat x * unat y < 2 ^ 128"
    using mult_le_mono [of "unat x" "2 ^ 64" "unat y" "2 ^ 64 - 1"] assms by simp
  have le: "unat x * unat y div 2 ^ 64 \<le> unat x"
    using div_le_mono [OF mult_le_mono2 [of "unat y" "2 ^ 64" "unat x"], of "2 ^ 64"] assms(2) by simp
  have le': "unat x * unat y div 2 ^ 64 \<le> unat y"
    using div_le_mono [OF mult_le_mono1 [of "unat x" "2 ^ 64" "unat y"], of "2 ^ 64"] assms(1) by simp
  obtain z :: u128 where "unat z = unat x * unat y div 2 ^ 64"
    using ex_unat [of "unat x * unat y div 2 ^ 64", where 'a = 128] lt by fastforce
  then show ?thesis using lt le le' by (auto simp: mul_q64_eq_Some)
qed

text \<open>The loop never overflows, and loses at most one unit per unit of exponent consumed.\<close>

lemma pow_steps_short:
  assumes "Suc i + k \<le> 32" and "b \<le> 2 ^ 64"
    and "unat sb < 2 ^ 64" and "unat res \<le> 2 ^ 64"
    and "short_of_power b (2 ^ i) (2 ^ i - 1) (unat sb)"
    and "short_of_power b (take_bit (Suc i) (unat ex)) (take_bit (Suc i) (unat ex)) (unat res)"
  shows "\<exists>r. pow_steps (map (\<lambda>i. 2 ^ i) [Suc i..<Suc i + k]) ex sb res = Some r \<and> unat r \<le> 2 ^ 64 \<and>
    short_of_power b (take_bit (Suc i + k) (unat ex)) (take_bit (Suc i + k) (unat ex)) (unat r)"
  using assms
proof (induction k arbitrary: i sb res)
  case (Suc k)
  have split: "[Suc i..<Suc i + Suc k] = Suc i # [Suc (Suc i)..<Suc (Suc i) + k]"
    by (simp add: upt_rec)
  obtain sb' where sb': "mul_q64 sb sb = Some sb'" and "unat sb' \<le> unat sb"
    using mul_q64_small [of sb sb] Suc.prems(3) by auto
  then have small: "unat sb' < 2 ^ 64" using Suc.prems(3) by simp
  have sq: "short_of_power b (2 ^ Suc i) (2 ^ Suc i - 1) (unat sb')"
  proof -
    have "short_of_power b (2 ^ i + 2 ^ i) (2 ^ i - 1 + (2 ^ i - 1) + 1) (unat sb')"
      using short_of_power_mul [OF sb' Suc.prems(2) _ Suc.prems(5,5)] Suc.prems(3) by simp
    moreover have "2 ^ i - 1 + (2 ^ i - 1) + 1 = (2::nat) ^ Suc i - 1" "2 ^ i + 2 ^ i = (2::nat) ^ Suc i"
      using one_le_power [of "2::nat" i] by (simp_all only: power_Suc) linarith+
    ultimately show ?thesis by (simp only:)
  qed
  obtain res' where res': "(if 0 < ex AND 2 ^ Suc i then mul_q64 res sb' else Some res) = Some res'"
    and le: "unat res' \<le> 2 ^ 64"
    and short: "short_of_power b (take_bit (Suc (Suc i)) (unat ex)) (take_bit (Suc (Suc i)) (unat ex)) (unat res')"
  proof (cases "bit ex (Suc i)")
    case True
    obtain r where r: "mul_q64 res sb' = Some r" "unat r \<le> 2 ^ 64"
      using mul_q64_small [OF Suc.prems(4) small] Suc.prems(4) by (auto intro: order_trans)
    have "short_of_power b (take_bit (Suc i) (unat ex) + 2 ^ Suc i) (take_bit (Suc i) (unat ex) + (2 ^ Suc i - 1) + 1) (unat r)"
      using short_of_power_mul [OF r(1) Suc.prems(2) _ Suc.prems(6) sq] small by simp
    moreover have "take_bit (Suc i) (unat ex) + (2 ^ Suc i - 1) + 1 = take_bit (Suc i) (unat ex) + (2::nat) ^ Suc i"
      by simp
    ultimately have "short_of_power b (take_bit (Suc (Suc i)) (unat ex)) (take_bit (Suc (Suc i)) (unat ex)) (unat r)"
      using True by (simp only: take_bit_step if_True)
    then show ?thesis using that [of r] r True Suc.prems(1) by (simp add: and_mask_pos del: power_Suc)
  next
    case False
    then have "\<not> 0 < ex AND 2 ^ Suc i" using Suc.prems(1) by (simp add: and_mask_pos del: power_Suc)
    then show ?thesis using that [of res] False Suc.prems(4,6) take_bit_step [of "Suc i" ex] by simp
  qed
  obtain r where "pow_steps (map (\<lambda>i. 2 ^ i) [Suc (Suc i)..<Suc (Suc i) + k]) ex sb' res' = Some r" "unat r \<le> 2 ^ 64"
    "short_of_power b (take_bit (Suc (Suc i) + k) (unat ex)) (take_bit (Suc (Suc i) + k) (unat ex)) (unat r)"
    using Suc.IH [OF _ Suc.prems(2) small le sq short] Suc.prems(1) by auto
  moreover have "pow_steps (map (\<lambda>i. 2 ^ i) [Suc i..<Suc i + Suc k]) ex sb res =
      pow_steps (map (\<lambda>i. 2 ^ i) [Suc (Suc i)..<Suc (Suc i) + k]) ex sb' res'"
    unfolding split by (simp add: sb' res' del: upt_Suc power_Suc)
  ultimately show ?case by (intro exI [of _ r]) (simp del: upt_Suc)
qed simp

text \<open>The exponent is a signed number.\<close>

lemma sint_i32: "sint (w :: i32) = (if unat w < 2 ^ 31 then int (unat w) else int (unat w) - 2 ^ 32)"
proof -
  define u where "u = unat w"
  have u: "uint w = int u" "u < 2 ^ 32" using unat_less [of w] by (simp_all add: u_def)
  have "(int u + 2 ^ 31) mod 2 ^ 32 = (if u < 2 ^ 31 then int u + 2 ^ 31 else int u - 2 ^ 31)"
  proof (cases "u < 2 ^ 31")
    case False
    then have "(int u + 2 ^ 31) mod 2 ^ 32 = (int u - 2 ^ 31 + 2 ^ 32) mod 2 ^ 32" by (simp add: algebra_simps)
    also have "\<dots> = (int u - 2 ^ 31) mod 2 ^ 32" by (rule mod_add_self2)
    also have "\<dots> = int u - 2 ^ 31" using False u by (intro mod_pos_pos_trivial) simp_all
    finally show ?thesis using False by simp
  qed simp
  then show ?thesis
    unfolding u_def [symmetric] sint_uint u(1)
    by (simp add: signed_take_bit_eq_take_bit_shift take_bit_eq_mod)
qed

lemma i32_cases:
  fixes w :: i32
  shows "w = 0x80000000 \<longleftrightarrow> sint w = - (2 ^ 31)"
    and "sint w < 0 \<Longrightarrow> w \<noteq> 0x80000000 \<Longrightarrow> sint (- w) = - sint w"
    and "0 \<le> sint w \<Longrightarrow> unat w = nat (sint w)"
proof -
  define u where "u = unat w"
  have u: "u < 2 ^ 32" using unat_less [of w] by (simp add: u_def)
  have s: "sint w = (if u < 2 ^ 31 then int u else int u - 2 ^ 32)" unfolding u_def by (rule sint_i32)
  have m: "w = 0x80000000 \<longleftrightarrow> u = 2 ^ 31" by (simp add: word_eq_unat u_def)
  show "w = 0x80000000 \<longleftrightarrow> sint w = - (2 ^ 31)" unfolding m s using u by auto
  show "0 \<le> sint w \<Longrightarrow> unat w = nat (sint w)" unfolding s u_def [symmetric] using u by (auto split: if_splits)
  assume "sint w < 0" "w \<noteq> 0x80000000"
  then have w: "2 ^ 31 < u" unfolding m s by (auto split: if_splits)
  have "(- int u) mod 2 ^ 32 = (2 ^ 32 - int u) mod 2 ^ 32" by (metis add.commute diff_minus_eq_add mod_add_self2 uminus_add_conv_diff)
  also have "\<dots> = 2 ^ 32 - int u" using w u by (intro mod_pos_pos_trivial) simp_all
  finally have "uint (- w) = 2 ^ 32 - int u" by (simp add: uint_word_ariths u_def)
  then have "unat (- w) = 2 ^ 32 - u" using u by (simp add: unat_eq_nat_uint nat_diff_distrib')
  then show "sint (- w) = - sint w" using w u by (simp add: sint_i32 [of "- w"] s)
qed

lemma pow_returns:
  assumes "base < ONE_Q64" and "0 \<le> sint ex" and "unat ex < 2 ^ 19"
  shows "\<exists>r. pow base ex = Inr (if r = 0 then None else Some r) \<and>
    short_of_power (unat base) (unat ex) (unat ex) (unat r)"
proof (cases "ex = 0")
  case True
  then show ?thesis
    by (intro exI [of _ ONE_Q64]) (simp add: pow_def short_of_power_def ONE_Q64_def q64_def)
next
  case False
  let ?b = "unat base"
  have b: "?b < 2 ^ 64" using assms(1) by (simp add: ONE_Q64_def word_less_nat_alt)
  have nb: "\<not> ONE_Q64 \<le> base" using assms(1) by simp
  have nmin: "ex \<noteq> 0x80000000" and small: "\<not> MAX_EXPONENTIAL \<le> ex"
    using assms(3) by (auto simp: word_eq_unat MAX_EXPONENTIAL_def word_le_nat_alt)
  obtain res0 where res0: "(if 0 < ex AND 1 then mul_q64 ONE_Q64 base else Some ONE_Q64) = Some res0"
    and le: "unat res0 \<le> 2 ^ 64"
    and short: "short_of_power ?b (take_bit (Suc 0) (unat ex)) (take_bit (Suc 0) (unat ex)) (unat res0)"
  proof (cases "bit ex 0")
    case True
    obtain r where r: "mul_q64 ONE_Q64 base = Some r" "unat r \<le> 2 ^ 64"
      using mul_q64_small [of ONE_Q64 base] b by auto
    moreover have "unat r = ?b" using r(1) by (simp add: mul_q64_eq_Some)
    moreover have "take_bit (Suc 0) (unat ex) = 1" using True by (simp only: take_bit_step) simp
    ultimately show ?thesis using that [of r] True and_mask_pos [of 0 ex]
      by (simp add: short_of_power_def)
  next
    case False
    then have "take_bit (Suc 0) (unat ex) = 0" by (simp only: take_bit_step) simp
    then show ?thesis using that [of ONE_Q64] and_mask_pos [of 0 ex] False
      by (simp add: short_of_power_def q64_def)
  qed
  have "short_of_power ?b (2 ^ 0) (2 ^ 0 - 1) ?b" by (simp add: short_of_power_def)
  from pow_steps_short [of 0 18 ?b base res0 ex, OF _ _ b le this short]
  obtain r where steps: "pow_steps pow_masks ex base res0 = Some r"
    and r: "short_of_power ?b (take_bit 19 (unat ex)) (take_bit 19 (unat ex)) (unat r)"
    using b by (auto simp: pow_masks_powers)
  have "take_bit 19 (unat ex) = unat ex" using assms(3) by (simp add: take_bit_nat_eq_self)
  then have "short_of_power ?b (unat ex) (unat ex) (unat r)" using r by simp
  moreover have "pow base ex = Inr (if r = 0 then None else Some r)"
    using False nmin small nb res0 steps assms(2) by (simp add: pow_def Let_def)
  ultimately show ?thesis by blast
qed

lemma pow_total:
  assumes "base < ONE_Q64"
  shows "\<exists>r. pow base (ucast (n::u16)) = Inr (if r = 0 then None else Some r) \<and>
    short_of_power (unat base) (unat n) (unat n) (unat r)"
  using pow_returns [OF assms sint_ucast_u16, of n] unat_less [of n] by simp

text \<open>
  Every other case of the power comes down to that one: a base of at least one is inverted before the
  loop, and the result after it when exactly one of the base and the exponent asks for it.
\<close>

lemma pow_special:
  shows "sint ex = - (2 ^ 31) \<Longrightarrow> pow base ex = Inl Panic"
    and "pow base 0 = Inr (Some ONE_Q64)"
    and "sint ex \<noteq> - (2 ^ 31) \<Longrightarrow> 2 ^ 19 \<le> nat \<bar>sint ex\<bar> \<Longrightarrow> pow base ex = Inr None"
proof -
  show "pow base 0 = Inr (Some ONE_Q64)" by (simp add: pow_def)
  show "pow base ex = Inl Panic" if "sint ex = - (2 ^ 31)"
  proof -
    from that have "ex = 0x80000000" by (simp only: i32_cases(1))
    then show ?thesis by (simp add: pow_def require_def)
  qed
  show "pow base ex = Inr None" if "sint ex \<noteq> - (2 ^ 31)" "2 ^ 19 \<le> nat \<bar>sint ex\<bar>"
  proof -
    have nmin: "ex \<noteq> 0x80000000" and nz: "ex \<noteq> 0" using that by (auto simp only: i32_cases(1)) auto
    have "unat (if sint ex < 0 then - ex else ex) = nat \<bar>sint ex\<bar>"
      using i32_cases(2) [of ex] i32_cases(3) [of ex] i32_cases(3) [of "- ex"] nmin by auto
    then have "MAX_EXPONENTIAL \<le> (if sint ex < 0 then - ex else ex)"
      using that(2) by (simp only: MAX_EXPONENTIAL_def word_le_nat_alt) simp
    then show ?thesis using nmin nz by (simp add: pow_def Let_def require_def)
  qed
qed

lemma pow_reduces:
  fixes base :: u128 and ex :: i32
  assumes "ex \<noteq> 0" and "sint ex \<noteq> - (2 ^ 31)"
  defines "b \<equiv> if ONE_Q64 \<le> base then - 1 div base else base"
    and "e \<equiv> if sint ex < 0 then - ex else ex"
    and "inverted \<equiv> (sint ex < 0) \<noteq> (ONE_Q64 \<le> base)"
  shows "b < ONE_Q64" and "unat e = nat \<bar>sint ex\<bar>" and "0 \<le> sint e"
    and "pow base ex = map_sum id (map_option (\<lambda>r. if inverted then - 1 div r else r)) (pow b e)"
proof -
  have nmin: "ex \<noteq> 0x80000000" using assms(2) by (simp only: i32_cases(1)) simp
  show b: "b < ONE_Q64"
  proof (cases "ONE_Q64 \<le> base")
    case True
    then have "2 ^ 64 \<le> unat base" by (simp add: ONE_Q64_def word_le_nat_alt)
    then have "(2 ^ 128 - 1) div unat base \<le> (2 ^ 128 - 1) div 2 ^ 64" by (intro div_le_mono2) simp_all
    then show ?thesis using True
      by (simp add: b_def ONE_Q64_def word_less_nat_alt unat_div unsigned_minus_1_eq_mask mask_eq_exp_minus_1)
  qed (simp add: b_def)
  show e: "unat e = nat \<bar>sint ex\<bar>" "0 \<le> sint e"
    using i32_cases(2) [of ex] i32_cases(3) [of ex] i32_cases(3) [of "- ex"] nmin by (auto simp: e_def)
  have e': "e \<noteq> 0" "e \<noteq> 0x80000000" "\<not> sint e < 0" using assms(1) e nmin i32_cases(1) [of e] by (auto simp: e_def)
  define loop where "loop = Option.bind (if 0 < e AND 1 then mul_q64 ONE_Q64 b else Some ONE_Q64) (pow_steps pow_masks e b)"
  have start: "(if ONE_Q64 \<le> base then checked_div (- 1) base else Some base) = Some b"
    by (auto simp: b_def checked_div_def ONE_Q64_def)
  have inverted: "ONE_Q64 \<le> base \<Longrightarrow> inverted = (\<not> sint ex < 0)" "\<not> ONE_Q64 \<le> base \<Longrightarrow> inverted = (sint ex < 0)"
    unfolding inverted_def by blast+
  have "pow base ex = Inr (if MAX_EXPONENTIAL \<le> e then None else
      Option.bind loop (\<lambda>r. if r = 0 then None else if inverted then checked_div (- 1) r else Some r))"
    using assms(1) nmin start inverted
    by (cases "ONE_Q64 \<le> base")
      (simp_all add: pow_def Let_def e_def [symmetric] require_def loop_def split: Option.bind_split)
  moreover have "pow b e = Inr (if MAX_EXPONENTIAL \<le> e then None else Option.bind loop (\<lambda>r. if r = 0 then None else Some r))"
    using e' b [unfolded not_le [symmetric]] by (simp add: pow_def Let_def require_def loop_def split: Option.bind_split)
  ultimately show "pow base ex = map_sum id (map_option (\<lambda>r. if inverted then - 1 div r else r)) (pow b e)"
    by (cases loop) (simp_all add: checked_div_def)
qed

section \<open>The exponential schedule\<close>

text \<open>
  If the last period of a schedule charges the minimum fee, every earlier one is computed
  without an error and charges that fee less at most one unit (of \<open>10 ^ -9\<close>).
\<close>

lemma fee_in_period_value:
  assumes "rf \<noteq> 0"
  shows "get_fee_in_period cliff rf n = Inr fee \<longleftrightarrow> unat rf \<le> 10000 \<and>
    (\<exists>base power. unat base = 2 ^ 64 - unat rf * 2 ^ 64 div 10000 \<and> pow base (ucast n) = Inr (Some power) \<and>
       unat power * unat cliff < 2 ^ 128 \<and> unat fee = unat power * unat cliff div 2 ^ 64)"
  (is "?L \<longleftrightarrow> ?R")
proof
  assume ?L
  then obtain bps base res prod :: u128 where bps: "unat bps = unat rf * 2 ^ 64 div 10000"
      and base: "2 ^ 64 = unat bps + unat base"
      and res: "pow base (ucast n) = Inr (Some res)"
      and prod: "unat prod = unat res * unat cliff" and fee: "unat fee = unat prod div 2 ^ 64"
      using assms
      by (auto simp: get_fee_in_period_def bindr_eq_Inr ok_or_eq_Inr SCALE_OFFSET_def shl_64 safe_div_eq_Inr
          safe_sub_eq_Inr safe_mul_eq_Inr Let_def try_cast_eq_Some unat_drop BASIS_POINT_MAX_def ONE_Q64_def)
  moreover have "unat res * unat cliff < 2 ^ 128" using prod unat_less [of prod] by simp
  moreover have "unat base = 2 ^ 64 - unat rf * 2 ^ 64 div 10000" using base bps by simp
  ultimately show ?R using get_fee_in_period_below(1) [OF \<open>?L\<close>] by auto
next
  assume ?R
  then obtain base power where rf: "unat rf \<le> 10000" and base: "unat base = 2 ^ 64 - unat rf * 2 ^ 64 div 10000"
    and power: "pow base (ucast n) = Inr (Some power)" and small: "unat power * unat cliff < 2 ^ 128"
    and fee: "unat fee = unat power * unat cliff div 2 ^ 64" by auto
  obtain shifted :: u128 where shifted: "unat shifted = unat rf * 2 ^ 64"
    using ex_unat [of "unat rf * 2 ^ 64", where 'a = 128] rf by fastforce
  obtain bps :: u128 where bps: "unat bps = unat rf * 2 ^ 64 div 10000"
    using ex_unat [of "unat rf * 2 ^ 64 div 10000", where 'a = 128] rf by fastforce
  obtain product :: u128 where product: "unat product = unat power * unat cliff"
    using ex_unat [of "unat power * unat cliff", where 'a = 128] small by fastforce
  have "safe_shl (ucast rf) SCALE_OFFSET = Inr shifted" using shifted by (simp add: SCALE_OFFSET_def shl_64)
  moreover have "safe_div shifted (ucast BASIS_POINT_MAX) = Inr bps"
    using shifted bps by (simp add: safe_div_eq_Inr BASIS_POINT_MAX_def)
  moreover have "safe_sub ONE_Q64 bps = Inr base"
    using rf bps base by (simp add: safe_sub_eq_Inr ONE_Q64_def)
  moreover have "safe_mul power (ucast cliff) = Inr product"
    using product by (simp add: safe_mul_eq_Inr)
  moreover have "try_cast (drop_bit SCALE_OFFSET product) = Some fee"
    using product fee by (simp add: try_cast_eq_Some unat_drop SCALE_OFFSET_def)
  ultimately show ?L
    using assms power by (simp add: get_fee_in_period_def Let_def)
qed

lemma power_nearly_decreasing:
  assumes "pow base (ucast (k::u16)) = Inr (Some p)" and "unat n \<le> unat (k::u16)"
    and "base < ONE_Q64" and "2 ^ 16 \<le> unat p"
  shows "\<exists>r. pow base (ucast (n::u16)) = Inr (Some r) \<and> unat p \<le> unat r + unat n"
proof -
  have b: "unat base \<le> 2 ^ 64" using assms(3) by (simp add: ONE_Q64_def word_less_nat_alt)
  have "below_power (unat base) (unat k) (unat p)"
    using pow_below [OF assms(1,3) sint_ucast_u16] by simp
  then have "real (unat p * (2 ^ 64) ^ unat k) \<le> real (unat base ^ unat k * 2 ^ 64)"
    unfolding below_power_def power_mult by (rule of_nat_mono)
  then have "q64 (unat p) \<le> q64 (unat base) ^ unat k"
    by (simp add: q64_def power_divide field_simps)
  also have "\<dots> \<le> q64 (unat base) ^ unat n"
    using b assms(2) by (intro power_decreasing) auto
  finally have p: "q64 (unat p) \<le> q64 (unat base) ^ unat n" .
  obtain r where r: "pow base (ucast n) = Inr (if r = 0 then None else Some r)"
    and short: "short_of_power (unat base) (unat n) (unat n) (unat r)"
    using pow_total [OF assms(3), of n] by blast
  have "q64 (unat p) \<le> q64 (unat r + unat n)"
    using p short by (simp add: short_of_power_def q64_add)
  then have le: "unat p \<le> unat r + unat n" by simp
  moreover have "unat n < 2 ^ 16" using unat_less [of n] by simp
  ultimately have "r \<noteq> 0" using assms(4) by (auto simp: word_eq_unat)
  then show ?thesis using r le by auto
qed

lemma fee_in_period_total:
  assumes "get_fee_in_period cliff rf k = Inr lowest" and "unat n \<le> unat k"
    and "100000 \<le> unat lowest" and "unat cliff \<le> 500000000"
  shows "\<exists>fee. get_fee_in_period cliff rf n = Inr fee \<and> unat lowest \<le> unat fee + 1"
proof (cases "rf = 0")
  case True
  then show ?thesis using assms(1) by (simp add: get_fee_in_period_def)
next
  case False
  obtain base p where rf: "unat rf \<le> 10000" and base: "unat base = 2 ^ 64 - unat rf * 2 ^ 64 div 10000"
    and p: "pow base (ucast k) = Inr (Some p)" and lowestv: "unat lowest = unat p * unat cliff div 2 ^ 64"
    using assms(1) False by (auto simp: fee_in_period_value)
  have "0 < unat rf" using False by (simp add: unat_gt_0)
  then have "0 < unat rf * 2 ^ 64 div 10000" by simp
  then have b: "base < ONE_Q64" using base by (simp add: ONE_Q64_def word_less_nat_alt)
  have "unat lowest * 2 ^ 64 \<le> unat p * unat cliff" using lowestv by simp
  also have "\<dots> \<le> unat p * 500000000" using assms(4) by simp
  finally have "100000 * 2 ^ 64 \<le> unat p * 500000000"
    using mult_le_mono1 [OF assms(3), of "2 ^ 64"] by linarith
  then have big: "2 ^ 16 \<le> unat p" by simp
  obtain r where r: "pow base (ucast n) = Inr (Some r)" and le: "unat p \<le> unat r + unat n"
    using power_nearly_decreasing [OF p assms(2) b big] by blast
  have "unat r * 2 ^ (64 * unat n) \<le> unat base ^ unat n * 2 ^ 64"
    using pow_below [OF r b sint_ucast_u16] by (simp add: below_power_def)
  also have "\<dots> \<le> (2 ^ 64) ^ unat n * 2 ^ 64"
    using base by (intro mult_le_mono1 power_mono) simp_all
  finally have r64: "unat r \<le> 2 ^ 64" by (simp add: power_mult)
  have rc: "unat r * unat cliff \<le> 2 ^ 64 * 500000000" using r64 assms(4) by (rule mult_le_mono)
  obtain fee :: u64 where fee: "unat fee = unat r * unat cliff div 2 ^ 64"
    using ex_unat [of "unat r * unat cliff div 2 ^ 64", where 'a = 64] div_le_mono [OF rc, of "2 ^ 64"] by fastforce
  have "unat n \<le> 2 ^ 16" using unat_less [of n] by simp
  then have "unat n * unat cliff \<le> 2 ^ 16 * 500000000" using assms(4) by (rule mult_le_mono)
  then have "unat p * unat cliff \<le> unat r * unat cliff + 1 * 2 ^ 64"
    using mult_le_mono1 [OF le, of "unat cliff"] by (simp add: add_mult_distrib)
  then have "unat lowest \<le> (unat r * unat cliff + 1 * 2 ^ 64) div 2 ^ 64"
    unfolding lowestv by (rule div_le_mono)
  also have "\<dots> = unat fee + 1" unfolding fee by (subst div_mult_self1) simp_all
  finally have "unat lowest \<le> unat fee + 1" .
  moreover have "get_fee_in_period cliff rf n = Inr fee"
    using False rf base r fee rc by (auto simp: fee_in_period_value)
  ultimately show ?thesis by blast
qed

section \<open>Validated fees\<close>

lemma base_fee_validate_sound:
  assumes "base_fee_validate bp = Inr u"
  obtains lowest where "bp_get_min_base_fee_numerator bp = Inr lowest" and "100000 \<le> unat lowest"
    and "unat (bp_cliff_fee_numerator bp) \<le> 500000000" and "lowest \<le> bp_cliff_fee_numerator bp"
    and "bp_fee_scheduler_mode bp = 0 \<Longrightarrow> unat (bp_cliff_fee_numerator bp) =
           unat (bp_number_of_period bp) * unat (bp_reduction_factor bp) + unat lowest"
    and "bp_fee_scheduler_mode bp = 1 \<Longrightarrow> get_fee_in_period (bp_cliff_fee_numerator bp)
           (bp_reduction_factor bp) (bp_number_of_period bp) = Inr lowest"
    and "bp_fee_scheduler_mode bp = 0 \<or> bp_fee_scheduler_mode bp = 1"
proof -
  obtain lowest :: u64 where l: "bp_get_min_base_fee_numerator bp = Inr lowest" "MIN_FEE_NUMERATOR \<le> lowest"
    "bp_cliff_fee_numerator bp \<le> MAX_FEE_NUMERATOR"
    using assms by (auto simp: base_fee_validate_def bindr_eq_Inr require_eq_Inr Let_def
        bp_get_max_base_fee_numerator_def)
  have mode: "bp_fee_scheduler_mode bp = 0 \<or> bp_fee_scheduler_mode bp = 1"
    using l(1) by (auto simp: bp_get_min_base_fee_numerator_def bindr_eq_Inr ok_or_eq_Inr
        fee_scheduler_mode_try_from_def split: if_splits)
  have linear: "unat (bp_cliff_fee_numerator bp) =
      unat (bp_number_of_period bp) * unat (bp_reduction_factor bp) + unat lowest"
    if "bp_fee_scheduler_mode bp = 0"
    using l(1) that by (auto simp: bp_get_min_base_fee_numerator_def bindr_eq_Inr
        fee_scheduler_mode_try_from_def safe_mul_eq_Inr safe_sub_eq_Inr)
  have exponential: "get_fee_in_period (bp_cliff_fee_numerator bp)
      (bp_reduction_factor bp) (bp_number_of_period bp) = Inr lowest"
    if "bp_fee_scheduler_mode bp = 1"
    using l(1) that by (simp add: bp_get_min_base_fee_numerator_def fee_scheduler_mode_try_from_def)
  have "lowest \<le> bp_cliff_fee_numerator bp"
    using mode linear exponential get_fee_in_period_le_cliff by (auto simp: word_le_nat_alt)
  then show ?thesis using that l mode linear exponential
    by (auto simp: MIN_FEE_NUMERATOR_def MAX_FEE_NUMERATOR_def word_le_nat_alt)
qed

lemma to_base_fee_struct_simps [simp]:
  "bf_cliff_fee_numerator (to_base_fee_struct bp) = bp_cliff_fee_numerator bp"
  "bf_fee_scheduler_mode (to_base_fee_struct bp) = bp_fee_scheduler_mode bp"
  "bf_number_of_period (to_base_fee_struct bp) = bp_number_of_period bp"
  "bf_period_frequency (to_base_fee_struct bp) = bp_period_frequency bp"
  "bf_reduction_factor (to_base_fee_struct bp) = bp_reduction_factor bp"
  by (simp_all add: to_base_fee_struct_def)

lemma validated_linear_fee:
  assumes "base_fee_validate bp = Inr u" and "bp_fee_scheduler_mode bp = 0" and "bp_period_frequency bp \<noteq> 0"
  shows "\<exists>fee. get_current_base_fee_numerator (to_base_fee_struct bp) p a = Inr fee \<and> 100000 \<le> unat fee"
proof -
  let ?k = "elapsed_periods (to_base_fee_struct bp) p a"
  obtain lowest :: u64 where low: "100000 \<le> unat lowest"
    and cliff: "unat (bp_cliff_fee_numerator bp) =
        unat (bp_number_of_period bp) * unat (bp_reduction_factor bp) + unat lowest"
    using assms(2) by (rule_tac base_fee_validate_sound [OF assms(1)]) blast
  define reduction where "reduction = ?k * unat (bp_reduction_factor bp)"
  have le: "reduction + unat lowest \<le> unat (bp_cliff_fee_numerator bp)"
    unfolding reduction_def cliff using elapsed_periods_le [of "to_base_fee_struct bp" p a] by simp
  then obtain fee :: u64 where "unat fee = unat (bp_cliff_fee_numerator bp) - reduction"
    using ex_unat [of "unat (bp_cliff_fee_numerator bp) - reduction", where 'a = 64]
      unat_less [of "bp_cliff_fee_numerator bp"] by fastforce
  then have "unat (bp_cliff_fee_numerator bp) = reduction + unat fee" "100000 \<le> unat fee"
    using le low by linarith+
  then show ?thesis using assms(2,3)
    by (intro exI [of _ fee]) (simp add: base_fee_linear reduction_def)
qed

lemma validated_exponential_fee:
  assumes "base_fee_validate bp = Inr u" and "bp_fee_scheduler_mode bp = 1" and "bp_period_frequency bp \<noteq> 0"
  shows "\<exists>fee. get_current_base_fee_numerator (to_base_fee_struct bp) p a = Inr fee \<and> 100000 \<le> unat fee + 1"
proof -
  let ?k = "elapsed_periods (to_base_fee_struct bp) p a"
  obtain lowest :: u64 where low: "100000 \<le> unat lowest"
    and cliff: "unat (bp_cliff_fee_numerator bp) \<le> 500000000"
    and l: "get_fee_in_period (bp_cliff_fee_numerator bp) (bp_reduction_factor bp) (bp_number_of_period bp) = Inr lowest"
    using assms(2) by (rule_tac base_fee_validate_sound [OF assms(1)]) blast
  have "unat (of_nat ?k :: u16) \<le> unat (bp_number_of_period bp)"
    using elapsed_periods_le [of "to_base_fee_struct bp" p a] elapsed_periods_small [of "to_base_fee_struct bp" p a]
    by (simp add: unsigned_of_nat take_bit_nat_eq_self)
  from fee_in_period_total [OF l this low cliff] low show ?thesis
    using assms(2,3) by (fastforce simp: base_fee_exponential)
qed

text \<open>
  A validated base fee is computed at every point, is at most 50 percent and at least one
  unit below the minimum of one basis point.
\<close>

lemma validated_base_fee:
  assumes "base_fee_validate bp = Inr u"
  shows "\<exists>fee. get_current_base_fee_numerator (to_base_fee_struct bp) p a = Inr fee \<and>
           100000 \<le> unat fee + 1 \<and> unat fee \<le> 500000000"
proof -
  obtain lowest :: u64 where low: "100000 \<le> unat lowest" "lowest \<le> bp_cliff_fee_numerator bp"
    and cliff: "unat (bp_cliff_fee_numerator bp) \<le> 500000000"
    and mode: "bp_fee_scheduler_mode bp = 0 \<or> bp_fee_scheduler_mode bp = 1"
    by (rule base_fee_validate_sound [OF assms])
  have "\<exists>fee. get_current_base_fee_numerator (to_base_fee_struct bp) p a = Inr fee \<and> 100000 \<le> unat fee + 1"
  proof (cases "bp_period_frequency bp = 0")
    case True
    then show ?thesis using low by (simp add: get_current_base_fee_numerator_def word_le_nat_alt)
  next
    case False
    then show ?thesis
      using mode validated_linear_fee [OF assms _ False, of p a] validated_exponential_fee [OF assms _ False, of p a]
      by auto
  qed
  then show ?thesis
    using base_fee_le_cliff [of "to_base_fee_struct bp" p a] cliff
    by (fastforce simp: get_max_base_fee_numerator_def word_le_nat_alt)
qed

text \<open>The fee data of a pool created from \<open>pp\<close>, at any time of its life.\<close>

definition fees_from :: "pool_fee_parameters \<Rightarrow> pool_fees_struct \<Rightarrow> bool" where
  "fees_from pp pf \<longleftrightarrow> pf_base_fee pf = to_base_fee_struct (pp_base_fee pp) \<and>
     pf_protocol_fee_percent pf = PROTOCOL_FEE_PERCENT \<and> pf_partner_fee_percent pf = PARTNER_FEE_PERCENT \<and>
     pf_referral_fee_percent pf = HOST_FEE_PERCENT \<and>
     df_volatility_accumulator (pf_dynamic_fee pf) \<le> ucast (df_max_volatility_accumulator (pf_dynamic_fee pf))"

lemma fees_from_new: "fees_from pp (to_pool_fees_struct pp)"
  by (simp add: fees_from_def to_pool_fees_struct_def default_pool_fees_def default_dynamic_fee_def
      to_dynamic_fee_struct_def split: option.splits)

lemma fees_from_pre_swap:
  "update_pre_swap p now = Inr p' \<Longrightarrow> fees_from pp (pool_fees p) \<Longrightarrow> fees_from pp (pool_fees p')"
  by (auto simp: update_pre_swap_def bindr_eq_Inr fees_from_def update_references_frame(1,2) Let_def split: if_splits)

lemma fees_from_total:
  assumes "base_fee_validate (pp_base_fee pp) = Inr u" and "fees_from pp pf"
  shows "\<exists>r. get_fee_on_amount pf amount referral p a partner = Inr r"
proof -
  obtain fee where "get_current_base_fee_numerator (pf_base_fee pf) p a = Inr fee"
    using validated_base_fee [OF assms(1)] assms(2) by (auto simp: fees_from_def)
  then obtain t where "get_total_trading_fee pf p a = Inr t"
    using total_trading_fee_total [of pf p a fee] assms(2)
    by (auto simp: fees_from_def word_le_nat_alt)
  then show ?thesis
    using assms(2) by (intro fee_on_amount_total) (simp_all add: fees_from_def fee_const_defs)
qed

section \<open>The three shapes of the fee data agree\<close>

text \<open>
  Storing parameters in a configuration and reading them back loses nothing, and a pool
  created through a configuration has the fees of one created from the parameters.
\<close>

lemma config_round_trip: "pc_to_pool_fee_parameters (to_pool_fees_config pp) = pp"
  by (cases pp; cases "pp_base_fee pp")
    (auto simp: pc_to_pool_fee_parameters_def to_pool_fees_config_def bc_to_base_fee_parameters_def
      to_base_fee_config_def to_dynamic_fee_config_def default_pool_fees_config_def
      default_dynamic_fee_config_def Let_def split: option.splits)

lemma config_struct_agrees: "pc_to_pool_fees_struct (to_pool_fees_config pp) = to_pool_fees_struct pp"
  by (auto simp: pc_to_pool_fees_struct_def to_pool_fees_config_def to_pool_fees_struct_def
      bc_to_base_fee_struct_def to_base_fee_struct_def to_base_fee_config_def to_dynamic_fee_config_def
      to_dynamic_fee_struct_def dc_to_dynamic_fee_struct_def default_pool_fees_config_def
      default_dynamic_fee_config_def default_pool_fees_def default_dynamic_fee_def split: option.splits)

end
