(* ===== verification/AdminHandlers.thy ===== *)
theory AdminHandlers
  imports LiquidityHandlers FeeSchedule
begin

text \<open>
  The instructions of the admins, of the fee operators and of the partner:
  \<open>instructions/admin/ix_*.rs\<close> (the reward ones are in \<open>RewardHandlers\<close>) and
  \<open>instructions/partner/ix_claim_partner_fee.rs\<close>. Closing an account leaves no data behind:
  such a handler returns the receiver of the rent.
\<close>

section \<open>Status of a pool\<close>

definition check_admin :: "pubkey \<Rightarrow> unit result" where
  "check_admin admin = require (assert_eq_admin admin) (Err InvalidAdmin)"

definition handle_set_pool_status :: "pool \<Rightarrow> pubkey \<Rightarrow> u8 \<Rightarrow> pool result" where
  "handle_set_pool_status p admin status =
     bindr (check_admin admin) (\<lambda>_.
     bindr (ok_or (pool_status_try_from status) (Err TypeCastFailed)) (\<lambda>new_pool_status.
     bindr (ok_or (pool_status_try_from (pool_pool_status p)) (Err TypeCastFailed)) (\<lambda>current_pool_status.
     bindr (require (new_pool_status \<noteq> current_pool_status) (Err InvalidPoolStatus)) (\<lambda>_.
     Inr (p\<lparr> pool_pool_status := pool_status_u8 new_pool_status \<rparr>)))))"

section \<open>Claiming the fees of the protocol and of the partner\<close>

record claim_fee_operator =
  co_operator :: pubkey

definition claim_fee_operator_initialize :: "claim_fee_operator \<Rightarrow> pubkey \<Rightarrow> claim_fee_operator" where
  "claim_fee_operator_initialize co operator = co\<lparr> co_operator := operator \<rparr>"

record claim_fee_ctx =
  cc_pool_authority :: pubkey
  cc_pool :: pool
  cc_token_a_vault :: token_account
  cc_token_b_vault :: token_account
  cc_token_a_mint :: mint_account
  cc_token_b_mint :: mint_account
  cc_token_a_account :: token_account
  cc_token_b_account :: token_account
  cc_token_a_program :: pubkey
  cc_token_b_program :: pubkey
  cc_claim_fee_operator :: claim_fee_operator
  cc_signer :: pubkey

text \<open>The \<open>has_one\<close> and token constraints that both claims share.\<close>

definition claim_fee_constraints :: "environment \<Rightarrow> claim_fee_ctx \<Rightarrow> unit result" where
  "claim_fee_constraints env ctx =
     bindr (check_pool_authority env (cc_pool_authority ctx)) (\<lambda>_.
     bindr (check (pool_token_a_vault (cc_pool ctx) = ta_key (cc_token_a_vault ctx)) ConstraintHasOne) (\<lambda>_.
     bindr (check (pool_token_b_vault (cc_pool ctx) = ta_key (cc_token_b_vault ctx)) ConstraintHasOne) (\<lambda>_.
     bindr (check (pool_token_a_mint (cc_pool ctx) = mint_key (cc_token_a_mint ctx)) ConstraintHasOne) (\<lambda>_.
     bindr (check (pool_token_b_mint (cc_pool ctx) = mint_key (cc_token_b_mint ctx)) ConstraintHasOne) (\<lambda>_.
     bindr (check_vault (cc_token_a_vault ctx) (cc_token_a_program ctx) (cc_token_a_mint ctx)) (\<lambda>_.
     check_vault (cc_token_b_vault ctx) (cc_token_b_program ctx) (cc_token_b_mint ctx)))))))"

text \<open>\<open>associated_token::authority = treasury::ID\<close>, with the mint and program.\<close>

definition check_treasury_account :: "environment \<Rightarrow> token_account \<Rightarrow> mint_account \<Rightarrow> pubkey \<Rightarrow> unit result" where
  "check_treasury_account env account m program =
     bindr (check (ta_program account = program) ConstraintAssociatedTokenTokenProgram) (\<lambda>_.
     bindr (check (ta_authority account = treasury_ID) ConstraintTokenOwner) (\<lambda>_.
     check (ta_key account = env_pda env ''associated_token'' [treasury_ID, program, mint_key m])
       ConstraintAssociated))"

definition handle_claim_protocol_fee ::
  "environment \<Rightarrow> claim_fee_ctx \<Rightarrow> u64 \<Rightarrow> u64 \<Rightarrow> (pool \<times> transfer list) result" where
  "handle_claim_protocol_fee env ctx max_amount_a max_amount_b =
     bindr (claim_fee_constraints env ctx) (\<lambda>_.
     bindr (check_treasury_account env (cc_token_a_account ctx) (cc_token_a_mint ctx) (cc_token_a_program ctx)) (\<lambda>_.
     bindr (check_treasury_account env (cc_token_b_account ctx) (cc_token_b_mint ctx) (cc_token_b_program ctx)) (\<lambda>_.
     bindr (check (co_operator (cc_claim_fee_operator ctx) = cc_signer ctx) ConstraintHasOne) (\<lambda>_.
     bindr (claim_protocol_fee (cc_pool ctx) max_amount_a max_amount_b) (\<lambda>(p, token_a_amount, token_b_amount).
     Inr (p,
       (if token_a_amount > 0
        then [transfer_from_pool (cc_pool_authority ctx) (cc_token_a_mint ctx) (cc_token_a_vault ctx)
                (cc_token_a_account ctx) token_a_amount] else []) @
       (if token_b_amount > 0
        then [transfer_from_pool (cc_pool_authority ctx) (cc_token_b_mint ctx) (cc_token_b_vault ctx)
                (cc_token_b_account ctx) token_b_amount] else [])))))))"

definition handle_claim_partner_fee ::
  "environment \<Rightarrow> claim_fee_ctx \<Rightarrow> u64 \<Rightarrow> u64 \<Rightarrow> (pool \<times> transfer list) result" where
  "handle_claim_partner_fee env ctx max_amount_a max_amount_b =
     bindr (claim_fee_constraints env ctx) (\<lambda>_.
     bindr (check (pool_partner (cc_pool ctx) = cc_signer ctx) ConstraintHasOne) (\<lambda>_.
     bindr (claim_partner_fee (cc_pool ctx) max_amount_a max_amount_b) (\<lambda>(p, token_a_amount, token_b_amount).
     Inr (p,
       (if max_amount_a > 0
        then [transfer_from_pool (cc_pool_authority ctx) (cc_token_a_mint ctx) (cc_token_a_vault ctx)
                (cc_token_a_account ctx) token_a_amount] else []) @
       (if max_amount_b > 0
        then [transfer_from_pool (cc_pool_authority ctx) (cc_token_b_mint ctx) (cc_token_b_vault ctx)
                (cc_token_b_account ctx) token_b_amount] else [])))))"

section \<open>Operators and badges\<close>

text \<open>\<open>init\<close> with seeds: the account must have the derived address and not exist yet.\<close>

definition check_init :: "environment \<Rightarrow> string \<Rightarrow> pubkey list \<Rightarrow> pubkey \<Rightarrow> bool \<Rightarrow> unit result" where
  "check_init env prefix keys account already_exists =
     bindr (check (account = env_pda env prefix keys) ConstraintSeeds) (\<lambda>_.
     check (\<not> already_exists) ConstraintAccountInit)"

definition handle_create_claim_fee_operator ::
  "environment \<Rightarrow> pubkey \<Rightarrow> bool \<Rightarrow> pubkey \<Rightarrow> pubkey \<Rightarrow> claim_fee_operator result" where
  "handle_create_claim_fee_operator env account already_exists operator admin =
     bindr (check_init env ''cf_operator'' [operator] account already_exists) (\<lambda>_.
     bindr (check_admin admin) (\<lambda>_.
     Inr (claim_fee_operator_initialize \<lparr> co_operator = default_pubkey \<rparr> operator)))"

definition handle_close_claim_fee_operator :: "pubkey \<Rightarrow> pubkey \<Rightarrow> pubkey result" where
  "handle_close_claim_fee_operator rent_receiver admin =
     bindr (check_admin admin) (\<lambda>_. Inr rent_receiver)"

definition handle_create_token_badge ::
  "environment \<Rightarrow> pubkey \<Rightarrow> bool \<Rightarrow> mint_account \<Rightarrow> pubkey \<Rightarrow> token_badge result" where
  "handle_create_token_badge env account already_exists m admin =
     bindr (check_init env ''token_badge'' [mint_key m] account already_exists) (\<lambda>_.
     bindr (check_admin admin) (\<lambda>_.
     bindr (is_supported_mint m) (\<lambda>supported.
     bindr (require (\<not> supported) (Err CannotCreateTokenBadgeOnSupportedMint)) (\<lambda>_.
     Inr (token_badge_initialize \<lparr> tb_token_mint = default_pubkey \<rparr> (mint_key m))))))"

definition handle_close_token_badge :: "pubkey \<Rightarrow> pubkey \<Rightarrow> pubkey result" where
  "handle_close_token_badge rent_receiver admin =
     bindr (check_admin admin) (\<lambda>_. Inr rent_receiver)"

section \<open>Configurations\<close>

record static_config_parameters =
  st_pool_fees :: pool_fee_parameters
  st_sqrt_min_price :: u128
  st_sqrt_max_price :: u128
  st_vault_config_key :: pubkey
  st_pool_creator_authority :: pubkey
  st_activation_type :: u8
  st_collect_fee_mode :: u8

text \<open>The seed of a configuration is the index as eight bytes, given here as a key of that value.\<close>

definition handle_create_static_config ::
  "environment \<Rightarrow> pubkey \<Rightarrow> bool \<Rightarrow> pubkey \<Rightarrow> u64 \<Rightarrow> static_config_parameters \<Rightarrow> config result" where
  "handle_create_static_config env account already_exists admin index params =
     bindr (check_init env ''config'' [ucast index] account already_exists) (\<lambda>_.
     bindr (check_admin admin) (\<lambda>_.
     bindr (require (st_sqrt_min_price params \<ge> MIN_SQRT_PRICE \<and> st_sqrt_max_price params \<le> MAX_SQRT_PRICE)
              (Err InvalidPriceRange)) (\<lambda>_.
     bindr (require (st_sqrt_min_price params < st_sqrt_max_price params) (Err InvalidPriceRange)) (\<lambda>_.
     bindr (require (collect_fee_mode_try_from (st_collect_fee_mode params) \<noteq> None) (Err InvalidCollectFeeMode)) (\<lambda>_.
     bindr (pool_fee_validate (st_pool_fees params)) (\<lambda>_.
     let has_alpha_vault = (st_vault_config_key params \<noteq> default_pubkey) in
     bindr (get_max_activation_point (env_clock env) (st_activation_type params)) (\<lambda>activation_point.
     bindr (activation_params_validate (env_clock env)
              \<lparr> ap_activation_point = Some activation_point, ap_has_alpha_vault = has_alpha_vault,
                ap_activation_type = st_activation_type params \<rparr>) (\<lambda>_.
     Inr (init_static_config default_config index (st_pool_fees params) (st_vault_config_key params)
            (st_pool_creator_authority params) (st_activation_type params) (st_sqrt_min_price params)
            (st_sqrt_max_price params) (st_collect_fee_mode params))))))))))"

definition handle_create_dynamic_config ::
  "environment \<Rightarrow> pubkey \<Rightarrow> bool \<Rightarrow> pubkey \<Rightarrow> u64 \<Rightarrow> pubkey \<Rightarrow> config result" where
  "handle_create_dynamic_config env account already_exists admin index pool_creator_authority =
     bindr (check_init env ''config'' [ucast index] account already_exists) (\<lambda>_.
     bindr (check_admin admin) (\<lambda>_.
     bindr (require (pool_creator_authority \<noteq> default_pubkey) (Err InvalidPoolCreatorAuthority)) (\<lambda>_.
     Inr (init_dynamic_config default_config index pool_creator_authority))))"

definition handle_close_config :: "pubkey \<Rightarrow> pubkey \<Rightarrow> pubkey result" where
  "handle_close_config rent_receiver admin =
     bindr (check_admin admin) (\<lambda>_. Inr rent_receiver)"

lemmas admin_eval =
  ADMINS_def assert_eq_admin_def check_admin_def handle_set_pool_status_def claim_fee_operator_initialize_def
  claim_fee_constraints_def check_treasury_account_def handle_claim_protocol_fee_def handle_claim_partner_fee_def
  check_init_def handle_create_claim_fee_operator_def handle_close_claim_fee_operator_def
  handle_create_token_badge_def handle_close_token_badge_def handle_create_static_config_def
  handle_create_dynamic_config_def handle_close_config_def treasury_ID_def
  MIN_SQRT_PRICE_def MAX_SQRT_PRICE_def config_eval

section \<open>What the instructions guarantee\<close>

lemma check_admin_eq_Inr: "check_admin admin = Inr u \<longleftrightarrow> assert_eq_admin admin"
  by (auto simp: check_admin_def require_eq_Inr)

lemma set_pool_status_eq_Inr:
  "handle_set_pool_status p admin status = Inr p' \<longleftrightarrow> assert_eq_admin admin \<and>
     (pool_pool_status p = 0 \<and> status = 1 \<or> pool_pool_status p = 1 \<and> status = 0) \<and>
     p' = p\<lparr> pool_pool_status := status \<rparr>"
  by (auto simp: handle_set_pool_status_def bindr_eq_Inr check_admin_eq_Inr ok_or_eq_Inr require_eq_Inr
      pool_status_try_from_def pool_status_u8_def split: if_splits)

lemma claim_fee_constraints_eq_Inr:
  "claim_fee_constraints env ctx = Inr u \<longleftrightarrow> cc_pool_authority ctx = env_pool_authority env \<and>
     pool_token_a_vault (cc_pool ctx) = ta_key (cc_token_a_vault ctx) \<and>
     pool_token_b_vault (cc_pool ctx) = ta_key (cc_token_b_vault ctx) \<and>
     pool_token_a_mint (cc_pool ctx) = mint_key (cc_token_a_mint ctx) \<and>
     pool_token_b_mint (cc_pool ctx) = mint_key (cc_token_b_mint ctx) \<and>
     check_vault (cc_token_a_vault ctx) (cc_token_a_program ctx) (cc_token_a_mint ctx) = Inr () \<and>
     check_vault (cc_token_b_vault ctx) (cc_token_b_program ctx) (cc_token_b_mint ctx) = Inr ()"
  by (auto simp: claim_fee_constraints_def bindr_eq_Inr require_eq_Inr check_pool_authority_def)

text \<open>What leaves an account, over a list of transfers.\<close>

definition paid_from :: "pubkey \<Rightarrow> transfer list \<Rightarrow> nat" where
  "paid_from account ts = sum_list (map (\<lambda>t. unat (tr_amount t)) (filter (\<lambda>t. tr_from t = account) ts))"

lemma paid_from_simps [simp]:
  "paid_from account [] = 0"
  "paid_from account (t # ts) = (if tr_from t = account then unat (tr_amount t) else 0) + paid_from account ts"
  "paid_from account (ts @ us) = paid_from account ts + paid_from account us"
  by (simp_all add: paid_from_def)

lemma transfer_fields [simp]:
  "tr_from (transfer_from_pool a m v d x) = ta_key v" "tr_to (transfer_from_pool a m v d x) = ta_key d"
  "tr_amount (transfer_from_pool a m v d x) = x" "tr_mint (transfer_from_pool a m v d x) = mint_key m"
  "tr_authority (transfer_from_pool a m v d x) = a"
  "tr_from (transfer_from_user a m v d x) = ta_key v" "tr_to (transfer_from_user a m v d x) = ta_key d"
  "tr_amount (transfer_from_user a m v d x) = x" "tr_mint (transfer_from_user a m v d x) = mint_key m"
  "tr_authority (transfer_from_user a m v d x) = a"
  by (simp_all add: transfer_from_pool_def transfer_from_user_def)

lemma claim_protocol_fee_eq_Inr:
  "claim_protocol_fee p ma mb = Inr (p', a, b) \<longleftrightarrow>
     a = min (pool_protocol_a_fee p) ma \<and> b = min (pool_protocol_b_fee p) mb \<and>
     p' = p\<lparr> pool_protocol_a_fee := pool_protocol_a_fee p - a, pool_protocol_b_fee := pool_protocol_b_fee p - b \<rparr>"
  by (auto simp: claim_protocol_fee_def Let_def safe_sub_total)

lemma claim_partner_fee_eq_Inr:
  "claim_partner_fee p ma mb = Inr (p', a, b) \<longleftrightarrow>
     a = min (pool_partner_a_fee p) ma \<and> b = min (pool_partner_b_fee p) mb \<and>
     p' = p\<lparr> pool_partner_a_fee := pool_partner_a_fee p - a, pool_partner_b_fee := pool_partner_b_fee p - b \<rparr>"
  by (auto simp: claim_partner_fee_def Let_def safe_sub_total)

lemma unat_sub_min: "unat (x - min x y) + unat (min x y) = unat (x :: 'a::len word)"
proof -
  have "min x y \<le> x" by simp
  then show ?thesis by (simp add: unat_sub word_le_nat_alt)
qed

end
