(* ===== verification/InitializePool.thy ===== *)
theory InitializePool
  imports PositionHandlers FeeSchedule
begin

text \<open>
  The three instructions of \<open>instructions/initialize_pool\<close> that open a pool with a first
  position: from a static configuration, with parameters of the creator's own, and from a
  dynamic configuration. Their account lists agree but for the configuration; one context
  record serves all three.
\<close>

section \<open>Accounts\<close>

definition max_key :: "pubkey \<Rightarrow> pubkey \<Rightarrow> pubkey" where
  "max_key left right = max left right"

definition min_key :: "pubkey \<Rightarrow> pubkey \<Rightarrow> pubkey" where
  "min_key left right = min left right"

record initialize_pool_ctx =
  ip_creator :: pubkey
  ip_position_nft_mint :: pubkey
  ip_position_nft_account :: pubkey
  ip_payer :: pubkey
  ip_pool_creator_authority :: pubkey
  ip_config_key :: pubkey
  ip_config :: config
  ip_pool_authority :: pubkey
  ip_pool_key :: pubkey
  ip_position_key :: pubkey
  ip_accounts_exist :: bool
  ip_token_a_mint :: mint_account
  ip_token_b_mint :: mint_account
  ip_token_a_vault :: token_account
  ip_token_b_vault :: token_account
  ip_payer_token_a :: token_account
  ip_payer_token_b :: token_account
  ip_token_a_program :: pubkey
  ip_token_b_program :: pubkey
  ip_remaining_accounts :: "token_badge option list"
  ip_minimum_balance :: u64
  ip_current_lamport :: u64

text \<open>
  The derived addresses of the accounts the instruction creates; the seeds of the pool
  differ between the instructions.
\<close>

definition initialize_constraints ::
  "environment \<Rightarrow> string \<Rightarrow> pubkey list \<Rightarrow> initialize_pool_ctx \<Rightarrow> unit result" where
  "initialize_constraints env pool_prefix pool_seeds ctx =
     bindr (check (\<not> ip_accounts_exist ctx) ConstraintAccountInit) (\<lambda>_.
     bindr (check (ip_position_nft_account ctx = env_pda env ''position_nft_account'' [ip_position_nft_mint ctx])
              ConstraintSeeds) (\<lambda>_.
     bindr (check (ip_pool_key ctx = env_pda env pool_prefix pool_seeds) ConstraintSeeds) (\<lambda>_.
     bindr (check (ip_position_key ctx = env_pda env ''position'' [ip_position_nft_mint ctx]) ConstraintSeeds) (\<lambda>_.
     bindr (check (ta_key (ip_token_a_vault ctx) = env_pda env ''token_vault'' [mint_key (ip_token_a_mint ctx), ip_pool_key ctx])
              ConstraintSeeds) (\<lambda>_.
     bindr (check (ta_key (ip_token_b_vault ctx) = env_pda env ''token_vault'' [mint_key (ip_token_b_mint ctx), ip_pool_key ctx])
              ConstraintSeeds) (\<lambda>_.
     bindr (check (ip_pool_authority ctx = env_pool_authority env) ConstraintAddress) (\<lambda>_.
     bindr (check (mint_key (ip_token_a_mint ctx) \<noteq> mint_key (ip_token_b_mint ctx)) ConstraintRaw) (\<lambda>_.
     bindr (check (mint_program (ip_token_a_mint ctx) = ip_token_a_program ctx) ConstraintMintTokenProgram) (\<lambda>_.
     check (mint_program (ip_token_b_mint ctx) = ip_token_b_program ctx) ConstraintMintTokenProgram)))))))))"

definition check_pool_mints :: "initialize_pool_ctx \<Rightarrow> unit result" where
  "check_pool_mints ctx =
     bindr (check_mint_supported (ip_token_a_mint ctx) (ip_remaining_accounts ctx) 0) (\<lambda>_.
     check_mint_supported (ip_token_b_mint ctx) (ip_remaining_accounts ctx) 1)"

section \<open>Opening the pool\<close>

text \<open>
  The common end of the three handlers, up to the transfers: the pool, its first position,
  and the NFT of that position.
\<close>

definition open_pool ::
  "initialize_pool_ctx \<Rightarrow> pool_fees_struct \<Rightarrow> pubkey \<Rightarrow> pubkey \<Rightarrow> u128 \<Rightarrow> u128 \<Rightarrow> u128 \<Rightarrow> u64 \<Rightarrow> u8 \<Rightarrow>
   u128 \<Rightarrow> u8 \<Rightarrow> pool_kind \<Rightarrow> (pool \<times> position \<times> nft_effect list) result" where
  "open_pool ctx fees alpha_vault partner sqrt_min_price sqrt_max_price sqrt_price activation_point
     activation_type liquidity collect_fee_mode kind =
     (let token_a_flag = token_program_flags_u8 (get_token_program_flags (ip_token_a_mint ctx));
          token_b_flag = token_program_flags_u8 (get_token_program_flags (ip_token_b_mint ctx));
          p = pool_initialize default_pool (ip_creator ctx) fees (mint_key (ip_token_a_mint ctx))
                (mint_key (ip_token_b_mint ctx)) (ta_key (ip_token_a_vault ctx)) (ta_key (ip_token_b_vault ctx))
                alpha_vault partner sqrt_min_price sqrt_max_price sqrt_price activation_point activation_type
                token_a_flag token_b_flag liquidity collect_fee_mode (pool_type_u8 kind);
          (pos, p) = pos_initialize default_position p (ip_pool_key ctx) (ip_position_nft_mint ctx) liquidity in
      bindr (create_position_nft (ip_position_nft_mint ctx) (ip_position_nft_account ctx)
               (ip_minimum_balance ctx) (ip_current_lamport ctx)) (\<lambda>nft.
      Inr (p, pos, nft)))"

definition initial_transfers :: "initialize_pool_ctx \<Rightarrow> u64 \<Rightarrow> u64 \<Rightarrow> transfer list" where
  "initial_transfers ctx total_amount_a total_amount_b =
     [transfer_from_user (ip_payer ctx) (ip_token_a_mint ctx) (ip_payer_token_a ctx) (ip_token_a_vault ctx) total_amount_a,
      transfer_from_user (ip_payer ctx) (ip_token_b_mint ctx) (ip_payer_token_b ctx) (ip_token_b_vault ctx) total_amount_b]"

section \<open>From a static configuration\<close>

record initialize_pool_parameters =
  in_liquidity :: u128
  in_sqrt_price :: u128
  in_activation_point :: "u64 option"

definition cf_get_whitelisted_alpha_vault :: "environment \<Rightarrow> config \<Rightarrow> pubkey \<Rightarrow> pubkey" where
  "cf_get_whitelisted_alpha_vault env cf p_key =
     (if cf_vault_config_key cf = default_pubkey then default_pubkey
      else derive_vault_pubkey env (cf_vault_config_key cf) p_key)"

definition handle_initialize_pool ::
  "environment \<Rightarrow> initialize_pool_ctx \<Rightarrow> initialize_pool_parameters \<Rightarrow>
   (pool \<times> position \<times> nft_effect list \<times> transfer list) result" where
  "handle_initialize_pool env ctx params =
     (let cf = ip_config ctx;
          key_a = mint_key (ip_token_a_mint ctx);
          key_b = mint_key (ip_token_b_mint ctx) in
     bindr (initialize_constraints env ''pool'' [ip_config_key ctx, max_key key_a key_b, min_key key_a key_b] ctx) (\<lambda>_.
     bindr (check_pool_mints ctx) (\<lambda>_.
     bindr (require (in_liquidity params > 0) (Err InvalidMinimumLiquidity)) (\<lambda>_.
     bindr (get_config_type cf) (\<lambda>t.
     bindr (require (t = Static) (Err InvalidConfigType)) (\<lambda>_.
     bindr (require (cf_pool_creator_authority cf = default_pubkey \<or> cf_pool_creator_authority cf = ip_payer ctx)
              (Err InvalidAuthorityToCreateThePool)) (\<lambda>_.
     bindr (activation_params_validate (env_clock env)
              \<lparr> ap_activation_point = in_activation_point params, ap_has_alpha_vault = has_alpha_vault cf,
                ap_activation_type = cf_activation_type cf \<rparr>) (\<lambda>_.
     bindr (get_current_point (env_clock env) (cf_activation_type cf)) (\<lambda>current_point.
     let activation_point = (case in_activation_point params of Some point \<Rightarrow> point | None \<Rightarrow> current_point) in
     bindr (require (in_sqrt_price params \<ge> cf_sqrt_min_price cf \<and> in_sqrt_price params \<le> cf_sqrt_max_price cf)
              (Err InvalidPriceRange)) (\<lambda>_.
     bindr (get_initialize_amounts (cf_sqrt_min_price cf) (cf_sqrt_max_price cf) (in_sqrt_price params)
              (in_liquidity params)) (\<lambda>(token_a_amount, token_b_amount).
     bindr (require (token_a_amount > 0 \<or> token_b_amount > 0) (Err AmountIsZero)) (\<lambda>_.
     bindr (open_pool ctx (pc_to_pool_fees_struct (cf_pool_fees cf))
              (cf_get_whitelisted_alpha_vault env cf (ip_pool_key ctx)) (cf_pool_creator_authority cf)
              (cf_sqrt_min_price cf) (cf_sqrt_max_price cf) (in_sqrt_price params) activation_point
              (cf_activation_type cf) (in_liquidity params) (cf_collect_fee_mode cf) Permissionless)
       (\<lambda>(p, pos, nft).
     bindr (calculate_transfer_fee_included_amount (ip_token_a_mint ctx) token_a_amount) (\<lambda>total_a.
     bindr (calculate_transfer_fee_included_amount (ip_token_b_mint ctx) token_b_amount) (\<lambda>total_b.
     Inr (p, pos, nft, initial_transfers ctx (tfa_amount total_a) (tfa_amount total_b)))))))))))))))))"

section \<open>With parameters of the creator\<close>

record initialize_customizable_pool_parameters =
  ic_pool_fees :: pool_fee_parameters
  ic_sqrt_min_price :: u128
  ic_sqrt_max_price :: u128
  ic_has_alpha_vault :: bool
  ic_liquidity :: u128
  ic_sqrt_price :: u128
  ic_activation_type :: u8
  ic_collect_fee_mode :: u8
  ic_activation_point :: "u64 option"

definition customizable_validate :: "clock \<Rightarrow> initialize_customizable_pool_parameters \<Rightarrow> unit result" where
  "customizable_validate clk params =
     bindr (require (ic_sqrt_min_price params \<ge> MIN_SQRT_PRICE \<and> ic_sqrt_max_price params \<le> MAX_SQRT_PRICE)
              (Err InvalidPriceRange)) (\<lambda>_.
     bindr (require (ic_sqrt_price params \<ge> ic_sqrt_min_price params \<and> ic_sqrt_price params \<le> ic_sqrt_max_price params)
              (Err InvalidPriceRange)) (\<lambda>_.
     bindr (require (ic_sqrt_min_price params < ic_sqrt_max_price params) (Err InvalidPriceRange)) (\<lambda>_.
     bindr (require (ic_liquidity params > 0) (Err InvalidMinimumLiquidity)) (\<lambda>_.
     bindr (pool_fee_validate (ic_pool_fees params)) (\<lambda>_.
     bindr (ok_or (collect_fee_mode_try_from (ic_collect_fee_mode params)) (Err InvalidCollectFeeMode)) (\<lambda>_.
     activation_params_validate clk
       \<lparr> ap_activation_point = ic_activation_point params, ap_has_alpha_vault = ic_has_alpha_vault params,
         ap_activation_type = ic_activation_type params \<rparr>))))))"

definition get_whitelisted_alpha_vault :: "environment \<Rightarrow> pubkey \<Rightarrow> pubkey \<Rightarrow> bool \<Rightarrow> pubkey" where
  "get_whitelisted_alpha_vault env payer p_key has_vault =
     (if has_vault then derive_vault_pubkey env payer p_key else default_pubkey)"

definition is_whitelisted_quote_token :: "pubkey \<Rightarrow> bool" where
  "is_whitelisted_quote_token m = list_ex (\<lambda>q. q = m) DEFAULT_QUOTE_MINTS"

definition validate_quote_token :: "pubkey \<Rightarrow> pubkey \<Rightarrow> bool \<Rightarrow> unit result" where
  "validate_quote_token token_mint_a token_mint_b has_vault =
     bindr (require (\<not> is_whitelisted_quote_token token_mint_a) (Err InvalidQuoteMint)) (\<lambda>_.
     if \<not> is_whitelisted_quote_token token_mint_b
     then require (\<not> has_vault) (Err InvalidQuoteMint)
     else Inr ())"

text \<open>
  The part that the last two handlers share: from the check of the quote token to the NFT.
  \<open>partner\<close> is nobody for a customizable pool and the creator authority of a dynamic configuration.
\<close>

definition open_customizable_pool ::
  "environment \<Rightarrow> initialize_pool_ctx \<Rightarrow> initialize_customizable_pool_parameters \<Rightarrow> pubkey \<Rightarrow>
   ((pool \<times> position \<times> nft_effect list) \<times> u64 \<times> u64) result" where
  "open_customizable_pool env ctx params partner =
     bindr (validate_quote_token (mint_key (ip_token_a_mint ctx)) (mint_key (ip_token_b_mint ctx))
              (ic_has_alpha_vault params)) (\<lambda>_.
     bindr (get_initialize_amounts (ic_sqrt_min_price params) (ic_sqrt_max_price params) (ic_sqrt_price params)
              (ic_liquidity params)) (\<lambda>(token_a_amount, token_b_amount).
     bindr (require (token_a_amount > 0 \<or> token_b_amount > 0) (Err AmountIsZero)) (\<lambda>_.
     bindr (get_current_point (env_clock env) (ic_activation_type params)) (\<lambda>current_point.
     let activation_point = (case ic_activation_point params of Some point \<Rightarrow> point | None \<Rightarrow> current_point);
         alpha_vault = get_whitelisted_alpha_vault env (ip_payer ctx) (ip_pool_key ctx) (ic_has_alpha_vault params) in
     bindr (open_pool ctx (to_pool_fees_struct (ic_pool_fees params)) alpha_vault partner
              (ic_sqrt_min_price params) (ic_sqrt_max_price params) (ic_sqrt_price params) activation_point
              (ic_activation_type params) (ic_liquidity params) (ic_collect_fee_mode params) Customizable)
       (\<lambda>opened.
     Inr (opened, token_a_amount, token_b_amount))))))"

definition handle_initialize_customizable_pool ::
  "environment \<Rightarrow> initialize_pool_ctx \<Rightarrow> initialize_customizable_pool_parameters \<Rightarrow>
   (pool \<times> position \<times> nft_effect list \<times> transfer list) result" where
  "handle_initialize_customizable_pool env ctx params =
     (let key_a = mint_key (ip_token_a_mint ctx);
          key_b = mint_key (ip_token_b_mint ctx) in
     bindr (initialize_constraints env ''cpool'' [max_key key_a key_b, min_key key_a key_b] ctx) (\<lambda>_.
     bindr (customizable_validate (env_clock env) params) (\<lambda>_.
     bindr (check_pool_mints ctx) (\<lambda>_.
     bindr (open_customizable_pool env ctx params default_pubkey)
       (\<lambda>((p, pos, nft), token_a_amount, token_b_amount).
     bindr (calculate_transfer_fee_included_amount (ip_token_a_mint ctx) token_a_amount) (\<lambda>total_a.
     bindr (calculate_transfer_fee_included_amount (ip_token_b_mint ctx) token_b_amount) (\<lambda>total_b.
     Inr (p, pos, nft, initial_transfers ctx (max (tfa_amount total_a) 1) (max (tfa_amount total_b) 1)))))))))"

section \<open>From a dynamic configuration\<close>

definition handle_initialize_pool_with_dynamic_config ::
  "environment \<Rightarrow> initialize_pool_ctx \<Rightarrow> initialize_customizable_pool_parameters \<Rightarrow>
   (pool \<times> position \<times> nft_effect list \<times> transfer list) result" where
  "handle_initialize_pool_with_dynamic_config env ctx params =
     (let cf = ip_config ctx;
          key_a = mint_key (ip_token_a_mint ctx);
          key_b = mint_key (ip_token_b_mint ctx) in
     bindr (initialize_constraints env ''pool'' [ip_config_key ctx, max_key key_a key_b, min_key key_a key_b] ctx) (\<lambda>_.
     bindr (check (cf_pool_creator_authority cf = ip_pool_creator_authority ctx) ConstraintHasOne) (\<lambda>_.
     bindr (customizable_validate (env_clock env) params) (\<lambda>_.
     bindr (check_pool_mints ctx) (\<lambda>_.
     bindr (get_config_type cf) (\<lambda>t.
     bindr (require (t = Dynamic) (Err InvalidConfigType)) (\<lambda>_.
     bindr (open_customizable_pool env ctx params (cf_pool_creator_authority cf))
       (\<lambda>((p, pos, nft), token_a_amount, token_b_amount).
     bindr (calculate_transfer_fee_included_amount (ip_token_a_mint ctx) token_a_amount) (\<lambda>total_a.
     bindr (calculate_transfer_fee_included_amount (ip_token_b_mint ctx) token_b_amount) (\<lambda>total_b.
     Inr (p, pos, nft, initial_transfers ctx (tfa_amount total_a) (tfa_amount total_b))))))))))))"

lemmas initialize_eval =
  max_key_def min_key_def initialize_constraints_def check_pool_mints_def open_pool_def initial_transfers_def
  cf_get_whitelisted_alpha_vault_def handle_initialize_pool_def customizable_validate_def
  get_whitelisted_alpha_vault_def is_whitelisted_quote_token_def validate_quote_token_def
  open_customizable_pool_def handle_initialize_customizable_pool_def
  handle_initialize_pool_with_dynamic_config_def DEFAULT_QUOTE_MINTS_def SOL_def USDC_def
  MIN_SQRT_PRICE_def MAX_SQRT_PRICE_def config_eval position_handlers_eval

end
