(* ===== verification/SwapHandler.thy ===== *)
theory SwapHandler
  imports Market Access Token
begin

text \<open>
  The instruction \<open>swap\<close> (\<open>instructions/ix_swap.rs\<close>). A context record holds the accounts
  the instruction is given, as Anchor has loaded them; the handler checks the constraints
  of \<open>SwapCtx\<close> and runs \<open>handle_swap\<close>. It returns the pool it writes, the swap result of
  the event, and the transfers it requests, in their order.
\<close>

record swap_parameters =
  sp_amount_in :: u64
  sp_minimum_amount_out :: u64

record swap_ctx =
  sc_pool_authority :: pubkey
  sc_pool :: pool
  sc_input_token_account :: token_account
  sc_output_token_account :: token_account
  sc_token_a_vault :: token_account
  sc_token_b_vault :: token_account
  sc_token_a_mint :: mint_account
  sc_token_b_mint :: mint_account
  sc_payer :: pubkey
  sc_token_a_program :: pubkey
  sc_token_b_program :: pubkey
  sc_referral_token_account :: "token_account option"

definition swap_constraints :: "environment \<Rightarrow> swap_ctx \<Rightarrow> unit result" where
  "swap_constraints env ctx =
     bindr (check (sc_pool_authority ctx = env_pool_authority env) ConstraintAddress) (\<lambda>_.
     bindr (check (pool_token_a_vault (sc_pool ctx) = ta_key (sc_token_a_vault ctx)) ConstraintHasOne) (\<lambda>_.
     bindr (check (pool_token_b_vault (sc_pool ctx) = ta_key (sc_token_b_vault ctx)) ConstraintHasOne) (\<lambda>_.
     bindr (check_vault (sc_token_a_vault ctx) (sc_token_a_program ctx) (sc_token_a_mint ctx)) (\<lambda>_.
     check_vault (sc_token_b_vault ctx) (sc_token_b_program ctx) (sc_token_b_mint ctx)))))"

definition get_trade_direction :: "swap_ctx \<Rightarrow> trade_direction" where
  "get_trade_direction ctx =
     (if ta_mint (sc_input_token_account ctx) = mint_key (sc_token_a_mint ctx) then AtoB else BtoA)"

definition handle_swap ::
  "environment \<Rightarrow> swap_ctx \<Rightarrow> swap_parameters \<Rightarrow> (pool \<times> swap_result \<times> transfer list) result" where
  "handle_swap env ctx params =
     bindr (swap_constraints env ctx) (\<lambda>_.
     bindr (get_pool_access_validator (env_clock env) (sc_pool ctx)) (\<lambda>access_validator.
     bindr (require (can_swap access_validator (sc_payer ctx)) (Err PoolDisabled)) (\<lambda>_.
     let trade_direction = get_trade_direction ctx;
         (token_in_mint, token_out_mint, input_vault, output_vault) =
           (case trade_direction of
              AtoB \<Rightarrow> (sc_token_a_mint ctx, sc_token_b_mint ctx, sc_token_a_vault ctx, sc_token_b_vault ctx)
            | BtoA \<Rightarrow> (sc_token_b_mint ctx, sc_token_a_mint ctx, sc_token_b_vault ctx, sc_token_a_vault ctx)) in
     bindr (calculate_transfer_fee_excluded_amount token_in_mint (sp_amount_in params)) (\<lambda>excluded_in.
     bindr (require (tfa_amount excluded_in > 0) (Err AmountIsZero)) (\<lambda>_.
     let referral = (sc_referral_token_account ctx \<noteq> None);
         current_timestamp = current_time env in
     bindr (update_pre_swap (sc_pool ctx) current_timestamp) (\<lambda>p.
     bindr (get_current_point (env_clock env) (pool_activation_type p)) (\<lambda>current_point.
     bindr (get_fee_mode (pool_collect_fee_mode p) trade_direction referral) (\<lambda>fm.
     bindr (get_swap_result p (tfa_amount excluded_in) fm trade_direction current_point) (\<lambda>sr.
     bindr (calculate_transfer_fee_excluded_amount token_out_mint (sr_output_amount sr)) (\<lambda>excluded_out.
     bindr (require (tfa_amount excluded_out \<ge> sp_minimum_amount_out params) (Err ExceededSlippage)) (\<lambda>_.
     bindr (apply_swap_result p sr fm current_timestamp) (\<lambda>p.
     Inr (p, sr,
       [transfer_from_user (sc_payer ctx) token_in_mint (sc_input_token_account ctx) input_vault
          (sp_amount_in params),
        transfer_from_pool (sc_pool_authority ctx) token_out_mint output_vault
          (sc_output_token_account ctx) (sr_output_amount sr)] @
       (case sc_referral_token_account ctx of
          Some account \<Rightarrow>
            if fees_on_token_a fm
            then [transfer_from_pool (sc_pool_authority ctx) (sc_token_a_mint ctx) (sc_token_a_vault ctx)
                    account (sr_referral_fee sr)]
            else [transfer_from_pool (sc_pool_authority ctx) (sc_token_b_mint ctx) (sc_token_b_vault ctx)
                    account (sr_referral_fee sr)]
        | None \<Rightarrow> []))))))))))))))"

lemmas swap_handler_eval =
  swap_constraints_def get_trade_direction_def handle_swap_def token_eval access_eval pool_eval

section \<open>What a successful swap has checked and done\<close>

text \<open>The mint that the swap takes in and the one it pays out.\<close>

definition mint_in :: "swap_ctx \<Rightarrow> mint_account" where
  "mint_in ctx = (case get_trade_direction ctx of AtoB \<Rightarrow> sc_token_a_mint ctx | BtoA \<Rightarrow> sc_token_b_mint ctx)"

definition mint_out :: "swap_ctx \<Rightarrow> mint_account" where
  "mint_out ctx = (case get_trade_direction ctx of AtoB \<Rightarrow> sc_token_b_mint ctx | BtoA \<Rightarrow> sc_token_a_mint ctx)"

lemma handle_swap_frame:
  assumes "handle_swap env ctx params = Inr (p', sr, trs)"
  obtains pa p excluded_in excluded_out fm cp where
    "swap_constraints env ctx = Inr ()"
    "get_pool_access_validator (env_clock env) (sc_pool ctx) = Inr pa" "can_swap pa (sc_payer ctx)"
    "calculate_transfer_fee_excluded_amount (mint_in ctx) (sp_amount_in params) = Inr excluded_in"
    "0 < tfa_amount excluded_in"
    "update_pre_swap (sc_pool ctx) (current_time env) = Inr p"
    "get_fee_mode (pool_collect_fee_mode p) (get_trade_direction ctx) (sc_referral_token_account ctx \<noteq> None) = Inr fm"
    "get_swap_result p (tfa_amount excluded_in) fm (get_trade_direction ctx) cp = Inr sr"
    "calculate_transfer_fee_excluded_amount (mint_out ctx) (sr_output_amount sr) = Inr excluded_out"
    "sp_minimum_amount_out params \<le> tfa_amount excluded_out"
    "apply_swap_result p sr fm (current_time env) = Inr p'"
  using assms
  by (cases "get_trade_direction ctx")
    (auto simp: handle_swap_def mint_in_def mint_out_def bindr_eq_Inr require_eq_Inr Let_def)

section \<open>The instruction as a trade\<close>

text \<open>
  What a successful swap does to the pool is the swap of the pool with the amount that arrives, which
  is at most the amount the trader pays.
\<close>

lemma handle_swap_is_pool_swap:
  assumes "handle_swap env ctx params = Inr (p', sr, trs)"
  obtains excluded_in cp where
    "calculate_transfer_fee_excluded_amount (mint_in ctx) (sp_amount_in params) = Inr excluded_in"
    "pool_swap (get_trade_direction ctx) (sc_pool ctx) (tfa_amount excluded_in)
       (sc_referral_token_account ctx \<noteq> None) cp (current_time env) = Inr (p', sr)"
    "tfa_amount excluded_in \<le> sp_amount_in params"
proof -
  obtain p excluded_in fm cp where
    ex: "calculate_transfer_fee_excluded_amount (mint_in ctx) (sp_amount_in params) = Inr excluded_in"
    and "update_pre_swap (sc_pool ctx) (current_time env) = Inr p"
    and "get_fee_mode (pool_collect_fee_mode p) (get_trade_direction ctx) (sc_referral_token_account ctx \<noteq> None) = Inr fm"
    and "get_swap_result p (tfa_amount excluded_in) fm (get_trade_direction ctx) cp = Inr sr"
    and "apply_swap_result p sr fm (current_time env) = Inr p'"
    by (rule handle_swap_frame [OF assms])
  then show ?thesis
    using excluded_amount_received(2) [OF ex]
    by (intro that [OF ex, of cp]) (simp_all add: pool_swap_def word_le_nat_alt)
qed

text \<open>
  A swap instruction as a trade: on the pool \<open>p\<close>, \<open>x\<close> paid in by the trader, transfer fee included, and
  \<open>y\<close> paid out by the vault, whoever calls it, whenever, with whatever accounts.
\<close>

definition swap_trade :: "trade_direction \<Rightarrow> pool \<Rightarrow> nat \<Rightarrow> nat \<Rightarrow> pool \<Rightarrow> bool" where
  "swap_trade direction p x y p' \<longleftrightarrow>
     (\<exists>env ctx params sr trs. handle_swap env ctx params = Inr (p', sr, trs) \<and> sc_pool ctx = p \<and>
        get_trade_direction ctx = direction \<and> unat (sp_amount_in params) = x \<and> unat (sr_output_amount sr) = y)"

lemma swap_trade_reserves:
  assumes "swap_trade d p x y p'"
  shows "d = AtoB \<Longrightarrow> curve_reserve_a p' \<le> curve_reserve_a p + real x \<and> curve_reserve_b p' \<le> curve_reserve_b p - real y"
    and "d = BtoA \<Longrightarrow> curve_reserve_b p' \<le> curve_reserve_b p + real x \<and> curve_reserve_a p' \<le> curve_reserve_a p - real y"
    and "same_liquidity p p'"
proof -
  obtain env ctx params sr trs where swap: "handle_swap env ctx params = Inr (p', sr, trs)"
    and args: "sc_pool ctx = p" "get_trade_direction ctx = d" "unat (sp_amount_in params) = x" "unat (sr_output_amount sr) = y"
    using assms by (auto simp: swap_trade_def)
  obtain cp and excluded_in :: transfer_fee_amount where
    p: "pool_swap (get_trade_direction ctx) (sc_pool ctx) (tfa_amount excluded_in)
       (sc_referral_token_account ctx \<noteq> None) cp (current_time env) = Inr (p', sr)"
    and "tfa_amount excluded_in \<le> sp_amount_in params"
    by (rule handle_swap_is_pool_swap [OF swap]) blast
  then have "real (unat (tfa_amount excluded_in)) \<le> real x" unfolding args(3) [symmetric] by (simp only: word_le_nat_alt of_nat_le_iff)
  note r = pool_swap_reserves [OF p, unfolded args] this
  show "curve_reserve_a p' \<le> curve_reserve_a p + real x \<and> curve_reserve_b p' \<le> curve_reserve_b p - real y" if "d = AtoB"
    using r(1) [OF that] r(7) by (intro conjI; linarith)
  show "curve_reserve_b p' \<le> curve_reserve_b p + real x \<and> curve_reserve_a p' \<le> curve_reserve_a p - real y" if "d = BtoA"
    using r(2) [OF that] r(7) by (intro conjI; linarith)
  show "same_liquidity p p'" using r(3-6) by (simp add: same_liquidity_def flip: word_pos)
qed

interpretation swap_market: two_sided_market swap_trade curve_reserve_a curve_reserve_b same_liquidity
proof unfold_locales
  show "swap_trade AtoB p x y p' \<Longrightarrow> curve_reserve_a p' \<le> curve_reserve_a p + real x \<and> curve_reserve_b p' \<le> curve_reserve_b p - real y"
    "swap_trade BtoA p x y p' \<Longrightarrow> curve_reserve_b p' \<le> curve_reserve_b p + real x \<and> curve_reserve_a p' \<le> curve_reserve_a p - real y"
    for p p' and x y :: nat
    by (simp_all add: swap_trade_reserves)
qed (fact swap_trade_reserves(3) same_liquidity_trans reserves_trade_off)+

end
