(* ===== verification/Solvency.thy ===== *)
theory Solvency
  imports PositionHandlers Vesting AdminHandlers InitializePool SwapHandler
begin

text \<open>
  The pool with all its positions and its two token vaults: what the vaults must cover, and
  that no instruction ever breaks it. A pool owes, per token, the reserve of its curve, the
  fees of the protocol and of the partner, and to each position its pending fees and the fees
  that have accrued since its checkpoint. The development is done once for both tokens.
\<close>

section \<open>The two sides of a pool\<close>

datatype side = SideA | SideB

definition growth :: "side \<Rightarrow> pool \<Rightarrow> nat" where
  "growth s p = (case s of SideA \<Rightarrow> unat (pool_fee_a_per_liquidity p) | SideB \<Rightarrow> unat (pool_fee_b_per_liquidity p))"

definition checkpoint :: "side \<Rightarrow> position \<Rightarrow> nat" where
  "checkpoint s pos = (case s of SideA \<Rightarrow> unat (pos_fee_a_per_token_checkpoint pos)
                               | SideB \<Rightarrow> unat (pos_fee_b_per_token_checkpoint pos))"

definition fee_pending :: "side \<Rightarrow> position \<Rightarrow> nat" where
  "fee_pending s pos = (case s of SideA \<Rightarrow> unat (pos_fee_a_pending pos) | SideB \<Rightarrow> unat (pos_fee_b_pending pos))"

definition protocol_due :: "side \<Rightarrow> pool \<Rightarrow> nat" where
  "protocol_due s p = (case s of SideA \<Rightarrow> unat (pool_protocol_a_fee p) | SideB \<Rightarrow> unat (pool_protocol_b_fee p))"

definition partner_due :: "side \<Rightarrow> pool \<Rightarrow> nat" where
  "partner_due s p = (case s of SideA \<Rightarrow> unat (pool_partner_a_fee p) | SideB \<Rightarrow> unat (pool_partner_b_fee p))"

definition reserve :: "side \<Rightarrow> pool \<Rightarrow> real" where
  "reserve s p = (case s of
     SideA \<Rightarrow> curve_reserve_a p - real (unat (pool_liquidity p)) / real (unat (pool_sqrt_max_price p))
   | SideB \<Rightarrow> curve_reserve_b p - real (unat (pool_liquidity p)) * real (unat (pool_sqrt_min_price p)) / 2 ^ 128)"

definition owed :: "side \<Rightarrow> pool \<Rightarrow> position \<Rightarrow> real" where
  "owed s p pos = real (fee_pending s pos) +
     real (pos_liquidity pos) * (real (growth s p) - real (checkpoint s pos)) / 2 ^ 128"

section \<open>Sums over the positions\<close>

definition total :: "(position \<Rightarrow> real) \<Rightarrow> (pubkey \<Rightarrow> position option) \<Rightarrow> real" where
  "total f ps = (\<Sum>k\<in>dom ps. f (the (ps k)))"

lemma total_new: "ps k = None \<Longrightarrow> total f (ps(k \<mapsto> pos)) = total f ps + f pos"
proof -
  assume none: "ps k = None"
  have "(\<Sum>j\<in>dom ps. f (the ((ps(k \<mapsto> pos)) j))) = total f ps"
    unfolding total_def by (rule sum.cong) (use none in auto)
  then show ?thesis using none by (simp add: total_def finite_keys insert_absorb domIff)
qed

lemma total_delete: "ps k = Some pos \<Longrightarrow> total f (ps(k := None)) = total f ps - f pos"
  using total_new [of "ps(k := None)" k f pos] by (simp add: fun_upd_idem)

lemma total_update: "ps k = Some pos \<Longrightarrow> total f (ps(k \<mapsto> pos')) = total f ps - f pos + f pos'"
  using total_new [of "ps(k := None)" k f pos'] total_delete [of ps k pos f] by simp

lemma total_mono: "(\<And>k pos. ps k = Some pos \<Longrightarrow> f pos \<le> g pos) \<Longrightarrow> total f ps \<le> total g ps"
  unfolding total_def by (rule sum_mono) auto

lemma total_nonneg: "(\<And>k pos. ps k = Some pos \<Longrightarrow> 0 \<le> f pos) \<Longrightarrow> 0 \<le> total f ps"
  unfolding total_def by (rule sum_nonneg) auto

lemma total_member:
  assumes "ps k = Some pos" and "\<And>k pos. ps k = Some pos \<Longrightarrow> 0 \<le> f pos"
  shows "f pos \<le> total f ps"
proof -
  have "0 \<le> total f (ps(k := None))"
    by (rule total_nonneg) (use assms(2) in \<open>auto split: if_splits\<close>)
  then show ?thesis using total_delete [of ps k pos f] assms(1) by simp
qed

lemma total_add_scaled:
  "total (\<lambda>pos. f pos + g pos * c) ps = total f ps + total g ps * c"
  by (simp add: total_def sum.distrib sum_distrib_right)

section \<open>What a pool owes\<close>

definition owes :: "side \<Rightarrow> pool \<Rightarrow> (pubkey \<Rightarrow> position option) \<Rightarrow> real" where
  "owes s p ps = reserve s p + real (protocol_due s p) + real (partner_due s p) + total (owed s p) ps"

definition books_ok :: "pool \<Rightarrow> (pubkey \<Rightarrow> position option) \<Rightarrow> bool" where
  "books_ok p ps \<longleftrightarrow> total (\<lambda>pos. real (pos_liquidity pos)) ps = real (unat (pool_liquidity p)) \<and>
     pool_sqrt_min_price p \<le> pool_sqrt_price p \<and> pool_sqrt_price p \<le> pool_sqrt_max_price p \<and>
     0 < unat (pool_sqrt_price p) \<and> pool_token_a_vault p \<noteq> pool_token_b_vault p \<and>
     (\<forall>k pos s. ps k = Some pos \<longrightarrow> 0 < pos_liquidity pos \<longrightarrow> checkpoint s pos \<le> growth s p)"

lemmas side_defs = growth_def checkpoint_def fee_pending_def protocol_due_def partner_due_def reserve_def
  curve_reserve_a_def curve_reserve_b_def

text \<open>Two pools that differ in nothing the books mention.\<close>

definition same_books :: "pool \<Rightarrow> pool \<Rightarrow> bool" where
  "same_books p p' \<longleftrightarrow> pool_liquidity p' = pool_liquidity p \<and> pool_sqrt_price p' = pool_sqrt_price p \<and>
     pool_sqrt_min_price p' = pool_sqrt_min_price p \<and> pool_sqrt_max_price p' = pool_sqrt_max_price p \<and>
     pool_token_a_vault p' = pool_token_a_vault p \<and> pool_token_b_vault p' = pool_token_b_vault p \<and>
     pool_fee_a_per_liquidity p' = pool_fee_a_per_liquidity p \<and>
     pool_fee_b_per_liquidity p' = pool_fee_b_per_liquidity p \<and>
     pool_protocol_a_fee p' = pool_protocol_a_fee p \<and> pool_protocol_b_fee p' = pool_protocol_b_fee p \<and>
     pool_partner_a_fee p' = pool_partner_a_fee p \<and> pool_partner_b_fee p' = pool_partner_b_fee p"

lemma same_books_owed:
  assumes "same_books p p'"
  shows "reserve s p' = reserve s p" "protocol_due s p' = protocol_due s p" "partner_due s p' = partner_due s p"
    "growth s p' = growth s p" "owed s p' = owed s p"
  using assms by (cases s; auto simp: same_books_def side_defs owed_def)+

lemma same_books_owes: "same_books p p' \<Longrightarrow> owes s p' ps = owes s p ps"
  by (simp add: owes_def same_books_owed)

lemma same_books_ok: "same_books p p' \<Longrightarrow> books_ok p' ps \<longleftrightarrow> books_ok p ps"
  by (simp add: books_ok_def same_books_owed(4)) (simp add: same_books_def)

text \<open>A position that changes in nothing the books mention.\<close>

definition same_claim :: "position \<Rightarrow> position \<Rightarrow> bool" where
  "same_claim pos pos' \<longleftrightarrow> pos_liquidity pos' = pos_liquidity pos \<and>
     (\<forall>s. fee_pending s pos' = fee_pending s pos \<and> checkpoint s pos' = checkpoint s pos)"

lemma same_claim_owed: "same_claim pos pos' \<Longrightarrow> owed s p pos' = owed s p pos"
  by (simp add: same_claim_def owed_def)

lemma same_claim_books:
  assumes "ps k = Some pos" and "same_claim pos pos'"
  shows "owes s p (ps(k \<mapsto> pos')) = owes s p ps" and "books_ok p ps \<Longrightarrow> books_ok p (ps(k \<mapsto> pos'))"
  using assms by (auto simp: owes_def books_ok_def total_update same_claim_owed) (auto simp: same_claim_def)

lemma pending_le_owed:
  assumes "books_ok p ps" and "ps k = Some pos"
  shows "real (fee_pending s pos) \<le> owed s p pos"
proof (cases "pos_liquidity pos = 0")
  case False
  then have "checkpoint s pos \<le> growth s p" using assms by (auto simp: books_ok_def)
  then show ?thesis by (simp add: owed_def)
qed (simp add: owed_def)

lemma owed_nonneg: "books_ok p ps \<Longrightarrow> ps k = Some pos \<Longrightarrow> 0 \<le> owed s p pos"
  using pending_le_owed [of p ps k pos s] by simp

lemma reserve_nonneg:
  assumes "books_ok p ps"
  shows "0 \<le> reserve s p"
proof -
  define L P lo hi where v: "L = unat (pool_liquidity p)" "P = unat (pool_sqrt_price p)"
    "lo = unat (pool_sqrt_min_price p)" "hi = unat (pool_sqrt_max_price p)"
  have b: "lo \<le> P" "P \<le> hi" "0 < P"
    using assms by (simp_all add: books_ok_def word_le_nat_alt v)
  show ?thesis
  proof (cases s)
    case SideA
    have "real L / real hi \<le> real L / real P" using b by (intro divide_left_mono) auto
    then show ?thesis using SideA by (simp add: reserve_def curve_reserve_a_def flip: v)
  next
    case SideB
    have "real L * real lo / 2 ^ 128 \<le> real L * real P / 2 ^ 128"
      using b by (intro divide_right_mono mult_left_mono) auto
    then show ?thesis using SideB by (simp add: reserve_def curve_reserve_b_def flip: v)
  qed
qed

section \<open>Accrual and the changes of liquidity\<close>

text \<open>Settling a position moves what it is owed from accrued to pending, and rounds it down.\<close>

lemma update_fee_owed:
  assumes "update_fee pos (pool_fee_a_per_liquidity p) (pool_fee_b_per_liquidity p) = Inr pos'"
  shows "owed s p pos' \<le> owed s p pos" and "checkpoint s pos' = growth s p"
    and "owed s p pos' = real (fee_pending s pos')" and "pos_liquidity pos' = pos_liquidity pos"
proof -
  show c: "checkpoint s pos' = growth s p"
    using update_fee_liquidity [OF assms] by (cases s) (simp_all add: checkpoint_def growth_def)
  show l: "pos_liquidity pos' = pos_liquidity pos" by (rule update_fee_liquidity [OF assms])
  show o: "owed s p pos' = real (fee_pending s pos')" by (simp add: owed_def c)
  have pend: "fee_pending s pos' = fee_pending s pos + pos_liquidity pos * (growth s p - checkpoint s pos) div 2 ^ 128"
    and le: "0 < pos_liquidity pos \<Longrightarrow> checkpoint s pos \<le> growth s p"
    by (rule update_fee_frame [OF assms]; cases s; auto simp: fee_pending_def growth_def checkpoint_def word_le_nat_alt)+
  show "owed s p pos' \<le> owed s p pos"
  proof (cases "pos_liquidity pos = 0")
    case True
    then have "fee_pending s pos' = fee_pending s pos" using pend by simp
    then show ?thesis using True by (simp only: o) (simp add: owed_def)
  next
    case False
    then have "real (pos_liquidity pos * (growth s p - checkpoint s pos) div 2 ^ 128)
        \<le> real (pos_liquidity pos) * (real (growth s p) - real (checkpoint s pos)) / 2 ^ 128"
      using div_le_real [of "pos_liquidity pos * (growth s p - checkpoint s pos)" "2 ^ 128"] le
      by (simp add: of_nat_diff)
    then show ?thesis by (simp only: o pend) (simp add: owed_def)
  qed
qed

lemma le_real_cdiv: "real a / real b \<le> real (cdiv a b)" if "0 < b"
proof -
  have "real a \<le> real (cdiv a b * b)" using le_cdiv_mult [OF that, of a] by (simp only: of_nat_le_iff)
  then show ?thesis using that by (simp add: divide_le_eq)
qed

definition amount_of :: "side \<Rightarrow> modify_liquidity_result \<Rightarrow> nat" where
  "amount_of s m = (case s of SideA \<Rightarrow> unat (ml_token_a_amount m) | SideB \<Rightarrow> unat (ml_token_b_amount m))"

text \<open>The amounts for a change of liquidity against the reserve it stands for.\<close>

lemma reserve_of_liquidity:
  assumes "get_amounts_for_modify_liquidity p d rnd = Inr m" and "unat l' = unat l + unat d"
  shows "rnd = Up \<Longrightarrow> reserve s (p\<lparr> pool_liquidity := l' \<rparr>) \<le> reserve s (p\<lparr> pool_liquidity := l \<rparr>) + real (amount_of s m)"
    and "rnd = Down \<Longrightarrow> reserve s (p\<lparr> pool_liquidity := l \<rparr>) + real (amount_of s m) \<le> reserve s (p\<lparr> pool_liquidity := l' \<rparr>)"
proof -
  define P lo hi D K K' where v: "P = unat (pool_sqrt_price p)" "lo = unat (pool_sqrt_min_price p)"
    "hi = unat (pool_sqrt_max_price p)" "D = unat d" "K = unat l" "K' = unat l'"
  note x = get_amounts_exact [OF assms(1), folded v]
  have K': "real K' = real K + real D" using assms(2) by (simp flip: v)
  define n q where nq: "n = (case s of SideA \<Rightarrow> D * (hi - P) | SideB \<Rightarrow> D * (P - lo))"
    "q = (case s of SideA \<Rightarrow> P * hi | SideB \<Rightarrow> (2::nat) ^ 128)"
  have q: "0 < q" using x by (cases s) (simp_all add: nq)
  have step: "reserve s (p\<lparr> pool_liquidity := l' \<rparr>) = reserve s (p\<lparr> pool_liquidity := l \<rparr>) + real n / real q"
  proof (cases s)
    case SideA
    have "real D / real P - real D / real hi = real (D * (hi - P)) / real (P * hi)"
      using x(4,5) by (simp add: of_nat_diff field_simps)
    then show ?thesis using SideA K'
      by (simp add: reserve_def curve_reserve_a_def nq add_divide_distrib flip: v)
  next
    case SideB
    then show ?thesis using K' x(3)
      by (simp add: reserve_def curve_reserve_b_def nq of_nat_diff add_divide_distrib diff_divide_distrib
          algebra_simps flip: v)
  qed
  have amount: "amount_of s m = rdiv rnd n q" using x(1,2) by (cases s) (simp_all add: amount_of_def nq)
  show "reserve s (p\<lparr> pool_liquidity := l' \<rparr>) \<le> reserve s (p\<lparr> pool_liquidity := l \<rparr>) + real (amount_of s m)"
    if "rnd = Up" using le_real_cdiv [OF q, of n] that by (simp add: step amount)
  show "reserve s (p\<lparr> pool_liquidity := l \<rparr>) + real (amount_of s m) \<le> reserve s (p\<lparr> pool_liquidity := l' \<rparr>)"
    if "rnd = Down" using div_le_real [of n q] that by (simp add: step amount)
qed

text \<open>A settled position whose liquidity changes together with the pool's.\<close>

lemma change_liquidity_books:
  assumes "books_ok p ps" and "ps k = Some pos"
    and "real (unat l) = real (unat (pool_liquidity p)) - real (pos_liquidity pos) + real (pos_liquidity pos')"
    and "\<And>s. checkpoint s pos' = growth s p" and "\<And>s. real (fee_pending s pos') \<le> owed s p pos"
  shows "books_ok (p\<lparr> pool_liquidity := l \<rparr>) (ps(k \<mapsto> pos'))"
    and "owes s (p\<lparr> pool_liquidity := l \<rparr>) (ps(k \<mapsto> pos')) - reserve s (p\<lparr> pool_liquidity := l \<rparr>)
           \<le> owes s p ps - reserve s p"
proof -
  have g: "growth s (p\<lparr> pool_liquidity := l \<rparr>) = growth s p" for s by (cases s) (simp_all add: growth_def)
  show "books_ok (p\<lparr> pool_liquidity := l \<rparr>) (ps(k \<mapsto> pos'))"
    using assms(1-4) by (auto simp: books_ok_def g total_update)
  have o: "owed s (p\<lparr> pool_liquidity := l \<rparr>) = owed s p" by (rule ext) (simp add: owed_def g)
  have "owed s p pos' \<le> owed s p pos" using assms(4,5) by (simp add: owed_def)
  moreover have "protocol_due s (p\<lparr> pool_liquidity := l \<rparr>) = protocol_due s p"
    "partner_due s (p\<lparr> pool_liquidity := l \<rparr>) = partner_due s p"
    by (cases s; simp add: protocol_due_def partner_due_def)+
  ultimately show "owes s (p\<lparr> pool_liquidity := l \<rparr>) (ps(k \<mapsto> pos')) - reserve s (p\<lparr> pool_liquidity := l \<rparr>)
           \<le> owes s p ps - reserve s p"
    using assms(2) by (simp add: owes_def o total_update)
qed

lemma add_liquidity_books:
  assumes "apply_add_liquidity p pos d = Inr (p', pos')" and "get_amounts_for_modify_liquidity p d Up = Inr m"
    and "books_ok p ps" and "ps k = Some pos"
  shows "books_ok p' (ps(k \<mapsto> pos'))" and "owes s p' (ps(k \<mapsto> pos')) \<le> owes s p ps + real (amount_of s m)"
proof -
  obtain l pos1 u where f: "update_fee pos (pool_fee_a_per_liquidity p) (pool_fee_b_per_liquidity p) = Inr pos1"
    and pos': "pos' = pos1\<lparr> pos_unlocked_liquidity := u \<rparr>" and p': "p' = p\<lparr> pool_liquidity := l \<rparr>"
    and l: "unat l = unat (pool_liquidity p) + unat d"
    by (rule apply_add_liquidity_frame [OF assms(1)])
  have same: "checkpoint s pos' = checkpoint s pos1" "fee_pending s pos' = fee_pending s pos1" for s
    by (cases s; simp add: checkpoint_def fee_pending_def pos')+
  have c: "checkpoint s pos' = growth s p" "real (fee_pending s pos') \<le> owed s p pos" for s
    using update_fee_owed(1-3) [OF f, of s] by (simp_all add: same)
  have "real (unat l) = real (unat (pool_liquidity p)) + real (unat d)" unfolding l by (rule of_nat_add)
  moreover have "real (pos_liquidity pos') = real (pos_liquidity pos) + real (unat d)"
    unfolding add_liquidity_totals(2) [OF assms(1)] by (rule of_nat_add)
  ultimately have *: "real (unat l) = real (unat (pool_liquidity p)) - real (pos_liquidity pos) + real (pos_liquidity pos')"
    by linarith
  note ch = change_liquidity_books [OF assms(3,4) * c]
  show "books_ok p' (ps(k \<mapsto> pos'))" unfolding p' by (rule ch(1))
  show "owes s p' (ps(k \<mapsto> pos')) \<le> owes s p ps + real (amount_of s m)"
    using ch(2) [of s] reserve_of_liquidity(1) [OF assms(2) l, of s] unfolding p' by simp
qed

lemma remove_liquidity_books:
  assumes "apply_remove_liquidity p pos d = Inr (p', pos')" and "get_amounts_for_modify_liquidity p d Down = Inr m"
    and "books_ok p ps" and "ps k = Some pos"
  shows "books_ok p' (ps(k \<mapsto> pos'))" and "owes s p' (ps(k \<mapsto> pos')) + real (amount_of s m) \<le> owes s p ps"
proof -
  obtain l pos1 u where f: "update_fee pos (pool_fee_a_per_liquidity p) (pool_fee_b_per_liquidity p) = Inr pos1"
    and pos': "pos' = pos1\<lparr> pos_unlocked_liquidity := u \<rparr>" and p': "p' = p\<lparr> pool_liquidity := l \<rparr>"
    and l: "unat (pool_liquidity p) = unat d + unat l"
    by (rule apply_remove_liquidity_frame [OF assms(1)])
  have same: "checkpoint s pos' = checkpoint s pos1" "fee_pending s pos' = fee_pending s pos1" for s
    by (cases s; simp add: checkpoint_def fee_pending_def pos')+
  have c: "checkpoint s pos' = growth s p" "real (fee_pending s pos') \<le> owed s p pos" for s
    using update_fee_owed(1-3) [OF f, of s] by (simp_all add: same)
  have "real (unat (pool_liquidity p)) = real (unat d) + real (unat l)" unfolding l by (rule of_nat_add)
  moreover have "real (pos_liquidity pos) = real (pos_liquidity pos') + real (unat d)"
    unfolding remove_liquidity_totals(2) [OF assms(1)] by (rule of_nat_add)
  ultimately have *: "real (unat l) = real (unat (pool_liquidity p)) - real (pos_liquidity pos) + real (pos_liquidity pos')"
    by linarith
  note ch = change_liquidity_books [OF assms(3,4) * c]
  have l': "unat (pool_liquidity p) = unat l + unat d" using l by simp
  show "books_ok p' (ps(k \<mapsto> pos'))" unfolding p' by (rule ch(1))
  show "owes s p' (ps(k \<mapsto> pos')) + real (amount_of s m) \<le> owes s p ps"
    using ch(2) [of s] reserve_of_liquidity(2) [OF assms(2) l', of s] unfolding p' by simp
qed

section \<open>Swaps\<close>

definition side_in :: "trade_direction \<Rightarrow> side" where
  "side_in d = (case d of AtoB \<Rightarrow> SideA | BtoA \<Rightarrow> SideB)"

definition side_out :: "trade_direction \<Rightarrow> side" where
  "side_out d = (case d of AtoB \<Rightarrow> SideB | BtoA \<Rightarrow> SideA)"

definition side_fee :: "fee_mode \<Rightarrow> side" where
  "side_fee fm = (if fees_on_token_a fm then SideA else SideB)"

text \<open>The fee is always taken in a token the swap moves.\<close>

lemma fee_side:
  assumes "get_fee_mode mode d referral = Inr fm"
  shows "side_fee fm = (if fees_on_input fm then side_in d else side_out d)" and "has_referral fm = referral"
  using assms
  by (auto simp: get_fee_mode_def bindr_eq_Inr ok_or_eq_Inr collect_fee_mode_try_from_def Let_def side_fee_def
      side_in_def side_out_def split: if_splits trade_direction.splits)

lemma swap_step_reserves:
  assumes "swap_step d p net = Inr sa"
  shows "reserve (side_in d) (p\<lparr> pool_sqrt_price := sa_next_sqrt_price sa \<rparr>) \<le> reserve (side_in d) p + real (unat net)"
    and "reserve (side_out d) (p\<lparr> pool_sqrt_price := sa_next_sqrt_price sa \<rparr>) \<le> reserve (side_out d) p - real (unat (sa_output_amount sa))"
proof -
  show "reserve (side_in d) (p\<lparr> pool_sqrt_price := sa_next_sqrt_price sa \<rparr>) \<le> reserve (side_in d) p + real (unat net)"
  proof (cases d)
    case AtoB
    then show ?thesis using a_to_b_reserves(1) [of p net sa] assms
      by (simp add: swap_step_def side_in_def reserve_def)
  next
    case BtoA
    then show ?thesis using b_to_a_reserves(1) [of p net sa] assms
      by (simp add: swap_step_def side_in_def reserve_def)
  qed
  show "reserve (side_out d) (p\<lparr> pool_sqrt_price := sa_next_sqrt_price sa \<rparr>) \<le> reserve (side_out d) p - real (unat (sa_output_amount sa))"
  proof (cases d)
    case AtoB
    then show ?thesis using a_to_b_reserves(2) [of p net sa] assms
      by (simp add: swap_step_def side_out_def reserve_def)
  next
    case BtoA
    then show ?thesis using b_to_a_reserves(2) [of p net sa] assms
      by (simp add: swap_step_def side_out_def reserve_def)
  qed
qed

lemma swap_step_range:
  assumes "swap_step d p net = Inr sa" and "pool_sqrt_min_price p \<le> pool_sqrt_price p" "pool_sqrt_price p \<le> pool_sqrt_max_price p"
  shows "pool_sqrt_min_price p \<le> sa_next_sqrt_price sa" "sa_next_sqrt_price sa \<le> pool_sqrt_max_price p"
    "0 < unat (sa_next_sqrt_price sa)"
proof -
  have *: "pool_sqrt_min_price p \<le> sa_next_sqrt_price sa \<and> sa_next_sqrt_price sa \<le> pool_sqrt_max_price p \<and>
    0 < unat (sa_next_sqrt_price sa)"
  proof (cases d)
    case AtoB
    then show ?thesis using swap_a_to_b_exact [of p net sa] assms by (simp add: swap_step_def word_le_nat_alt)
  next
    case BtoA
    then show ?thesis using swap_b_to_a_exact [of p net sa] assms by (simp add: swap_step_def word_le_nat_alt)
  qed
  then show "pool_sqrt_min_price p \<le> sa_next_sqrt_price sa" "sa_next_sqrt_price sa \<le> pool_sqrt_max_price p"
    "0 < unat (sa_next_sqrt_price sa)" by blast+
qed

text \<open>What applying the result of a swap does to the books of either side.\<close>

lemma apply_swap_books:
  assumes "apply_swap_result p sr fm ts = Inr p'"
  shows "growth s p' = growth s p + (if s = side_fee fm then unat (sr_lp_fee sr) * 2 ^ 128 div unat (pool_liquidity p) else 0)"
    and "protocol_due s p' = protocol_due s p + (if s = side_fee fm then unat (sr_protocol_fee sr) else 0)"
    and "partner_due s p' = partner_due s p + (if s = side_fee fm then unat (sr_partner_fee sr) else 0)"
    and "reserve s p' = reserve s (p\<lparr> pool_sqrt_price := sr_next_sqrt_price sr \<rparr>)"
    and "pool_liquidity p' = pool_liquidity p" and "pool_sqrt_price p' = sr_next_sqrt_price sr"
    and "pool_sqrt_min_price p' = pool_sqrt_min_price p" and "pool_sqrt_max_price p' = pool_sqrt_max_price p"
    and "pool_token_a_vault p' = pool_token_a_vault p" and "pool_token_b_vault p' = pool_token_b_vault p"
    and "0 < unat (pool_liquidity p)"
  by (rule apply_swap_result_frame [OF assms];
      cases s; simp add: side_fee_def growth_def protocol_due_def partner_due_def reserve_def
        curve_reserve_a_def curve_reserve_b_def flip: word_pos)+

lemma lp_fee_covers:
  assumes "0 < L" shows "real L * real (fee * 2 ^ 128 div L) / 2 ^ 128 \<le> real fee"
proof -
  have "L * (fee * 2 ^ 128 div L) \<le> fee * 2 ^ 128" by simp
  then have "real (L * (fee * 2 ^ 128 div L)) \<le> real (fee * 2 ^ 128)" by (simp only: of_nat_le_iff)
  then show ?thesis by (simp add: divide_le_eq)
qed

lemma sum_of_claims:
  assumes "t' = t + x" and "x \<le> (if c then l else 0)" and "d' = d + (if c then q + r else 0)"
  shows "d' + t' \<le> d + t + (if c then l + q + r else (0 :: real))"
  using assms by (simp split: if_splits)

lemma swap_claims:
  assumes "apply_swap_result p sr fm ts = Inr p'" and "books_ok p ps"
  shows "real (protocol_due s p') + real (partner_due s p') + total (owed s p') ps
           \<le> real (protocol_due s p) + real (partner_due s p) + total (owed s p) ps +
             (if s = side_fee fm then real (unat (sr_lp_fee sr)) + real (unat (sr_protocol_fee sr)) + real (unat (sr_partner_fee sr)) else 0)"
proof -
  note b = apply_swap_books [OF assms(1)]
  define dg where "dg = (if s = side_fee fm then unat (sr_lp_fee sr) * 2 ^ 128 div unat (pool_liquidity p) else 0)"
  have g: "real (growth s p') = real (growth s p) + real dg" by (simp add: b(1) dg_def)
  have "owed s p' = (\<lambda>pos. owed s p pos + real (pos_liquidity pos) * (real dg / 2 ^ 128))"
    by (rule ext) (simp add: owed_def g add_divide_distrib diff_divide_distrib algebra_simps)
  then have "total (owed s p') ps = total (owed s p) ps + total (\<lambda>pos. real (pos_liquidity pos)) ps * (real dg / 2 ^ 128)"
    by (simp only: total_add_scaled)
  also have "total (\<lambda>pos. real (pos_liquidity pos)) ps = real (unat (pool_liquidity p))"
    using assms(2) by (simp add: books_ok_def)
  finally have "total (owed s p') ps = total (owed s p) ps + real (unat (pool_liquidity p)) * real dg / 2 ^ 128"
    by simp
  moreover have "real (unat (pool_liquidity p)) * real dg / 2 ^ 128 \<le> (if s = side_fee fm then real (unat (sr_lp_fee sr)) else 0)"
  proof (cases "s = side_fee fm")
    case True
    then have "dg = unat (sr_lp_fee sr) * 2 ^ 128 div unat (pool_liquidity p)" by (simp add: dg_def)
    then show ?thesis using lp_fee_covers [OF b(11), of "unat (sr_lp_fee sr)"] True by (simp only: if_True refl)
  next
    case False
    then have "dg = 0" by (simp add: dg_def)
    with False show ?thesis by simp
  qed
  moreover have "real (protocol_due s p') + real (partner_due s p')
      = real (protocol_due s p) + real (partner_due s p)
        + (if s = side_fee fm then real (unat (sr_protocol_fee sr)) + real (unat (sr_partner_fee sr)) else 0)"
    by (simp add: b(2,3))
  ultimately show ?thesis by (rule sum_of_claims)
qed

lemma swap_books:
  assumes "get_swap_result p amount fm d cp = Inr sr" and "apply_swap_result p sr fm ts = Inr p'"
    and "get_fee_mode mode d referral = Inr fm" and "books_ok p ps"
  shows "books_ok p' ps"
    and "owes s p' ps + (if s = side_out d then real (unat (sr_output_amount sr)) else 0) +
           (if s = side_fee fm then real (unat (sr_referral_fee sr)) else 0)
         \<le> owes s p ps + (if s = side_in d then real (unat amount) else 0)"
proof -
  obtain net sa where sa: "swap_step d p net = Inr sa" and nxt: "sr_next_sqrt_price sr = sa_next_sqrt_price sa"
    and inp: "fees_on_input fm \<longrightarrow> unat amount = unat net + sr_total_fee sr \<and> sr_output_amount sr = sa_output_amount sa"
    and outp: "\<not> fees_on_input fm \<longrightarrow> net = amount \<and> unat (sa_output_amount sa) = unat (sr_output_amount sr) + sr_total_fee sr"
    by (rule get_swap_result_split [OF assms(1)])
  note b = apply_swap_books [OF assms(2)]
  have range: "pool_sqrt_min_price p \<le> pool_sqrt_price p" "pool_sqrt_price p \<le> pool_sqrt_max_price p"
    using assms(4) by (simp_all add: books_ok_def)
  note r = swap_step_range [OF sa range]
  have "checkpoint s pos \<le> growth s p'" if "checkpoint s pos \<le> growth s p" for s pos
    using that by (simp add: b(1))
  then show "books_ok p' ps"
    using assms(4) r by (auto simp: books_ok_def b(5-10) nxt)
  define fee where "fee = real (unat (sr_lp_fee sr)) + real (unat (sr_protocol_fee sr)) + real (unat (sr_partner_fee sr))"
  define ref where "ref = real (unat (sr_referral_fee sr))"
  have sum: "real (sr_total_fee sr) = fee + ref" by (simp only: sr_total_fee_def fee_def ref_def of_nat_add)
  note res = swap_step_reserves [OF sa, folded nxt]
  note claims = swap_claims [OF assms(2,4), of s, folded fee_def]
  have sides: "side_in d \<noteq> side_out d" by (cases d) (simp_all add: side_in_def side_out_def)
  have in_case: "real (unat amount) = real (unat net) + fee + ref" "sr_output_amount sr = sa_output_amount sa"
    if "fees_on_input fm" using inp that sum by (metis of_nat_add add.assoc)+
  have out_case: "net = amount" "real (unat (sa_output_amount sa)) = real (unat (sr_output_amount sr)) + fee + ref"
    if "\<not> fees_on_input fm" using outp that sum by (metis of_nat_add add.assoc)+
  note fs = fee_side(1) [OF assms(3)]
  show "owes s p' ps + (if s = side_out d then real (unat (sr_output_amount sr)) else 0) +
           (if s = side_fee fm then real (unat (sr_referral_fee sr)) else 0)
         \<le> owes s p ps + (if s = side_in d then real (unat amount) else 0)"
  proof (cases "s = side_in d")
    case True
    show ?thesis
    proof (cases "fees_on_input fm")
      case on: True
      show ?thesis using claims res(1) in_case(1) [OF on] True fs on sides
        unfolding owes_def b(4) ref_def by simp
    next
      case off: False
      show ?thesis using claims res(1) out_case(1) [OF off] True fs off sides
        unfolding owes_def b(4) by simp
    qed
  next
    case False
    then have s: "s = side_out d" by (cases s; cases d) (simp_all add: side_in_def side_out_def)
    show ?thesis
    proof (cases "fees_on_input fm")
      case on: True
      show ?thesis using claims res(2) in_case(2) [OF on] s fs on sides
        unfolding owes_def b(4) by simp
    next
      case off: False
      show ?thesis using claims res(2) out_case(2) [OF off] s fs off sides
        unfolding owes_def b(4) ref_def by simp
    qed
  qed
qed

end
