(* ===== verification/RewardHandlers.thy ===== *)
theory RewardHandlers
  imports LiquidityHandlers
begin

text \<open>
  Farming rewards: \<open>instructions/ix_claim_reward.rs\<close>, \<open>ix_fund_reward.rs\<close>,
  \<open>ix_withdraw_ineligible_reward.rs\<close>, and the admin instructions
  \<open>ix_initialize_reward.rs\<close>, \<open>ix_update_reward_duration.rs\<close>, \<open>ix_update_reward_funder.rs\<close>.
  An index of type \<open>u8\<close> is converted to \<open>usize\<close>, which cannot fail.
\<close>

section \<open>Claiming\<close>

record claim_reward_ctx =
  cr_pool_authority :: pubkey
  cr_pool_key :: pubkey
  cr_pool :: pool
  cr_position :: position
  cr_reward_vault :: token_account
  cr_reward_mint :: mint_account
  cr_user_token_account :: token_account
  cr_position_nft_account :: token_account
  cr_owner :: pubkey

definition claim_reward_validate :: "claim_reward_ctx \<Rightarrow> nat \<Rightarrow> unit result" where
  "claim_reward_validate ctx reward_index =
     bindr (require (reward_index < NUM_REWARDS) (Err InvalidRewardIndex)) (\<lambda>_.
     bindr (arr_get (pool_reward_infos (cr_pool ctx)) reward_index) (\<lambda>reward_info.
     bindr (require (ri_is_initialized reward_info) (Err RewardUninitialized)) (\<lambda>_.
     require (ri_vault reward_info = ta_key (cr_reward_vault ctx)) (Err InvalidRewardVault))))"

definition handle_claim_reward ::
  "environment \<Rightarrow> claim_reward_ctx \<Rightarrow> u8 \<Rightarrow> u8 \<Rightarrow> (pool \<times> position \<times> transfer list) result" where
  "handle_claim_reward env ctx reward_index skip_reward =
     bindr (check_pool_authority env (cr_pool_authority ctx)) (\<lambda>_.
     bindr (check (pos_pool (cr_position ctx) = cr_pool_key ctx) ConstraintHasOne) (\<lambda>_.
     bindr (check_position_nft (cr_position_nft_account ctx) (pos_nft_mint (cr_position ctx)) (cr_owner ctx)) (\<lambda>_.
     let index = unat reward_index in
     bindr (claim_reward_validate ctx index) (\<lambda>_.
     bindr (pos_update_rewards (cr_position ctx) (cr_pool ctx) (current_time env)) (\<lambda>(pos, p).
     bindr (pos_claim_reward pos index) (\<lambda>(pos, total_reward).
     if total_reward > 0
     then if ta_frozen (cr_reward_vault ctx)
          then bindr (require (skip_reward = 1) (Err RewardVaultFrozenSkipRequired)) (\<lambda>_. Inr (p, pos, []))
          else Inr (p, pos, [transfer_from_pool (cr_pool_authority ctx) (cr_reward_mint ctx)
                               (cr_reward_vault ctx) (cr_user_token_account ctx) total_reward])
     else Inr (p, pos, [])))))))"

section \<open>Funding\<close>

record reward_fund_ctx =
  fd_pool_authority :: pubkey
  fd_pool :: pool
  fd_reward_vault :: token_account
  fd_reward_mint :: mint_account
  fd_funder_token_account :: token_account
  fd_funder :: pubkey

definition fund_reward_validate :: "reward_fund_ctx \<Rightarrow> nat \<Rightarrow> unit result" where
  "fund_reward_validate ctx reward_index =
     bindr (require (reward_index < NUM_REWARDS) (Err InvalidRewardIndex)) (\<lambda>_.
     bindr (arr_get (pool_reward_infos (fd_pool ctx)) reward_index) (\<lambda>reward_info.
     bindr (require (ri_is_initialized reward_info) (Err RewardUninitialized)) (\<lambda>_.
     bindr (require (ri_vault reward_info = ta_key (fd_reward_vault ctx)) (Err InvalidRewardVault)) (\<lambda>_.
     require (is_valid_funder reward_info (fd_funder ctx)) (Err InvalidAdmin)))))"

definition handle_fund_reward ::
  "environment \<Rightarrow> reward_fund_ctx \<Rightarrow> u8 \<Rightarrow> u64 \<Rightarrow> bool \<Rightarrow> (pool \<times> u64 \<times> transfer list) result" where
  "handle_fund_reward env ctx reward_index amount carry_forward =
     (let index = unat reward_index in
     bindr (fund_reward_validate ctx index) (\<lambda>_.
     bindr (calculate_transfer_fee_excluded_amount (fd_reward_mint ctx) amount) (\<lambda>excluded_in.
     bindr (require (tfa_amount excluded_in > 0) (Err AmountIsZero)) (\<lambda>_.
     bindr (pool_update_rewards (fd_pool ctx) (current_time env)) (\<lambda>p.
     bindr (arr_get (pool_reward_infos p) index) (\<lambda>reward_info.
     bindr (if carry_forward
            then bindr (safe_mul_shr_cast (ri_reward_rate reward_info)
                          (ucast (ri_cumulative_seconds_with_empty_liquidity_reward reward_info))
                          REWARD_RATE_SCALE) (\<lambda>carried.
                 bindr (safe_add (tfa_amount excluded_in) carried) (\<lambda>total.
                 Inr (reward_info\<lparr> ri_cumulative_seconds_with_empty_liquidity_reward := 0 \<rparr>, total)))
            else bindr (require (ri_cumulative_seconds_with_empty_liquidity_reward reward_info = 0)
                          (Err MustWithdrawnIneligibleReward)) (\<lambda>_.
                 Inr (reward_info, tfa_amount excluded_in))) (\<lambda>(reward_info, total_amount).
     bindr (update_rate_after_funding reward_info (current_time env) total_amount) (\<lambda>reward_info.
     Inr (p\<lparr> pool_reward_infos := arr_set (pool_reward_infos p) index reward_info \<rparr>, total_amount,
          [transfer_from_user (fd_funder ctx) (fd_reward_mint ctx) (fd_funder_token_account ctx)
             (fd_reward_vault ctx) amount])))))))))"

definition withdraw_ineligible_validate :: "environment \<Rightarrow> reward_fund_ctx \<Rightarrow> nat \<Rightarrow> unit result" where
  "withdraw_ineligible_validate env ctx reward_index =
     bindr (require (reward_index < NUM_REWARDS) (Err InvalidRewardIndex)) (\<lambda>_.
     bindr (arr_get (pool_reward_infos (fd_pool ctx)) reward_index) (\<lambda>reward_info.
     bindr (require (ri_is_initialized reward_info) (Err RewardUninitialized)) (\<lambda>_.
     bindr (require (ri_vault reward_info = ta_key (fd_reward_vault ctx)) (Err InvalidRewardVault)) (\<lambda>_.
     bindr (require (is_valid_funder reward_info (fd_funder ctx)) (Err InvalidFunder)) (\<lambda>_.
     require (current_time env > ri_reward_duration_end reward_info) (Err RewardNotEnded))))))"

definition handle_withdraw_ineligible_reward ::
  "environment \<Rightarrow> reward_fund_ctx \<Rightarrow> u8 \<Rightarrow> (pool \<times> transfer list) result" where
  "handle_withdraw_ineligible_reward env ctx reward_index =
     bindr (check_pool_authority env (fd_pool_authority ctx)) (\<lambda>_.
     let index = unat reward_index in
     bindr (withdraw_ineligible_validate env ctx index) (\<lambda>_.
     bindr (pool_update_rewards (fd_pool ctx) (current_time env)) (\<lambda>p.
     bindr (claim_ineligible_reward p index) (\<lambda>(p, ineligible_reward).
     Inr (p, if ineligible_reward > 0
             then [transfer_from_pool (fd_pool_authority ctx) (fd_reward_mint ctx) (fd_reward_vault ctx)
                     (fd_funder_token_account ctx) ineligible_reward]
             else [])))))"

section \<open>Administration\<close>

record reward_admin_ctx =
  ra_pool_authority :: pubkey
  ra_pool_key :: pubkey
  ra_pool :: pool
  ra_reward_vault :: pubkey
  ra_reward_vault_exists :: bool
  ra_reward_mint :: mint_account
  ra_signer :: pubkey
  ra_remaining_accounts :: "token_badge option list"

definition initialize_reward_validate :: "reward_admin_ctx \<Rightarrow> nat \<Rightarrow> u64 \<Rightarrow> unit result" where
  "initialize_reward_validate ctx reward_index reward_duration =
     bindr (require (reward_index < NUM_REWARDS) (Err InvalidRewardIndex)) (\<lambda>_.
     bindr (require (reward_duration \<ge> MIN_REWARD_DURATION \<and> reward_duration \<le> MAX_REWARD_DURATION)
              (Err InvalidRewardDuration)) (\<lambda>_.
     bindr (arr_get (pool_reward_infos (ra_pool ctx)) reward_index) (\<lambda>reward_info.
     bindr (require (\<not> ri_is_initialized reward_info) (Err RewardInitialized)) (\<lambda>_.
     validate_authority_to_edit_reward (ra_pool ctx) reward_index (ra_signer ctx)))))"

text \<open>The seed of a reward vault ends with the index as one byte, given here as a key of that value.\<close>

definition handle_initialize_reward ::
  "environment \<Rightarrow> reward_admin_ctx \<Rightarrow> u8 \<Rightarrow> u64 \<Rightarrow> pubkey \<Rightarrow> pool result" where
  "handle_initialize_reward env ctx reward_index reward_duration funder =
     bindr (check_pool_authority env (ra_pool_authority ctx)) (\<lambda>_.
     bindr (check (ra_reward_vault ctx = env_pda env ''reward_vault'' [ra_pool_key ctx, ucast reward_index])
              ConstraintSeeds) (\<lambda>_.
     bindr (check (\<not> ra_reward_vault_exists ctx) ConstraintAccountInit) (\<lambda>_.
     bindr (check_mint_supported (ra_reward_mint ctx) (ra_remaining_accounts ctx) 0) (\<lambda>_.
     let index = unat reward_index in
     bindr (initialize_reward_validate ctx index reward_duration) (\<lambda>_.
     bindr (arr_get (pool_reward_infos (ra_pool ctx)) index) (\<lambda>reward_info.
     Inr ((ra_pool ctx)\<lparr> pool_reward_infos := arr_set (pool_reward_infos (ra_pool ctx)) index
            (init_reward reward_info (mint_key (ra_reward_mint ctx)) (ra_reward_vault ctx) funder
               reward_duration (token_program_flags_u8 (get_token_program_flags (ra_reward_mint ctx)))) \<rparr>)))))))"

definition update_reward_duration_validate ::
  "environment \<Rightarrow> pool \<Rightarrow> pubkey \<Rightarrow> nat \<Rightarrow> u64 \<Rightarrow> unit result" where
  "update_reward_duration_validate env p signer reward_index new_reward_duration =
     bindr (require (reward_index < NUM_REWARDS) (Err InvalidRewardIndex)) (\<lambda>_.
     bindr (require (new_reward_duration \<ge> MIN_REWARD_DURATION \<and> new_reward_duration \<le> MAX_REWARD_DURATION)
              (Err InvalidRewardDuration)) (\<lambda>_.
     bindr (arr_get (pool_reward_infos p) reward_index) (\<lambda>reward_info.
     bindr (require (ri_is_initialized reward_info) (Err RewardInitialized)) (\<lambda>_.
     bindr (require (ri_reward_duration reward_info \<noteq> new_reward_duration) (Err IdenticalRewardDuration)) (\<lambda>_.
     bindr (require (ri_reward_duration_end reward_info < current_time env) (Err RewardCampaignInProgress)) (\<lambda>_.
     validate_authority_to_edit_reward p reward_index signer))))))"

definition handle_update_reward_duration ::
  "environment \<Rightarrow> pool \<Rightarrow> pubkey \<Rightarrow> u8 \<Rightarrow> u64 \<Rightarrow> pool result" where
  "handle_update_reward_duration env p signer reward_index new_reward_duration =
     (let index = unat reward_index in
     bindr (update_reward_duration_validate env p signer index new_reward_duration) (\<lambda>_.
     bindr (arr_get (pool_reward_infos p) index) (\<lambda>reward_info.
     Inr (p\<lparr> pool_reward_infos := arr_set (pool_reward_infos p) index
               (reward_info\<lparr> ri_reward_duration := new_reward_duration \<rparr>) \<rparr>))))"

definition update_reward_funder_validate :: "pool \<Rightarrow> pubkey \<Rightarrow> nat \<Rightarrow> pubkey \<Rightarrow> unit result" where
  "update_reward_funder_validate p signer reward_index new_funder =
     bindr (require (reward_index < NUM_REWARDS) (Err InvalidRewardIndex)) (\<lambda>_.
     bindr (arr_get (pool_reward_infos p) reward_index) (\<lambda>reward_info.
     bindr (require (ri_is_initialized reward_info) (Err RewardUninitialized)) (\<lambda>_.
     bindr (require (ri_funder reward_info \<noteq> new_funder) (Err IdenticalFunder)) (\<lambda>_.
     validate_authority_to_edit_reward p reward_index signer))))"

definition handle_update_reward_funder :: "pool \<Rightarrow> pubkey \<Rightarrow> u8 \<Rightarrow> pubkey \<Rightarrow> pool result" where
  "handle_update_reward_funder p signer reward_index new_funder =
     (let index = unat reward_index in
     bindr (update_reward_funder_validate p signer index new_funder) (\<lambda>_.
     bindr (arr_get (pool_reward_infos p) index) (\<lambda>reward_info.
     Inr (p\<lparr> pool_reward_infos := arr_set (pool_reward_infos p) index
               (reward_info\<lparr> ri_funder := new_funder \<rparr>) \<rparr>))))"

lemmas reward_handlers_eval =
  claim_reward_validate_def handle_claim_reward_def fund_reward_validate_def handle_fund_reward_def
  withdraw_ineligible_validate_def handle_withdraw_ineligible_reward_def initialize_reward_validate_def
  handle_initialize_reward_def update_reward_duration_validate_def
  handle_update_reward_duration_def update_reward_funder_validate_def handle_update_reward_funder_def
  NUM_REWARDS_def MIN_REWARD_DURATION_def MAX_REWARD_DURATION_def liquidity_handlers_eval

section \<open>Funding spends at most what was funded\<close>

text \<open>
  Over a campaign the rate pays out at most the amount it was set for; what is left of a
  running campaign is carried into the new one.
\<close>

lemma rate_after_funding_exact:
  assumes "update_rate_after_funding ri now amount = Inr ri'"
  obtains total where "unat total = unat amount +
      (if ri_reward_duration_end ri \<le> now then 0
       else unat (ri_reward_rate ri) * (unat (ri_reward_duration_end ri) - unat now) div 2 ^ 64)"
    and "ri_reward_duration ri \<noteq> 0"
    and "unat (ri_reward_rate ri') = unat (total :: u64) * 2 ^ 64 div unat (ri_reward_duration ri)"
    and "unat (ri_reward_duration_end ri') = unat now + unat (ri_reward_duration ri)"
    and "ri_last_update_time ri' = now"
    and "ri_reward_duration ri' = ri_reward_duration ri"
proof -
  obtain total rate stop where total: "(if ri_reward_duration_end ri \<le> now then Inr amount
            else bindr (safe_sub (ri_reward_duration_end ri) now) (\<lambda>remaining_seconds.
                 bindr (safe_mul_shr_cast (ri_reward_rate ri) (ucast remaining_seconds) REWARD_RATE_SCALE) (\<lambda>leftover.
                 safe_add amount leftover))) = Inr total"
    and rate: "safe_shl_div_cast (ucast total) (ucast (ri_reward_duration ri)) REWARD_RATE_SCALE Down = Inr rate"
    and stop: "unat stop = unat now + unat (ri_reward_duration ri)"
    and ri': "ri' = ri\<lparr> ri_reward_rate := rate, ri_last_update_time := now, ri_reward_duration_end := stop \<rparr>"
    using assms by (auto simp: update_rate_after_funding_def bindr_eq_Inr safe_add_eq_Inr simp del: bindr_assoc)
  have "unat total = unat amount +
      (if ri_reward_duration_end ri \<le> now then 0
       else unat (ri_reward_rate ri) * (unat (ri_reward_duration_end ri) - unat now) div 2 ^ 64)"
    using total by (auto simp: bindr_eq_Inr safe_sub_eq_Inr safe_mul_shr_cast_eq_Inr safe_add_eq_Inr REWARD_RATE_SCALE_def
        split: if_splits)
  moreover have "ri_reward_duration ri \<noteq> 0" "unat rate = unat total * 2 ^ 64 div unat (ri_reward_duration ri)"
    using rate by (auto simp: safe_shl_div_cast_eq_Inr REWARD_RATE_SCALE_def)
  ultimately show ?thesis using that [of total] stop ri' by simp
qed

lemma rate_times_duration:
  assumes "update_rate_after_funding ri now amount = Inr ri'" and "ri_reward_duration_end ri \<le> now"
  shows "unat (ri_reward_rate ri') * unat (ri_reward_duration ri') \<le> unat amount * 2 ^ 64"
proof -
  obtain total :: u64 where "unat total = unat amount"
    and "unat (ri_reward_rate ri') = unat total * 2 ^ 64 div unat (ri_reward_duration ri)"
    and "ri_reward_duration ri' = ri_reward_duration ri"
    using assms(2) by (rule_tac rate_after_funding_exact [OF assms(1)]) simp
  then show ?thesis by (simp add: div_mult_le_nat)
qed

end
