(* ===== verification/Claims.thy ===== *)
theory Claims
  imports Solvency RewardHandlers
begin

text \<open>
  The rest of the books: what claiming fees, opening, splitting, locking and closing positions
  and running reward campaigns do to what a pool owes. No operation raises it except by
  what it takes in.
\<close>

section \<open>Claims of fees\<close>

text \<open>A position settled and emptied of its fees is owed nothing more until the next swap.\<close>

lemma claim_position_fee_frame:
  assumes "handle_claim_position_fee env ctx = Inr (pos', trs)"
  obtains pos m where "liquidity_constraints ctx = Inr ()" and "lc_pool_authority ctx = env_pool_authority env"
    and "update_fee (lc_position ctx) (pool_fee_a_per_liquidity (lc_pool ctx)) (pool_fee_b_per_liquidity (lc_pool ctx)) = Inr pos"
    and "pos' = reset_pending_fee (pos\<lparr> pos_metrics := m \<rparr>)"
    and "trs = (if pos_fee_a_pending pos > 0
        then [transfer_from_pool (lc_pool_authority ctx) (lc_token_a_mint ctx) (lc_token_a_vault ctx)
                (lc_token_a_account ctx) (pos_fee_a_pending pos)] else []) @
       (if pos_fee_b_pending pos > 0
        then [transfer_from_pool (lc_pool_authority ctx) (lc_token_b_mint ctx) (lc_token_b_vault ctx)
                (lc_token_b_account ctx) (pos_fee_b_pending pos)] else [])"
  using assms
  by (auto simp: handle_claim_position_fee_def bindr_eq_Inr check_pool_authority_def require_eq_Inr)

lemma claim_fee_books:
  assumes "update_fee pos (pool_fee_a_per_liquidity p) (pool_fee_b_per_liquidity p) = Inr pos1"
    and "pos' = reset_pending_fee (pos1\<lparr> pos_metrics := m \<rparr>)"
    and "books_ok p ps" and "ps k = Some pos"
  shows "books_ok p (ps(k \<mapsto> pos'))"
    and "owes s p (ps(k \<mapsto> pos')) + real (fee_pending s pos1) \<le> owes s p ps"
proof -
  have f: "checkpoint s pos' = growth s p" "fee_pending s pos' = 0" "pos_liquidity pos' = pos_liquidity pos" for s
    using update_fee_owed(2) [OF assms(1), of s] update_fee_owed(4) [OF assms(1)]
    by (cases s; simp add: assms(2) reset_pending_fee_def checkpoint_def fee_pending_def pos_liquidity_def)+
  show "books_ok p (ps(k \<mapsto> pos'))"
    using assms(3,4) f by (auto simp: books_ok_def total_update)
  have "owed s p pos' = 0" by (simp add: owed_def f)
  moreover have "real (fee_pending s pos1) \<le> owed s p pos"
    using update_fee_owed(1,3) [OF assms(1), of s] by simp
  ultimately show "owes s p (ps(k \<mapsto> pos')) + real (fee_pending s pos1) \<le> owes s p ps"
    using assms(4) by (simp add: owes_def total_update)
qed

definition side_pair :: "side \<Rightarrow> 'a \<Rightarrow> 'a \<Rightarrow> 'a" where
  "side_pair s x y = (case s of SideA \<Rightarrow> x | SideB \<Rightarrow> y)"

lemma side_pair_simps [simp]: "side_pair SideA x y = x" "side_pair SideB x y = y"
  by (simp_all add: side_pair_def)

text \<open>A claim lowers one of the two dues and touches nothing else in the books.\<close>

definition same_curve_books :: "pool \<Rightarrow> pool \<Rightarrow> bool" where
  "same_curve_books p p' \<longleftrightarrow> pool_liquidity p' = pool_liquidity p \<and> pool_sqrt_price p' = pool_sqrt_price p \<and>
     pool_sqrt_min_price p' = pool_sqrt_min_price p \<and> pool_sqrt_max_price p' = pool_sqrt_max_price p \<and>
     pool_token_a_vault p' = pool_token_a_vault p \<and> pool_token_b_vault p' = pool_token_b_vault p \<and>
     pool_fee_a_per_liquidity p' = pool_fee_a_per_liquidity p \<and>
     pool_fee_b_per_liquidity p' = pool_fee_b_per_liquidity p"

lemma same_curve_books_owes:
  assumes "same_curve_books p p'"
  shows "owes s p' ps - real (protocol_due s p') - real (partner_due s p')
           = owes s p ps - real (protocol_due s p) - real (partner_due s p)"
    and "books_ok p ps \<Longrightarrow> books_ok p' ps"
proof -
  have g: "growth s p' = growth s p" "reserve s p' = reserve s p" for s
    using assms by (cases s; simp add: same_curve_books_def side_defs)+
  have "owed s p' = owed s p" by (rule ext) (simp add: owed_def g)
  then show "owes s p' ps - real (protocol_due s p') - real (partner_due s p')
           = owes s p ps - real (protocol_due s p) - real (partner_due s p)"
    by (simp add: owes_def g)
  show "books_ok p ps \<Longrightarrow> books_ok p' ps"
    using assms by (simp add: books_ok_def g same_curve_books_def)
qed

lemma claim_protocol_books:
  assumes "claim_protocol_fee p ma mb = Inr (p', a, b)"
  shows "books_ok p ps \<Longrightarrow> books_ok p' ps"
    and "owes s p' ps + real (unat (side_pair s a b)) = owes s p ps"
proof -
  have c: "same_curve_books p p'" and partner: "partner_due s p' = partner_due s p"
    using assms by (cases s; auto simp: claim_protocol_fee_eq_Inr same_curve_books_def partner_due_def)+
  show "books_ok p ps \<Longrightarrow> books_ok p' ps" by (rule same_curve_books_owes [OF c])
  have "unat (side_pair s a b) + protocol_due s p' = protocol_due s p"
    using assms unat_sub_min by (cases s) (auto simp: claim_protocol_fee_eq_Inr protocol_due_def add.commute)
  then have "real (unat (side_pair s a b)) + real (protocol_due s p') = real (protocol_due s p)"
    by (metis of_nat_add)
  then show "owes s p' ps + real (unat (side_pair s a b)) = owes s p ps"
    using same_curve_books_owes(1) [OF c, of s ps] partner by simp
qed

lemma claim_partner_books:
  assumes "claim_partner_fee p ma mb = Inr (p', a, b)"
  shows "books_ok p ps \<Longrightarrow> books_ok p' ps"
    and "owes s p' ps + real (unat (side_pair s a b)) = owes s p ps"
proof -
  have c: "same_curve_books p p'" and protocol: "protocol_due s p' = protocol_due s p"
    using assms by (cases s; auto simp: claim_partner_fee_eq_Inr same_curve_books_def protocol_due_def)+
  show "books_ok p ps \<Longrightarrow> books_ok p' ps" by (rule same_curve_books_owes [OF c])
  have "unat (side_pair s a b) + partner_due s p' = partner_due s p"
    using assms unat_sub_min by (cases s) (auto simp: claim_partner_fee_eq_Inr partner_due_def add.commute)
  then have "real (unat (side_pair s a b)) + real (partner_due s p') = real (partner_due s p)"
    by (metis of_nat_add)
  then show "owes s p' ps + real (unat (side_pair s a b)) = owes s p ps"
    using same_curve_books_owes(1) [OF c, of s ps] protocol by simp
qed

section \<open>Opening, closing and splitting positions\<close>

text \<open>A position with nothing in it.\<close>

definition empty_claim :: "position \<Rightarrow> bool" where
  "empty_claim pos \<longleftrightarrow> pos_liquidity pos = 0 \<and> (\<forall>s. fee_pending s pos = 0)"

lemma empty_claim_owed: "empty_claim pos \<Longrightarrow> owed s p pos = 0"
  by (simp add: empty_claim_def owed_def)

lemma open_empty_books:
  assumes "empty_claim pos" and "ps k = None"
  shows "owes s p (ps(k \<mapsto> pos)) = owes s p ps" and "books_ok p ps \<Longrightarrow> books_ok p (ps(k \<mapsto> pos))"
  using assms by (auto simp: owes_def books_ok_def total_new empty_claim_owed) (simp_all add: empty_claim_def)

lemma close_empty_books:
  assumes "empty_claim pos" and "ps k = Some pos"
  shows "owes s p (ps(k := None)) = owes s p ps" and "books_ok p ps \<Longrightarrow> books_ok p (ps(k := None))"
  using assms by (auto simp: owes_def books_ok_def total_delete empty_claim_owed) (simp add: empty_claim_def)

lemma pos_is_empty_claim: "pos_is_empty pos = Inr True \<Longrightarrow> empty_claim pos"
  by (auto simp: pos_is_empty_eq_Inr empty_claim_def fee_pending_def split: side.splits)

lemma split_books:
  assumes "apply_split_position p f g n1 n2 n3 n4 n5 n6 = Inr (f', g', info)"
    and "ps i = Some f" and "ps j = Some g" and "i \<noteq> j" and "books_ok p ps"
  shows "books_ok p (ps(i \<mapsto> f', j \<mapsto> g'))" and "owes s p (ps(i \<mapsto> f', j \<mapsto> g')) \<le> owes s p ps"
proof -
  obtain f1 g1 where uf: "update_fee f (pool_fee_a_per_liquidity p) (pool_fee_b_per_liquidity p) = Inr f1"
    and ug: "update_fee g (pool_fee_a_per_liquidity p) (pool_fee_b_per_liquidity p) = Inr g1"
    and same: "same_totals f1 g1 f' g'"
    by (rule apply_split_position_totals [OF assms(1)])
  have c: "checkpoint s f' = growth s p" "checkpoint s g' = growth s p" for s
    using same update_fee_owed(2) [OF uf, of s] update_fee_owed(2) [OF ug, of s]
    by (cases s; simp add: same_totals_def checkpoint_def)+
  have "fee_pending s f' + fee_pending s g' = fee_pending s f1 + fee_pending s g1"
    using same by (cases s) (simp_all add: same_totals_def fee_pending_def)
  then have "real (fee_pending s f') + real (fee_pending s g') = real (fee_pending s f1) + real (fee_pending s g1)"
    by (metis of_nat_add)
  moreover have of': "owed s p f' = real (fee_pending s f')" and og': "owed s p g' = real (fee_pending s g')"
    by (simp_all add: owed_def c)
  ultimately have o: "owed s p f' + owed s p g' \<le> owed s p f + owed s p g"
    using update_fee_owed(1,3) [OF uf, of s] update_fee_owed(1,3) [OF ug, of s] of' og' by linarith
  have "pos_liquidity f' + pos_liquidity g' = pos_liquidity f1 + pos_liquidity g1"
    using same by (simp add: same_totals_def pos_liquidity_def)
  then have l: "real (pos_liquidity f') + real (pos_liquidity g') = real (pos_liquidity f) + real (pos_liquidity g)"
    using update_fee_owed(4) [OF uf] update_fee_owed(4) [OF ug] by (metis of_nat_add)
  have j: "(ps(i \<mapsto> f')) j = Some g" using assms(3,4) by simp
  note upd = total_update [of "ps(i \<mapsto> f')" j g, OF j] total_update [of ps i f, OF assms(2)]
  show "books_ok p (ps(i \<mapsto> f', j \<mapsto> g'))"
    using assms(5) l c by (auto simp: books_ok_def upd)
  show "owes s p (ps(i \<mapsto> f', j \<mapsto> g')) \<le> owes s p ps"
    using o by (simp add: owes_def upd)
qed

section \<open>A new pool\<close>

lemma initial_amounts:
  "get_initialize_amounts (pool_sqrt_min_price p) (pool_sqrt_max_price p) (pool_sqrt_price p) l = Inr (a, b) \<longleftrightarrow>
     get_amounts_for_modify_liquidity p l Up = Inr \<lparr> ml_token_a_amount = a, ml_token_b_amount = b \<rparr>"
  by (auto simp: get_initialize_amounts_def get_amounts_for_modify_liquidity_def bindr_eq_Inr)

text \<open>A pool whose only claim is a first position with all of its liquidity.\<close>

definition fresh_pool :: "pool \<Rightarrow> position \<Rightarrow> bool" where
  "fresh_pool p pos \<longleftrightarrow> pos_liquidity pos = unat (pool_liquidity p) \<and>
     (\<forall>s. growth s p = 0 \<and> protocol_due s p = 0 \<and> partner_due s p = 0 \<and>
          checkpoint s pos = 0 \<and> fee_pending s pos = 0) \<and>
     pool_reward_infos p = Array2 default_reward_info default_reward_info \<and>
     pos_reward_infos pos = Array2 default_user_reward_info default_user_reward_info"

lemma fresh_pool_books:
  assumes "fresh_pool p pos"
    and "get_initialize_amounts (pool_sqrt_min_price p) (pool_sqrt_max_price p) (pool_sqrt_price p) (pool_liquidity p) = Inr (a, b)"
    and "pool_token_a_vault p \<noteq> pool_token_b_vault p"
  shows "books_ok p [k \<mapsto> pos]" and "owes s p [k \<mapsto> pos] \<le> real (unat (side_pair s a b))"
proof -
  have m: "get_amounts_for_modify_liquidity p (pool_liquidity p) Up = Inr \<lparr> ml_token_a_amount = a, ml_token_b_amount = b \<rparr>"
    using assms(2) by (simp only: initial_amounts)
  note x = get_amounts_exact [OF m]
  have t: "total f [k \<mapsto> pos] = f pos" for f by (simp add: total_def)
  show "books_ok p [k \<mapsto> pos]"
    using assms(1,3) x by (simp add: books_ok_def t fresh_pool_def word_le_nat_alt)
  have l: "unat (pool_liquidity p) = unat (0 :: u128) + unat (pool_liquidity p)" by simp
  have "reserve s p \<le> reserve s (p\<lparr> pool_liquidity := 0 \<rparr>)
      + real (amount_of s \<lparr> ml_token_a_amount = a, ml_token_b_amount = b \<rparr>)"
    using reserve_of_liquidity(1) [OF m l, of s] by (cases s) (simp_all add: side_defs)
  moreover have "reserve s (p\<lparr> pool_liquidity := 0 \<rparr>) = 0" by (cases s) (simp_all add: side_defs)
  ultimately show "owes s p [k \<mapsto> pos] \<le> real (unat (side_pair s a b))"
    using assms(1) by (cases s) (simp_all add: owes_def t owed_def fresh_pool_def amount_of_def)
qed

section \<open>What rewards leave alone\<close>

text \<open>The vaults of the reward campaigns are none of the two token vaults.\<close>

definition rewards_apart :: "pool \<Rightarrow> bool" where
  "rewards_apart p \<longleftrightarrow> (\<forall>ri. ri = elem0 (pool_reward_infos p) \<or> ri = elem1 (pool_reward_infos p) \<longrightarrow>
     ri_is_initialized ri \<longrightarrow> ri_vault ri \<noteq> pool_token_a_vault p \<and> ri_vault ri \<noteq> pool_token_b_vault p)"

definition same_campaign :: "reward_info \<Rightarrow> reward_info \<Rightarrow> bool" where
  "same_campaign ri ri' \<longleftrightarrow> ri_vault ri' = ri_vault ri \<and> ri_is_initialized ri' = ri_is_initialized ri"

lemma same_campaign_refl [simp]: "same_campaign ri ri"
  by (simp add: same_campaign_def)

lemma ri_update_rewards_campaign: "ri_update_rewards ri l now = Inr ri' \<Longrightarrow> same_campaign ri ri'"
  by (auto simp: ri_update_rewards_def bindr_eq_Inr accumulate_reward_per_token_stored_def
      update_last_update_time_def same_campaign_def ri_is_initialized_def split: if_splits)

lemma update_rate_campaign: "update_rate_after_funding ri now x = Inr ri' \<Longrightarrow> same_campaign ri ri'"
  by (auto simp: update_rate_after_funding_def bindr_eq_Inr same_campaign_def ri_is_initialized_def
      simp del: bindr_assoc)

text \<open>A step of the reward books: the curve and the fees stay, and so do the reward vaults.\<close>

definition reward_step :: "pool \<Rightarrow> pool \<Rightarrow> bool" where
  "reward_step p p' \<longleftrightarrow> same_books p p' \<and>
     same_campaign (elem0 (pool_reward_infos p)) (elem0 (pool_reward_infos p')) \<and>
     same_campaign (elem1 (pool_reward_infos p)) (elem1 (pool_reward_infos p'))"

lemma reward_stepI:
  "same_campaign (elem0 (pool_reward_infos p)) r0 \<Longrightarrow> same_campaign (elem1 (pool_reward_infos p)) r1 \<Longrightarrow>
     reward_step p (p\<lparr> pool_reward_infos := Array2 r0 r1 \<rparr>)"
  by (simp add: reward_step_def same_books_def)

lemma reward_step_refl [simp]: "reward_step p p"
  by (simp add: reward_step_def same_books_def)

lemma reward_step_trans: "reward_step p p' \<Longrightarrow> reward_step p' p'' \<Longrightarrow> reward_step p p''"
  by (simp add: reward_step_def same_books_def same_campaign_def)

lemma reward_step_books:
  assumes "reward_step p p'"
  shows "same_books p p'" and "rewards_apart p \<Longrightarrow> rewards_apart p'"
proof -
  show b: "same_books p p'" using assms by (simp add: reward_step_def)
  show "rewards_apart p'" if "rewards_apart p"
    using assms b that by (simp add: reward_step_def rewards_apart_def same_campaign_def same_books_def)
qed

lemma pool_update_rewards_step: "pool_update_rewards p now = Inr p' \<Longrightarrow> reward_step p p'"
  by (auto simp: pool_update_rewards_def bindr_eq_Inr intro!: reward_stepI dest: ri_update_rewards_campaign)

lemma arr_set_step:
  assumes "arr_get (pool_reward_infos p) i = Inr ri" and "same_campaign ri ri'"
  shows "reward_step p (p\<lparr> pool_reward_infos := arr_set (pool_reward_infos p) i ri' \<rparr>)"
  using assms by (auto simp: reward_step_def same_books_def arr_get_eq_Inr)

lemma pos_update_rewards_step:
  assumes "pos_update_rewards pos p now = Inr (pos', p')"
  shows "reward_step p p'" and "same_claim pos pos'"
proof -
  show "reward_step p p'"
    using assms pool_update_rewards_step
    by (auto simp: pos_update_rewards_def bindr_eq_Inr split: if_splits)
  obtain ri uri where "pos' = pos\<lparr> pos_reward_infos := uri \<rparr>" by (rule pos_update_rewards_frame [OF assms])
  then show "same_claim pos pos'"
    by (auto simp: same_claim_def pos_liquidity_def fee_pending_def checkpoint_def split: side.splits)
qed

lemma claim_reward_step:
  assumes "handle_claim_reward env ctx i skip = Inr (p', pos', trs)"
  shows "reward_step (cr_pool ctx) p'" and "same_claim (cr_position ctx) pos'"
    and "rewards_apart (cr_pool ctx) \<Longrightarrow> t \<in> set trs \<Longrightarrow>
           tr_from t \<noteq> pool_token_a_vault (cr_pool ctx) \<and> tr_from t \<noteq> pool_token_b_vault (cr_pool ctx)"
proof -
  obtain pos p r where v: "claim_reward_validate ctx (unat i) = Inr ()"
    and u: "pos_update_rewards (cr_position ctx) (cr_pool ctx) (current_time env) = Inr (pos, p)"
    and c: "pos_claim_reward pos (unat i) = Inr (pos', r)" and p: "p' = p"
    and trs: "\<forall>t\<in>set trs. tr_from t = ta_key (cr_reward_vault ctx)"
    using assms
    by (auto simp: handle_claim_reward_def bindr_eq_Inr Let_def split: if_splits prod.splits)
  show "reward_step (cr_pool ctx) p'" using pos_update_rewards_step(1) [OF u] by (simp add: p)
  have "same_claim pos pos'" using c
    by (auto simp: pos_claim_reward_def bindr_eq_Inr accumulate_total_claimed_rewards_def
        reset_all_pending_reward_def same_claim_def pos_liquidity_def fee_pending_def checkpoint_def split: side.splits)
  then show "same_claim (cr_position ctx) pos'"
    using pos_update_rewards_step(2) [OF u] by (simp add: same_claim_def)
  show "tr_from t \<noteq> pool_token_a_vault (cr_pool ctx) \<and> tr_from t \<noteq> pool_token_b_vault (cr_pool ctx)"
    if "rewards_apart (cr_pool ctx)" and "t \<in> set trs"
    using v that trs
    by (auto simp: claim_reward_validate_def bindr_eq_Inr require_eq_Inr arr_get_eq_Inr rewards_apart_def)
qed

lemma funded_campaign:
  "update_rate_after_funding (ri\<lparr> ri_cumulative_seconds_with_empty_liquidity_reward := 0 \<rparr>) now x = Inr ri' \<Longrightarrow>
     same_campaign ri ri'"
  by (drule update_rate_campaign) (simp add: same_campaign_def ri_is_initialized_def)

lemma fund_reward_step:
  assumes "handle_fund_reward env ctx i amount carry = Inr (p', x, trs)"
  shows "reward_step (fd_pool ctx) p'" and "\<forall>t\<in>set trs. tr_authority t = fd_funder ctx"
proof -
  show "reward_step (fd_pool ctx) p'"
    by (insert assms, unfold handle_fund_reward_def Let_def bindr_eq_Inr, elim exE conjE; cases carry; clarsimp simp: bindr_eq_Inr simp del: bindr_assoc;
        erule reward_step_trans [OF pool_update_rewards_step];
        erule arr_set_step; (erule funded_campaign | erule update_rate_campaign))
  show "\<forall>t\<in>set trs. tr_authority t = fd_funder ctx"
    using assms unfolding handle_fund_reward_def Let_def bindr_eq_Inr
    by (elim exE conjE) (clarsimp split: prod.splits simp del: bindr_assoc simp: bindr_eq_Inr)
qed

lemma withdraw_ineligible_step:
  assumes "handle_withdraw_ineligible_reward env ctx i = Inr (p', trs)"
  shows "reward_step (fd_pool ctx) p'"
    and "rewards_apart (fd_pool ctx) \<Longrightarrow> t \<in> set trs \<Longrightarrow>
           tr_from t \<noteq> pool_token_a_vault (fd_pool ctx) \<and> tr_from t \<noteq> pool_token_b_vault (fd_pool ctx)"
proof -
  obtain p x where v: "withdraw_ineligible_validate env ctx (unat i) = Inr ()"
    and u: "pool_update_rewards (fd_pool ctx) (current_time env) = Inr p"
    and c: "claim_ineligible_reward p (unat i) = Inr (p', x)"
    and trs: "\<forall>t\<in>set trs. tr_from t = ta_key (fd_reward_vault ctx)"
    using assms
    by (auto simp: handle_withdraw_ineligible_reward_def bindr_eq_Inr Let_def split: if_splits prod.splits)
  have "reward_step p p'" using c
    by (auto simp: claim_ineligible_reward_def bindr_eq_Inr same_campaign_def ri_is_initialized_def intro!: arr_set_step)
  then show "reward_step (fd_pool ctx) p'" using pool_update_rewards_step [OF u] reward_step_trans by blast
  show "tr_from t \<noteq> pool_token_a_vault (fd_pool ctx) \<and> tr_from t \<noteq> pool_token_b_vault (fd_pool ctx)"
    if "rewards_apart (fd_pool ctx)" and "t \<in> set trs"
    using v that trs
    by (auto simp: withdraw_ineligible_validate_def bindr_eq_Inr require_eq_Inr arr_get_eq_Inr rewards_apart_def)
qed

lemma update_reward_steps:
  "handle_update_reward_duration env p signer i d = Inr p' \<Longrightarrow> reward_step p p'"
  "handle_update_reward_funder p signer i f = Inr p' \<Longrightarrow> reward_step p p'"
  by (auto simp: handle_update_reward_duration_def handle_update_reward_funder_def Let_def bindr_eq_Inr
      same_campaign_def ri_is_initialized_def intro!: arr_set_step simp del: bindr_assoc)

text \<open>A new campaign gets an account that did not exist before.\<close>

lemma initialize_reward_step:
  assumes "handle_initialize_reward env ctx i d f = Inr p'"
  shows "same_books (ra_pool ctx) p'"
    and "rewards_apart (ra_pool ctx) \<Longrightarrow> ra_reward_vault ctx \<noteq> pool_token_a_vault (ra_pool ctx) \<Longrightarrow>
           ra_reward_vault ctx \<noteq> pool_token_b_vault (ra_pool ctx) \<Longrightarrow> rewards_apart p'"
proof -
  obtain ri where p': "p' = (ra_pool ctx)\<lparr> pool_reward_infos := arr_set (pool_reward_infos (ra_pool ctx)) (unat i) ri \<rparr>"
    and v: "ri_vault ri = ra_reward_vault ctx"
    using assms by (auto simp: handle_initialize_reward_def bindr_eq_Inr Let_def init_reward_def)
  show "same_books (ra_pool ctx) p'" by (simp add: same_books_def p')
  show "rewards_apart p'" if "rewards_apart (ra_pool ctx)" "ra_reward_vault ctx \<noteq> pool_token_a_vault (ra_pool ctx)"
    "ra_reward_vault ctx \<noteq> pool_token_b_vault (ra_pool ctx)"
    using that v by (auto simp: p' rewards_apart_def)
qed

section \<open>What locks leave alone\<close>

lemma same_claim_trans: "same_claim p q \<Longrightarrow> same_claim q r \<Longrightarrow> same_claim p r"
  by (simp add: same_claim_def)

lemma moves_same_claim:
  "lock pos l = Inr pos' \<Longrightarrow> same_claim pos pos'"
  "permanent_lock_liquidity pos l = Inr pos' \<Longrightarrow> same_claim pos pos'"
  "release_vested_liquidity pos l = Inr pos' \<Longrightarrow> same_claim pos pos'"
  by (auto simp: same_claim_def dest: moves_keep_liquidity)
    (auto simp: lock_eq_Inr permanent_lock_liquidity_eq_Inr release_vested_liquidity_eq_Inr
      fee_pending_def checkpoint_def split: side.splits)

lemma release_same_claim: "release_vesting_liquidity_to_position v pos point = Inr (v', pos') \<Longrightarrow> same_claim pos pos'"
  by (auto simp: release_vesting_liquidity_to_position_def bindr_eq_Inr moves_same_claim split: if_splits)
    (simp add: same_claim_def)

lemma refresh_vestings_same_claim:
  "refresh_vestings vs pos pk point keys = Inr (vs', pos') \<Longrightarrow> same_claim pos pos'"
proof (induction keys arbitrary: vs pos)
  case (Cons k keys)
  then show ?case
    by (auto simp: bindr_eq_Inr split: prod.splits) (blast intro: release_same_claim same_claim_trans)
qed (simp add: same_claim_def)

lemma lock_position_same_claim:
  "handle_lock_position env vs ctx params = Inr (pos', vs') \<Longrightarrow> same_claim (lk_position ctx) pos'"
  by (auto simp: handle_lock_position_def bindr_eq_Inr Let_def moves_same_claim split: prod.splits)

lemma permanent_lock_books:
  assumes "handle_permanent_lock_position env ctx l = Inr (p', pos')"
  shows "same_books (pl_pool ctx) p'" and "same_claim (pl_position ctx) pos'"
    and "pool_reward_infos p' = pool_reward_infos (pl_pool ctx)"
  using assms
  by (auto simp: handle_permanent_lock_position_def bindr_eq_Inr accumulate_permanent_locked_liquidity_def
      same_books_def moves_same_claim)

end
