(* ===== verification/Machine.thy ===== *)
theory Machine
  imports Main
begin

text \<open>
  State machines: a predicate for the states a machine starts in and one for its steps. The
  contracts of the invariants proved of the program's two machines (a pool in its surroundings, a
  lending pool with its positions) are locales, so that reachability is dealt with once.
\<close>

inductive reachable :: "('s \<Rightarrow> bool) \<Rightarrow> ('s \<Rightarrow> 's \<Rightarrow> bool) \<Rightarrow> 's \<Rightarrow> bool" for start step where
  init: "start s \<Longrightarrow> reachable start step s"
| step: "reachable start step s \<Longrightarrow> step s s' \<Longrightarrow> reachable start step s'"

lemma reachable_steps: "step\<^sup>*\<^sup>* s s' \<Longrightarrow> reachable start step s \<Longrightarrow> reachable start step s'"
  by (induction rule: rtranclp_induct) (auto intro: reachable.step)

section \<open>Invariants\<close>

locale state_invariant =
  fixes start :: "'s \<Rightarrow> bool" and step :: "'s \<Rightarrow> 's \<Rightarrow> bool" and I :: "'s \<Rightarrow> bool"
  assumes established: "start s \<Longrightarrow> I s"
    and kept: "step s s' \<Longrightarrow> I s \<Longrightarrow> I s'"
begin

lemma always: "reachable start step s \<Longrightarrow> I s"
  by (induction rule: reachable.induct) (auto intro: established kept)

lemma stays: "step\<^sup>*\<^sup>* s s' \<Longrightarrow> I s \<Longrightarrow> I s'"
  by (induction rule: rtranclp_induct) (auto intro: kept)

end

text \<open>An invariant whose steps rely on another one.\<close>

locale relative_invariant = state_invariant start step I
  for start :: "'s \<Rightarrow> bool" and step :: "'s \<Rightarrow> 's \<Rightarrow> bool" and I :: "'s \<Rightarrow> bool" +
  fixes J :: "'s \<Rightarrow> bool"
  assumes relatively_established: "start s \<Longrightarrow> J s"
    and relatively_kept: "step s s' \<Longrightarrow> I s \<Longrightarrow> J s \<Longrightarrow> J s'"

sublocale relative_invariant \<subseteq> both: state_invariant start step "\<lambda>s. I s \<and> J s"
  by unfold_locales (auto intro: established relatively_established kept relatively_kept)

context relative_invariant begin

lemma relatively_always: "reachable start step s \<Longrightarrow> J s"
  using both.always by blast

end

section \<open>Simulation\<close>

text \<open>
  A machine seen through a function is another machine: each of its steps is some steps of
  the other. \<open>trusted\<close> is what both rely on of their surroundings. What holds of every state the
  other machine reaches holds of this one's views.
\<close>

locale simulation =
  fixes trusted :: bool and start :: "'s \<Rightarrow> bool" and step :: "'s \<Rightarrow> 's \<Rightarrow> bool"
    and start' :: "'t \<Rightarrow> bool" and step' :: "'t \<Rightarrow> 't \<Rightarrow> bool" and view :: "'s \<Rightarrow> 't"
  assumes start_view: "trusted \<Longrightarrow> start s \<Longrightarrow> reachable start' step' (view s)"
    and step_view: "trusted \<Longrightarrow> step s s' \<Longrightarrow> step'\<^sup>*\<^sup>* (view s) (view s')"
begin

lemma steps_view: "step\<^sup>*\<^sup>* s s' \<Longrightarrow> trusted \<Longrightarrow> step'\<^sup>*\<^sup>* (view s) (view s')"
  by (induction rule: rtranclp_induct) (auto intro: rtranclp_trans step_view)

lemma reachable_view: "reachable start step s \<Longrightarrow> trusted \<Longrightarrow> reachable start' step' (view s)"
  by (induction rule: reachable.induct) (auto intro: start_view reachable_steps step_view)

end

section \<open>What no step undoes\<close>

text \<open>A preorder on the states that every step respects: what a machine keeps, or only lets grow.\<close>

locale step_order =
  fixes step :: "'s \<Rightarrow> 's \<Rightarrow> bool" and le :: "'s \<Rightarrow> 's \<Rightarrow> bool"
  assumes le_refl: "le s s" and le_trans: "le s s' \<Longrightarrow> le s' s'' \<Longrightarrow> le s s''"
    and step_le: "step s s' \<Longrightarrow> le s s'"
begin

lemma steps_le: "step\<^sup>*\<^sup>* s s' \<Longrightarrow> le s s'"
  by (induction rule: rtranclp_induct) (auto intro: le_refl le_trans step_le)

end

section \<open>A machine that keeps a log\<close>

text \<open>The steps append to a log; what is read off the log follows a view of the states.\<close>

inductive logged :: "('s \<Rightarrow> 'e list \<Rightarrow> bool) \<Rightarrow> ('s \<Rightarrow> 'e list \<Rightarrow> 's \<Rightarrow> bool) \<Rightarrow> 's \<Rightarrow> 'e list \<Rightarrow> bool"
  for start step where
  opened: "start s evs \<Longrightarrow> logged start step s evs"
| appended: "logged start step s evs \<Longrightarrow> step s evs' s' \<Longrightarrow> logged start step s' (evs @ evs')"

lemma logged_reachable:
  assumes "logged start step s evs" and "\<And>s evs. start s evs \<Longrightarrow> start' s"
    and "\<And>s evs s'. step s evs s' \<Longrightarrow> step' s s'"
  shows "reachable start' step' s"
  using assms(1) by induction (auto intro: reachable.intros assms(2,3))

locale journal =
  fixes start :: "'s \<Rightarrow> 'e list \<Rightarrow> bool" and step :: "'s \<Rightarrow> 'e list \<Rightarrow> 's \<Rightarrow> bool"
    and view :: "'s \<Rightarrow> 'v" and read :: "'e \<Rightarrow> 'v \<Rightarrow> 'v" and blank :: 'v
  assumes start_read: "start s evs \<Longrightarrow> view s = fold read evs blank"
    and step_read: "step s evs s' \<Longrightarrow> view s' = fold read evs (view s)"
begin

lemma replay: "logged start step s evs \<Longrightarrow> fold read evs blank = view s"
  by (induction rule: logged.induct) (simp_all add: start_read step_read)

end

end
