(* ===== verification/PoolWorld.thy ===== *)
theory PoolWorld
  imports Claims Machine
begin

text \<open>
  A pool in its surroundings: its positions and vesting accounts, and the balances of all token
  accounts. A step is one instruction of \<open>lib.rs\<close> on that pool together with the transfers it
  requests, or anything other programs do. The token programs are not part of the
  repository: the function that carries out a transfer is a parameter of the model, and
  \<open>token_program_ok\<close> states what is relied on.
\<close>

section \<open>Token accounts\<close>

type_synonym ledger = "pubkey \<Rightarrow> nat option"

record chain =
  ch_pool_authority :: pubkey
  ch_owner :: "pubkey \<Rightarrow> pubkey"
  ch_transfer :: "(pubkey \<Rightarrow> mint_account) \<Rightarrow> transfer \<Rightarrow> ledger \<Rightarrow> ledger option"

text \<open>
  \<open>transfer_checked\<close> of the token programs: the authority is the owner of the source, the source
  pays the amount, the destination gets what the mint's transfer fee leaves of it, and nothing
  happens elsewhere. Moving tokens from an account to itself changes nothing.
\<close>

definition token_program_ok :: "chain \<Rightarrow> bool" where
  "token_program_ok ch \<longleftrightarrow> (\<forall>mints t b b'. ch_transfer ch mints t b = Some b' \<longrightarrow>
     tr_authority t = ch_owner ch (tr_from t) \<and>
     (if tr_from t = tr_to t then b' = b
      else \<exists>x y r. b (tr_from t) = Some x \<and> unat (tr_amount t) \<le> x \<and> b (tr_to t) = Some y \<and>
             received (mints (tr_mint t)) (tr_amount t) = Some r \<and>
             b' = b(tr_from t \<mapsto> x - unat (tr_amount t), tr_to t \<mapsto> y + r)))"

fun run_transfers :: "chain \<Rightarrow> (pubkey \<Rightarrow> mint_account) \<Rightarrow> transfer list \<Rightarrow> ledger \<Rightarrow> ledger option" where
  "run_transfers ch mints [] b = Some b"
| "run_transfers ch mints (t # ts) b = Option.bind (ch_transfer ch mints t b) (run_transfers ch mints ts)"

definition balance :: "ledger \<Rightarrow> pubkey \<Rightarrow> nat" where
  "balance b k = (case b k of Some x \<Rightarrow> x | None \<Rightarrow> 0)"

text \<open>What a list of transfers brings into an account from others.\<close>

fun credited :: "(pubkey \<Rightarrow> mint_account) \<Rightarrow> pubkey \<Rightarrow> transfer list \<Rightarrow> nat" where
  "credited mints k [] = 0"
| "credited mints k (t # ts) =
     (if tr_to t = k \<and> tr_from t \<noteq> k
      then (case received (mints (tr_mint t)) (tr_amount t) of Some r \<Rightarrow> r | None \<Rightarrow> 0) else 0) + credited mints k ts"

lemma transfer_balance:
  assumes "token_program_ok ch" and "ch_transfer ch mints t b = Some b'"
  shows "balance b k + credited mints k [t] \<le> balance b' k + paid_from k [t]"
    and "tr_authority t = ch_owner ch (tr_from t)" and "dom b' = dom b"
proof -
  have *: "tr_authority t = ch_owner ch (tr_from t) \<and>
     (if tr_from t = tr_to t then b' = b
      else \<exists>x y r. b (tr_from t) = Some x \<and> unat (tr_amount t) \<le> x \<and> b (tr_to t) = Some y \<and>
             received (mints (tr_mint t)) (tr_amount t) = Some r \<and>
             b' = b(tr_from t \<mapsto> x - unat (tr_amount t), tr_to t \<mapsto> y + r))"
    using assms unfolding token_program_ok_def by blast
  then show "tr_authority t = ch_owner ch (tr_from t)" by blast
  show "balance b k + credited mints k [t] \<le> balance b' k + paid_from k [t]"
    using * by (auto simp: balance_def split: if_splits)
  show "dom b' = dom b" using * by (auto split: if_splits)
qed

lemma run_balance:
  assumes "token_program_ok ch" and "run_transfers ch mints ts b = Some b'"
  shows "balance b k + credited mints k ts \<le> balance b' k + paid_from k ts"
    and "t \<in> set ts \<Longrightarrow> tr_authority t = ch_owner ch (tr_from t)" and "dom b' = dom b"
proof -
  have *: "balance b k + credited mints k ts \<le> balance b' k + paid_from k ts \<and>
     (\<forall>t\<in>set ts. tr_authority t = ch_owner ch (tr_from t)) \<and> dom b' = dom b"
    using assms(2)
  proof (induction ts arbitrary: b)
    case (Cons t ts)
    then obtain b1 where b1: "ch_transfer ch mints t b = Some b1" "run_transfers ch mints ts b1 = Some b'"
      by (auto simp: Option_bind_eq_Some)
    show ?case
      using transfer_balance(1) [OF assms(1) b1(1), of k] transfer_balance(2,3) [OF assms(1) b1(1)]
        Cons.IH [OF b1(2)] by auto
  qed simp
  then show "balance b k + credited mints k ts \<le> balance b' k + paid_from k ts"
    and "t \<in> set ts \<Longrightarrow> tr_authority t = ch_owner ch (tr_from t)" and "dom b' = dom b" by blast+
qed

text \<open>A transfer that a user signs does not come out of an account of the pool authority.\<close>

lemma run_user_transfer:
  assumes "token_program_ok ch" and "run_transfers ch mints ts b = Some b'" and "t \<in> set ts"
    and "tr_authority t \<noteq> ch_pool_authority ch" and "ch_owner ch k = ch_pool_authority ch"
  shows "tr_from t \<noteq> k"
  using run_balance(2) [OF assms(1-3)] assms(4,5) by auto

text \<open>What nobody but their owner can do to the token accounts of an owner: take from them, or close them.\<close>

definition keeps_accounts :: "chain \<Rightarrow> pubkey \<Rightarrow> ledger \<Rightarrow> ledger \<Rightarrow> bool" where
  "keeps_accounts ch owner b b' \<longleftrightarrow> (\<forall>k. ch_owner ch k = owner \<longrightarrow>
     balance b k \<le> balance b' k \<and> (b k \<noteq> None \<longrightarrow> b' k \<noteq> None))"

lemma keeps_accountsD:
  assumes "keeps_accounts ch owner b b'" and "ch_owner ch k = owner"
  shows "balance b k \<le> balance b' k" and "b k \<noteq> None \<Longrightarrow> b' k \<noteq> None"
  using assms unfolding keeps_accounts_def by blast+

lemma keeps_accounts_refl [simp]: "keeps_accounts ch owner b b"
  by (simp add: keeps_accounts_def)

lemma keeps_accounts_trans:
  "keeps_accounts ch owner b b' \<Longrightarrow> keeps_accounts ch owner b' b'' \<Longrightarrow> keeps_accounts ch owner b b''"
  unfolding keeps_accounts_def by (blast intro: order_trans)

text \<open>Transfers that others sign keep the accounts of an owner.\<close>

lemma run_keeps_accounts:
  assumes "token_program_ok ch" and "run_transfers ch mints ts b = Some b'"
    and "\<forall>t \<in> set ts. tr_authority t \<noteq> owner"
  shows "keeps_accounts ch owner b b'"
proof -
  have "balance b k \<le> balance b' k \<and> (b k \<noteq> None \<longrightarrow> b' k \<noteq> None)" if k: "ch_owner ch k = owner" for k
  proof -
    have "tr_from t \<noteq> k" if "t \<in> set ts" for t using run_balance(2) [OF assms(1,2) that] assms(3) that k by auto
    then have "paid_from k ts = 0" by (auto simp: paid_from_def filter_empty_conv)
    then show ?thesis using run_balance(1) [OF assms(1,2), of k] run_balance(3) [OF assms(1,2)]
      by (auto simp: domIff set_eq_iff)
  qed
  then show ?thesis by (simp add: keeps_accounts_def)
qed

section \<open>The world of a pool and its steps\<close>

record world =
  w_pool :: pool
  w_positions :: "pubkey \<Rightarrow> position option"
  w_vestings :: "pubkey \<Rightarrow> vesting option"
  w_tokens :: ledger

text \<open>An instruction sees a mint as it is.\<close>

definition sees :: "(pubkey \<Rightarrow> mint_account) \<Rightarrow> mint_account \<Rightarrow> bool" where
  "sees mints m \<longleftrightarrow> mints (mint_key m) = m"

text \<open>
  The instructions of \<open>lib.rs\<close> on a pool. Each finds the accounts of the world in its context;
  its signer is never the pool authority, which has no key; the transfers it requests must all
  succeed, or the transaction is undone. \<open>elsewhere\<close> stands for all other programs: they cannot
  take from the accounts of the pool authority or close them. A reward vault is created by the instruction that
  initializes the reward, empty and for the pool authority.
\<close>

inductive pool_step :: "chain \<Rightarrow> world \<Rightarrow> world \<Rightarrow> bool" for ch where
  swap: "env_pool_authority env = ch_pool_authority ch \<Longrightarrow> sc_pool ctx = w_pool w \<Longrightarrow>
     sc_payer ctx \<noteq> ch_pool_authority ch \<Longrightarrow> sees mints (mint_in ctx) \<Longrightarrow>
     handle_swap env ctx params = Inr (p, sr, trs) \<Longrightarrow>
     run_transfers ch mints trs (w_tokens w) = Some b \<Longrightarrow>
     pool_step ch w (w\<lparr> w_pool := p, w_tokens := b \<rparr>)"
| add_liquidity: "env_pool_authority env = ch_pool_authority ch \<Longrightarrow> lc_pool ctx = w_pool w \<Longrightarrow>
     w_positions w k = Some (lc_position ctx) \<Longrightarrow> lc_owner ctx \<noteq> ch_pool_authority ch \<Longrightarrow>
     sees mints (lc_token_a_mint ctx) \<Longrightarrow> sees mints (lc_token_b_mint ctx) \<Longrightarrow>
     handle_add_liquidity env ctx params = Inr (p, pos, trs) \<Longrightarrow>
     run_transfers ch mints trs (w_tokens w) = Some b \<Longrightarrow>
     pool_step ch w (w\<lparr> w_pool := p, w_positions := (w_positions w)(k \<mapsto> pos), w_tokens := b \<rparr>)"
| remove_liquidity: "env_pool_authority env = ch_pool_authority ch \<Longrightarrow> lc_pool ctx = w_pool w \<Longrightarrow>
     w_positions w k = Some (lc_position ctx) \<Longrightarrow>
     handle_remove_liquidity env ctx d min_a min_b = Inr (p, pos, trs) \<Longrightarrow>
     run_transfers ch mints trs (w_tokens w) = Some b \<Longrightarrow>
     pool_step ch w (w\<lparr> w_pool := p, w_positions := (w_positions w)(k \<mapsto> pos), w_tokens := b \<rparr>)"
| claim_position_fee: "env_pool_authority env = ch_pool_authority ch \<Longrightarrow> lc_pool ctx = w_pool w \<Longrightarrow>
     w_positions w k = Some (lc_position ctx) \<Longrightarrow>
     handle_claim_position_fee env ctx = Inr (pos, trs) \<Longrightarrow>
     run_transfers ch mints trs (w_tokens w) = Some b \<Longrightarrow>
     pool_step ch w (w\<lparr> w_positions := (w_positions w)(k \<mapsto> pos), w_tokens := b \<rparr>)"
| claim_protocol_fee: "env_pool_authority env = ch_pool_authority ch \<Longrightarrow> cc_pool ctx = w_pool w \<Longrightarrow>
     handle_claim_protocol_fee env ctx ma mb = Inr (p, trs) \<Longrightarrow>
     run_transfers ch mints trs (w_tokens w) = Some b \<Longrightarrow>
     pool_step ch w (w\<lparr> w_pool := p, w_tokens := b \<rparr>)"
| claim_partner_fee: "env_pool_authority env = ch_pool_authority ch \<Longrightarrow> cc_pool ctx = w_pool w \<Longrightarrow>
     handle_claim_partner_fee env ctx ma mb = Inr (p, trs) \<Longrightarrow>
     run_transfers ch mints trs (w_tokens w) = Some b \<Longrightarrow>
     pool_step ch w (w\<lparr> w_pool := p, w_tokens := b \<rparr>)"
| create_position: "cp_pool ctx = w_pool w \<Longrightarrow>
     (w_positions w (cp_position_key ctx) \<noteq> None \<longrightarrow> cp_accounts_exist ctx) \<Longrightarrow>
     handle_create_position env ctx = Inr (p, pos, nft) \<Longrightarrow>
     pool_step ch w (w\<lparr> w_pool := p, w_positions := (w_positions w)(cp_position_key ctx \<mapsto> pos) \<rparr>)"
| close_position: "cl_pool ctx = w_pool w \<Longrightarrow> w_positions w k = Some (cl_position ctx) \<Longrightarrow>
     handle_close_position env ctx = Inr (p, nft) \<Longrightarrow>
     pool_step ch w (w\<lparr> w_pool := p, w_positions := (w_positions w)(k := None) \<rparr>)"
| permanent_lock_position: "pl_pool ctx = w_pool w \<Longrightarrow> w_positions w k = Some (pl_position ctx) \<Longrightarrow>
     handle_permanent_lock_position env ctx l = Inr (p, pos) \<Longrightarrow>
     pool_step ch w (w\<lparr> w_pool := p, w_positions := (w_positions w)(k \<mapsto> pos) \<rparr>)"
| split_position: "sx_pool ctx = w_pool w \<Longrightarrow>
     w_positions w (sx_first_position_key ctx) = Some (sx_first_position ctx) \<Longrightarrow>
     w_positions w (sx_second_position_key ctx) = Some (sx_second_position ctx) \<Longrightarrow>
     handle_split_position2 env ctx params2 = Inr (p, pos1, pos2, info) \<Longrightarrow>
     pool_step ch w (w\<lparr> w_pool := p,
       w_positions := (w_positions w)(sx_first_position_key ctx \<mapsto> pos1, sx_second_position_key ctx \<mapsto> pos2) \<rparr>)"
| lock_position: "lk_pool ctx = w_pool w \<Longrightarrow> w_positions w (lk_position_key ctx) = Some (lk_position ctx) \<Longrightarrow>
     handle_lock_position env (w_vestings w) ctx vparams = Inr (pos, vs) \<Longrightarrow>
     pool_step ch w (w\<lparr> w_positions := (w_positions w)(lk_position_key ctx \<mapsto> pos), w_vestings := vs \<rparr>)"
| refresh_vesting: "rv_pool ctx = w_pool w \<Longrightarrow> w_positions w (rv_position_key ctx) = Some (rv_position ctx) \<Longrightarrow>
     handle_refresh_vesting env (w_vestings w) ctx keys = Inr (vs, pos) \<Longrightarrow>
     pool_step ch w (w\<lparr> w_positions := (w_positions w)(rv_position_key ctx \<mapsto> pos), w_vestings := vs \<rparr>)"
| set_pool_status: "handle_set_pool_status (w_pool w) admin status = Inr p \<Longrightarrow>
     pool_step ch w (w\<lparr> w_pool := p \<rparr>)"
| initialize_reward: "ra_pool ctx = w_pool w \<Longrightarrow>
     (w_tokens w (ra_reward_vault ctx) \<noteq> None \<longrightarrow> ra_reward_vault_exists ctx) \<Longrightarrow>
     handle_initialize_reward env ctx i duration funder = Inr p \<Longrightarrow>
     env_pool_authority env = ch_pool_authority ch \<Longrightarrow>
     ch_owner ch (ra_reward_vault ctx) = ch_pool_authority ch \<Longrightarrow>
     pool_step ch w (w\<lparr> w_pool := p, w_tokens := (w_tokens w)(ra_reward_vault ctx \<mapsto> 0) \<rparr>)"
| fund_reward: "fd_pool ctx = w_pool w \<Longrightarrow> fd_funder ctx \<noteq> ch_pool_authority ch \<Longrightarrow>
     handle_fund_reward env ctx i amount carry = Inr (p, x, trs) \<Longrightarrow>
     run_transfers ch mints trs (w_tokens w) = Some b \<Longrightarrow>
     sees mints (fd_reward_mint ctx) \<Longrightarrow>
     pool_step ch w (w\<lparr> w_pool := p, w_tokens := b \<rparr>)"
| withdraw_ineligible_reward: "fd_pool ctx = w_pool w \<Longrightarrow>
     handle_withdraw_ineligible_reward env ctx i = Inr (p, trs) \<Longrightarrow>
     run_transfers ch mints trs (w_tokens w) = Some b \<Longrightarrow>
     pool_step ch w (w\<lparr> w_pool := p, w_tokens := b \<rparr>)"
| update_reward_duration: "handle_update_reward_duration env (w_pool w) signer i duration = Inr p \<Longrightarrow>
     pool_step ch w (w\<lparr> w_pool := p \<rparr>)"
| update_reward_funder: "handle_update_reward_funder (w_pool w) signer i funder = Inr p \<Longrightarrow>
     pool_step ch w (w\<lparr> w_pool := p \<rparr>)"
| claim_reward: "cr_pool ctx = w_pool w \<Longrightarrow> w_positions w k = Some (cr_position ctx) \<Longrightarrow>
     handle_claim_reward env ctx i skip = Inr (p, pos, trs) \<Longrightarrow>
     run_transfers ch mints trs (w_tokens w) = Some b \<Longrightarrow>
     pool_step ch w (w\<lparr> w_pool := p, w_positions := (w_positions w)(k \<mapsto> pos), w_tokens := b \<rparr>)"
| elsewhere: "keeps_accounts ch (ch_pool_authority ch) (w_tokens w) b \<Longrightarrow>
     pool_step ch w (w\<lparr> w_tokens := b \<rparr>)"

section \<open>Solvency\<close>

definition vault :: "side \<Rightarrow> pool \<Rightarrow> pubkey" where
  "vault s p = side_pair s (pool_token_a_vault p) (pool_token_b_vault p)"

definition solvent :: "chain \<Rightarrow> world \<Rightarrow> bool" where
  "solvent ch w \<longleftrightarrow> books_ok (w_pool w) (w_positions w) \<and> rewards_apart (w_pool w) \<and>
     (\<forall>s. ch_owner ch (vault s (w_pool w)) = ch_pool_authority ch \<and> w_tokens w (vault s (w_pool w)) \<noteq> None \<and>
          owes s (w_pool w) (w_positions w) \<le> real (balance (w_tokens w) (vault s (w_pool w))))"

lemma vaults_differ: "books_ok p ps \<Longrightarrow> vault s p = vault s' p \<longleftrightarrow> s = s'"
  by (cases s; cases s') (auto simp: vault_def books_ok_def)

text \<open>
  A step keeps a world solvent if the books stay in order and what it pays from a vault is
  covered by what it takes off the books or brings in.
\<close>

lemma solvent_transfers:
  assumes "token_program_ok ch" and "solvent ch w" and "run_transfers ch mints trs (w_tokens w) = Some (w_tokens w')"
    and "books_ok (w_pool w') (w_positions w')" and "rewards_apart (w_pool w')"
    and "\<And>s. vault s (w_pool w') = vault s (w_pool w)"
    and "\<And>s. owes s (w_pool w') (w_positions w') + real (paid_from (vault s (w_pool w)) trs)
           \<le> owes s (w_pool w) (w_positions w) + real (credited mints (vault s (w_pool w)) trs)"
  shows "solvent ch w'"
proof -
  have "owes s (w_pool w') (w_positions w') \<le> real (balance (w_tokens w') (vault s (w_pool w)))" for s
  proof -
    let ?v = "vault s (w_pool w)"
    have "balance (w_tokens w) ?v + credited mints ?v trs \<le> balance (w_tokens w') ?v + paid_from ?v trs"
      by (rule run_balance [OF assms(1,3)])
    then have "real (balance (w_tokens w) ?v + credited mints ?v trs) \<le> real (balance (w_tokens w') ?v + paid_from ?v trs)"
      by (simp only: of_nat_le_iff)
    moreover have "owes s (w_pool w) (w_positions w) \<le> real (balance (w_tokens w) ?v)"
      using assms(2) by (simp add: solvent_def)
    ultimately show ?thesis using assms(7) [of s] by simp
  qed
  moreover have "w_tokens w' (vault s (w_pool w)) \<noteq> None" for s
    using assms(2) run_balance(3) [OF assms(1,3)] unfolding solvent_def by (metis domIff)
  ultimately show ?thesis using assms(2,4-6) by (simp add: solvent_def)
qed

text \<open>Steps without transfers of the two tokens.\<close>

lemma solvent_books:
  assumes "solvent ch w" and "books_ok (w_pool w') (w_positions w')" and "rewards_apart (w_pool w')"
    and "\<And>s. vault s (w_pool w') = vault s (w_pool w)"
    and "\<And>s. owes s (w_pool w') (w_positions w') \<le> owes s (w_pool w) (w_positions w)"
    and "\<And>s. balance (w_tokens w) (vault s (w_pool w)) \<le> balance (w_tokens w') (vault s (w_pool w))"
    and "\<And>s. w_tokens w (vault s (w_pool w)) \<noteq> None \<Longrightarrow> w_tokens w' (vault s (w_pool w)) \<noteq> None"
  shows "solvent ch w'"
proof -
  have "owes s (w_pool w') (w_positions w') \<le> real (balance (w_tokens w') (vault s (w_pool w)))" for s
    using assms(1,5,6) unfolding solvent_def by (meson of_nat_le_iff order_trans)
  then show ?thesis using assms(1-4,7) unfolding solvent_def by simp
qed

text \<open>Two pools with the same vaults and reward campaigns.\<close>

definition same_frame :: "pool \<Rightarrow> pool \<Rightarrow> bool" where
  "same_frame p p' \<longleftrightarrow> pool_token_a_vault p' = pool_token_a_vault p \<and> pool_token_b_vault p' = pool_token_b_vault p \<and>
     same_campaign (elem0 (pool_reward_infos p)) (elem0 (pool_reward_infos p')) \<and>
     same_campaign (elem1 (pool_reward_infos p)) (elem1 (pool_reward_infos p'))"

lemma same_frame_vault: "same_frame p p' \<Longrightarrow> vault s p' = vault s p"
  by (simp add: same_frame_def vault_def)

lemma same_frame_rewards: "same_frame p p' \<Longrightarrow> rewards_apart p \<Longrightarrow> rewards_apart p'"
  by (auto simp: same_frame_def rewards_apart_def same_campaign_def)

lemma same_frame_trans: "same_frame p p' \<Longrightarrow> same_frame p' p'' \<Longrightarrow> same_frame p p''"
  by (simp add: same_frame_def same_campaign_def)

lemma same_frameI:
  "pool_token_a_vault p' = pool_token_a_vault p \<Longrightarrow> pool_token_b_vault p' = pool_token_b_vault p \<Longrightarrow>
     pool_reward_infos p' = pool_reward_infos p \<Longrightarrow> same_frame p p'"
  by (simp add: same_frame_def)

lemma reward_step_frame: "reward_step p p' \<Longrightarrow> same_frame p p'"
  by (simp add: reward_step_def same_frame_def same_books_def)

section \<open>Each instruction keeps a pool solvent\<close>

lemma side_cases: "s = side_in d \<or> s = side_out d" "side_in d \<noteq> side_out d"
  by (cases s; cases d; simp add: side_in_def side_out_def)+

text \<open>The transfers of a swap, by side.\<close>

lemma handle_swap_transfers:
  assumes "handle_swap env ctx params = Inr (p', sr, trs)"
  defines "d \<equiv> get_trade_direction ctx"
  obtains fm refs where "get_fee_mode (pool_collect_fee_mode (sc_pool ctx)) d (sc_referral_token_account ctx \<noteq> None) = Inr fm"
    and "trs = transfer_from_user (sc_payer ctx) (mint_in ctx) (sc_input_token_account ctx)
                 (side_pair (side_in d) (sc_token_a_vault ctx) (sc_token_b_vault ctx)) (sp_amount_in params) #
               transfer_from_pool (sc_pool_authority ctx) (mint_out ctx)
                 (side_pair (side_out d) (sc_token_a_vault ctx) (sc_token_b_vault ctx))
                 (sc_output_token_account ctx) (sr_output_amount sr) # refs"
    and "\<forall>v. paid_from v refs \<le> (if v = ta_key (side_pair (side_fee fm) (sc_token_a_vault ctx) (sc_token_b_vault ctx))
                 then unat (sr_referral_fee sr) else 0)"
proof -
  obtain p fm where pre: "update_pre_swap (sc_pool ctx) (current_time env) = Inr p"
    and fm: "get_fee_mode (pool_collect_fee_mode p) d (sc_referral_token_account ctx \<noteq> None) = Inr fm"
    and trs: "trs = transfer_from_user (sc_payer ctx) (mint_in ctx) (sc_input_token_account ctx)
                 (side_pair (side_in d) (sc_token_a_vault ctx) (sc_token_b_vault ctx)) (sp_amount_in params) #
               transfer_from_pool (sc_pool_authority ctx) (mint_out ctx)
                 (side_pair (side_out d) (sc_token_a_vault ctx) (sc_token_b_vault ctx))
                 (sc_output_token_account ctx) (sr_output_amount sr) #
               (case sc_referral_token_account ctx of
                  Some account \<Rightarrow>
                    if fees_on_token_a fm
                    then [transfer_from_pool (sc_pool_authority ctx) (sc_token_a_mint ctx) (sc_token_a_vault ctx)
                            account (sr_referral_fee sr)]
                    else [transfer_from_pool (sc_pool_authority ctx) (sc_token_b_mint ctx) (sc_token_b_vault ctx)
                            account (sr_referral_fee sr)]
                | None \<Rightarrow> [])"
    using assms(1) unfolding d_def
    by (cases "get_trade_direction ctx")
      (auto simp: handle_swap_def mint_in_def mint_out_def side_in_def side_out_def bindr_eq_Inr Let_def)
  have "pool_collect_fee_mode p = pool_collect_fee_mode (sc_pool ctx)"
    by (rule update_pre_swap_frame [OF pre]) simp
  then show ?thesis using fm trs
    by (intro that) (auto simp: side_fee_def split: option.splits)
qed

lemma swap_books_handler:
  assumes "handle_swap env ctx params = Inr (p', sr, trs)" and "books_ok (sc_pool ctx) ps"
  obtains fm and excluded_in :: u64 where
    "get_fee_mode (pool_collect_fee_mode (sc_pool ctx)) (get_trade_direction ctx) (sc_referral_token_account ctx \<noteq> None) = Inr fm"
    and "received (mint_in ctx) (sp_amount_in params) = Some (unat excluded_in)"
    and "books_ok p' ps" and "same_frame (sc_pool ctx) p'"
    and "\<forall>s. owes s p' ps + (if s = side_out (get_trade_direction ctx) then real (unat (sr_output_amount sr)) else 0) +
           (if s = side_fee fm then real (unat (sr_referral_fee sr)) else 0)
         \<le> owes s (sc_pool ctx) ps + (if s = side_in (get_trade_direction ctx) then real (unat excluded_in) else 0)"
proof -
  obtain p excluded_in fm cp where
    ex: "calculate_transfer_fee_excluded_amount (mint_in ctx) (sp_amount_in params) = Inr excluded_in"
    and pre: "update_pre_swap (sc_pool ctx) (current_time env) = Inr p"
    and fm: "get_fee_mode (pool_collect_fee_mode p) (get_trade_direction ctx) (sc_referral_token_account ctx \<noteq> None) = Inr fm"
    and sr: "get_swap_result p (tfa_amount excluded_in) fm (get_trade_direction ctx) cp = Inr sr"
    and p': "apply_swap_result p sr fm (current_time env) = Inr p'"
    by (rule handle_swap_frame [OF assms(1)])
  have mode: "pool_collect_fee_mode p = pool_collect_fee_mode (sc_pool ctx)"
    by (rule update_pre_swap_frame [OF pre]) simp
  have same: "same_books (sc_pool ctx) p"
    by (rule update_pre_swap_frame [OF pre]) (simp add: same_books_def)
  have frame: "same_frame (sc_pool ctx) p"
    by (rule update_pre_swap_frame [OF pre]) (simp add: same_frame_def)
  have frame': "same_frame p p'"
    by (rule apply_swap_result_frame [OF p']) (simp add: same_frame_def)
  have ok: "books_ok p ps" using assms(2) same by (simp add: same_books_ok)
  note b = swap_books [OF sr p' fm ok]
  note b2 = b(2) [unfolded same_books_owes [OF same]]
  show ?thesis
    by (rule that [OF fm [unfolded mode] excluded_amount_received(1) [OF ex] b(1) same_frame_trans [OF frame frame']])
      (rule allI, rule b2)
qed

lemma covered:
  assumes "pd \<le> (if c1 then x else 0) + (if c2 then y else 0)" and "(if c3 then z else 0) \<le> cr"
    and "v' + (if c1 then real x else 0) + (if c2 then real y else 0) \<le> v + (if c3 then real z else 0)"
  shows "v' + real pd \<le> v + real cr"
  using assms by (simp split: if_splits)

lemma vault_pair:
  assumes "pool_token_a_vault p = ta_key a" and "pool_token_b_vault p = ta_key b"
  shows "ta_key (side_pair s a b) = vault s p"
  using assms by (cases s) (simp_all add: vault_def)

lemma solvent_swap:
  assumes "token_program_ok ch" and "solvent ch w"
    and "sc_pool ctx = w_pool w" and "sc_payer ctx \<noteq> ch_pool_authority ch"
    and "sees mints (mint_in ctx)" and "handle_swap env ctx params = Inr (p, sr, trs)"
    and "run_transfers ch mints trs (w_tokens w) = Some b"
  shows "solvent ch (w\<lparr> w_pool := p, w_tokens := b \<rparr>)"
proof -
  define d where "d = get_trade_direction ctx"
  have ok: "books_ok (sc_pool ctx) (w_positions w)" and apart: "rewards_apart (sc_pool ctx)"
    and own: "ch_owner ch (vault s (sc_pool ctx)) = ch_pool_authority ch" for s
    using assms(2,3) by (simp_all add: solvent_def)
  obtain fm and ex :: u64 where fm: "get_fee_mode (pool_collect_fee_mode (sc_pool ctx)) d (sc_referral_token_account ctx \<noteq> None) = Inr fm"
    and rec: "received (mint_in ctx) (sp_amount_in params) = Some (unat ex)"
    and ok': "books_ok p (w_positions w)" and frame: "same_frame (sc_pool ctx) p"
    and books: "\<forall>s. owes s p (w_positions w) + (if s = side_out d then real (unat (sr_output_amount sr)) else 0) +
           (if s = side_fee fm then real (unat (sr_referral_fee sr)) else 0)
         \<le> owes s (sc_pool ctx) (w_positions w) + (if s = side_in d then real (unat ex) else 0)"
    unfolding d_def by (rule swap_books_handler [OF assms(6) ok])
  obtain fm' refs where fm': "get_fee_mode (pool_collect_fee_mode (sc_pool ctx)) d (sc_referral_token_account ctx \<noteq> None) = Inr fm'"
    and trs: "trs = transfer_from_user (sc_payer ctx) (mint_in ctx) (sc_input_token_account ctx)
                 (side_pair (side_in d) (sc_token_a_vault ctx) (sc_token_b_vault ctx)) (sp_amount_in params) #
               transfer_from_pool (sc_pool_authority ctx) (mint_out ctx)
                 (side_pair (side_out d) (sc_token_a_vault ctx) (sc_token_b_vault ctx))
                 (sc_output_token_account ctx) (sr_output_amount sr) # refs"
    and refs: "\<forall>v. paid_from v refs \<le> (if v = ta_key (side_pair (side_fee fm') (sc_token_a_vault ctx) (sc_token_b_vault ctx))
                 then unat (sr_referral_fee sr) else 0)"
    unfolding d_def by (rule handle_swap_transfers [OF assms(6)])
  have same: "fm' = fm" using fm fm' by simp
  have c: "swap_constraints env ctx = Inr ()" by (rule handle_swap_frame [OF assms(6)])
  have key: "ta_key (side_pair s (sc_token_a_vault ctx) (sc_token_b_vault ctx)) = vault s (sc_pool ctx)" for s
    by (rule vault_pair) (use c in \<open>auto simp: swap_constraints_def bindr_eq_Inr require_eq_Inr\<close>)
  have user: "ta_key (sc_input_token_account ctx) \<noteq> vault s (sc_pool ctx)" for s
    using run_user_transfer [OF assms(1,7), of _ "vault s (sc_pool ctx)"] assms(4) own trs by fastforce
  have paid: "paid_from (vault s (sc_pool ctx)) trs \<le> (if s = side_out d then unat (sr_output_amount sr) else 0)
      + (if s = side_fee fm then unat (sr_referral_fee sr) else 0)" for s
    using spec [OF refs, of "vault s (sc_pool ctx)"] user [of s]
    by (auto simp: trs key same vaults_differ [OF ok])
  have cred: "(if s = side_in d then unat ex else 0) \<le> credited mints (vault s (sc_pool ctx)) trs" for s
    using user rec assms(5) by (simp add: trs key sees_def vaults_differ [OF ok])
  have "owes s p (w_positions w) + real (paid_from (vault s (sc_pool ctx)) trs)
      \<le> owes s (sc_pool ctx) (w_positions w) + real (credited mints (vault s (sc_pool ctx)) trs)" for s
    by (rule covered [OF paid cred spec [OF books]])
  then show ?thesis
    using assms(2,3,7) ok' frame apart
    by (intro solvent_transfers [OF assms(1,2), of mints trs]) (simp_all add: same_frame_vault same_frame_rewards)
qed

end
