(* ===== verification/PoolSteps.thy ===== *)
theory PoolSteps
  imports PoolWorld
begin

text \<open>
  Every instruction keeps a pool solvent: the steps of \<open>PoolWorld\<close> one by one, then all worlds a
  pool can reach from its initialization.
\<close>

section \<open>Liquidity\<close>

lemma liquidity_vaults:
  assumes "liquidity_constraints ctx = Inr ()"
  shows "ta_key (side_pair s (lc_token_a_vault ctx) (lc_token_b_vault ctx)) = vault s (lc_pool ctx)"
  by (rule vault_pair) (use assms in \<open>auto simp: liquidity_constraints_def bindr_eq_Inr require_eq_Inr\<close>)

lemma same_books_liquidity:
  assumes "apply_add_liquidity p pos d = Inr (p', pos') \<or> apply_remove_liquidity p pos d = Inr (p', pos')"
  shows "same_frame p p'"
  using assms by (auto simp: apply_add_liquidity_def apply_remove_liquidity_def bindr_eq_Inr intro!: same_frameI)

text \<open>What the fee-included amount brings in covers the amount it was computed for.\<close>

lemma included_covers:
  assumes "calculate_transfer_fee_included_amount m x = Inr r"
  shows "unat x \<le> (case received m (tfa_amount r) of Some y \<Rightarrow> y | None \<Rightarrow> 0)"
  using included_amount_received(1) [OF assms] by (cases "x = 0") simp_all

text \<open>Updating the rewards first changes nothing.\<close>

lemma update_rewards_books:
  assumes "pos_update_rewards pos p now = Inr (pos', p')" and "ps k = Some pos" and "books_ok p ps"
  shows "books_ok p' (ps(k \<mapsto> pos'))" and "owes s p' (ps(k \<mapsto> pos')) = owes s p ps" and "same_frame p p'"
proof -
  note r = pos_update_rewards_step [OF assms(1)]
  note rb = reward_step_books(1) [OF r(1)] and cl = same_claim_books [of ps k, OF assms(2) r(2)]
  show "books_ok p' (ps(k \<mapsto> pos'))" using cl(2) assms(3) rb by (simp add: same_books_ok)
  show "owes s p' (ps(k \<mapsto> pos')) = owes s p ps" by (simp add: same_books_owes [OF rb] cl(1))
  show "same_frame p p'" by (rule reward_step_frame [OF r(1)])
qed

lemma solvent_add_liquidity:
  assumes "token_program_ok ch" and "solvent ch w" and "lc_pool ctx = w_pool w"
    and "w_positions w k = Some (lc_position ctx)" and "lc_owner ctx \<noteq> ch_pool_authority ch"
    and "sees mints (lc_token_a_mint ctx)" and "sees mints (lc_token_b_mint ctx)"
    and "handle_add_liquidity env ctx params = Inr (p', pos', trs)"
    and "run_transfers ch mints trs (w_tokens w) = Some b"
  shows "solvent ch (w\<lparr> w_pool := p', w_positions := (w_positions w)(k \<mapsto> pos'), w_tokens := b \<rparr>)"
proof -
  obtain v p pos m total_a total_b where c: "liquidity_constraints ctx = Inr ()"
    and u: "pos_update_rewards (lc_position ctx) (lc_pool ctx) (current_time env) = Inr (pos, p)"
    and m: "get_amounts_for_modify_liquidity p (al_liquidity_delta params) Up = Inr m"
    and add: "apply_add_liquidity p pos (al_liquidity_delta params) = Inr (p', pos')"
    and ta: "calculate_transfer_fee_included_amount (lc_token_a_mint ctx) (ml_token_a_amount m) = Inr total_a"
    and tb: "calculate_transfer_fee_included_amount (lc_token_b_mint ctx) (ml_token_b_amount m) = Inr total_b"
    and trs: "trs = [transfer_from_user (lc_owner ctx) (lc_token_a_mint ctx) (lc_token_a_account ctx)
                (lc_token_a_vault ctx) (tfa_amount total_a),
              transfer_from_user (lc_owner ctx) (lc_token_b_mint ctx) (lc_token_b_account ctx)
                (lc_token_b_vault ctx) (tfa_amount total_b)]"
    by (rule handle_add_liquidity_frame [OF assms(8)])
  have ok: "books_ok (lc_pool ctx) (w_positions w)" and apart: "rewards_apart (lc_pool ctx)"
    and own: "ch_owner ch (vault s (lc_pool ctx)) = ch_pool_authority ch" for s
    using assms(2,3) by (simp_all add: solvent_def)
  note r = update_rewards_books [of _ _ _ _ _ "w_positions w" k, OF u assms(4) ok]
  note books = add_liquidity_books [OF add m r(1), of k, simplified]
  have frame: "same_frame (lc_pool ctx) p'"
    using same_frame_trans [OF r(3) same_books_liquidity] add by blast
  have user: "tr_from t \<noteq> vault s (lc_pool ctx)" if "t \<in> set trs" for t s
    using run_user_transfer [OF assms(1,9) that _ own] that trs assms(5) by auto
  then have users: "ta_key (lc_token_a_account ctx) \<noteq> vault s (lc_pool ctx)"
    "ta_key (lc_token_b_account ctx) \<noteq> vault s (lc_pool ctx)" for s
    by (force simp: trs)+
  have paid: "paid_from (vault s (lc_pool ctx)) trs = 0" for s
    using users by (simp add: trs)
  have key: "ta_key (lc_token_a_vault ctx) = vault SideA (lc_pool ctx)" "ta_key (lc_token_b_vault ctx) = vault SideB (lc_pool ctx)"
    using liquidity_vaults [OF c, of SideA] liquidity_vaults [OF c, of SideB] by simp_all
  have cred: "amount_of s m \<le> credited mints (vault s (lc_pool ctx)) trs" for s
    using users included_covers [OF ta] included_covers [OF tb] assms(6,7)
    by (cases s) (simp_all add: trs key vaults_differ [OF ok] amount_of_def sees_def)
  have "owes s p' ((w_positions w)(k \<mapsto> pos')) + real (paid_from (vault s (lc_pool ctx)) trs)
      \<le> owes s (lc_pool ctx) (w_positions w) + real (credited mints (vault s (lc_pool ctx)) trs)" for s
  proof -
    have "real (amount_of s m) \<le> real (credited mints (vault s (lc_pool ctx)) trs)"
      using cred by (simp only: of_nat_le_iff)
    then show ?thesis using books(2) [of s] r(2) [of s] paid by simp
  qed
  then show ?thesis
    using assms(2,3,9) books(1) frame apart
    by (intro solvent_transfers [OF assms(1,2), of mints trs]) (simp_all add: same_frame_vault same_frame_rewards)
qed

text \<open>A step that only pays out.\<close>

lemma solvent_payout:
  assumes "token_program_ok ch" and "solvent ch w" and "run_transfers ch mints trs (w_tokens w) = Some (w_tokens w')"
    and "books_ok (w_pool w') (w_positions w')" and "same_frame (w_pool w) (w_pool w')"
    and "\<And>s. owes s (w_pool w') (w_positions w') + real (paid_from (vault s (w_pool w)) trs) \<le> owes s (w_pool w) (w_positions w)"
  shows "solvent ch w'"
proof (rule solvent_transfers [OF assms(1-4)])
  show "rewards_apart (w_pool w')" using assms(2,5) by (auto simp: solvent_def same_frame_rewards)
  show "vault s (w_pool w') = vault s (w_pool w)" for s by (rule same_frame_vault [OF assms(5)])
  show "owes s (w_pool w') (w_positions w') + real (paid_from (vault s (w_pool w)) trs)
      \<le> owes s (w_pool w) (w_positions w) + real (credited mints (vault s (w_pool w)) trs)" for s
    using assms(6) [of s] by simp
qed

lemma same_frame_refl [simp]: "same_frame p p"
  by (simp add: same_frame_def)

text \<open>A withdrawal takes off the books at least what it pays, and so does a claim of fees.\<close>

lemma remove_liquidity_pays:
  assumes "books_ok (lc_pool ctx) ps" and "ps k = Some (lc_position ctx)"
    and "handle_remove_liquidity env ctx d min_a min_b = Inr (p', pos', trs)"
  shows "books_ok p' (ps(k \<mapsto> pos'))" and "same_frame (lc_pool ctx) p'"
    and "owes s p' (ps(k \<mapsto> pos')) + real (paid_from (vault s (lc_pool ctx)) trs) \<le> owes s (lc_pool ctx) ps"
proof -
  obtain v p pos m where c: "liquidity_constraints ctx = Inr ()"
    and u: "pos_update_rewards (lc_position ctx) (lc_pool ctx) (current_time env) = Inr (pos, p)"
    and m: "get_amounts_for_modify_liquidity p (case d of Some d \<Rightarrow> d | None \<Rightarrow> pos_unlocked_liquidity (lc_position ctx)) Down = Inr m"
    and rem: "apply_remove_liquidity p pos (case d of Some d \<Rightarrow> d | None \<Rightarrow> pos_unlocked_liquidity (lc_position ctx)) = Inr (p', pos')"
    and trs: "trs = [transfer_from_pool (lc_pool_authority ctx) (lc_token_a_mint ctx) (lc_token_a_vault ctx)
                (lc_token_a_account ctx) (ml_token_a_amount m),
              transfer_from_pool (lc_pool_authority ctx) (lc_token_b_mint ctx) (lc_token_b_vault ctx)
                (lc_token_b_account ctx) (ml_token_b_amount m)]"
    by (rule handle_remove_liquidity_frame [OF assms(3)])
  note r = update_rewards_books [of _ _ _ _ _ ps k, OF u assms(2,1)]
  note books = remove_liquidity_books [OF rem m r(1), of k, simplified]
  show "books_ok p' (ps(k \<mapsto> pos'))" by (rule books(1))
  show "same_frame (lc_pool ctx) p'" using same_frame_trans [OF r(3) same_books_liquidity] rem by blast
  have key: "ta_key (lc_token_a_vault ctx) = vault SideA (lc_pool ctx)" "ta_key (lc_token_b_vault ctx) = vault SideB (lc_pool ctx)"
    using liquidity_vaults [OF c, of SideA] liquidity_vaults [OF c, of SideB] by simp_all
  have paid: "paid_from (vault s (lc_pool ctx)) trs = amount_of s m"
    by (cases s) (simp_all add: trs key vaults_differ [OF assms(1)] amount_of_def)
  show "owes s p' (ps(k \<mapsto> pos')) + real (paid_from (vault s (lc_pool ctx)) trs) \<le> owes s (lc_pool ctx) ps"
    using books(2) [of s] r(2) [of s] by (simp add: paid)
qed

lemma solvent_remove_liquidity:
  assumes "token_program_ok ch" and "solvent ch w" and "lc_pool ctx = w_pool w"
    and "w_positions w k = Some (lc_position ctx)"
    and "handle_remove_liquidity env ctx d min_a min_b = Inr (p', pos', trs)"
    and "run_transfers ch mints trs (w_tokens w) = Some b"
  shows "solvent ch (w\<lparr> w_pool := p', w_positions := (w_positions w)(k \<mapsto> pos'), w_tokens := b \<rparr>)"
proof -
  have "books_ok (lc_pool ctx) (w_positions w)" using assms(2,3) by (simp add: solvent_def)
  note pays = remove_liquidity_pays [OF this assms(4,5)]
  show ?thesis
    using assms(3,6) pays by (intro solvent_payout [OF assms(1,2), of mints trs]) simp_all
qed

lemma claim_position_fee_pays:
  assumes "books_ok (lc_pool ctx) ps" and "ps k = Some (lc_position ctx)"
    and "handle_claim_position_fee env ctx = Inr (pos', trs)"
  shows "books_ok (lc_pool ctx) (ps(k \<mapsto> pos'))"
    and "owes s (lc_pool ctx) (ps(k \<mapsto> pos')) + real (paid_from (vault s (lc_pool ctx)) trs) \<le> owes s (lc_pool ctx) ps"
proof -
  obtain pos m where c: "liquidity_constraints ctx = Inr ()"
    and f: "update_fee (lc_position ctx) (pool_fee_a_per_liquidity (lc_pool ctx)) (pool_fee_b_per_liquidity (lc_pool ctx)) = Inr pos"
    and pos': "pos' = reset_pending_fee (pos\<lparr> pos_metrics := m \<rparr>)"
    and trs: "trs = (if pos_fee_a_pending pos > 0
        then [transfer_from_pool (lc_pool_authority ctx) (lc_token_a_mint ctx) (lc_token_a_vault ctx)
                (lc_token_a_account ctx) (pos_fee_a_pending pos)] else []) @
       (if pos_fee_b_pending pos > 0
        then [transfer_from_pool (lc_pool_authority ctx) (lc_token_b_mint ctx) (lc_token_b_vault ctx)
                (lc_token_b_account ctx) (pos_fee_b_pending pos)] else [])"
    by (rule claim_position_fee_frame [OF assms(3)])
  note books = claim_fee_books [of _ _ _ _ _ ps k, OF f pos' assms(1,2)]
  show "books_ok (lc_pool ctx) (ps(k \<mapsto> pos'))" by (rule books(1))
  have key: "ta_key (lc_token_a_vault ctx) = vault SideA (lc_pool ctx)" "ta_key (lc_token_b_vault ctx) = vault SideB (lc_pool ctx)"
    using liquidity_vaults [OF c, of SideA] liquidity_vaults [OF c, of SideB] by simp_all
  have "paid_from (vault s (lc_pool ctx)) trs \<le> fee_pending s pos"
    by (cases s) (simp_all add: trs key vaults_differ [OF assms(1)] fee_pending_def)
  then have "real (paid_from (vault s (lc_pool ctx)) trs) \<le> real (fee_pending s pos)" by (simp only: of_nat_le_iff)
  then show "owes s (lc_pool ctx) (ps(k \<mapsto> pos')) + real (paid_from (vault s (lc_pool ctx)) trs) \<le> owes s (lc_pool ctx) ps"
    using books(2) [of s] by simp
qed

lemma solvent_claim_position_fee:
  assumes "token_program_ok ch" and "solvent ch w" and "lc_pool ctx = w_pool w"
    and "w_positions w k = Some (lc_position ctx)"
    and "handle_claim_position_fee env ctx = Inr (pos', trs)"
    and "run_transfers ch mints trs (w_tokens w) = Some b"
  shows "solvent ch (w\<lparr> w_positions := (w_positions w)(k \<mapsto> pos'), w_tokens := b \<rparr>)"
proof -
  have "books_ok (lc_pool ctx) (w_positions w)" using assms(2,3) by (simp add: solvent_def)
  note pays = claim_position_fee_pays [OF this assms(4,5)]
  show ?thesis
    using assms(3,6) pays by (intro solvent_payout [OF assms(1,2), of mints trs]) simp_all
qed

section \<open>Fees of the protocol and the partner\<close>

lemma claim_vaults:
  assumes "claim_fee_constraints env ctx = Inr ()"
  shows "ta_key (cc_token_a_vault ctx) = vault SideA (cc_pool ctx)" "ta_key (cc_token_b_vault ctx) = vault SideB (cc_pool ctx)"
  using assms by (simp_all add: claim_fee_constraints_eq_Inr vault_def)

text \<open>Both claims pay at most what they take off the pool's books.\<close>

lemma claim_protocol_fee_frame:
  assumes "handle_claim_protocol_fee env ctx ma mb = Inr (p', trs)"
  obtains a b where "claim_fee_constraints env ctx = Inr ()" and "claim_protocol_fee (cc_pool ctx) ma mb = Inr (p', a, b)"
    and "trs = (if a > 0 then [transfer_from_pool (cc_pool_authority ctx) (cc_token_a_mint ctx) (cc_token_a_vault ctx)
                (cc_token_a_account ctx) a] else []) @
               (if b > 0 then [transfer_from_pool (cc_pool_authority ctx) (cc_token_b_mint ctx) (cc_token_b_vault ctx)
                (cc_token_b_account ctx) b] else [])"
    and "co_operator (cc_claim_fee_operator ctx) = cc_signer ctx"
    and "ta_authority (cc_token_a_account ctx) = treasury_ID" and "ta_authority (cc_token_b_account ctx) = treasury_ID"
  using assms
  by (auto simp: handle_claim_protocol_fee_def bindr_eq_Inr require_eq_Inr check_treasury_account_def split: prod.splits)

lemma claim_partner_fee_frame:
  assumes "handle_claim_partner_fee env ctx ma mb = Inr (p', trs)"
  obtains a b where "claim_fee_constraints env ctx = Inr ()" and "claim_partner_fee (cc_pool ctx) ma mb = Inr (p', a, b)"
    and "trs = (if ma > 0 then [transfer_from_pool (cc_pool_authority ctx) (cc_token_a_mint ctx) (cc_token_a_vault ctx)
                (cc_token_a_account ctx) a] else []) @
               (if mb > 0 then [transfer_from_pool (cc_pool_authority ctx) (cc_token_b_mint ctx) (cc_token_b_vault ctx)
                (cc_token_b_account ctx) b] else [])"
    and "pool_partner (cc_pool ctx) = cc_signer ctx"
  using assms by (auto simp: handle_claim_partner_fee_def bindr_eq_Inr require_eq_Inr split: prod.splits)

lemma claim_pays:
  assumes "claim_fee_constraints env ctx = Inr ()" and "books_ok (cc_pool ctx) ps"
    and "trs = (if c then [transfer_from_pool (cc_pool_authority ctx) (cc_token_a_mint ctx) (cc_token_a_vault ctx)
                (cc_token_a_account ctx) x] else []) @
               (if d then [transfer_from_pool (cc_pool_authority ctx) (cc_token_b_mint ctx) (cc_token_b_vault ctx)
                (cc_token_b_account ctx) y] else [])"
  shows "real (paid_from (vault s (cc_pool ctx)) trs) \<le> real (unat (side_pair s x y))"
proof -
  have "paid_from (vault s (cc_pool ctx)) trs \<le> unat (side_pair s x y)"
    using claim_vaults [OF assms(1)] by (cases s) (simp_all add: assms(3) vaults_differ [OF assms(2)])
  then show ?thesis by (simp only: of_nat_le_iff)
qed

lemma solvent_claim:
  assumes "token_program_ok ch" and "solvent ch w" and "run_transfers ch mints trs (w_tokens w) = Some b"
    and "cc_pool ctx = w_pool w" and "claim_fee_constraints env ctx = Inr ()"
    and "books_ok p' (w_positions w)" and "same_frame (w_pool w) p'"
    and "\<And>s. owes s p' (w_positions w) + real (unat (side_pair s x y)) = owes s (w_pool w) (w_positions w)"
    and "trs = (if c then [transfer_from_pool (cc_pool_authority ctx) (cc_token_a_mint ctx) (cc_token_a_vault ctx)
                (cc_token_a_account ctx) x] else []) @
               (if d then [transfer_from_pool (cc_pool_authority ctx) (cc_token_b_mint ctx) (cc_token_b_vault ctx)
                (cc_token_b_account ctx) y] else [])"
  shows "solvent ch (w\<lparr> w_pool := p', w_tokens := b \<rparr>)"
proof -
  have ok: "books_ok (cc_pool ctx) (w_positions w)" using assms(2,4) by (simp add: solvent_def)
  have "owes s p' (w_positions w) + real (paid_from (vault s (w_pool w)) trs) \<le> owes s (w_pool w) (w_positions w)" for s
    using claim_pays [OF assms(5) ok assms(9), of s] assms(8) [of s] by (simp add: assms(4))
  then show ?thesis using assms(3,6,7) by (intro solvent_payout [OF assms(1,2), of mints trs]) simp_all
qed

lemma solvent_claim_protocol_fee:
  assumes "token_program_ok ch" and "solvent ch w" and "cc_pool ctx = w_pool w"
    and "handle_claim_protocol_fee env ctx ma mb = Inr (p', trs)" and "run_transfers ch mints trs (w_tokens w) = Some b"
  shows "solvent ch (w\<lparr> w_pool := p', w_tokens := b \<rparr>)"
proof -
  obtain x y where c: "claim_fee_constraints env ctx = Inr ()" and cl: "claim_protocol_fee (cc_pool ctx) ma mb = Inr (p', x, y)"
    and trs: "trs = (if x > 0 then [transfer_from_pool (cc_pool_authority ctx) (cc_token_a_mint ctx) (cc_token_a_vault ctx)
                (cc_token_a_account ctx) x] else []) @
               (if y > 0 then [transfer_from_pool (cc_pool_authority ctx) (cc_token_b_mint ctx) (cc_token_b_vault ctx)
                (cc_token_b_account ctx) y] else [])"
    by (rule claim_protocol_fee_frame [OF assms(4)])
  have "same_frame (cc_pool ctx) p'" using cl by (simp add: claim_protocol_fee_eq_Inr same_frame_def)
  then show ?thesis
    using solvent_claim [OF assms(1,2,5,3) c _ _ _ trs] claim_protocol_books [OF cl] assms(2,3)
    by (simp add: solvent_def)
qed

lemma solvent_claim_partner_fee:
  assumes "token_program_ok ch" and "solvent ch w" and "cc_pool ctx = w_pool w"
    and "handle_claim_partner_fee env ctx ma mb = Inr (p', trs)" and "run_transfers ch mints trs (w_tokens w) = Some b"
  shows "solvent ch (w\<lparr> w_pool := p', w_tokens := b \<rparr>)"
proof -
  obtain x y where c: "claim_fee_constraints env ctx = Inr ()" and cl: "claim_partner_fee (cc_pool ctx) ma mb = Inr (p', x, y)"
    and trs: "trs = (if ma > 0 then [transfer_from_pool (cc_pool_authority ctx) (cc_token_a_mint ctx) (cc_token_a_vault ctx)
                (cc_token_a_account ctx) x] else []) @
               (if mb > 0 then [transfer_from_pool (cc_pool_authority ctx) (cc_token_b_mint ctx) (cc_token_b_vault ctx)
                (cc_token_b_account ctx) y] else [])"
    by (rule claim_partner_fee_frame [OF assms(4)])
  have "same_frame (cc_pool ctx) p'" using cl by (simp add: claim_partner_fee_eq_Inr same_frame_def)
  then show ?thesis
    using solvent_claim [OF assms(1,2,5,3) c _ _ _ trs] claim_partner_books [OF cl] assms(2,3)
    by (simp add: solvent_def)
qed

section \<open>Positions, rewards and the rest\<close>

text \<open>Steps that move no tokens.\<close>

lemma solvent_quiet:
  assumes "solvent ch w" and "w_tokens w' = w_tokens w" and "books_ok (w_pool w') (w_positions w')"
    and "same_frame (w_pool w) (w_pool w')"
    and "\<And>s. owes s (w_pool w') (w_positions w') \<le> owes s (w_pool w) (w_positions w)"
  shows "solvent ch w'"
  by (rule solvent_books [OF assms(1,3)])
    (use assms same_frame_vault [OF assms(4)] same_frame_rewards [OF assms(4)] in \<open>auto simp: solvent_def\<close>)

text \<open>Steps that change the pool outside of its books, and one position outside of its claim.\<close>

lemma solvent_same:
  assumes "solvent ch w" and "w_tokens w' = w_tokens w"
    and "same_books (w_pool w) (w_pool w')" and "same_frame (w_pool w) (w_pool w')"
    and "w_positions w k = Some pos" and "same_claim pos pos'" and "w_positions w' = (w_positions w)(k \<mapsto> pos')"
  shows "solvent ch w'"
proof (rule solvent_quiet [OF assms(1,2) _ assms(4)])
  note c = same_claim_books [of "w_positions w" k, OF assms(5,6)]
  show "books_ok (w_pool w') (w_positions w')"
    using assms(1) c(2) by (simp add: solvent_def assms(7) same_books_ok [OF assms(3)])
  show "owes s (w_pool w') (w_positions w') \<le> owes s (w_pool w) (w_positions w)" for s
    by (simp add: assms(7) same_books_owes [OF assms(3)] c(1))
qed

lemma solvent_same_pool:
  assumes "solvent ch w" and "same_books (w_pool w) p'" and "same_frame (w_pool w) p'"
  shows "solvent ch (w\<lparr> w_pool := p' \<rparr>)"
  using assms(1,2)
  by (intro solvent_quiet [OF assms(1)])
    (simp_all add: assms(3) same_books_ok same_books_owes solvent_def)

lemma solvent_create_position:
  assumes "solvent ch w" and "cp_pool ctx = w_pool w"
    and "w_positions w (cp_position_key ctx) \<noteq> None \<longrightarrow> cp_accounts_exist ctx"
    and "handle_create_position env ctx = Inr (p', pos', nft)"
  shows "solvent ch (w\<lparr> w_pool := p', w_positions := (w_positions w)(cp_position_key ctx \<mapsto> pos') \<rparr>)"
proof -
  have init: "pos_initialize default_position (cp_pool ctx) (cp_pool_key ctx) (cp_position_nft_mint ctx) 0 = (pos', p')"
    and none: "w_positions w (cp_position_key ctx) = None"
    using assms(3,4)
    by (auto simp: handle_create_position_def bindr_eq_Inr require_eq_Inr Let_def split: prod.splits)
  have e: "empty_claim pos'" and same: "same_books (w_pool w) p'" and frame: "same_frame (w_pool w) p'"
    using init assms(2)
    by (auto simp: pos_initialize_def empty_claim_def default_position_def pos_liquidity_def fee_pending_def
        same_books_def same_frame_def split: side.splits)
  note o = open_empty_books [of _ "w_positions w" "cp_position_key ctx", OF e none]
  show ?thesis
    using assms(1) o frame
    by (intro solvent_quiet [OF assms(1)]) (simp_all add: same_books_ok [OF same] same_books_owes [OF same] solvent_def)
qed

lemma solvent_close_position:
  assumes "solvent ch w" and "cl_pool ctx = w_pool w" and "w_positions w k = Some (cl_position ctx)"
    and "handle_close_position env ctx = Inr (p', nft)"
  shows "solvent ch (w\<lparr> w_pool := p', w_positions := (w_positions w)(k := None) \<rparr>)"
proof -
  have p': "p' = (w_pool w)\<lparr> pool_metrics := reduce_position (pool_metrics (w_pool w)) \<rparr>"
    and e: "empty_claim (cl_position ctx)"
    using assms(2,4) by (auto simp: handle_close_position_def bindr_eq_Inr require_eq_Inr pos_is_empty_claim)
  have same: "same_books (w_pool w) p'" and frame: "same_frame (w_pool w) p'"
    by (simp_all add: p' same_books_def same_frame_def)
  note c = close_empty_books [OF e, of "w_positions w" k, OF assms(3)]
  show ?thesis
    using assms(1) c frame
    by (intro solvent_quiet [OF assms(1)]) (simp_all add: same_books_ok [OF same] same_books_owes [OF same] solvent_def)
qed

lemma handle_split_frame:
  assumes "handle_split_position2 env ctx params = Inr (p', pos1', pos2', info)"
  obtains pos1 pos2 amounts n1 n2 n3 n4 n5 n6 where
    "pool_update_rewards (sx_pool ctx) (current_time env) = Inr p'"
    and "update_position_reward (sx_first_position ctx) p' = Inr pos1"
    and "update_position_reward (sx_second_position ctx) p' = Inr pos2"
    and "apply_split_position p' pos1 pos2 n1 n2 n3 n4 n5 n6 = Inr (pos1', pos2', amounts)"
    and "sx_first_position_key ctx \<noteq> sx_second_position_key ctx"
    and "pos_vested_liquidity (sx_first_position ctx) = 0"
  using assms
  by (auto simp: handle_split_position2_def split_constraints_def bindr_eq_Inr require_eq_Inr split: prod.splits)

lemma update_position_reward_claim: "update_position_reward pos p = Inr pos' \<Longrightarrow> same_claim pos pos'"
  by (auto simp: update_position_reward_def bindr_eq_Inr same_claim_def pos_liquidity_def fee_pending_def
      checkpoint_def split: side.splits)

lemma solvent_split_position:
  assumes "solvent ch w" and "sx_pool ctx = w_pool w"
    and "w_positions w (sx_first_position_key ctx) = Some (sx_first_position ctx)"
    and "w_positions w (sx_second_position_key ctx) = Some (sx_second_position ctx)"
    and "handle_split_position2 env ctx params = Inr (p', pos1', pos2', info)"
  shows "solvent ch (w\<lparr> w_pool := p',
    w_positions := (w_positions w)(sx_first_position_key ctx \<mapsto> pos1', sx_second_position_key ctx \<mapsto> pos2') \<rparr>)"
proof -
  obtain pos1 pos2 amounts n1 n2 n3 n4 n5 n6 where u: "pool_update_rewards (sx_pool ctx) (current_time env) = Inr p'"
    and u1: "update_position_reward (sx_first_position ctx) p' = Inr pos1"
    and u2: "update_position_reward (sx_second_position ctx) p' = Inr pos2"
    and split: "apply_split_position p' pos1 pos2 n1 n2 n3 n4 n5 n6 = Inr (pos1', pos2', amounts)"
    and ne: "sx_first_position_key ctx \<noteq> sx_second_position_key ctx"
    by (rule handle_split_frame [OF assms(5)])
  let ?i = "sx_first_position_key ctx" and ?j = "sx_second_position_key ctx"
  define ps1 where "ps1 = (w_positions w)(?i \<mapsto> pos1)"
  define ps2 where "ps2 = ps1(?j \<mapsto> pos2)"
  note st = pool_update_rewards_step [OF u]
  note b = reward_step_books(1) [OF st] and frame = reward_step_frame [OF st]
  have j1: "ps1 ?j = Some (sx_second_position ctx)" using assms(4) ne by (simp add: ps1_def)
  note c1 = same_claim_books [of "w_positions w" ?i, OF assms(3) update_position_reward_claim [OF u1], folded ps1_def]
  note c2 = same_claim_books [of ps1 ?j, OF j1 update_position_reward_claim [OF u2], folded ps2_def]
  have ok: "books_ok p' ps2" using c1(2) c2(2) assms(1,2) by (simp add: same_books_ok [OF b] solvent_def)
  have o: "owes s p' ps2 = owes s (sx_pool ctx) (w_positions w)" for s
    by (simp add: same_books_owes [OF b] c1(1) c2(1))
  have at: "ps2 ?i = Some pos1" "ps2 ?j = Some pos2" using ne by (simp_all add: ps2_def ps1_def)
  note sb = split_books [OF split at ne ok]
  have eq: "ps2(?i \<mapsto> pos1', ?j \<mapsto> pos2') = (w_positions w)(?i \<mapsto> pos1', ?j \<mapsto> pos2')"
    using ne by (auto simp: ps2_def ps1_def)
  show ?thesis
    using sb(1) sb(2) o frame assms(2)
    by (intro solvent_quiet [OF assms(1)]) (simp_all flip: eq)
qed

text \<open>Reward instructions transfer from reward vaults or from their signer only.\<close>

lemma solvent_reward_transfers:
  assumes "token_program_ok ch" and "solvent ch w" and "run_transfers ch mints trs (w_tokens w) = Some (w_tokens w')"
    and "books_ok (w_pool w') (w_positions w')" and "same_frame (w_pool w) (w_pool w')"
    and "\<And>s. owes s (w_pool w') (w_positions w') \<le> owes s (w_pool w) (w_positions w)"
    and "\<And>t s. t \<in> set trs \<Longrightarrow> tr_from t \<noteq> vault s (w_pool w)"
  shows "solvent ch w'"
proof (rule solvent_payout [OF assms(1-5)])
  fix s
  have "paid_from (vault s (w_pool w)) trs = 0"
    using assms(7) [of _ s] by (induction trs) auto
  then show "owes s (w_pool w') (w_positions w') + real (paid_from (vault s (w_pool w)) trs) \<le> owes s (w_pool w) (w_positions w)"
    using assms(6) [of s] by simp
qed

lemma not_a_vault:
  "k \<noteq> pool_token_a_vault p \<and> k \<noteq> pool_token_b_vault p \<Longrightarrow> k \<noteq> vault s p"
  by (cases s) (simp_all add: vault_def)

lemma solvent_claim_reward:
  assumes "token_program_ok ch" and "solvent ch w" and "cr_pool ctx = w_pool w"
    and "w_positions w k = Some (cr_position ctx)" and "handle_claim_reward env ctx i skip = Inr (p', pos', trs)"
    and "run_transfers ch mints trs (w_tokens w) = Some b"
  shows "solvent ch (w\<lparr> w_pool := p', w_positions := (w_positions w)(k \<mapsto> pos'), w_tokens := b \<rparr>)"
proof -
  note st = claim_reward_step [OF assms(5), unfolded assms(3)]
  note b = reward_step_books(1) [OF st(1)] and c = same_claim_books [of "w_positions w" k, OF assms(4) st(2)]
  have "rewards_apart (w_pool w)" using assms(2) by (simp add: solvent_def)
  then have far: "tr_from t \<noteq> vault s (w_pool w)" if "t \<in> set trs" for t s
    using st(3) that by (intro not_a_vault)
  show ?thesis
    using assms(2,6) c(2) far
    by (intro solvent_reward_transfers [OF assms(1,2), of mints trs])
      (simp_all add: reward_step_frame [OF st(1)] same_books_ok [OF b] same_books_owes [OF b] c(1) solvent_def)
qed

lemma solvent_fund_reward:
  assumes "token_program_ok ch" and "solvent ch w" and "fd_pool ctx = w_pool w"
    and "fd_funder ctx \<noteq> ch_pool_authority ch" and "handle_fund_reward env ctx i amount carry = Inr (p', x, trs)"
    and "run_transfers ch mints trs (w_tokens w) = Some b"
  shows "solvent ch (w\<lparr> w_pool := p', w_tokens := b \<rparr>)"
proof -
  note st = fund_reward_step [OF assms(5), unfolded assms(3)]
  note b = reward_step_books(1) [OF st(1)]
  have own: "ch_owner ch (vault s (w_pool w)) = ch_pool_authority ch" for s using assms(2) by (simp add: solvent_def)
  have far: "tr_from t \<noteq> vault s (w_pool w)" if "t \<in> set trs" for t s
    using run_user_transfer [OF assms(1,6) that _ own] st(2) that assms(4) by auto
  show ?thesis
    using assms(2,6) far
    by (intro solvent_reward_transfers [OF assms(1,2), of mints trs])
      (simp_all add: reward_step_frame [OF st(1)] same_books_ok [OF b] same_books_owes [OF b] solvent_def)
qed

lemma solvent_withdraw_ineligible:
  assumes "token_program_ok ch" and "solvent ch w" and "fd_pool ctx = w_pool w"
    and "handle_withdraw_ineligible_reward env ctx i = Inr (p', trs)" and "run_transfers ch mints trs (w_tokens w) = Some b"
  shows "solvent ch (w\<lparr> w_pool := p', w_tokens := b \<rparr>)"
proof -
  note st = withdraw_ineligible_step [OF assms(4), unfolded assms(3)]
  note b = reward_step_books(1) [OF st(1)]
  have "rewards_apart (w_pool w)" using assms(2) by (simp add: solvent_def)
  then have far: "tr_from t \<noteq> vault s (w_pool w)" if "t \<in> set trs" for t s
    using st(2) that by (intro not_a_vault)
  show ?thesis
    using assms(2,5) far
    by (intro solvent_reward_transfers [OF assms(1,2), of mints trs])
      (simp_all add: reward_step_frame [OF st(1)] same_books_ok [OF b] same_books_owes [OF b] solvent_def)
qed

lemma solvent_initialize_reward:
  assumes "solvent ch w" and "ra_pool ctx = w_pool w"
    and "w_tokens w (ra_reward_vault ctx) \<noteq> None \<longrightarrow> ra_reward_vault_exists ctx"
    and "handle_initialize_reward env ctx i duration funder = Inr p'"
  shows "solvent ch (w\<lparr> w_pool := p', w_tokens := (w_tokens w)(ra_reward_vault ctx \<mapsto> 0) \<rparr>)"
proof -
  have "w_tokens w (ra_reward_vault ctx) = None"
    using assms(3,4) by (auto simp: handle_initialize_reward_def bindr_eq_Inr require_eq_Inr)
  then have ne: "ra_reward_vault ctx \<noteq> vault s (w_pool w)" for s
    using assms(1) unfolding solvent_def by metis
  note st = initialize_reward_step [OF assms(4), unfolded assms(2)]
  have "rewards_apart p'"
    using assms(1) st(2) ne [of SideA] ne [of SideB] by (simp add: solvent_def vault_def)
  moreover have "vault s p' = vault s (w_pool w)" for s
    using st(1) by (simp add: same_books_def vault_def)
  moreover have "balance ((w_tokens w)(ra_reward_vault ctx \<mapsto> 0)) (vault s (w_pool w)) = balance (w_tokens w) (vault s (w_pool w))" for s
    using ne [of s] by (simp add: balance_def not_sym)
  ultimately show ?thesis
    using assms(1)
    by (intro solvent_books [OF assms(1)])
      (auto simp: same_books_ok [OF st(1)] same_books_owes [OF st(1)] solvent_def)
qed

section \<open>The beginning\<close>

text \<open>What the three instructions that open a pool leave behind.\<close>

definition opened :: "initialize_pool_ctx \<Rightarrow> pool \<Rightarrow> position \<Rightarrow> transfer list \<Rightarrow> bool" where
  "opened ctx p pos trs \<longleftrightarrow> fresh_pool p pos \<and>
     pool_token_a_vault p = ta_key (ip_token_a_vault ctx) \<and> pool_token_b_vault p = ta_key (ip_token_b_vault ctx) \<and>
     (\<exists>a b x y. get_initialize_amounts (pool_sqrt_min_price p) (pool_sqrt_max_price p) (pool_sqrt_price p) (pool_liquidity p) = Inr (a, b) \<and>
        trs = initial_transfers ctx x y \<and>
        unat a \<le> (case received (ip_token_a_mint ctx) x of Some r \<Rightarrow> r | None \<Rightarrow> 0) \<and>
        unat b \<le> (case received (ip_token_b_mint ctx) y of Some r \<Rightarrow> r | None \<Rightarrow> 0))"

lemma open_pool_fresh:
  assumes "open_pool ctx fees av partner lo hi P point ty l mode kind = Inr (p, pos, nft)"
  shows "fresh_pool p pos" and "pool_sqrt_min_price p = lo" "pool_sqrt_max_price p = hi" "pool_sqrt_price p = P"
    "pool_liquidity p = l" "pool_token_a_vault p = ta_key (ip_token_a_vault ctx)"
    "pool_token_b_vault p = ta_key (ip_token_b_vault ctx)"
  using assms
  by (auto simp: open_pool_def Let_def bindr_eq_Inr pos_initialize_def pool_initialize_def default_pool_def
      default_position_def fresh_pool_def pos_liquidity_def side_defs split: side.splits)

text \<open>A customizable pool takes at least one unit of each token.\<close>

lemma included_covers_max:
  assumes "calculate_transfer_fee_included_amount m x = Inr r"
  shows "unat x \<le> (case received m (max (tfa_amount r) 1) of Some y \<Rightarrow> y | None \<Rightarrow> 0)"
proof (cases "x = 0")
  case False
  then have "tfa_amount r \<noteq> 0"
    using included_amount_received(2) [OF assms] by (auto simp: word_eq_unat)
  then have "1 \<le> tfa_amount r" by (simp add: word_le_nat_alt unat_gt_0 Suc_le_eq)
  then have "max (tfa_amount r) 1 = tfa_amount r" by (simp add: max_def)
  then show ?thesis using included_covers [OF assms] by simp
qed simp

lemma opened_pool:
  assumes "open_pool ctx fees av partner lo hi P point ty l mode kind = Inr (p, pos, nft)"
    and "get_initialize_amounts lo hi P l = Inr (a, b)"
    and "unat a \<le> (case received (ip_token_a_mint ctx) x of Some r \<Rightarrow> r | None \<Rightarrow> 0)"
    and "unat b \<le> (case received (ip_token_b_mint ctx) y of Some r \<Rightarrow> r | None \<Rightarrow> 0)"
  shows "opened ctx p pos (initial_transfers ctx x y)"
  using open_pool_fresh [OF assms(1)] assms(2-4) by (auto simp: opened_def)

lemma initialize_pool_opened:
  assumes "handle_initialize_pool env ctx params = Inr (p, pos, nft, trs)"
  shows "opened ctx p pos trs"
  using assms
  by (auto simp: handle_initialize_pool_def Let_def bindr_eq_Inr dest!: included_covers intro!: opened_pool
      split: prod.splits)

lemma initialize_dynamic_opened:
  assumes "handle_initialize_pool_with_dynamic_config env ctx params = Inr (p, pos, nft, trs)"
  shows "opened ctx p pos trs"
  using assms
  by (auto simp: handle_initialize_pool_with_dynamic_config_def open_customizable_pool_def Let_def bindr_eq_Inr
      dest!: included_covers intro!: opened_pool split: prod.splits)

lemma initialize_customizable_opened:
  assumes "handle_initialize_customizable_pool env ctx params = Inr (p, pos, nft, trs)"
  shows "opened ctx p pos trs"
  using assms
  by (auto simp: handle_initialize_customizable_pool_def open_customizable_pool_def Let_def bindr_eq_Inr
      dest!: included_covers_max intro!: opened_pool split: prod.splits)

text \<open>
  The vaults are created by the instruction itself, for the pool authority, so they are two
  accounts and empty; the initial deposit is transferred into them.
\<close>

inductive pool_start :: "chain \<Rightarrow> world \<Rightarrow> bool" for ch where
  initialize: "handle_initialize_pool env ctx params = Inr (p, pos, nft, trs) \<or>
     handle_initialize_pool_with_dynamic_config env ctx cparams = Inr (p, pos, nft, trs) \<or>
     handle_initialize_customizable_pool env ctx cparams = Inr (p, pos, nft, trs) \<Longrightarrow>
     ip_payer ctx \<noteq> ch_pool_authority ch \<Longrightarrow>
     ta_key (ip_token_a_vault ctx) \<noteq> ta_key (ip_token_b_vault ctx) \<Longrightarrow>
     ch_owner ch (ta_key (ip_token_a_vault ctx)) = ch_pool_authority ch \<Longrightarrow>
     ch_owner ch (ta_key (ip_token_b_vault ctx)) = ch_pool_authority ch \<Longrightarrow>
     sees mints (ip_token_a_mint ctx) \<Longrightarrow> sees mints (ip_token_b_mint ctx) \<Longrightarrow>
     run_transfers ch mints trs (b(ta_key (ip_token_a_vault ctx) \<mapsto> 0, ta_key (ip_token_b_vault ctx) \<mapsto> 0)) = Some b' \<Longrightarrow>
     pool_start ch \<lparr> w_pool = p, w_positions = [ip_position_key ctx \<mapsto> pos], w_vestings = Map.empty, w_tokens = b' \<rparr>"

abbreviation pool_reachable :: "chain \<Rightarrow> world \<Rightarrow> bool" where
  "pool_reachable ch \<equiv> reachable (pool_start ch) (pool_step ch)"

lemma pool_start_opened:
  assumes "pool_start ch w"
  obtains ctx pos trs where "opened ctx (w_pool w) pos trs" and "w_positions w = [ip_position_key ctx \<mapsto> pos]"
  using assms
  by cases (auto intro: initialize_pool_opened initialize_dynamic_opened initialize_customizable_opened)

lemma solvent_start:
  assumes "token_program_ok ch" and "opened ctx p pos trs" and "ip_payer ctx \<noteq> ch_pool_authority ch"
    and "ta_key (ip_token_a_vault ctx) \<noteq> ta_key (ip_token_b_vault ctx)"
    and "ch_owner ch (ta_key (ip_token_a_vault ctx)) = ch_pool_authority ch"
    and "ch_owner ch (ta_key (ip_token_b_vault ctx)) = ch_pool_authority ch"
    and "sees mints (ip_token_a_mint ctx)" and "sees mints (ip_token_b_mint ctx)"
    and "run_transfers ch mints trs (b(ta_key (ip_token_a_vault ctx) \<mapsto> 0, ta_key (ip_token_b_vault ctx) \<mapsto> 0)) = Some b'"
  shows "solvent ch \<lparr> w_pool = p, w_positions = [k \<mapsto> pos], w_vestings = vs, w_tokens = b' \<rparr>"
proof -
  let ?b0 = "b(ta_key (ip_token_a_vault ctx) \<mapsto> 0, ta_key (ip_token_b_vault ctx) \<mapsto> 0)"
  obtain x y m n where fresh: "fresh_pool p pos"
    and va: "pool_token_a_vault p = ta_key (ip_token_a_vault ctx)" and vb: "pool_token_b_vault p = ta_key (ip_token_b_vault ctx)"
    and amounts: "get_initialize_amounts (pool_sqrt_min_price p) (pool_sqrt_max_price p) (pool_sqrt_price p) (pool_liquidity p) = Inr (x, y)"
    and trs: "trs = initial_transfers ctx m n"
    and x: "unat x \<le> (case received (ip_token_a_mint ctx) m of Some r \<Rightarrow> r | None \<Rightarrow> 0)"
    and y: "unat y \<le> (case received (ip_token_b_mint ctx) n of Some r \<Rightarrow> r | None \<Rightarrow> 0)"
    using assms(2) by (auto simp: opened_def)
  have ne: "pool_token_a_vault p \<noteq> pool_token_b_vault p" using assms(4) va vb by simp
  note books = fresh_pool_books(1) [OF fresh amounts ne, of k] fresh_pool_books(2) [OF fresh amounts ne, of _ k]
  have own: "ch_owner ch (vault s p) = ch_pool_authority ch" for s
    using assms(5,6) va vb by (cases s) (simp_all add: vault_def)
  have user: "tr_from t \<noteq> vault s p" if "t \<in> set trs" for t s
    using run_user_transfer [OF assms(1,9) that _ own] that assms(3) by (auto simp: trs initial_transfers_def)
  have users: "ta_key (ip_payer_token_a ctx) \<noteq> vault s p" "ta_key (ip_payer_token_b ctx) \<noteq> vault s p" for s
    using user by (force simp: trs initial_transfers_def)+
  have enough: "unat (side_pair s x y) \<le> balance b' (vault s p)" for s
  proof -
    have "balance ?b0 (vault s p) + credited mints (vault s p) trs \<le> balance b' (vault s p) + paid_from (vault s p) trs"
      by (rule run_balance [OF assms(1,9)])
    moreover have "paid_from (vault s p) trs = 0" using users by (simp add: trs initial_transfers_def)
    moreover have "unat (side_pair s x y) \<le> credited mints (vault s p) trs"
      using x y assms(4) assms(4) [symmetric] assms(7,8) users(1) [of SideA] users(2) [of SideB]
      by (cases s) (simp_all add: trs initial_transfers_def vault_def va vb sees_def)
    ultimately show ?thesis by linarith
  qed
  have "owes s p [k \<mapsto> pos] \<le> real (balance b' (vault s p))" for s
    using books(2) [of s] enough [of s] of_nat_le_iff [where 'a = real] by (meson order_trans)
  moreover have "b' (vault s p) \<noteq> None" for s
    using run_balance(3) [OF assms(1,9)] va vb by (cases s) (auto simp: vault_def domIff)
  moreover have "rewards_apart p" using fresh
    by (simp add: fresh_pool_def rewards_apart_def default_reward_info_def ri_is_initialized_def)
  ultimately show ?thesis using books(1) own by (simp add: solvent_def)
qed

section \<open>Every reachable world is solvent\<close>

lemma refresh_same_claim:
  "handle_refresh_vesting env vs ctx keys = Inr (vs', pos') \<Longrightarrow> same_claim (rv_position ctx) pos'"
  by (auto simp: handle_refresh_vesting_def bindr_eq_Inr refresh_vestings_same_claim split: prod.splits)

lemma status_books: "handle_set_pool_status p admin status = Inr p' \<Longrightarrow> same_books p p' \<and> same_frame p p'"
  by (simp add: set_pool_status_eq_Inr same_books_def same_frame_def)

lemma permanent_lock_same_frame:
  assumes "handle_permanent_lock_position env ctx l = Inr (p', pos')"
  shows "same_frame (pl_pool ctx) p'"
  using permanent_lock_books(1,3) [OF assms] by (simp add: same_frame_def same_books_def)

lemma solvent_elsewhere:
  assumes "solvent ch w" and "keeps_accounts ch (ch_pool_authority ch) (w_tokens w) b"
  shows "solvent ch (w\<lparr> w_tokens := b \<rparr>)"
  by (rule solvent_books [OF assms(1)])
    (use assms(1) keeps_accountsD [OF assms(2)] in \<open>simp_all add: solvent_def\<close>)

lemma pool_step_solvent:
  assumes "pool_step ch w w'" and "token_program_ok ch" and "solvent ch w"
  shows "solvent ch w'"
  using assms(1)
proof cases
  case swap then show ?thesis using solvent_swap assms(2,3) by blast
next
  case add_liquidity then show ?thesis using solvent_add_liquidity assms(2,3) by blast
next
  case remove_liquidity then show ?thesis using solvent_remove_liquidity assms(2,3) by blast
next
  case claim_position_fee then show ?thesis using solvent_claim_position_fee assms(2,3) by blast
next
  case claim_protocol_fee then show ?thesis using solvent_claim_protocol_fee assms(2,3) by blast
next
  case claim_partner_fee then show ?thesis using solvent_claim_partner_fee assms(2,3) by blast
next
  case create_position then show ?thesis using solvent_create_position assms(3) by blast
next
  case close_position then show ?thesis using solvent_close_position assms(3) by blast
next
  case (permanent_lock_position ctx k env l p pos)
  then show ?thesis
    using solvent_same [OF assms(3), of w' k "pl_position ctx" pos] permanent_lock_books(1,2) [of env ctx l p pos]
      permanent_lock_same_frame [of env ctx l p pos] by simp
next
  case split_position then show ?thesis using solvent_split_position assms(3) by blast
next
  case (lock_position ctx env vparams pos vs)
  then show ?thesis
    using solvent_same [OF assms(3), of w' "lk_position_key ctx" "lk_position ctx" pos]
      lock_position_same_claim [of env "w_vestings w" ctx vparams pos vs] by (simp add: same_books_def)
next
  case (refresh_vesting ctx env keys vs pos)
  then show ?thesis
    using solvent_same [OF assms(3), of w' "rv_position_key ctx" "rv_position ctx" pos]
      refresh_same_claim [of env "w_vestings w" ctx keys vs pos] by (simp add: same_books_def)
next
  case set_pool_status then show ?thesis using status_books solvent_same_pool assms(3) by blast
next
  case initialize_reward then show ?thesis using solvent_initialize_reward assms(3) by blast
next
  case fund_reward then show ?thesis using solvent_fund_reward assms(2,3) by blast
next
  case withdraw_ineligible_reward then show ?thesis using solvent_withdraw_ineligible assms(2,3) by blast
next
  case update_reward_duration
  then show ?thesis
    using solvent_same_pool [OF assms(3)] update_reward_steps(1) reward_step_books(1) reward_step_frame by blast
next
  case update_reward_funder
  then show ?thesis
    using solvent_same_pool [OF assms(3)] update_reward_steps(2) reward_step_books(1) reward_step_frame by blast
next
  case claim_reward then show ?thesis using solvent_claim_reward assms(2,3) by blast
next
  case elsewhere then show ?thesis using solvent_elsewhere assms(3) by blast
qed

lemma pool_start_solvent:
  assumes "pool_start ch w" and "token_program_ok ch"
  shows "solvent ch w"
  using assms(1)
proof cases
  case (initialize env ctx params p pos nft trs cparams mints b b')
  have "opened ctx p pos trs"
    using initialize(2)
    by (auto intro: initialize_pool_opened initialize_dynamic_opened initialize_customizable_opened)
  then show ?thesis unfolding initialize(1) by (rule solvent_start [OF assms(2) _ initialize(3-9)])
qed

interpretation pool_solvency: state_invariant "pool_start ch" "pool_step ch" "\<lambda>w. token_program_ok ch \<longrightarrow> solvent ch w" for ch
  by unfold_locales (simp_all add: pool_start_solvent pool_step_solvent)

lemma pool_reachable_solvent: "pool_reachable ch w \<Longrightarrow> token_program_ok ch \<Longrightarrow> solvent ch w"
  using pool_solvency.always by blast

text \<open>In a solvent world a withdrawal or a claim never asks a vault for more than it holds.\<close>

lemma solvent_covers:
  assumes "solvent ch w" and "books_ok p' ps'" and "owes s p' ps' + real n \<le> owes s (w_pool w) (w_positions w)"
  shows "n \<le> balance (w_tokens w) (vault s (w_pool w))"
proof -
  have "0 \<le> total (owed s p') ps'" by (rule total_nonneg) (rule owed_nonneg [OF assms(2)])
  then have "0 \<le> owes s p' ps'" using reserve_nonneg [OF assms(2), of s] by (simp add: owes_def)
  moreover have "owes s (w_pool w) (w_positions w) \<le> real (balance (w_tokens w) (vault s (w_pool w)))"
    using assms(1) by (simp add: solvent_def)
  ultimately have "real n \<le> real (balance (w_tokens w) (vault s (w_pool w)))" using assms(3) by linarith
  then show ?thesis by (simp only: of_nat_le_iff)
qed

end
