(* ===== verification/Events.thy ===== *)
theory Events
  imports SwapHandler Vesting PositionHandlers RewardHandlers AdminHandlers InitializePool
begin

text \<open>
  \<open>programs/cp-amm/src/event.rs\<close>: the events of the program, one record per struct, and what each
  instruction emits (its \<open>emit_cpi!\<close>), as functions of the values the handler has at that point.
\<close>

section \<open>The events\<close>

record remove_liquidity_parameters =
  rl_liquidity_delta :: u128
  rl_token_a_amount_threshold :: u64
  rl_token_b_amount_threshold :: u64

record evt_close_config =
  ecc_config :: pubkey
  ecc_admin :: pubkey

record evt_create_config =
  ecr_pool_fees :: pool_fee_parameters
  ecr_vault_config_key :: pubkey
  ecr_pool_creator_authority :: pubkey
  ecr_activation_type :: u8
  ecr_sqrt_min_price :: u128
  ecr_sqrt_max_price :: u128
  ecr_collect_fee_mode :: u8
  ecr_index :: u64
  ecr_config :: pubkey

record evt_create_dynamic_config =
  ecd_config :: pubkey
  ecd_pool_creator_authority :: pubkey
  ecd_index :: u64

record evt_create_token_badge =
  etb_token_mint :: pubkey

record evt_create_claim_fee_operator =
  eco_operator :: pubkey

record evt_close_claim_fee_operator =
  exo_claim_fee_operator :: pubkey
  exo_operator :: pubkey

record evt_initialize_pool =
  eip_pool :: pubkey
  eip_token_a_mint :: pubkey
  eip_token_b_mint :: pubkey
  eip_creator :: pubkey
  eip_payer :: pubkey
  eip_alpha_vault :: pubkey
  eip_pool_fees :: pool_fee_parameters
  eip_sqrt_min_price :: u128
  eip_sqrt_max_price :: u128
  eip_activation_type :: u8
  eip_collect_fee_mode :: u8
  eip_liquidity :: u128
  eip_sqrt_price :: u128
  eip_activation_point :: u64
  eip_token_a_flag :: u8
  eip_token_b_flag :: u8
  eip_token_a_amount :: u64
  eip_token_b_amount :: u64
  eip_total_amount_a :: u64
  eip_total_amount_b :: u64
  eip_pool_type :: u8

record evt_add_liquidity =
  eal_pool :: pubkey
  eal_position :: pubkey
  eal_owner :: pubkey
  eal_params :: add_liquidity_parameters
  eal_token_a_amount :: u64
  eal_token_b_amount :: u64
  eal_total_amount_a :: u64
  eal_total_amount_b :: u64

record evt_claim_position_fee =
  ecf_pool :: pubkey
  ecf_position :: pubkey
  ecf_owner :: pubkey
  ecf_fee_a_claimed :: u64
  ecf_fee_b_claimed :: u64

record evt_create_position =
  ecp_pool :: pubkey
  ecp_owner :: pubkey
  ecp_position :: pubkey
  ecp_position_nft_mint :: pubkey

record evt_close_position =
  ezp_pool :: pubkey
  ezp_owner :: pubkey
  ezp_position :: pubkey
  ezp_position_nft_mint :: pubkey

record evt_remove_liquidity =
  erl_pool :: pubkey
  erl_position :: pubkey
  erl_owner :: pubkey
  erl_params :: remove_liquidity_parameters
  erl_token_a_amount :: u64
  erl_token_b_amount :: u64

record evt_swap =
  esw_pool :: pubkey
  esw_trade_direction :: u8
  esw_has_referral :: bool
  esw_params :: swap_parameters
  esw_swap_result :: swap_result
  esw_actual_amount_in :: u64
  esw_current_timestamp :: u64

record evt_lock_position =
  elk_pool :: pubkey
  elk_position :: pubkey
  elk_owner :: pubkey
  elk_vesting :: pubkey
  elk_cliff_point :: u64
  elk_period_frequency :: u64
  elk_cliff_unlock_liquidity :: u128
  elk_liquidity_per_period :: u128
  elk_number_of_period :: u16

record evt_permanent_lock_position =
  epl_pool :: pubkey
  epl_position :: pubkey
  epl_lock_liquidity_amount :: u128
  epl_total_permanent_locked_liquidity :: u128

record evt_claim_protocol_fee =
  epf_pool :: pubkey
  epf_token_a_amount :: u64
  epf_token_b_amount :: u64

record evt_claim_partner_fee =
  ept_pool :: pubkey
  ept_token_a_amount :: u64
  ept_token_b_amount :: u64

record evt_set_pool_status =
  ess_pool :: pubkey
  ess_status :: u8

record evt_initialize_reward =
  eir_pool :: pubkey
  eir_reward_mint :: pubkey
  eir_funder :: pubkey
  eir_creator :: pubkey
  eir_reward_index :: u8
  eir_reward_duration :: u64

record evt_fund_reward =
  efr_pool :: pubkey
  efr_funder :: pubkey
  efr_mint_reward :: pubkey
  efr_reward_index :: u8
  efr_amount :: u64
  efr_transfer_fee_excluded_amount_in :: u64
  efr_reward_duration_end :: u64
  efr_pre_reward_rate :: u128
  efr_post_reward_rate :: u128

record evt_claim_reward =
  ecw_pool :: pubkey
  ecw_position :: pubkey
  ecw_owner :: pubkey
  ecw_mint_reward :: pubkey
  ecw_reward_index :: u8
  ecw_total_reward :: u64

record evt_update_reward_duration =
  eud_pool :: pubkey
  eud_reward_index :: u8
  eud_old_reward_duration :: u64
  eud_new_reward_duration :: u64

record evt_update_reward_funder =
  euf_pool :: pubkey
  euf_reward_index :: u8
  euf_old_funder :: pubkey
  euf_new_funder :: pubkey

record evt_withdraw_ineligible_reward =
  ewi_pool :: pubkey
  ewi_reward_mint :: pubkey
  ewi_amount :: u64

record evt_split_position2 =
  esp_pool :: pubkey
  esp_first_owner :: pubkey
  esp_second_owner :: pubkey
  esp_first_position :: pubkey
  esp_second_position :: pubkey
  esp_current_sqrt_price :: u128
  esp_amount_splits :: split_amount_info
  esp_first_position_info :: split_position_info
  esp_second_position_info :: split_position_info
  esp_split_position_parameters :: split_position_parameters2

datatype event =
    EvtCloseConfig evt_close_config
  | EvtCreateConfig evt_create_config
  | EvtCreateDynamicConfig evt_create_dynamic_config
  | EvtCreateTokenBadge evt_create_token_badge
  | EvtCreateClaimFeeOperator evt_create_claim_fee_operator
  | EvtCloseClaimFeeOperator evt_close_claim_fee_operator
  | EvtInitializePool evt_initialize_pool
  | EvtAddLiquidity evt_add_liquidity
  | EvtClaimPositionFee evt_claim_position_fee
  | EvtCreatePosition evt_create_position
  | EvtClosePosition evt_close_position
  | EvtRemoveLiquidity evt_remove_liquidity
  | EvtSwap evt_swap
  | EvtLockPosition evt_lock_position
  | EvtPermanentLockPosition evt_permanent_lock_position
  | EvtClaimProtocolFee evt_claim_protocol_fee
  | EvtClaimPartnerFee evt_claim_partner_fee
  | EvtSetPoolStatus evt_set_pool_status
  | EvtInitializeReward evt_initialize_reward
  | EvtFundReward evt_fund_reward
  | EvtClaimReward evt_claim_reward
  | EvtUpdateRewardDuration evt_update_reward_duration
  | EvtUpdateRewardFunder evt_update_reward_funder
  | EvtWithdrawIneligibleReward evt_withdraw_ineligible_reward
  | EvtSplitPosition2 evt_split_position2

section \<open>Configurations, operators and badges\<close>

definition emit_create_config :: "pubkey \<Rightarrow> u64 \<Rightarrow> static_config_parameters \<Rightarrow> event" where
  "emit_create_config config_key index params = EvtCreateConfig
     \<lparr> ecr_pool_fees = st_pool_fees params, ecr_vault_config_key = st_vault_config_key params,
       ecr_pool_creator_authority = st_pool_creator_authority params,
       ecr_activation_type = st_activation_type params, ecr_sqrt_min_price = st_sqrt_min_price params,
       ecr_sqrt_max_price = st_sqrt_max_price params, ecr_collect_fee_mode = st_collect_fee_mode params,
       ecr_index = index, ecr_config = config_key \<rparr>"

definition emit_create_dynamic_config :: "pubkey \<Rightarrow> u64 \<Rightarrow> pubkey \<Rightarrow> event" where
  "emit_create_dynamic_config config_key index pool_creator_authority = EvtCreateDynamicConfig
     \<lparr> ecd_config = config_key, ecd_pool_creator_authority = pool_creator_authority, ecd_index = index \<rparr>"

definition emit_close_config :: "pubkey \<Rightarrow> pubkey \<Rightarrow> event" where
  "emit_close_config config_key admin = EvtCloseConfig \<lparr> ecc_config = config_key, ecc_admin = admin \<rparr>"

definition emit_create_token_badge :: "mint_account \<Rightarrow> event" where
  "emit_create_token_badge m = EvtCreateTokenBadge \<lparr> etb_token_mint = mint_key m \<rparr>"

definition emit_create_claim_fee_operator :: "pubkey \<Rightarrow> event" where
  "emit_create_claim_fee_operator operator = EvtCreateClaimFeeOperator \<lparr> eco_operator = operator \<rparr>"

definition emit_close_claim_fee_operator :: "pubkey \<Rightarrow> claim_fee_operator \<Rightarrow> event" where
  "emit_close_claim_fee_operator key co = EvtCloseClaimFeeOperator
     \<lparr> exo_claim_fee_operator = key, exo_operator = co_operator co \<rparr>"

section \<open>Opening a pool\<close>

definition emit_first_position :: "initialize_pool_ctx \<Rightarrow> event" where
  "emit_first_position ctx = EvtCreatePosition
     \<lparr> ecp_pool = ip_pool_key ctx, ecp_owner = ip_creator ctx, ecp_position = ip_position_key ctx,
       ecp_position_nft_mint = ip_position_nft_mint ctx \<rparr>"

definition emit_initialize_pool ::
  "initialize_pool_ctx \<Rightarrow> config \<Rightarrow> initialize_pool_parameters \<Rightarrow> u64 \<Rightarrow> pubkey \<Rightarrow> u64 \<Rightarrow> u64 \<Rightarrow> u64 \<Rightarrow> u64 \<Rightarrow> event" where
  "emit_initialize_pool ctx cf params activation_point alpha_vault token_a_amount token_b_amount
     total_amount_a total_amount_b = EvtInitializePool
     \<lparr> eip_pool = ip_pool_key ctx, eip_token_a_mint = mint_key (ip_token_a_mint ctx),
       eip_token_b_mint = mint_key (ip_token_b_mint ctx), eip_creator = ip_creator ctx, eip_payer = ip_payer ctx,
       eip_alpha_vault = alpha_vault, eip_pool_fees = pc_to_pool_fee_parameters (cf_pool_fees cf),
       eip_sqrt_min_price = cf_sqrt_min_price cf, eip_sqrt_max_price = cf_sqrt_max_price cf,
       eip_activation_type = cf_activation_type cf, eip_collect_fee_mode = cf_collect_fee_mode cf,
       eip_liquidity = in_liquidity params, eip_sqrt_price = in_sqrt_price params,
       eip_activation_point = activation_point,
       eip_token_a_flag = token_program_flags_u8 (get_token_program_flags (ip_token_a_mint ctx)),
       eip_token_b_flag = token_program_flags_u8 (get_token_program_flags (ip_token_b_mint ctx)),
       eip_token_a_amount = token_a_amount, eip_token_b_amount = token_b_amount,
       eip_total_amount_a = total_amount_a, eip_total_amount_b = total_amount_b,
       eip_pool_type = pool_type_u8 Permissionless \<rparr>"

text \<open>The same event of the two instructions that take the parameters of the creator.\<close>

definition emit_initialize_customizable_pool ::
  "initialize_pool_ctx \<Rightarrow> initialize_customizable_pool_parameters \<Rightarrow> u64 \<Rightarrow> pubkey \<Rightarrow> u64 \<Rightarrow> u64 \<Rightarrow> u64 \<Rightarrow> u64 \<Rightarrow> event" where
  "emit_initialize_customizable_pool ctx params activation_point alpha_vault token_a_amount token_b_amount
     total_amount_a total_amount_b = EvtInitializePool
     \<lparr> eip_pool = ip_pool_key ctx, eip_token_a_mint = mint_key (ip_token_a_mint ctx),
       eip_token_b_mint = mint_key (ip_token_b_mint ctx), eip_creator = ip_creator ctx, eip_payer = ip_payer ctx,
       eip_alpha_vault = alpha_vault, eip_pool_fees = ic_pool_fees params,
       eip_sqrt_min_price = ic_sqrt_min_price params, eip_sqrt_max_price = ic_sqrt_max_price params,
       eip_activation_type = ic_activation_type params, eip_collect_fee_mode = ic_collect_fee_mode params,
       eip_liquidity = ic_liquidity params, eip_sqrt_price = ic_sqrt_price params,
       eip_activation_point = activation_point,
       eip_token_a_flag = token_program_flags_u8 (get_token_program_flags (ip_token_a_mint ctx)),
       eip_token_b_flag = token_program_flags_u8 (get_token_program_flags (ip_token_b_mint ctx)),
       eip_token_a_amount = token_a_amount, eip_token_b_amount = token_b_amount,
       eip_total_amount_a = total_amount_a, eip_total_amount_b = total_amount_b,
       eip_pool_type = pool_type_u8 Customizable \<rparr>"

section \<open>Swaps and liquidity\<close>

definition trade_direction_u8 :: "trade_direction \<Rightarrow> u8" where
  "trade_direction_u8 d = (case d of AtoB \<Rightarrow> 0 | BtoA \<Rightarrow> 1)"

definition emit_swap :: "environment \<Rightarrow> pubkey \<Rightarrow> swap_ctx \<Rightarrow> swap_parameters \<Rightarrow> swap_result \<Rightarrow> u64 \<Rightarrow> event" where
  "emit_swap env pool_key ctx params sr transfer_fee_excluded_amount_in = EvtSwap
     \<lparr> esw_pool = pool_key, esw_trade_direction = trade_direction_u8 (get_trade_direction ctx),
       esw_has_referral = (sc_referral_token_account ctx \<noteq> None), esw_params = params, esw_swap_result = sr,
       esw_actual_amount_in = transfer_fee_excluded_amount_in, esw_current_timestamp = current_time env \<rparr>"

definition emit_add_liquidity ::
  "pubkey \<Rightarrow> liquidity_ctx \<Rightarrow> add_liquidity_parameters \<Rightarrow> modify_liquidity_result \<Rightarrow> u64 \<Rightarrow> u64 \<Rightarrow> event" where
  "emit_add_liquidity position_key ctx params m total_amount_a total_amount_b = EvtAddLiquidity
     \<lparr> eal_pool = lc_pool_key ctx, eal_position = position_key, eal_owner = lc_owner ctx, eal_params = params,
       eal_token_a_amount = ml_token_a_amount m, eal_token_b_amount = ml_token_b_amount m,
       eal_total_amount_a = total_amount_a, eal_total_amount_b = total_amount_b \<rparr>"

definition emit_remove_liquidity ::
  "pubkey \<Rightarrow> liquidity_ctx \<Rightarrow> u128 \<Rightarrow> u64 \<Rightarrow> u64 \<Rightarrow> modify_liquidity_result \<Rightarrow> event" where
  "emit_remove_liquidity position_key ctx liquidity_delta token_a_amount_threshold token_b_amount_threshold m =
     EvtRemoveLiquidity
     \<lparr> erl_pool = lc_pool_key ctx, erl_position = position_key, erl_owner = lc_owner ctx,
       erl_params = \<lparr> rl_liquidity_delta = liquidity_delta,
         rl_token_a_amount_threshold = token_a_amount_threshold,
         rl_token_b_amount_threshold = token_b_amount_threshold \<rparr>,
       erl_token_a_amount = ml_token_a_amount m, erl_token_b_amount = ml_token_b_amount m \<rparr>"

definition emit_claim_position_fee :: "pubkey \<Rightarrow> liquidity_ctx \<Rightarrow> u64 \<Rightarrow> u64 \<Rightarrow> event" where
  "emit_claim_position_fee position_key ctx fee_a_pending fee_b_pending = EvtClaimPositionFee
     \<lparr> ecf_pool = lc_pool_key ctx, ecf_position = position_key, ecf_owner = lc_owner ctx,
       ecf_fee_a_claimed = fee_a_pending, ecf_fee_b_claimed = fee_b_pending \<rparr>"

section \<open>Positions\<close>

definition emit_create_position :: "create_position_ctx \<Rightarrow> event" where
  "emit_create_position ctx = EvtCreatePosition
     \<lparr> ecp_pool = cp_pool_key ctx, ecp_owner = cp_owner ctx, ecp_position = cp_position_key ctx,
       ecp_position_nft_mint = cp_position_nft_mint ctx \<rparr>"

definition emit_close_position :: "pubkey \<Rightarrow> close_position_ctx \<Rightarrow> event" where
  "emit_close_position position_key ctx = EvtClosePosition
     \<lparr> ezp_pool = cl_pool_key ctx, ezp_owner = cl_owner ctx, ezp_position = position_key,
       ezp_position_nft_mint = cl_position_nft_mint ctx \<rparr>"

definition emit_lock_position :: "lock_position_ctx \<Rightarrow> vesting_parameters \<Rightarrow> u64 \<Rightarrow> event" where
  "emit_lock_position ctx params cliff_point = EvtLockPosition
     \<lparr> elk_pool = lk_pool_key ctx, elk_position = lk_position_key ctx, elk_owner = lk_owner ctx,
       elk_vesting = lk_vesting_key ctx, elk_cliff_point = cliff_point,
       elk_period_frequency = vp_period_frequency params,
       elk_cliff_unlock_liquidity = vp_cliff_unlock_liquidity params,
       elk_liquidity_per_period = vp_liquidity_per_period params,
       elk_number_of_period = vp_number_of_period params \<rparr>"

definition emit_permanent_lock_position :: "pubkey \<Rightarrow> permanent_lock_ctx \<Rightarrow> u128 \<Rightarrow> pool \<Rightarrow> event" where
  "emit_permanent_lock_position position_key ctx permanent_lock p = EvtPermanentLockPosition
     \<lparr> epl_pool = pl_pool_key ctx, epl_position = position_key, epl_lock_liquidity_amount = permanent_lock,
       epl_total_permanent_locked_liquidity = pool_permanent_lock_liquidity p \<rparr>"

definition emit_split_position2 ::
  "split_position_ctx \<Rightarrow> split_position_parameters2 \<Rightarrow> pool \<Rightarrow> split_amount_info \<Rightarrow>
   split_position_info \<Rightarrow> split_position_info \<Rightarrow> event" where
  "emit_split_position2 ctx params p amounts first_info second_info = EvtSplitPosition2
     \<lparr> esp_pool = sx_pool_key ctx, esp_first_owner = sx_first_owner ctx, esp_second_owner = sx_second_owner ctx,
       esp_first_position = sx_first_position_key ctx, esp_second_position = sx_second_position_key ctx,
       esp_current_sqrt_price = pool_sqrt_price p, esp_amount_splits = amounts,
       esp_first_position_info = first_info, esp_second_position_info = second_info,
       esp_split_position_parameters = params \<rparr>"

section \<open>Fees, rewards and the status of a pool\<close>

definition emit_claim_protocol_fee :: "pubkey \<Rightarrow> u64 \<Rightarrow> u64 \<Rightarrow> event" where
  "emit_claim_protocol_fee pool_key token_a_amount token_b_amount = EvtClaimProtocolFee
     \<lparr> epf_pool = pool_key, epf_token_a_amount = token_a_amount, epf_token_b_amount = token_b_amount \<rparr>"

definition emit_claim_partner_fee :: "pubkey \<Rightarrow> u64 \<Rightarrow> u64 \<Rightarrow> event" where
  "emit_claim_partner_fee pool_key token_a_amount token_b_amount = EvtClaimPartnerFee
     \<lparr> ept_pool = pool_key, ept_token_a_amount = token_a_amount, ept_token_b_amount = token_b_amount \<rparr>"

definition emit_set_pool_status :: "pubkey \<Rightarrow> u8 \<Rightarrow> event" where
  "emit_set_pool_status pool_key status = EvtSetPoolStatus \<lparr> ess_pool = pool_key, ess_status = status \<rparr>"

definition emit_initialize_reward :: "reward_admin_ctx \<Rightarrow> u8 \<Rightarrow> u64 \<Rightarrow> pubkey \<Rightarrow> event" where
  "emit_initialize_reward ctx reward_index reward_duration funder = EvtInitializeReward
     \<lparr> eir_pool = ra_pool_key ctx, eir_reward_mint = mint_key (ra_reward_mint ctx), eir_funder = funder,
       eir_creator = ra_signer ctx, eir_reward_index = reward_index, eir_reward_duration = reward_duration \<rparr>"

definition emit_fund_reward ::
  "pubkey \<Rightarrow> reward_fund_ctx \<Rightarrow> u8 \<Rightarrow> u64 \<Rightarrow> u64 \<Rightarrow> u128 \<Rightarrow> reward_info \<Rightarrow> event" where
  "emit_fund_reward pool_key ctx reward_index total_amount transfer_fee_excluded_amount_in pre_reward_rate ri =
     EvtFundReward
     \<lparr> efr_pool = pool_key, efr_funder = fd_funder ctx, efr_mint_reward = mint_key (fd_reward_mint ctx),
       efr_reward_index = reward_index, efr_amount = total_amount,
       efr_transfer_fee_excluded_amount_in = transfer_fee_excluded_amount_in,
       efr_reward_duration_end = ri_reward_duration_end ri, efr_pre_reward_rate = pre_reward_rate,
       efr_post_reward_rate = ri_reward_rate ri \<rparr>"

definition emit_claim_reward :: "pubkey \<Rightarrow> claim_reward_ctx \<Rightarrow> u8 \<Rightarrow> u64 \<Rightarrow> event" where
  "emit_claim_reward position_key ctx reward_index total_reward = EvtClaimReward
     \<lparr> ecw_pool = cr_pool_key ctx, ecw_position = position_key, ecw_owner = cr_owner ctx,
       ecw_mint_reward = mint_key (cr_reward_mint ctx), ecw_reward_index = reward_index,
       ecw_total_reward = total_reward \<rparr>"

definition emit_update_reward_duration :: "pubkey \<Rightarrow> u8 \<Rightarrow> u64 \<Rightarrow> u64 \<Rightarrow> event" where
  "emit_update_reward_duration pool_key reward_index old_reward_duration new_reward_duration =
     EvtUpdateRewardDuration
     \<lparr> eud_pool = pool_key, eud_reward_index = reward_index, eud_old_reward_duration = old_reward_duration,
       eud_new_reward_duration = new_reward_duration \<rparr>"

definition emit_update_reward_funder :: "pubkey \<Rightarrow> u8 \<Rightarrow> pubkey \<Rightarrow> pubkey \<Rightarrow> event" where
  "emit_update_reward_funder pool_key reward_index old_funder new_funder = EvtUpdateRewardFunder
     \<lparr> euf_pool = pool_key, euf_reward_index = reward_index, euf_old_funder = old_funder,
       euf_new_funder = new_funder \<rparr>"

definition emit_withdraw_ineligible_reward :: "pubkey \<Rightarrow> reward_fund_ctx \<Rightarrow> u64 \<Rightarrow> event" where
  "emit_withdraw_ineligible_reward pool_key ctx ineligible_reward = EvtWithdrawIneligibleReward
     \<lparr> ewi_pool = pool_key, ewi_reward_mint = mint_key (fd_reward_mint ctx), ewi_amount = ineligible_reward \<rparr>"

lemmas emit_defs =
  emit_create_config_def emit_create_dynamic_config_def emit_close_config_def emit_create_token_badge_def
  emit_create_claim_fee_operator_def emit_close_claim_fee_operator_def emit_first_position_def
  emit_initialize_pool_def emit_initialize_customizable_pool_def trade_direction_u8_def emit_swap_def
  emit_add_liquidity_def emit_remove_liquidity_def emit_claim_position_fee_def emit_create_position_def
  emit_close_position_def emit_lock_position_def emit_permanent_lock_position_def emit_split_position2_def
  emit_claim_protocol_fee_def emit_claim_partner_fee_def emit_set_pool_status_def emit_initialize_reward_def
  emit_fund_reward_def emit_claim_reward_def emit_update_reward_duration_def emit_update_reward_funder_def
  emit_withdraw_ineligible_reward_def

end
