(* ===== verification/Entry.thy ===== *)
theory Entry
  imports PoolSteps Events
begin

text \<open>
  \<open>programs/cp-amm/src/lib.rs\<close>: the entry points of the program, what each writes and what
  it emits. A call names its instruction with the accounts it is given and its arguments.
  An entry point runs its handler, whose errors are its own, and emits the event of the handler;
  the values of the event that the handler computes and does not return are computed again.
\<close>

section \<open>Calls and what they leave behind\<close>

text \<open>The positions and the vault are the accounts that are written or created under their addresses.\<close>

record effect =
  ef_pool :: pool
  ef_positions :: "(pubkey \<times> position option) list"
  ef_vestings :: "pubkey \<Rightarrow> vesting option"
  ef_vault :: "pubkey option"
  ef_transfers :: "transfer list"
  ef_events :: "event list"

datatype admin_instruction =
    InitializeReward reward_admin_ctx u8 u64 pubkey
  | FundReward reward_fund_ctx u8 u64 bool
  | WithdrawIneligibleReward reward_fund_ctx u8
  | UpdateRewardFunder pool pubkey u8 pubkey
  | UpdateRewardDuration pool pubkey u8 u64
  | SetPoolStatus pool pubkey u8
  | ClaimProtocolFee claim_fee_ctx u64 u64
  | ClaimPartnerFee claim_fee_ctx u64 u64

datatype user_instruction =
    CreatePosition create_position_ctx
  | AddLiquidity pubkey liquidity_ctx add_liquidity_parameters
  | RemoveLiquidity pubkey liquidity_ctx remove_liquidity_parameters
  | RemoveAllLiquidity pubkey liquidity_ctx u64 u64
  | ClosePosition pubkey close_position_ctx
  | Swap swap_ctx swap_parameters
  | ClaimPositionFee pubkey liquidity_ctx
  | LockPosition lock_position_ctx vesting_parameters
  | RefreshVesting refresh_vesting_ctx "pubkey list"
  | PermanentLockPosition pubkey permanent_lock_ctx u128
  | ClaimReward pubkey claim_reward_ctx u8 u8
  | SplitPosition split_position_ctx split_position_parameters
  | SplitPosition2 split_position_ctx u32

datatype instruction = Admin admin_instruction | User user_instruction

section \<open>Admins, funders, operators and partners\<close>

definition fund_reward :: "environment \<Rightarrow> pubkey \<Rightarrow> (pubkey \<Rightarrow> vesting option) \<Rightarrow> reward_fund_ctx \<Rightarrow> u8 \<Rightarrow> u64 \<Rightarrow> bool \<Rightarrow> effect result" where
  "fund_reward env key vs ctx reward_index amount carry_forward =
     bindr (handle_fund_reward env ctx reward_index amount carry_forward) (\<lambda>(p, total_amount, trs).
     bindr (calculate_transfer_fee_excluded_amount (fd_reward_mint ctx) amount) (\<lambda>excluded_in.
     bindr (pool_update_rewards (fd_pool ctx) (current_time env)) (\<lambda>updated.
     bindr (arr_get (pool_reward_infos updated) (unat reward_index)) (\<lambda>before.
     bindr (arr_get (pool_reward_infos p) (unat reward_index)) (\<lambda>after.
     Inr \<lparr> ef_pool = p, ef_positions = [], ef_vestings = vs, ef_vault = None, ef_transfers = trs,
       ef_events = [emit_fund_reward key ctx reward_index total_amount (tfa_amount excluded_in)
                      (ri_reward_rate before) after] \<rparr>)))))"

definition withdraw_ineligible_reward :: "environment \<Rightarrow> pubkey \<Rightarrow> (pubkey \<Rightarrow> vesting option) \<Rightarrow> reward_fund_ctx \<Rightarrow> u8 \<Rightarrow> effect result" where
  "withdraw_ineligible_reward env key vs ctx reward_index =
     bindr (handle_withdraw_ineligible_reward env ctx reward_index) (\<lambda>(p, trs).
     bindr (pool_update_rewards (fd_pool ctx) (current_time env)) (\<lambda>updated.
     bindr (claim_ineligible_reward updated (unat reward_index)) (\<lambda>(_, ineligible_reward).
     Inr \<lparr> ef_pool = p, ef_positions = [], ef_vestings = vs, ef_vault = None, ef_transfers = trs,
       ef_events = [emit_withdraw_ineligible_reward key ctx ineligible_reward] \<rparr>)))"

fun dispatch_admin :: "environment \<Rightarrow> pubkey \<Rightarrow> (pubkey \<Rightarrow> vesting option) \<Rightarrow> admin_instruction \<Rightarrow> effect result" where
  "dispatch_admin env key vs (InitializeReward ctx reward_index reward_duration funder) =
     bindr (handle_initialize_reward env ctx reward_index reward_duration funder) (\<lambda>p.
     Inr \<lparr> ef_pool = p, ef_positions = [], ef_vestings = vs, ef_vault = Some (ra_reward_vault ctx), ef_transfers = [],
       ef_events = [emit_initialize_reward ctx reward_index reward_duration funder] \<rparr>)"
| "dispatch_admin env key vs (FundReward ctx reward_index amount carry_forward) =
     fund_reward env key vs ctx reward_index amount carry_forward"
| "dispatch_admin env key vs (WithdrawIneligibleReward ctx reward_index) =
     withdraw_ineligible_reward env key vs ctx reward_index"
| "dispatch_admin env key vs (UpdateRewardFunder p signer reward_index new_funder) =
     bindr (handle_update_reward_funder p signer reward_index new_funder) (\<lambda>p'.
     bindr (arr_get (pool_reward_infos p) (unat reward_index)) (\<lambda>reward_info.
     Inr \<lparr> ef_pool = p', ef_positions = [], ef_vestings = vs, ef_vault = None, ef_transfers = [],
       ef_events = [emit_update_reward_funder key reward_index (ri_funder reward_info) new_funder] \<rparr>))"
| "dispatch_admin env key vs (UpdateRewardDuration p signer reward_index new_duration) =
     bindr (handle_update_reward_duration env p signer reward_index new_duration) (\<lambda>p'.
     bindr (arr_get (pool_reward_infos p) (unat reward_index)) (\<lambda>reward_info.
     Inr \<lparr> ef_pool = p', ef_positions = [], ef_vestings = vs, ef_vault = None, ef_transfers = [],
       ef_events = [emit_update_reward_duration key reward_index (ri_reward_duration reward_info) new_duration] \<rparr>))"
| "dispatch_admin env key vs (SetPoolStatus p admin status) =
     bindr (handle_set_pool_status p admin status) (\<lambda>p'.
     Inr \<lparr> ef_pool = p', ef_positions = [], ef_vestings = vs, ef_vault = None, ef_transfers = [],
       ef_events = [emit_set_pool_status key status] \<rparr>)"
| "dispatch_admin env key vs (ClaimProtocolFee ctx max_amount_a max_amount_b) =
     bindr (handle_claim_protocol_fee env ctx max_amount_a max_amount_b) (\<lambda>(p, trs).
     bindr (claim_protocol_fee (cc_pool ctx) max_amount_a max_amount_b) (\<lambda>(_, token_a_amount, token_b_amount).
     Inr \<lparr> ef_pool = p, ef_positions = [], ef_vestings = vs, ef_vault = None, ef_transfers = trs,
       ef_events = [emit_claim_protocol_fee key token_a_amount token_b_amount] \<rparr>))"
| "dispatch_admin env key vs (ClaimPartnerFee ctx max_amount_a max_amount_b) =
     bindr (handle_claim_partner_fee env ctx max_amount_a max_amount_b) (\<lambda>(p, trs).
     bindr (claim_partner_fee (cc_pool ctx) max_amount_a max_amount_b) (\<lambda>(_, token_a_amount, token_b_amount).
     Inr \<lparr> ef_pool = p, ef_positions = [], ef_vestings = vs, ef_vault = None, ef_transfers = trs,
       ef_events = [emit_claim_partner_fee key token_a_amount token_b_amount] \<rparr>))"

section \<open>Users\<close>

definition add_liquidity :: "environment \<Rightarrow> (pubkey \<Rightarrow> vesting option) \<Rightarrow> pubkey \<Rightarrow> liquidity_ctx \<Rightarrow> add_liquidity_parameters \<Rightarrow> effect result" where
  "add_liquidity env vs k ctx params =
     bindr (handle_add_liquidity env ctx params) (\<lambda>(p, pos, trs).
     bindr (get_amounts_for_modify_liquidity (lc_pool ctx) (al_liquidity_delta params) Up) (\<lambda>m.
     bindr (calculate_transfer_fee_included_amount (lc_token_a_mint ctx) (ml_token_a_amount m)) (\<lambda>total_a.
     bindr (calculate_transfer_fee_included_amount (lc_token_b_mint ctx) (ml_token_b_amount m)) (\<lambda>total_b.
     Inr \<lparr> ef_pool = p, ef_positions = [(k, Some pos)], ef_vestings = vs, ef_vault = None, ef_transfers = trs,
       ef_events = [emit_add_liquidity k ctx params m (tfa_amount total_a) (tfa_amount total_b)] \<rparr>))))"

definition remove_liquidity ::
  "environment \<Rightarrow> (pubkey \<Rightarrow> vesting option) \<Rightarrow> pubkey \<Rightarrow> liquidity_ctx \<Rightarrow> u128 option \<Rightarrow> u64 \<Rightarrow> u64 \<Rightarrow> effect result" where
  "remove_liquidity env vs k ctx liquidity_delta0 token_a_amount_threshold token_b_amount_threshold =
     bindr (handle_remove_liquidity env ctx liquidity_delta0 token_a_amount_threshold token_b_amount_threshold)
       (\<lambda>(p, pos, trs).
     let liquidity_delta = (case liquidity_delta0 of Some d \<Rightarrow> d | None \<Rightarrow> pos_unlocked_liquidity (lc_position ctx)) in
     bindr (get_amounts_for_modify_liquidity (lc_pool ctx) liquidity_delta Down) (\<lambda>m.
     Inr \<lparr> ef_pool = p, ef_positions = [(k, Some pos)], ef_vestings = vs, ef_vault = None, ef_transfers = trs,
       ef_events = [emit_remove_liquidity k ctx liquidity_delta token_a_amount_threshold token_b_amount_threshold m] \<rparr>))"

definition swap :: "environment \<Rightarrow> pubkey \<Rightarrow> (pubkey \<Rightarrow> vesting option) \<Rightarrow> swap_ctx \<Rightarrow> swap_parameters \<Rightarrow> effect result" where
  "swap env key vs ctx params =
     bindr (handle_swap env ctx params) (\<lambda>(p, sr, trs).
     bindr (calculate_transfer_fee_excluded_amount (mint_in ctx) (sp_amount_in params)) (\<lambda>excluded_in.
     Inr \<lparr> ef_pool = p, ef_positions = [], ef_vestings = vs, ef_vault = None, ef_transfers = trs,
       ef_events = [emit_swap env key ctx params sr (tfa_amount excluded_in)] \<rparr>))"

definition claim_position_fee :: "environment \<Rightarrow> (pubkey \<Rightarrow> vesting option) \<Rightarrow> pubkey \<Rightarrow> liquidity_ctx \<Rightarrow> effect result" where
  "claim_position_fee env vs k ctx =
     bindr (handle_claim_position_fee env ctx) (\<lambda>(pos, trs).
     bindr (update_fee (lc_position ctx) (pool_fee_a_per_liquidity (lc_pool ctx))
              (pool_fee_b_per_liquidity (lc_pool ctx))) (\<lambda>updated.
     Inr \<lparr> ef_pool = lc_pool ctx, ef_positions = [(k, Some pos)], ef_vestings = vs, ef_vault = None, ef_transfers = trs,
       ef_events = [emit_claim_position_fee k ctx (pos_fee_a_pending updated) (pos_fee_b_pending updated)] \<rparr>))"

definition lock_position :: "environment \<Rightarrow> (pubkey \<Rightarrow> vesting option) \<Rightarrow> lock_position_ctx \<Rightarrow> vesting_parameters \<Rightarrow> effect result" where
  "lock_position env vs ctx params =
     bindr (handle_lock_position env vs ctx params) (\<lambda>(pos, vs').
     bindr (get_current_point (env_clock env) (pool_activation_type (lk_pool ctx))) (\<lambda>current_point.
     Inr \<lparr> ef_pool = lk_pool ctx, ef_positions = [(lk_position_key ctx, Some pos)], ef_vestings = vs',
       ef_vault = None, ef_transfers = [],
       ef_events = [emit_lock_position ctx params (get_cliff_point params current_point)] \<rparr>))"

definition claim_reward :: "environment \<Rightarrow> (pubkey \<Rightarrow> vesting option) \<Rightarrow> pubkey \<Rightarrow> claim_reward_ctx \<Rightarrow> u8 \<Rightarrow> u8 \<Rightarrow> effect result" where
  "claim_reward env vs k ctx reward_index skip_reward =
     bindr (handle_claim_reward env ctx reward_index skip_reward) (\<lambda>(p, pos, trs).
     bindr (pos_update_rewards (cr_position ctx) (cr_pool ctx) (current_time env)) (\<lambda>(updated, _).
     bindr (pos_claim_reward updated (unat reward_index)) (\<lambda>(_, total_reward).
     Inr \<lparr> ef_pool = p, ef_positions = [(k, Some pos)], ef_vestings = vs, ef_vault = None, ef_transfers = trs,
       ef_events = [emit_claim_reward k ctx reward_index total_reward] \<rparr>)))"

text \<open>The common end of the two split instructions.\<close>

definition splitted ::
  "(pubkey \<Rightarrow> vesting option) \<Rightarrow> split_position_ctx \<Rightarrow> split_position_parameters2 \<Rightarrow>
   pool \<times> position \<times> position \<times> split_amount_info \<times> split_position_info \<times> split_position_info \<Rightarrow> effect" where
  "splitted vs ctx params = (\<lambda>(p, first_position, second_position, amounts, first_info, second_info).
     \<lparr> ef_pool = p, ef_positions = [(sx_first_position_key ctx, Some first_position),
         (sx_second_position_key ctx, Some second_position)], ef_vestings = vs, ef_vault = None, ef_transfers = [],
       ef_events = [emit_split_position2 ctx params p amounts first_info second_info] \<rparr>)"

fun dispatch_user :: "environment \<Rightarrow> pubkey \<Rightarrow> (pubkey \<Rightarrow> vesting option) \<Rightarrow> user_instruction \<Rightarrow> effect result" where
  "dispatch_user env key vs (CreatePosition ctx) =
     bindr (handle_create_position env ctx) (\<lambda>(p, pos, nft).
     Inr \<lparr> ef_pool = p, ef_positions = [(cp_position_key ctx, Some pos)], ef_vestings = vs, ef_vault = None,
       ef_transfers = [], ef_events = [emit_create_position ctx] \<rparr>)"
| "dispatch_user env key vs (AddLiquidity k ctx params) = add_liquidity env vs k ctx params"
| "dispatch_user env key vs (RemoveLiquidity k ctx params) =
     remove_liquidity env vs k ctx (Some (rl_liquidity_delta params))
       (rl_token_a_amount_threshold params) (rl_token_b_amount_threshold params)"
| "dispatch_user env key vs (RemoveAllLiquidity k ctx token_a_amount_threshold token_b_amount_threshold) =
     remove_liquidity env vs k ctx None token_a_amount_threshold token_b_amount_threshold"
| "dispatch_user env key vs (ClosePosition k ctx) =
     bindr (handle_close_position env ctx) (\<lambda>(p, nft).
     Inr \<lparr> ef_pool = p, ef_positions = [(k, None)], ef_vestings = vs, ef_vault = None,
       ef_transfers = [], ef_events = [emit_close_position k ctx] \<rparr>)"
| "dispatch_user env key vs (Swap ctx params) = swap env key vs ctx params"
| "dispatch_user env key vs (ClaimPositionFee k ctx) = claim_position_fee env vs k ctx"
| "dispatch_user env key vs (LockPosition ctx params) = lock_position env vs ctx params"
| "dispatch_user env key vs (RefreshVesting ctx remaining_accounts) =
     bindr (handle_refresh_vesting env vs ctx remaining_accounts) (\<lambda>(vs', pos).
     Inr \<lparr> ef_pool = rv_pool ctx, ef_positions = [(rv_position_key ctx, Some pos)], ef_vestings = vs',
       ef_vault = None, ef_transfers = [], ef_events = [] \<rparr>)"
| "dispatch_user env key vs (PermanentLockPosition k ctx permanent_lock) =
     bindr (handle_permanent_lock_position env ctx permanent_lock) (\<lambda>(p, pos).
     Inr \<lparr> ef_pool = p, ef_positions = [(k, Some pos)], ef_vestings = vs, ef_vault = None,
       ef_transfers = [], ef_events = [emit_permanent_lock_position k ctx permanent_lock p] \<rparr>)"
| "dispatch_user env key vs (ClaimReward k ctx reward_index skip_reward) =
     claim_reward env vs k ctx reward_index skip_reward"
| "dispatch_user env key vs (SplitPosition ctx params) =
     bindr (split_position env ctx params) (\<lambda>done.
     bindr (get_split_position_parameters2 params) (\<lambda>params2.
     Inr (splitted vs ctx params2 done)))"
| "dispatch_user env key vs (SplitPosition2 ctx numerator) =
     bindr (split_position2 env ctx numerator) (\<lambda>done.
     Inr (splitted vs ctx
       \<lparr> s2_unlocked_liquidity_numerator = numerator, s2_permanent_locked_liquidity_numerator = numerator,
         s2_fee_a_numerator = numerator, s2_fee_b_numerator = numerator,
         s2_reward_0_numerator = numerator, s2_reward_1_numerator = numerator \<rparr> done))"

fun dispatch :: "environment \<Rightarrow> pubkey \<Rightarrow> (pubkey \<Rightarrow> vesting option) \<Rightarrow> instruction \<Rightarrow> effect result" where
  "dispatch env key vs (Admin ix) = dispatch_admin env key vs ix"
| "dispatch env key vs (User ix) = dispatch_user env key vs ix"

section \<open>Opening a pool\<close>

text \<open>
  The three instructions that open a pool: the pool, its first position, the NFT of the position, the
  first deposit, and the two events.
\<close>

definition initialize_pool ::
  "environment \<Rightarrow> initialize_pool_ctx \<Rightarrow> initialize_pool_parameters \<Rightarrow>
   (pool \<times> position \<times> nft_effect list \<times> transfer list \<times> event list) result" where
  "initialize_pool env ctx params =
     (let cf = ip_config ctx in
     bindr (handle_initialize_pool env ctx params) (\<lambda>(p, pos, nft, trs).
     bindr (get_initialize_amounts (cf_sqrt_min_price cf) (cf_sqrt_max_price cf) (in_sqrt_price params)
              (in_liquidity params)) (\<lambda>(token_a_amount, token_b_amount).
     bindr (calculate_transfer_fee_included_amount (ip_token_a_mint ctx) token_a_amount) (\<lambda>total_a.
     bindr (calculate_transfer_fee_included_amount (ip_token_b_mint ctx) token_b_amount) (\<lambda>total_b.
     Inr (p, pos, nft, trs,
       [emit_first_position ctx,
        emit_initialize_pool ctx cf params (pool_activation_point p) (pool_whitelisted_vault p)
          token_a_amount token_b_amount (tfa_amount total_a) (tfa_amount total_b)]))))))"

definition initialize_customizable_pool ::
  "environment \<Rightarrow> initialize_pool_ctx \<Rightarrow> initialize_customizable_pool_parameters \<Rightarrow>
   (pool \<times> position \<times> nft_effect list \<times> transfer list \<times> event list) result" where
  "initialize_customizable_pool env ctx params =
     bindr (handle_initialize_customizable_pool env ctx params) (\<lambda>(p, pos, nft, trs).
     bindr (get_initialize_amounts (ic_sqrt_min_price params) (ic_sqrt_max_price params) (ic_sqrt_price params)
              (ic_liquidity params)) (\<lambda>(token_a_amount, token_b_amount).
     bindr (calculate_transfer_fee_included_amount (ip_token_a_mint ctx) token_a_amount) (\<lambda>total_a.
     bindr (calculate_transfer_fee_included_amount (ip_token_b_mint ctx) token_b_amount) (\<lambda>total_b.
     Inr (p, pos, nft, trs,
       [emit_first_position ctx,
        emit_initialize_customizable_pool ctx params (pool_activation_point p) (pool_whitelisted_vault p)
          token_a_amount token_b_amount (max (tfa_amount total_a) 1) (max (tfa_amount total_b) 1)])))))"

definition initialize_pool_with_dynamic_config ::
  "environment \<Rightarrow> initialize_pool_ctx \<Rightarrow> initialize_customizable_pool_parameters \<Rightarrow>
   (pool \<times> position \<times> nft_effect list \<times> transfer list \<times> event list) result" where
  "initialize_pool_with_dynamic_config env ctx params =
     bindr (handle_initialize_pool_with_dynamic_config env ctx params) (\<lambda>(p, pos, nft, trs).
     bindr (get_initialize_amounts (ic_sqrt_min_price params) (ic_sqrt_max_price params) (ic_sqrt_price params)
              (ic_liquidity params)) (\<lambda>(token_a_amount, token_b_amount).
     bindr (calculate_transfer_fee_included_amount (ip_token_a_mint ctx) token_a_amount) (\<lambda>total_a.
     bindr (calculate_transfer_fee_included_amount (ip_token_b_mint ctx) token_b_amount) (\<lambda>total_b.
     Inr (p, pos, nft, trs,
       [emit_first_position ctx,
        emit_initialize_customizable_pool ctx params (pool_activation_point p) (pool_whitelisted_vault p)
          token_a_amount token_b_amount (tfa_amount total_a) (tfa_amount total_b)])))))"

section \<open>Emitting never fails\<close>

text \<open>
  The values computed again are those of the handler, so an entry point succeeds exactly when its
  handler does: no call fails only because of its event.
\<close>

lemma amounts_after_update:
  assumes "pos_update_rewards pos p now = Inr (pos', p')"
  shows "get_amounts_for_modify_liquidity p' d rnd = get_amounts_for_modify_liquidity p d rnd"
  by (rule pos_update_rewards_frame [OF assms]) (simp add: get_amounts_for_modify_liquidity_def)

lemma point_of_vesting:
  "get_current_point_and_max_vesting_duration clk t = Inr (point, d) \<Longrightarrow> get_current_point clk t = Inr point"
  by (auto simp: get_current_point_and_max_vesting_duration_def get_current_point_def bindr_eq_Inr
      split: if_splits activation_type.splits)

lemma add_liquidity_emits:
  assumes "handle_add_liquidity env ctx params = Inr r"
  obtains e where "add_liquidity env vs k ctx params = Inr e"
proof -
  obtain p pos trs where r: "r = (p, pos, trs)" by (cases r)
  show ?thesis
    using assms unfolding r
    by (rule handle_add_liquidity_frame) (use that assms r in \<open>simp add: add_liquidity_def amounts_after_update\<close>)
qed

lemma remove_liquidity_emits:
  assumes "handle_remove_liquidity env ctx d ma mb = Inr r"
  obtains e where "remove_liquidity env vs k ctx d ma mb = Inr e"
proof -
  obtain p pos trs where r: "r = (p, pos, trs)" by (cases r)
  show ?thesis
    using assms unfolding r
    by (rule handle_remove_liquidity_frame) (use that assms r in \<open>simp add: remove_liquidity_def amounts_after_update Let_def\<close>)
qed

lemma fund_reward_emits:
  assumes "handle_fund_reward env ctx i amount carry = Inr r"
  obtains e where "fund_reward env key vs ctx i amount carry = Inr e"
proof -
  have "unat i < 2"
    using assms by (auto simp: handle_fund_reward_def fund_reward_validate_def bindr_eq_Inr require_eq_Inr NUM_REWARDS_def Let_def)
  then have at: "\<exists>x. arr_get a (unat i) = (Inr x :: reward_info result)" for a by (cases a) auto
  obtain p total trs where r: "r = (p, total, trs)" by (cases r)
  obtain after where "arr_get (pool_reward_infos p) (unat i) = (Inr after :: reward_info result)" using at by blast
  then show ?thesis
    using that assms unfolding r
    by (auto simp: fund_reward_def handle_fund_reward_def Let_def bindr_eq_Inr simp del: bindr_assoc)
qed

lemma other_calls_emit:
  "handle_withdraw_ineligible_reward env fctx i = Inr r1 \<Longrightarrow> \<exists>e. withdraw_ineligible_reward env key vs fctx i = Inr e"
  "handle_swap env sctx sparams = Inr r2 \<Longrightarrow> \<exists>e. swap env key vs sctx sparams = Inr e"
  "handle_claim_position_fee env lctx = Inr r3 \<Longrightarrow> \<exists>e. claim_position_fee env vs k lctx = Inr e"
  "handle_lock_position env vs lkctx vparams = Inr r4 \<Longrightarrow> \<exists>e. lock_position env vs lkctx vparams = Inr e"
  "handle_claim_reward env cctx i skip = Inr r5 \<Longrightarrow> \<exists>e. claim_reward env vs k cctx i skip = Inr e"
proof -
  show "\<exists>e. withdraw_ineligible_reward env key vs fctx i = Inr e" if h: "handle_withdraw_ineligible_reward env fctx i = Inr r1"
  proof -
    obtain p c where "pool_update_rewards (fd_pool fctx) (current_time env) = Inr p"
      and "claim_ineligible_reward p (unat i) = Inr c"
      using h by (auto simp: handle_withdraw_ineligible_reward_def bindr_eq_Inr Let_def)
    then show ?thesis using h by (cases r1; cases c) (simp add: withdraw_ineligible_reward_def)
  qed
  show "handle_swap env sctx sparams = Inr r2 \<Longrightarrow> \<exists>e. swap env key vs sctx sparams = Inr e"
    by (cases r2; cases "get_trade_direction sctx")
      (auto simp: swap_def handle_swap_def mint_in_def bindr_eq_Inr Let_def)
  show "\<exists>e. claim_position_fee env vs k lctx = Inr e" if h: "handle_claim_position_fee env lctx = Inr r3"
  proof -
    obtain pos where "update_fee (lc_position lctx) (pool_fee_a_per_liquidity (lc_pool lctx))
        (pool_fee_b_per_liquidity (lc_pool lctx)) = Inr pos"
      using h by (auto simp: handle_claim_position_fee_def bindr_eq_Inr)
    then show ?thesis using h by (cases r3) (simp add: claim_position_fee_def)
  qed
  show "handle_lock_position env vs lkctx vparams = Inr r4 \<Longrightarrow> \<exists>e. lock_position env vs lkctx vparams = Inr e"
    by (auto simp: lock_position_def handle_lock_position_def bindr_eq_Inr Let_def point_of_vesting)
  show "\<exists>e. claim_reward env vs k cctx i skip = Inr e" if h: "handle_claim_reward env cctx i skip = Inr r5"
  proof -
    obtain u c where "pos_update_rewards (cr_position cctx) (cr_pool cctx) (current_time env) = Inr u"
      and "pos_claim_reward (fst u) (unat i) = Inr c"
      using h by (force simp: handle_claim_reward_def bindr_eq_Inr Let_def)
    then show ?thesis using h by (cases r5; cases u; cases c) (simp add: claim_reward_def)
  qed
qed

lemma opening_emits:
  "handle_initialize_pool env ctx params = Inr (p, pos, nft, trs) \<Longrightarrow>
     \<exists>evs. initialize_pool env ctx params = Inr (p, pos, nft, trs, evs)"
  "handle_initialize_customizable_pool env ctx cparams = Inr (p, pos, nft, trs) \<Longrightarrow>
     \<exists>evs. initialize_customizable_pool env ctx cparams = Inr (p, pos, nft, trs, evs)"
  "handle_initialize_pool_with_dynamic_config env ctx cparams = Inr (p, pos, nft, trs) \<Longrightarrow>
     \<exists>evs. initialize_pool_with_dynamic_config env ctx cparams = Inr (p, pos, nft, trs, evs)"
  by (auto simp: initialize_pool_def handle_initialize_pool_def initialize_customizable_pool_def
      handle_initialize_customizable_pool_def initialize_pool_with_dynamic_config_def
      handle_initialize_pool_with_dynamic_config_def open_customizable_pool_def bindr_eq_Inr Let_def)

end
