(* ===== verification/EventLog.thy ===== *)
theory EventLog
  imports Entry
begin

text \<open>
  A pool called through its entry points: what a transaction needs to go through, that it is then a
  step of \<open>PoolWorld\<close>, and the log of everything the program has emitted.
\<close>

section \<open>A call in the world\<close>

text \<open>
  The accounts of a call are those of the world, under the address \<open>key\<close> of the pool; its signers are
  not the pool authority, which has no key. These are the premises of the steps of \<open>PoolWorld\<close>.
\<close>

fun admin_loads :: "chain \<Rightarrow> (pubkey \<Rightarrow> mint_account) \<Rightarrow> pubkey \<Rightarrow> world \<Rightarrow> admin_instruction \<Rightarrow> bool" where
  "admin_loads ch mints key w (InitializeReward ctx i duration funder) \<longleftrightarrow>
     ra_pool_key ctx = key \<and> ra_pool ctx = w_pool w \<and>
     (w_tokens w (ra_reward_vault ctx) \<noteq> None \<longrightarrow> ra_reward_vault_exists ctx) \<and>
     ch_owner ch (ra_reward_vault ctx) = ch_pool_authority ch"
| "admin_loads ch mints key w (FundReward ctx i amount carry) \<longleftrightarrow>
     fd_pool ctx = w_pool w \<and> fd_funder ctx \<noteq> ch_pool_authority ch \<and> sees mints (fd_reward_mint ctx)"
| "admin_loads ch mints key w (WithdrawIneligibleReward ctx i) \<longleftrightarrow> fd_pool ctx = w_pool w"
| "admin_loads ch mints key w (UpdateRewardFunder p signer i funder) \<longleftrightarrow> p = w_pool w"
| "admin_loads ch mints key w (UpdateRewardDuration p signer i duration) \<longleftrightarrow> p = w_pool w"
| "admin_loads ch mints key w (SetPoolStatus p admin status) \<longleftrightarrow> p = w_pool w"
| "admin_loads ch mints key w (ClaimProtocolFee ctx ma mb) \<longleftrightarrow> cc_pool ctx = w_pool w"
| "admin_loads ch mints key w (ClaimPartnerFee ctx ma mb) \<longleftrightarrow> cc_pool ctx = w_pool w"

definition liquidity_loads :: "pubkey \<Rightarrow> world \<Rightarrow> pubkey \<Rightarrow> liquidity_ctx \<Rightarrow> bool" where
  "liquidity_loads key w k ctx \<longleftrightarrow>
     lc_pool_key ctx = key \<and> lc_pool ctx = w_pool w \<and> w_positions w k = Some (lc_position ctx)"

definition split_loads :: "pubkey \<Rightarrow> world \<Rightarrow> split_position_ctx \<Rightarrow> bool" where
  "split_loads key w ctx \<longleftrightarrow> sx_pool_key ctx = key \<and> sx_pool ctx = w_pool w \<and>
     w_positions w (sx_first_position_key ctx) = Some (sx_first_position ctx) \<and>
     w_positions w (sx_second_position_key ctx) = Some (sx_second_position ctx)"

fun user_loads :: "chain \<Rightarrow> (pubkey \<Rightarrow> mint_account) \<Rightarrow> pubkey \<Rightarrow> world \<Rightarrow> user_instruction \<Rightarrow> bool" where
  "user_loads ch mints key w (CreatePosition ctx) \<longleftrightarrow> cp_pool_key ctx = key \<and> cp_pool ctx = w_pool w \<and>
     (w_positions w (cp_position_key ctx) \<noteq> None \<longrightarrow> cp_accounts_exist ctx)"
| "user_loads ch mints key w (AddLiquidity k ctx params) \<longleftrightarrow> liquidity_loads key w k ctx \<and>
     lc_owner ctx \<noteq> ch_pool_authority ch \<and> sees mints (lc_token_a_mint ctx) \<and> sees mints (lc_token_b_mint ctx)"
| "user_loads ch mints key w (RemoveLiquidity k ctx params) \<longleftrightarrow> liquidity_loads key w k ctx"
| "user_loads ch mints key w (RemoveAllLiquidity k ctx a b) \<longleftrightarrow> liquidity_loads key w k ctx"
| "user_loads ch mints key w (ClosePosition k ctx) \<longleftrightarrow>
     cl_pool_key ctx = key \<and> cl_pool ctx = w_pool w \<and> w_positions w k = Some (cl_position ctx)"
| "user_loads ch mints key w (Swap ctx params) \<longleftrightarrow>
     sc_pool ctx = w_pool w \<and> sc_payer ctx \<noteq> ch_pool_authority ch \<and> sees mints (mint_in ctx)"
| "user_loads ch mints key w (ClaimPositionFee k ctx) \<longleftrightarrow> liquidity_loads key w k ctx"
| "user_loads ch mints key w (LockPosition ctx params) \<longleftrightarrow> lk_pool_key ctx = key \<and> lk_pool ctx = w_pool w \<and>
     w_positions w (lk_position_key ctx) = Some (lk_position ctx)"
| "user_loads ch mints key w (RefreshVesting ctx accounts) \<longleftrightarrow> rv_pool ctx = w_pool w \<and>
     w_positions w (rv_position_key ctx) = Some (rv_position ctx)"
| "user_loads ch mints key w (PermanentLockPosition k ctx l) \<longleftrightarrow>
     pl_pool_key ctx = key \<and> pl_pool ctx = w_pool w \<and> w_positions w k = Some (pl_position ctx)"
| "user_loads ch mints key w (ClaimReward k ctx i skip) \<longleftrightarrow>
     cr_pool_key ctx = key \<and> cr_pool ctx = w_pool w \<and> w_positions w k = Some (cr_position ctx)"
| "user_loads ch mints key w (SplitPosition ctx params) \<longleftrightarrow> split_loads key w ctx"
| "user_loads ch mints key w (SplitPosition2 ctx numerator) \<longleftrightarrow> split_loads key w ctx"

fun loads :: "chain \<Rightarrow> (pubkey \<Rightarrow> mint_account) \<Rightarrow> pubkey \<Rightarrow> world \<Rightarrow> instruction \<Rightarrow> bool" where
  "loads ch mints key w (Admin ix) \<longleftrightarrow> admin_loads ch mints key w ix"
| "loads ch mints key w (User ix) \<longleftrightarrow> user_loads ch mints key w ix"

text \<open>The accounts after a call whose transfers have left the balances \<open>b\<close>.\<close>

definition after :: "world \<Rightarrow> effect \<Rightarrow> ledger \<Rightarrow> world" where
  "after w e b = w\<lparr> w_pool := ef_pool e, w_positions := fold (\<lambda>(k, pos) ps. ps(k := pos)) (ef_positions e) (w_positions w),
     w_vestings := ef_vestings e, w_tokens := b \<rparr>"

definition execute ::
  "chain \<Rightarrow> (pubkey \<Rightarrow> mint_account) \<Rightarrow> environment \<Rightarrow> pubkey \<Rightarrow> instruction \<Rightarrow> world \<Rightarrow> (world \<times> event list) option" where
  "execute ch mints env key ix w =
     (if env_pool_authority env = ch_pool_authority ch \<and> loads ch mints key w ix
      then case dispatch env key (w_vestings w) ix of
             Inl _ \<Rightarrow> None
           | Inr e \<Rightarrow>
               (let b = (case ef_vault e of None \<Rightarrow> w_tokens w | Some k \<Rightarrow> (w_tokens w)(k \<mapsto> 0)) in
                map_option (\<lambda>b'. (after w e b', ef_events e)) (run_transfers ch mints (ef_transfers e) b))
      else None)"

lemma executeE:
  assumes "execute ch mints env key ix w = Some (w', evs)"
  obtains e b where "env_pool_authority env = ch_pool_authority ch" and "loads ch mints key w ix"
    and "dispatch env key (w_vestings w) ix = Inr e"
    and "run_transfers ch mints (ef_transfers e)
           (case ef_vault e of None \<Rightarrow> w_tokens w | Some k \<Rightarrow> (w_tokens w)(k \<mapsto> 0)) = Some b"
    and "w' = after w e b" and "evs = ef_events e"
  using assms by (auto simp: execute_def Let_def split: if_splits sum.splits)

section \<open>A call is a step of the pool\<close>

lemma world_same: "w\<lparr> w_pool := w_pool w, w_tokens := b \<rparr> = w\<lparr> w_tokens := b \<rparr>"
  "w\<lparr> w_pool := w_pool w \<rparr> = w" "w\<lparr> w_vestings := w_vestings w \<rparr> = w" "w\<lparr> w_tokens := w_tokens w \<rparr> = w"
  by simp_all

lemma admin_call_step:
  assumes "admin_loads ch mints key w ix" and "dispatch_admin env key (w_vestings w) ix = Inr e"
    and "env_pool_authority env = ch_pool_authority ch"
    and "run_transfers ch mints (ef_transfers e)
           (case ef_vault e of None \<Rightarrow> w_tokens w | Some k \<Rightarrow> (w_tokens w)(k \<mapsto> 0)) = Some b"
  shows "pool_step ch w (after w e b)"
proof (cases ix)
  case (InitializeReward ctx i duration funder)
  then show ?thesis using assms pool_step.initialize_reward [of ctx w env i duration funder _ ch]
    by (auto simp: bindr_eq_Inr after_def)
next
  case (FundReward ctx i amount carry)
  then show ?thesis using assms pool_step.fund_reward [of ctx w ch env i amount carry _ _ _ mints b]
    by (auto simp: fund_reward_def bindr_eq_Inr after_def)
next
  case (WithdrawIneligibleReward ctx i)
  then show ?thesis using assms pool_step.withdraw_ineligible_reward [of ctx w env i _ _ ch mints b]
    by (auto simp: withdraw_ineligible_reward_def bindr_eq_Inr after_def)
next
  case (UpdateRewardFunder p signer i funder)
  then show ?thesis using assms pool_step.update_reward_funder [of w signer i funder _ ch]
    by (auto simp: bindr_eq_Inr after_def)
next
  case (UpdateRewardDuration p signer i duration)
  then show ?thesis using assms pool_step.update_reward_duration [of env w signer i duration _ ch]
    by (auto simp: bindr_eq_Inr after_def)
next
  case (SetPoolStatus p admin status)
  then show ?thesis using assms pool_step.set_pool_status [of w admin status _ ch]
    by (auto simp: bindr_eq_Inr after_def)
next
  case (ClaimProtocolFee ctx ma mb)
  then show ?thesis using assms pool_step.claim_protocol_fee [of env ch ctx w ma mb _ _ mints b]
    by (auto simp: bindr_eq_Inr after_def)
next
  case (ClaimPartnerFee ctx ma mb)
  then show ?thesis using assms pool_step.claim_partner_fee [of env ch ctx w ma mb _ _ mints b]
    by (auto simp: bindr_eq_Inr after_def)
qed

lemma user_call_step:
  assumes "user_loads ch mints key w ix" and "dispatch_user env key (w_vestings w) ix = Inr e"
    and "env_pool_authority env = ch_pool_authority ch"
    and "run_transfers ch mints (ef_transfers e)
           (case ef_vault e of None \<Rightarrow> w_tokens w | Some k \<Rightarrow> (w_tokens w)(k \<mapsto> 0)) = Some b"
  shows "pool_step ch w (after w e b)"
proof (cases ix)
  case (CreatePosition ctx)
  then show ?thesis using assms pool_step.create_position [of ctx w env _ _ _ ch]
    by (auto simp: bindr_eq_Inr after_def)
next
  case (AddLiquidity k ctx params)
  then show ?thesis using assms pool_step.add_liquidity [of env ch ctx w k mints params _ _ _ b]
    by (auto simp: add_liquidity_def liquidity_loads_def bindr_eq_Inr after_def)
next
  case (RemoveLiquidity k ctx params)
  then show ?thesis using assms pool_step.remove_liquidity [of env ch ctx w k "Some (rl_liquidity_delta params)" _ _ _ _ _ mints b]
    by (auto simp: remove_liquidity_def liquidity_loads_def bindr_eq_Inr Let_def after_def)
next
  case (RemoveAllLiquidity k ctx ma mb)
  then show ?thesis using assms pool_step.remove_liquidity [of env ch ctx w k None ma mb _ _ _ mints b]
    by (auto simp: remove_liquidity_def liquidity_loads_def bindr_eq_Inr Let_def after_def)
next
  case (ClosePosition k ctx)
  then show ?thesis using assms pool_step.close_position [of ctx w k env _ _ ch]
    by (auto simp: bindr_eq_Inr after_def)
next
  case (Swap ctx params)
  then show ?thesis using assms pool_step.swap [of env ch ctx w mints params _ _ _ b]
    by (auto simp: swap_def bindr_eq_Inr after_def)
next
  case (ClaimPositionFee k ctx)
  then show ?thesis using assms pool_step.claim_position_fee [of env ch ctx w k _ _ mints b]
    by (auto simp: claim_position_fee_def liquidity_loads_def bindr_eq_Inr after_def)
next
  case (LockPosition ctx params)
  then show ?thesis using assms pool_step.lock_position [of ctx w env params _ _ ch]
    by (auto simp: lock_position_def bindr_eq_Inr after_def)
next
  case (RefreshVesting ctx accounts)
  then show ?thesis using assms pool_step.refresh_vesting [of ctx w env accounts _ _ ch]
    by (auto simp: bindr_eq_Inr after_def)
next
  case (PermanentLockPosition k ctx l)
  then show ?thesis using assms pool_step.permanent_lock_position [of ctx w k env l _ _ ch]
    by (auto simp: bindr_eq_Inr after_def)
next
  case (ClaimReward k ctx i skip)
  then show ?thesis using assms pool_step.claim_reward [of ctx w k env i skip _ _ _ ch mints b]
    by (auto simp: claim_reward_def bindr_eq_Inr after_def)
next
  case (SplitPosition ctx params)
  then show ?thesis using assms pool_step.split_position [of ctx w env _ _ _ _ _ ch]
    by (auto simp: split_position_def splitted_def split_loads_def bindr_eq_Inr after_def)
next
  case (SplitPosition2 ctx numerator)
  then show ?thesis using assms pool_step.split_position [of ctx w env _ _ _ _ _ ch]
    by (auto simp: split_position2_def splitted_def split_loads_def bindr_eq_Inr after_def)
qed

lemma execute_step:
  assumes "execute ch mints env key ix w = Some (w', evs)"
  shows "pool_step ch w w'"
  using assms admin_call_step user_call_step by (cases ix; auto elim!: executeE)

section \<open>The log\<close>

inductive log_start :: "chain \<Rightarrow> pubkey \<Rightarrow> world \<Rightarrow> event list \<Rightarrow> bool" for ch key where
  opened: "initialize_pool env ctx params = Inr (p, pos, nft, trs, evs) \<or>
     initialize_pool_with_dynamic_config env ctx cparams = Inr (p, pos, nft, trs, evs) \<or>
     initialize_customizable_pool env ctx cparams = Inr (p, pos, nft, trs, evs) \<Longrightarrow>
     ip_pool_key ctx = key \<Longrightarrow> ip_payer ctx \<noteq> ch_pool_authority ch \<Longrightarrow>
     ta_key (ip_token_a_vault ctx) \<noteq> ta_key (ip_token_b_vault ctx) \<Longrightarrow>
     ch_owner ch (ta_key (ip_token_a_vault ctx)) = ch_pool_authority ch \<Longrightarrow>
     ch_owner ch (ta_key (ip_token_b_vault ctx)) = ch_pool_authority ch \<Longrightarrow>
     sees mints (ip_token_a_mint ctx) \<Longrightarrow> sees mints (ip_token_b_mint ctx) \<Longrightarrow>
     run_transfers ch mints trs (b(ta_key (ip_token_a_vault ctx) \<mapsto> 0, ta_key (ip_token_b_vault ctx) \<mapsto> 0)) = Some b' \<Longrightarrow>
     log_start ch key \<lparr> w_pool = p, w_positions = [ip_position_key ctx \<mapsto> pos], w_vestings = Map.empty, w_tokens = b' \<rparr> evs"

inductive log_step :: "chain \<Rightarrow> pubkey \<Rightarrow> world \<Rightarrow> event list \<Rightarrow> world \<Rightarrow> bool" for ch key where
  call: "execute ch mints env key ix w = Some (w', evs) \<Longrightarrow> log_step ch key w evs w'"
| others: "keeps_accounts ch (ch_pool_authority ch) (w_tokens w) b \<Longrightarrow> log_step ch key w [] (w\<lparr> w_tokens := b \<rparr>)"

abbreviation pool_logged :: "chain \<Rightarrow> pubkey \<Rightarrow> world \<Rightarrow> event list \<Rightarrow> bool" where
  "pool_logged ch key \<equiv> logged (log_start ch key) (log_step ch key)"

lemma log_start_start: "log_start ch key w evs \<Longrightarrow> pool_start ch w"
  by (auto elim!: log_start.cases intro!: pool_start.initialize
      simp: initialize_pool_def initialize_pool_with_dynamic_config_def initialize_customizable_pool_def bindr_eq_Inr Let_def)

lemma log_step_step: "log_step ch key w evs w' \<Longrightarrow> pool_step ch w w'"
  by (auto elim!: log_step.cases intro: execute_step pool_step.elsewhere)

lemma pool_logged_reachable: "pool_logged ch key w evs \<Longrightarrow> pool_reachable ch w"
  by (rule logged_reachable) (assumption, erule log_start_start, erule log_step_step)

section \<open>Every event names its pool\<close>

fun event_pool :: "event \<Rightarrow> pubkey option" where
  "event_pool (EvtInitializePool e) = Some (eip_pool e)"
| "event_pool (EvtAddLiquidity e) = Some (eal_pool e)"
| "event_pool (EvtClaimPositionFee e) = Some (ecf_pool e)"
| "event_pool (EvtCreatePosition e) = Some (ecp_pool e)"
| "event_pool (EvtClosePosition e) = Some (ezp_pool e)"
| "event_pool (EvtRemoveLiquidity e) = Some (erl_pool e)"
| "event_pool (EvtSwap e) = Some (esw_pool e)"
| "event_pool (EvtLockPosition e) = Some (elk_pool e)"
| "event_pool (EvtPermanentLockPosition e) = Some (epl_pool e)"
| "event_pool (EvtClaimProtocolFee e) = Some (epf_pool e)"
| "event_pool (EvtClaimPartnerFee e) = Some (ept_pool e)"
| "event_pool (EvtSetPoolStatus e) = Some (ess_pool e)"
| "event_pool (EvtInitializeReward e) = Some (eir_pool e)"
| "event_pool (EvtFundReward e) = Some (efr_pool e)"
| "event_pool (EvtClaimReward e) = Some (ecw_pool e)"
| "event_pool (EvtUpdateRewardDuration e) = Some (eud_pool e)"
| "event_pool (EvtUpdateRewardFunder e) = Some (euf_pool e)"
| "event_pool (EvtWithdrawIneligibleReward e) = Some (ewi_pool e)"
| "event_pool (EvtSplitPosition2 e) = Some (esp_pool e)"
| "event_pool _ = None"

lemma call_names_pool:
  assumes "loads ch mints key w ix" and "dispatch env key vs ix = Inr e"
  shows "\<forall>ev \<in> set (ef_events e). event_pool ev = Some key"
proof (cases ix)
  case (Admin a)
  then show ?thesis using assms
    by (cases a) (auto simp: fund_reward_def withdraw_ineligible_reward_def emit_defs bindr_eq_Inr)
next
  case (User u)
  then show ?thesis using assms
    by (cases u) (auto simp: add_liquidity_def remove_liquidity_def swap_def claim_position_fee_def lock_position_def
        claim_reward_def splitted_def liquidity_loads_def split_loads_def emit_defs bindr_eq_Inr Let_def)
qed

lemma log_start_names_pool: "log_start ch key w evs \<Longrightarrow> \<forall>ev \<in> set evs. event_pool ev = Some key"
  by (auto elim!: log_start.cases simp: initialize_pool_def initialize_pool_with_dynamic_config_def
      initialize_customizable_pool_def emit_defs bindr_eq_Inr Let_def)

lemma pool_logged_names_pool: "pool_logged ch key w evs \<Longrightarrow> \<forall>ev \<in> set evs. event_pool ev = Some key"
proof (induction rule: logged.induct)
  case (appended w evs evs' w')
  then show ?case using call_names_pool by (auto elim!: log_step.cases executeE)
qed (rule log_start_names_pool)

end
