(* ===== verification/Quote.thy ===== *)
theory Quote
  imports SwapHandler
begin

text \<open>
  \<open>rust-sdk/src/quote.rs\<close>: the quote a client computes off chain. An \<open>ensure!\<close> that fails is
  a \<open>QuoteError\<close> with its message; the \<open>unwrap\<close> of \<open>get_quote\<close> turns every error of the inner
  function into \<open>QuotePanic\<close>.
\<close>

datatype quote_error = QuoteError string | QuotePanic

definition get_internal_quote ::
  "pool \<Rightarrow> u64 \<Rightarrow> u64 \<Rightarrow> u64 \<Rightarrow> bool \<Rightarrow> bool \<Rightarrow> swap_result result" where
  "get_internal_quote p current_timestamp current_slot actual_amount_in a_to_b has_ref =
     bindr (to_activation_type (pool_activation_type p)) (\<lambda>t.
     let current_point = (case t of Slot \<Rightarrow> current_slot | Timestamp \<Rightarrow> current_timestamp) in
     bindr (require (pool_pool_status p = 0 \<and> pool_activation_point p \<le> current_point) (Err PoolDisabled)) (\<lambda>_.
     let direction = (if a_to_b then AtoB else BtoA) in
     bindr (get_fee_mode (pool_collect_fee_mode p) direction has_ref) (\<lambda>fm.
     get_swap_result p actual_amount_in fm direction current_point)))"

definition get_quote ::
  "pool \<Rightarrow> u64 \<Rightarrow> u64 \<Rightarrow> u64 \<Rightarrow> bool \<Rightarrow> bool \<Rightarrow> quote_error + swap_result" where
  "get_quote p current_timestamp current_slot actual_amount_in a_to_b has_ref =
     (if \<not> actual_amount_in > 0 then Inl (QuoteError ''amount is zero'')
      else case get_internal_quote p current_timestamp current_slot actual_amount_in a_to_b has_ref of
             Inl _ \<Rightarrow> Inl QuotePanic
           | Inr r \<Rightarrow> Inr r)"

lemmas quote_eval = get_internal_quote_def get_quote_def swap_handler_eval

section \<open>The quote is what the swap pays\<close>

text \<open>
  The program refreshes the references of the dynamic fee before it computes a swap and the
  quote does not; the fee depends on the accumulator alone, so the two agree.
\<close>

lemma get_swap_result_pre_swap:
  assumes "update_pre_swap p ts = Inr p'"
  shows "get_swap_result p' amount fm d point = get_swap_result p amount fm d point"
proof (cases "is_dynamic_fee_enable (pf_dynamic_fee (pool_fees p))")
  case True
  then obtain df where df: "update_references (pf_dynamic_fee (pool_fees p)) (pool_sqrt_price p) ts = Inr df"
    and p': "p' = p\<lparr> pool_fees := (pool_fees p)\<lparr> pf_dynamic_fee := df \<rparr> \<rparr>"
    using assms by (auto simp: update_pre_swap_def Let_def bindr_eq_Inr)
  have "get_variable_fee df = get_variable_fee (pf_dynamic_fee (pool_fees p))"
    using df by (auto simp: update_references_def bindr_eq_Inr Let_def get_variable_fee_def
        is_dynamic_fee_enable_def split: if_splits)
  then have "get_fee_on_amount (pool_fees p') x r point act partner = get_fee_on_amount (pool_fees p) x r point act partner"
    for x r act partner
    by (simp add: get_fee_on_amount_def get_total_trading_fee_def p' cong: if_cong)
  then show ?thesis
    by (simp add: get_swap_result_def get_swap_result_from_a_to_b_def get_swap_result_from_b_to_a_def
        has_partner_def p' cong: if_cong trade_direction.case_cong)
next
  case False
  then show ?thesis using assms by (simp add: update_pre_swap_def Let_def)
qed

end
