(* ===== verification/Lending.thy ===== *)
theory Lending
  imports SwapHandler Machine
begin

text \<open>
  \<open>programs/lending-pool\<close>: its accounts (\<open>state.rs\<close>) and its four instructions. The swaps are
  calls of the AMM program, so they are \<open>handle_swap\<close> on the accounts the handler passes. The
  program uses the classic token program, which charges no transfer fee: what a transfer
  sends is what arrives. Requested transfers are returned in order; the ones inside a swap are
  those \<open>handle_swap\<close> returns.
\<close>

section \<open>State\<close>

datatype lending_error =
    LendingMathOverflow
  | InsufficientReserves
  | InsufficientCollateral
  | Undercollateralized
  | PositionNotActive
  | LendingUnauthorized
  | InvalidSwapAmount
  | SlippageExceeded
  | PositionHealthy
  | SwapFailed "pool_error failure"

type_synonym 'a lending_result = "lending_error failure + 'a"

record lending_pool =
  lp_authority :: pubkey
  lp_amm_pool :: pubkey
  lp_token_a_mint :: pubkey
  lp_token_b_mint :: pubkey
  lp_token_a_vault :: pubkey
  lp_token_b_vault :: pubkey
  lp_total_reserves :: u64
  lp_total_borrowed :: u64
  lp_active_positions :: u64
  lp_min_collateral_ratio :: u16
  lp_liquidation_threshold :: u16
  lp_protocol_fee_bps :: u16
  lp_protocol_fees :: u64
  lp_bump :: u8

record short_position =
  sh_lending_pool :: pubkey
  sh_owner :: pubkey
  sh_collateral_amount :: u64
  sh_borrowed_amount :: u64
  sh_sol_from_swap :: u64
  sh_entry_sqrt_price :: u128
  sh_opened_at :: u64
  sh_bump :: u8
  sh_status :: u8

definition default_lending_pool :: lending_pool where
  "default_lending_pool = \<lparr> lp_authority = 0, lp_amm_pool = 0, lp_token_a_mint = 0, lp_token_b_mint = 0,
     lp_token_a_vault = 0, lp_token_b_vault = 0, lp_total_reserves = 0, lp_total_borrowed = 0,
     lp_active_positions = 0, lp_min_collateral_ratio = 0, lp_liquidation_threshold = 0,
     lp_protocol_fee_bps = 0, lp_protocol_fees = 0, lp_bump = 0 \<rparr>"

definition lending_pool_initialize ::
  "lending_pool \<Rightarrow> pubkey \<Rightarrow> pubkey \<Rightarrow> pubkey \<Rightarrow> pubkey \<Rightarrow> pubkey \<Rightarrow> pubkey \<Rightarrow> u16 \<Rightarrow> u16 \<Rightarrow> u16 \<Rightarrow> u8 \<Rightarrow> lending_pool" where
  "lending_pool_initialize lp authority amm_pool token_a_mint token_b_mint token_a_vault token_b_vault
     min_collateral_ratio liquidation_threshold protocol_fee_bps bump =
     lp\<lparr> lp_authority := authority, lp_amm_pool := amm_pool, lp_token_a_mint := token_a_mint,
        lp_token_b_mint := token_b_mint, lp_token_a_vault := token_a_vault, lp_token_b_vault := token_b_vault,
        lp_min_collateral_ratio := min_collateral_ratio, lp_liquidation_threshold := liquidation_threshold,
        lp_protocol_fee_bps := protocol_fee_bps, lp_bump := bump, lp_total_reserves := 0,
        lp_total_borrowed := 0, lp_active_positions := 0, lp_protocol_fees := 0 \<rparr>"

definition add_reserves :: "lending_pool \<Rightarrow> u64 \<Rightarrow> lending_pool lending_result" where
  "add_reserves lp amount =
     bindr (ok_or (checked_add (lp_total_reserves lp) amount) (Err LendingMathOverflow)) (\<lambda>x.
     Inr (lp\<lparr> lp_total_reserves := x \<rparr>))"

definition remove_reserves :: "lending_pool \<Rightarrow> u64 \<Rightarrow> lending_pool lending_result" where
  "remove_reserves lp amount =
     bindr (ok_or (checked_sub (lp_total_reserves lp) amount) (Err InsufficientReserves)) (\<lambda>x.
     Inr (lp\<lparr> lp_total_reserves := x \<rparr>))"

definition add_borrowed :: "lending_pool \<Rightarrow> u64 \<Rightarrow> lending_pool lending_result" where
  "add_borrowed lp amount =
     bindr (ok_or (checked_add (lp_total_borrowed lp) amount) (Err LendingMathOverflow)) (\<lambda>x.
     Inr (lp\<lparr> lp_total_borrowed := x \<rparr>))"

definition remove_borrowed :: "lending_pool \<Rightarrow> u64 \<Rightarrow> lending_pool lending_result" where
  "remove_borrowed lp amount =
     bindr (ok_or (checked_sub (lp_total_borrowed lp) amount) (Err LendingMathOverflow)) (\<lambda>x.
     Inr (lp\<lparr> lp_total_borrowed := x \<rparr>))"

definition increment_positions :: "lending_pool \<Rightarrow> lending_pool lending_result" where
  "increment_positions lp =
     bindr (ok_or (checked_add (lp_active_positions lp) 1) (Err LendingMathOverflow)) (\<lambda>x.
     Inr (lp\<lparr> lp_active_positions := x \<rparr>))"

definition decrement_positions :: "lending_pool \<Rightarrow> lending_pool lending_result" where
  "decrement_positions lp =
     bindr (ok_or (checked_sub (lp_active_positions lp) 1) (Err LendingMathOverflow)) (\<lambda>x.
     Inr (lp\<lparr> lp_active_positions := x \<rparr>))"

definition short_initialize ::
  "clock \<Rightarrow> pubkey \<Rightarrow> pubkey \<Rightarrow> u64 \<Rightarrow> u64 \<Rightarrow> u64 \<Rightarrow> u128 \<Rightarrow> u8 \<Rightarrow> short_position" where
  "short_initialize clk l_pool owner collateral_amount borrowed_amount sol_from_swap entry_sqrt_price bump =
     \<lparr> sh_lending_pool = l_pool, sh_owner = owner, sh_collateral_amount = collateral_amount,
       sh_borrowed_amount = borrowed_amount, sh_sol_from_swap = sol_from_swap,
       sh_entry_sqrt_price = entry_sqrt_price, sh_opened_at = clk_unix_timestamp clk, sh_bump = bump,
       sh_status = 0 \<rparr>"

definition get_collateral_ratio :: "short_position \<Rightarrow> u128 \<Rightarrow> u128 lending_result" where
  "get_collateral_ratio sh current_sqrt_price =
     bindr (ok_or (checked_add (sh_collateral_amount sh) (sh_sol_from_swap sh)) (Err LendingMathOverflow)) (\<lambda>total_collateral.
     bindr (ok_or (checked_mul current_sqrt_price 10000) (Err LendingMathOverflow)) (\<lambda>scaled.
     bindr (ok_or (checked_div scaled (sh_entry_sqrt_price sh)) (Err LendingMathOverflow)) (\<lambda>price_ratio.
     bindr (ok_or (checked_mul (ucast (sh_borrowed_amount sh)) price_ratio) (Err LendingMathOverflow)) (\<lambda>value.
     bindr (ok_or (checked_div value 10000) (Err LendingMathOverflow)) (\<lambda>borrowed_value.
     if borrowed_value = 0 then Inr (- 1)
     else bindr (ok_or (checked_mul (ucast total_collateral) 10000) (Err LendingMathOverflow)) (\<lambda>numerator.
          ok_or (checked_div numerator borrowed_value) (Err LendingMathOverflow)))))))"

definition calculate_pnl :: "short_position \<Rightarrow> u64 \<Rightarrow> (u64 \<times> bool) lending_result" where
  "calculate_pnl sh buyback_cost =
     bindr (ok_or (checked_add (sh_collateral_amount sh) (sh_sol_from_swap sh)) (Err LendingMathOverflow)) (\<lambda>total_collateral.
     if buyback_cost > total_collateral
     then bindr (ok_or (checked_sub buyback_cost total_collateral) (Err LendingMathOverflow)) (\<lambda>loss. Inr (loss, False))
     else bindr (ok_or (checked_sub total_collateral buyback_cost) (Err LendingMathOverflow)) (\<lambda>profit. Inr (profit, True)))"

section \<open>Accounts of an instruction\<close>

text \<open>
  \<open>le_pda\<close> derives the addresses of this program, \<open>le_amm\<close> is the environment of the AMM.
  The lending pool signs for transfers out of its vaults with the seeds of the AMM pool it is
  given; the runtime refuses the signature if they do not derive its address.
\<close>

record lending_environment =
  le_amm :: environment
  le_pda :: "string \<Rightarrow> pubkey list \<Rightarrow> pubkey"

record lending_ctx =
  lx_lending_pool_key :: pubkey
  lx_lending_pool :: lending_pool
  lx_user :: pubkey
  lx_payer :: pubkey
  lx_short_position_key :: pubkey
  lx_short_position :: "short_position option"
  lx_amm_pool_key :: pubkey
  lx_amm_pool :: pool
  lx_pool_authority :: pubkey
  lx_token_program :: pubkey
  lx_token_a_mint :: mint_account
  lx_token_b_mint :: mint_account
  lx_amm_token_a_vault :: token_account
  lx_amm_token_b_vault :: token_account
  lx_token_a_vault :: token_account
  lx_token_b_vault :: token_account
  lx_user_token_b_account :: token_account
  lx_temp_token_a_account :: token_account
  lx_temp_exists :: bool
  lx_bump :: u8

text \<open>The accounts of the call \<open>cp_amm::cpi::swap\<close>.\<close>

definition amm_swap_ctx :: "lending_ctx \<Rightarrow> token_account \<Rightarrow> token_account \<Rightarrow> swap_ctx" where
  "amm_swap_ctx ctx input_account output_account =
     \<lparr> sc_pool_authority = lx_pool_authority ctx, sc_pool = lx_amm_pool ctx,
       sc_input_token_account = input_account, sc_output_token_account = output_account,
       sc_token_a_vault = lx_amm_token_a_vault ctx, sc_token_b_vault = lx_amm_token_b_vault ctx,
       sc_token_a_mint = lx_token_a_mint ctx, sc_token_b_mint = lx_token_b_mint ctx,
       sc_payer = lx_lending_pool_key ctx, sc_token_a_program = lx_token_program ctx,
       sc_token_b_program = lx_token_program ctx, sc_referral_token_account = None \<rparr>"

definition amm_swap ::
  "lending_environment \<Rightarrow> lending_ctx \<Rightarrow> token_account \<Rightarrow> token_account \<Rightarrow> u64 \<Rightarrow> u64 \<Rightarrow>
   (pool \<times> swap_result \<times> transfer list) lending_result" where
  "amm_swap le ctx input_account output_account amount_in minimum_amount_out =
     (case handle_swap (le_amm le) (amm_swap_ctx ctx input_account output_account)
             \<lparr> sp_amount_in = amount_in, sp_minimum_amount_out = minimum_amount_out \<rparr> of
        Inl e \<Rightarrow> Inl (Err (SwapFailed e))
      | Inr r \<Rightarrow> Inr r)"

definition signs :: "lending_environment \<Rightarrow> lending_ctx \<Rightarrow> unit lending_result" where
  "signs le ctx =
     check (le_pda le ''lending_pool'' [lx_amm_pool_key ctx] = lx_lending_pool_key ctx) ConstraintSigner"

definition check_lending_vaults :: "lending_environment \<Rightarrow> lending_ctx \<Rightarrow> unit lending_result" where
  "check_lending_vaults le ctx =
     bindr (check (ta_key (lx_token_a_vault ctx) = le_pda le ''token_a_vault'' [lx_lending_pool_key ctx]) ConstraintSeeds) (\<lambda>_.
     check (ta_key (lx_token_b_vault ctx) = le_pda le ''token_b_vault'' [lx_lending_pool_key ctx]) ConstraintSeeds)"

text \<open>The types \<open>Program<Token>\<close> and \<open>Account<Mint>\<close> admit the classic token program only.\<close>

definition check_classic :: "lending_ctx \<Rightarrow> unit lending_result" where
  "check_classic ctx =
     bindr (check (lx_token_program ctx = TOKEN_PROGRAM_ID) InvalidProgramId) (\<lambda>_.
     bindr (check (mint_program (lx_token_a_mint ctx) = TOKEN_PROGRAM_ID) AccountOwnedByWrongProgram) (\<lambda>_.
     check (mint_program (lx_token_b_mint ctx) = TOKEN_PROGRAM_ID) AccountOwnedByWrongProgram))"

definition token_transfer :: "pubkey \<Rightarrow> mint_account \<Rightarrow> token_account \<Rightarrow> token_account \<Rightarrow> u64 \<Rightarrow> transfer" where
  "token_transfer authority m from_account to_account amount =
     \<lparr> tr_from = ta_key from_account, tr_mint = mint_key m, tr_to = ta_key to_account,
       tr_authority = authority, tr_amount = amount \<rparr>"

text \<open>\<open>close_account\<close> of the token program: the rent of the account goes to the destination.\<close>

record account_closing =
  cl_account :: pubkey
  cl_destination :: pubkey
  cl_authority :: pubkey

definition close_temp_account :: "lending_ctx \<Rightarrow> pubkey \<Rightarrow> account_closing" where
  "close_temp_account ctx destination =
     \<lparr> cl_account = ta_key (lx_temp_token_a_account ctx), cl_destination = destination,
       cl_authority = lx_lending_pool_key ctx \<rparr>"

section \<open>Instructions\<close>

text \<open>The first instruction creates the lending pool and its two vaults.\<close>

record initialize_lending_ctx =
  il_authority :: pubkey
  il_amm_pool :: pubkey
  il_token_a_mint :: mint_account
  il_token_b_mint :: mint_account
  il_lending_pool_key :: pubkey
  il_token_a_vault :: pubkey
  il_token_b_vault :: pubkey
  il_accounts_exist :: bool
  il_token_program :: pubkey
  il_bump :: u8

definition initialize_lending_constraints ::
  "lending_environment \<Rightarrow> initialize_lending_ctx \<Rightarrow> unit lending_result" where
  "initialize_lending_constraints le ctx =
     bindr (check (mint_program (il_token_a_mint ctx) = TOKEN_PROGRAM_ID) AccountOwnedByWrongProgram) (\<lambda>_.
     bindr (check (mint_program (il_token_b_mint ctx) = TOKEN_PROGRAM_ID) AccountOwnedByWrongProgram) (\<lambda>_.
     bindr (check (il_token_program ctx = TOKEN_PROGRAM_ID) InvalidProgramId) (\<lambda>_.
     bindr (check (il_lending_pool_key ctx = le_pda le ''lending_pool'' [il_amm_pool ctx]) ConstraintSeeds) (\<lambda>_.
     bindr (check (il_token_a_vault ctx = le_pda le ''token_a_vault'' [il_lending_pool_key ctx]) ConstraintSeeds) (\<lambda>_.
     bindr (check (il_token_b_vault ctx = le_pda le ''token_b_vault'' [il_lending_pool_key ctx]) ConstraintSeeds) (\<lambda>_.
     check (\<not> il_accounts_exist ctx) ConstraintAccountInit))))))"

definition handle_initialize_lending_pool ::
  "lending_environment \<Rightarrow> initialize_lending_ctx \<Rightarrow> u16 \<Rightarrow> u16 \<Rightarrow> u16 \<Rightarrow> lending_pool lending_result" where
  "handle_initialize_lending_pool le ctx min_collateral_ratio liquidation_threshold protocol_fee_bps =
     bindr (initialize_lending_constraints le ctx) (\<lambda>_.
     bindr (require (min_collateral_ratio \<ge> 10000) (Err InsufficientCollateral)) (\<lambda>_.
     bindr (require (liquidation_threshold < min_collateral_ratio) (Err InsufficientCollateral)) (\<lambda>_.
     bindr (require (protocol_fee_bps \<le> 1000) (Err LendingMathOverflow)) (\<lambda>_.
     Inr (lending_pool_initialize default_lending_pool (il_authority ctx) (il_amm_pool ctx)
            (mint_key (il_token_a_mint ctx)) (mint_key (il_token_b_mint ctx)) (il_token_a_vault ctx)
            (il_token_b_vault ctx) min_collateral_ratio liquidation_threshold protocol_fee_bps (il_bump ctx))))))"

record open_short_params =
  os_collateral_amount :: u64
  os_borrow_amount :: u64
  os_minimum_sol_out :: u64

definition handle_open_short ::
  "lending_environment \<Rightarrow> lending_ctx \<Rightarrow> open_short_params \<Rightarrow>
   (lending_pool \<times> short_position \<times> pool \<times> transfer list) lending_result" where
  "handle_open_short le ctx params =
     bindr (check_classic ctx) (\<lambda>_.
     bindr (check (lx_short_position_key ctx = le_pda le ''short_position'' [lx_lending_pool_key ctx, lx_user ctx])
              ConstraintSeeds) (\<lambda>_.
     bindr (check (lx_short_position ctx = None) ConstraintAccountInit) (\<lambda>_.
     bindr (check (ta_key (lx_temp_token_a_account ctx) = le_pda le ''temp_token_a'' [lx_short_position_key ctx])
              ConstraintSeeds) (\<lambda>_.
     bindr (check (\<not> lx_temp_exists ctx) ConstraintAccountInit) (\<lambda>_.
     bindr (check_lending_vaults le ctx) (\<lambda>_.
     let lp = lx_lending_pool ctx in
     bindr (ok_or (checked_mul (ucast (os_collateral_amount params) :: u128) (ucast (lp_protocol_fee_bps lp)))
              (Err LendingMathOverflow)) (\<lambda>product.
     bindr (ok_or (checked_div product 10000) (Err LendingMathOverflow)) (\<lambda>fee.
     let protocol_fee = ucast fee in
     bindr (ok_or (checked_sub (os_collateral_amount params) protocol_fee) (Err LendingMathOverflow)) (\<lambda>net_collateral.
     bindr (signs le ctx) (\<lambda>_.
     let entry_sqrt_price = pool_sqrt_price (lx_amm_pool ctx) in
     bindr (amm_swap le ctx (lx_temp_token_a_account ctx) (lx_token_b_vault ctx)
              (os_borrow_amount params) (os_minimum_sol_out params)) (\<lambda>(amm, sr, swap_transfers).
     bindr (add_reserves lp net_collateral) (\<lambda>lp.
     bindr (add_borrowed lp (os_borrow_amount params)) (\<lambda>lp.
     bindr (increment_positions lp) (\<lambda>lp.
     Inr (lp, short_initialize (env_clock (le_amm le)) (lx_lending_pool_key ctx) (lx_user ctx) net_collateral
                (os_borrow_amount params) (os_minimum_sol_out params) entry_sqrt_price (lx_bump ctx), amm,
          [token_transfer (lx_user ctx) (lx_token_b_mint ctx) (lx_user_token_b_account ctx) (lx_token_b_vault ctx)
             (os_collateral_amount params),
           token_transfer (lx_lending_pool_key ctx) (lx_token_a_mint ctx) (lx_token_a_vault ctx)
             (lx_temp_token_a_account ctx) (os_borrow_amount params)] @ swap_transfers)))))))))))))))"

text \<open>
  What closing and liquidating share: buying the borrowed tokens back with \<open>max_sol_in\<close>, and
  moving all that is then in the temporary account to the vault.
\<close>

definition buy_back ::
  "lending_environment \<Rightarrow> lending_ctx \<Rightarrow> u64 \<Rightarrow> u64 \<Rightarrow> (pool \<times> transfer list) lending_result" where
  "buy_back le ctx borrowed_amount max_sol_in =
     bindr (signs le ctx) (\<lambda>_.
     bindr (amm_swap le ctx (lx_token_b_vault ctx) (lx_temp_token_a_account ctx) max_sol_in borrowed_amount)
       (\<lambda>(amm, sr, swap_transfers).
     bindr (ok_or (checked_add (ta_amount (lx_temp_token_a_account ctx)) (sr_output_amount sr)) Panic) (\<lambda>transfer_amount.
     Inr (amm, swap_transfers @
       [token_transfer (lx_lending_pool_key ctx) (lx_token_a_mint ctx) (lx_temp_token_a_account ctx)
          (lx_token_a_vault ctx) transfer_amount]))))"

definition settle_position ::
  "lending_pool \<Rightarrow> short_position \<Rightarrow> u8 \<Rightarrow> (lending_pool \<times> short_position) lending_result" where
  "settle_position lp sh status =
     bindr (decrement_positions lp) (\<lambda>lp.
     bindr (remove_borrowed lp (sh_borrowed_amount sh)) (\<lambda>lp.
     Inr (lp, sh\<lparr> sh_status := status \<rparr>)))"

definition check_temp_account :: "lending_environment \<Rightarrow> lending_ctx \<Rightarrow> unit lending_result" where
  "check_temp_account le ctx =
     check (ta_key (lx_temp_token_a_account ctx) = le_pda le ''temp_token_a'' [lx_short_position_key ctx]) ConstraintSeeds"

definition handle_close_short ::
  "lending_environment \<Rightarrow> lending_ctx \<Rightarrow> u64 \<Rightarrow>
   (lending_pool \<times> short_position \<times> pool \<times> transfer list \<times> account_closing) lending_result" where
  "handle_close_short le ctx max_sol_in =
     bindr (check_classic ctx) (\<lambda>_.
     bindr (ok_or (lx_short_position ctx) (Constraint ConstraintAccountLoader)) (\<lambda>sh.
     bindr (check (lx_short_position_key ctx = le_pda le ''short_position'' [lx_lending_pool_key ctx, lx_user ctx])
              ConstraintSeeds) (\<lambda>_.
     bindr (check (sh_lending_pool sh = lx_lending_pool_key ctx) ConstraintHasOne) (\<lambda>_.
     bindr (require (sh_owner sh = lx_user ctx) (Err LendingUnauthorized)) (\<lambda>_.
     bindr (check_lending_vaults le ctx) (\<lambda>_.
     bindr (check_temp_account le ctx) (\<lambda>_.
     bindr (require (sh_status sh = 0) (Err PositionNotActive)) (\<lambda>_.
     bindr (buy_back le ctx (sh_borrowed_amount sh) max_sol_in) (\<lambda>(amm, transfers).
     bindr (ok_or (checked_sub (sh_collateral_amount sh) max_sol_in) (Err LendingMathOverflow)) (\<lambda>return_amount.
     bindr (settle_position (lx_lending_pool ctx) sh 1) (\<lambda>(lp, sh).
     Inr (lp, sh, amm, transfers @
       [token_transfer (lx_lending_pool_key ctx) (lx_token_b_mint ctx) (lx_token_b_vault ctx)
          (lx_user_token_b_account ctx) return_amount], close_temp_account ctx (lx_user ctx)))))))))))))"

text \<open>
  \<open>lx_user\<close> is the liquidator here, \<open>lx_user_token_b_account\<close> the account for the bonus, and
  \<open>lx_payer\<close> the other signer.
\<close>

definition handle_liquidate ::
  "lending_environment \<Rightarrow> lending_ctx \<Rightarrow> u64 \<Rightarrow>
   (lending_pool \<times> short_position \<times> pool \<times> transfer list \<times> account_closing) lending_result" where
  "handle_liquidate le ctx max_sol_in =
     bindr (check_classic ctx) (\<lambda>_.
     bindr (ok_or (lx_short_position ctx) (Constraint ConstraintAccountLoader)) (\<lambda>sh.
     bindr (check (lx_short_position_key ctx = le_pda le ''short_position'' [lx_lending_pool_key ctx, sh_owner sh])
              ConstraintSeeds) (\<lambda>_.
     bindr (check (sh_lending_pool sh = lx_lending_pool_key ctx) ConstraintHasOne) (\<lambda>_.
     bindr (check_lending_vaults le ctx) (\<lambda>_.
     bindr (check_temp_account le ctx) (\<lambda>_.
     bindr (require (sh_status sh = 0) (Err PositionNotActive)) (\<lambda>_.
     bindr (get_collateral_ratio sh (pool_sqrt_price (lx_amm_pool ctx))) (\<lambda>ratio.
     bindr (require (ratio < ucast (lp_liquidation_threshold (lx_lending_pool ctx))) (Err PositionHealthy)) (\<lambda>_.
     bindr (buy_back le ctx (sh_borrowed_amount sh) max_sol_in) (\<lambda>(amm, transfers).
     let bonus = 1000 in
     bindr (settle_position (lx_lending_pool ctx) sh 2) (\<lambda>(lp, sh).
     Inr (lp, sh, amm, transfers @
       [token_transfer (lx_lending_pool_key ctx) (lx_token_b_mint ctx) (lx_token_b_vault ctx)
          (lx_user_token_b_account ctx) bonus], close_temp_account ctx (lx_payer ctx)))))))))))))"

lemmas lending_eval =
  default_lending_pool_def lending_pool_initialize_def add_reserves_def remove_reserves_def add_borrowed_def
  remove_borrowed_def increment_positions_def decrement_positions_def short_initialize_def
  get_collateral_ratio_def calculate_pnl_def amm_swap_ctx_def amm_swap_def signs_def check_lending_vaults_def
  check_classic_def token_transfer_def close_temp_account_def initialize_lending_constraints_def
  handle_initialize_lending_pool_def handle_open_short_def buy_back_def
  settle_position_def check_temp_account_def handle_close_short_def handle_liquidate_def swap_handler_eval

section \<open>The collateral ratio\<close>

text \<open>
  What \<open>get_collateral_ratio\<close> computes: token B held against the borrowed amount of token A, scaled by
  the current over the entry square root price. The latter is not what the debt is worth in token B.
\<close>

definition collateral_of :: "short_position \<Rightarrow> nat" where
  "collateral_of sh = unat (sh_collateral_amount sh) + unat (sh_sol_from_swap sh)"

definition debt_at :: "short_position \<Rightarrow> u128 \<Rightarrow> nat" where
  "debt_at sh sqrt_price =
     unat (sh_borrowed_amount sh) * (unat sqrt_price * 10000 div unat (sh_entry_sqrt_price sh)) div 10000"

lemma collateral_ratio_exact:
  assumes "get_collateral_ratio sh P = Inr r"
  shows "sh_entry_sqrt_price sh \<noteq> 0"
    and "unat r = (if debt_at sh P = 0 then 2 ^ 128 - 1 else collateral_of sh * 10000 div debt_at sh P)"
proof -
  have un1: "unat (- 1 :: u128) = 2 ^ 128 - 1" by (simp add: unsigned_minus_1_eq_mask mask_eq_exp_minus_1)
  have "sh_entry_sqrt_price sh \<noteq> 0 \<and>
    unat r = (if debt_at sh P = 0 then 2 ^ 128 - 1 else collateral_of sh * 10000 div debt_at sh P)"
    using assms
    by (auto simp: get_collateral_ratio_def bindr_eq_Inr ok_or_eq_Inr checked_add_eq_Some checked_mul_eq_Some
        checked_div_eq_Some debt_at_def collateral_of_def un1 word_eq_unat split: if_splits)
  then show "sh_entry_sqrt_price sh \<noteq> 0"
    and "unat r = (if debt_at sh P = 0 then 2 ^ 128 - 1 else collateral_of sh * 10000 div debt_at sh P)"
    by simp_all
qed

lemma debt_at_mono: "P \<le> Q \<Longrightarrow> debt_at sh P \<le> debt_at sh Q"
  by (auto simp: debt_at_def word_le_nat_alt intro!: div_le_mono mult_le_mono)

text \<open>A position only becomes less safe as the price rises.\<close>

lemma collateral_ratio_antimono:
  assumes "get_collateral_ratio sh P = Inr r" and "get_collateral_ratio sh Q = Inr s" and "P \<le> Q"
  shows "s \<le> r"
proof -
  have le: "debt_at sh P \<le> debt_at sh Q" using assms(3) by (rule debt_at_mono)
  show ?thesis
  proof (cases "debt_at sh P = 0")
    case True
    then show ?thesis using collateral_ratio_exact(2) [OF assms(1)] unat_less [of s] by (simp add: word_le_nat_alt)
  next
    case False
    then show ?thesis
      using collateral_ratio_exact(2) [OF assms(1)] collateral_ratio_exact(2) [OF assms(2)] le
      by (auto simp: word_le_nat_alt intro: div_le_mono2)
  qed
qed

section \<open>The books of the lending pool\<close>

lemma settle_position_eq_Inr:
  "settle_position lp sh status = Inr (lp', sh') \<longleftrightarrow>
     unat (lp_active_positions lp) = Suc (unat (lp_active_positions lp')) \<and>
     unat (lp_total_borrowed lp) = unat (sh_borrowed_amount sh) + unat (lp_total_borrowed lp') \<and>
     lp' = lp\<lparr> lp_active_positions := lp_active_positions lp', lp_total_borrowed := lp_total_borrowed lp' \<rparr> \<and>
     sh' = sh\<lparr> sh_status := status \<rparr>"
  (is "_ \<longleftrightarrow> ?A \<and> ?B \<and> ?C \<and> _")
proof -
  have "settle_position lp sh status = Inr (lp', sh') \<longleftrightarrow>
      (\<exists>x y. unat (lp_active_positions lp) = Suc (unat x) \<and>
         unat (lp_total_borrowed lp) = unat (sh_borrowed_amount sh) + unat y \<and>
         lp' = lp\<lparr> lp_active_positions := x, lp_total_borrowed := y \<rparr>) \<and> sh' = sh\<lparr> sh_status := status \<rparr>"
    by (auto simp: settle_position_def decrement_positions_def remove_borrowed_def bindr_eq_Inr ok_or_eq_Inr
        checked_sub_eq_Some)
  moreover have "(\<exists>x y. unat (lp_active_positions lp) = Suc (unat x) \<and>
         unat (lp_total_borrowed lp) = unat (sh_borrowed_amount sh) + unat y \<and>
         lp' = lp\<lparr> lp_active_positions := x, lp_total_borrowed := y \<rparr>) \<longleftrightarrow> ?A \<and> ?B \<and> ?C"
  proof (intro iffI exI conjI; (elim conjE)?)
    assume "\<exists>x y. unat (lp_active_positions lp) = Suc (unat x) \<and>
         unat (lp_total_borrowed lp) = unat (sh_borrowed_amount sh) + unat y \<and>
         lp' = lp\<lparr> lp_active_positions := x, lp_total_borrowed := y \<rparr>"
    then show ?A ?B ?C by auto
  qed
  ultimately show ?thesis by blast
qed

lemma open_short_frame:
  assumes "handle_open_short le ctx params = Inr (lp, sh, amm, ts)"
  shows "unat (lp_active_positions lp) = Suc (unat (lp_active_positions (lx_lending_pool ctx)))"
    and "unat (lp_total_borrowed lp) = unat (lp_total_borrowed (lx_lending_pool ctx)) + unat (sh_borrowed_amount sh)"
    and "unat (lp_total_reserves lp) = unat (lp_total_reserves (lx_lending_pool ctx)) + unat (sh_collateral_amount sh)"
    and "sh_status sh = 0"
    and "sh_borrowed_amount sh = os_borrow_amount params"
    and "lx_short_position ctx = None"
  using assms
  by (auto simp: handle_open_short_def bindr_eq_Inr ok_or_eq_Inr require_eq_Inr Let_def add_reserves_def
      add_borrowed_def increment_positions_def checked_add_eq_Some short_initialize_def)

lemma close_short_frame:
  assumes "handle_close_short le ctx max_sol_in = Inr (lp, sh', amm, ts, cl)"
  obtains sh where "lx_short_position ctx = Some sh" and "sh_status sh = 0" and "sh_owner sh = lx_user ctx"
    and "settle_position (lx_lending_pool ctx) sh 1 = Inr (lp, sh')"
  using assms by (auto simp: handle_close_short_def bindr_eq_Inr ok_or_eq_Inr require_eq_Inr)

lemma liquidate_frame:
  assumes "handle_liquidate le ctx max_sol_in = Inr (lp, sh', amm, ts, cl)"
  obtains sh ratio where "lx_short_position ctx = Some sh" and "sh_status sh = 0"
    and "get_collateral_ratio sh (pool_sqrt_price (lx_amm_pool ctx)) = Inr ratio"
    and "ratio < ucast (lp_liquidation_threshold (lx_lending_pool ctx))"
    and "settle_position (lx_lending_pool ctx) sh 2 = Inr (lp, sh')"
  using assms by (auto simp: handle_liquidate_def bindr_eq_Inr ok_or_eq_Inr require_eq_Inr Let_def)

text \<open>
  A lending pool with the positions opened on it so far, and what an instruction does to
  them. An instruction on a position finds it in its context.
\<close>

record lending_world =
  lw_pool :: lending_pool
  lw_positions :: "short_position list"

inductive lending_step :: "lending_world \<Rightarrow> lending_world \<Rightarrow> bool" where
  open_short: "lx_lending_pool ctx = lw_pool w \<Longrightarrow>
     handle_open_short le ctx params = Inr (lp, sh, amm, ts) \<Longrightarrow>
     lending_step w \<lparr> lw_pool = lp, lw_positions = lw_positions w @ [sh] \<rparr>"
| close_short: "lx_lending_pool ctx = lw_pool w \<Longrightarrow> i < length (lw_positions w) \<Longrightarrow>
     lx_short_position ctx = Some (lw_positions w ! i) \<Longrightarrow>
     handle_close_short le ctx max_sol_in = Inr (lp, sh, amm, ts, cl) \<Longrightarrow>
     lending_step w \<lparr> lw_pool = lp, lw_positions = (lw_positions w)[i := sh] \<rparr>"
| liquidate: "lx_lending_pool ctx = lw_pool w \<Longrightarrow> i < length (lw_positions w) \<Longrightarrow>
     lx_short_position ctx = Some (lw_positions w ! i) \<Longrightarrow>
     handle_liquidate le ctx max_sol_in = Inr (lp, sh, amm, ts, cl) \<Longrightarrow>
     lending_step w \<lparr> lw_pool = lp, lw_positions = (lw_positions w)[i := sh] \<rparr>"

inductive lending_start :: "lending_world \<Rightarrow> bool" where
  initialize: "handle_initialize_lending_pool le ctx ratio threshold fee = Inr lp \<Longrightarrow>
     lending_start \<lparr> lw_pool = lp, lw_positions = [] \<rparr>"

abbreviation lending_reachable :: "lending_world \<Rightarrow> bool" where
  "lending_reachable \<equiv> reachable lending_start lending_step"

definition open_shorts :: "short_position list \<Rightarrow> nat" where
  "open_shorts shs = sum_list (map (\<lambda>sh. if sh_status sh = 0 then 1 else 0) shs)"

definition open_debt :: "short_position list \<Rightarrow> nat" where
  "open_debt shs = sum_list (map (\<lambda>sh. if sh_status sh = 0 then unat (sh_borrowed_amount sh) else 0) shs)"

definition books_balance :: "lending_world \<Rightarrow> bool" where
  "books_balance w \<longleftrightarrow> unat (lp_active_positions (lw_pool w)) = open_shorts (lw_positions w) \<and>
     unat (lp_total_borrowed (lw_pool w)) = open_debt (lw_positions w)"

lemma sum_list_update_nat:
  "i < length xs \<Longrightarrow> sum_list (map f (xs[i := y])) + f (xs ! i) = sum_list (map f xs) + (f y :: nat)"
  by (induction xs arbitrary: i) (auto split: nat.splits)

lemma settled_sums:
  assumes "i < length shs" and "sh_status (shs ! i) = 0" and "status \<noteq> 0"
    and "sh' = (shs ! i)\<lparr> sh_status := status \<rparr>"
  shows "Suc (open_shorts (shs[i := sh'])) = open_shorts shs"
    and "open_debt (shs[i := sh']) + unat (sh_borrowed_amount (shs ! i)) = open_debt shs"
  using sum_list_update_nat [OF assms(1), of "\<lambda>sh. if sh_status sh = 0 then 1 else 0" sh']
    sum_list_update_nat [OF assms(1), of "\<lambda>sh. if sh_status sh = 0 then unat (sh_borrowed_amount sh) else 0" sh']
    assms(2-4)
  by (simp_all add: open_shorts_def open_debt_def)

lemma settle_books:
  assumes "books_balance w" and "i < length (lw_positions w)" and "sh_status (lw_positions w ! i) = 0"
    and "settle_position (lw_pool w) (lw_positions w ! i) status = Inr (lp, sh')" and "status \<noteq> 0"
  shows "books_balance \<lparr> lw_pool = lp, lw_positions = (lw_positions w)[i := sh'] \<rparr>"
  using assms settled_sums [OF assms(2,3,5), of sh']
  by (auto simp: books_balance_def settle_position_eq_Inr)

lemma lending_step_books:
  assumes "lending_step w w'" and "books_balance w"
  shows "books_balance w'"
  using assms(1)
proof cases
  case (open_short ctx le params lp sh amm ts)
  note f = open_short_frame [OF open_short(3)]
  show ?thesis using assms(2) f open_short(1,2)
    by (simp add: books_balance_def open_shorts_def open_debt_def)
next
  case (close_short ctx i le max_sol_in lp sh amm ts cl)
  from close_short(5) show ?thesis
    by (rule close_short_frame) (use close_short assms(2) settle_books in auto)
next
  case (liquidate ctx i le max_sol_in lp sh amm ts cl)
  from liquidate(5) show ?thesis
    by (rule liquidate_frame) (use liquidate assms(2) settle_books in auto)
qed

lemma lending_start_books: "lending_start w \<Longrightarrow> books_balance w"
  by (induction rule: lending_start.induct)
    (auto simp: handle_initialize_lending_pool_def bindr_eq_Inr lending_pool_initialize_def books_balance_def
      open_shorts_def open_debt_def)

interpretation lending_books: state_invariant lending_start lending_step books_balance
  by unfold_locales (rule lending_start_books, assumption, rule lending_step_books)

section \<open>What no instruction rewrites\<close>

text \<open>
  A short keeps its terms, and all of its record once it is settled; the lending pool keeps all
  but its three counters, and the recorded reserves never fall.
\<close>

definition loan_kept :: "short_position \<Rightarrow> short_position \<Rightarrow> bool" where
  "loan_kept sh sh' \<longleftrightarrow> sh'\<lparr> sh_status := 0 \<rparr> = sh\<lparr> sh_status := 0 \<rparr> \<and> (sh_status sh \<noteq> 0 \<longrightarrow> sh' = sh)"

definition loans_kept :: "lending_world \<Rightarrow> lending_world \<Rightarrow> bool" where
  "loans_kept w w' \<longleftrightarrow> length (lw_positions w) \<le> length (lw_positions w') \<and>
     (\<forall>i < length (lw_positions w). loan_kept (lw_positions w ! i) (lw_positions w' ! i)) \<and>
     lw_pool w' = (lw_pool w)\<lparr> lp_total_reserves := lp_total_reserves (lw_pool w'),
       lp_total_borrowed := lp_total_borrowed (lw_pool w'), lp_active_positions := lp_active_positions (lw_pool w') \<rparr> \<and>
     lp_total_reserves (lw_pool w) \<le> lp_total_reserves (lw_pool w')"

lemma loan_kept_refl: "loan_kept sh sh"
  by (simp add: loan_kept_def)

lemma loan_kept_trans: "loan_kept sh sh' \<Longrightarrow> loan_kept sh' sh'' \<Longrightarrow> loan_kept sh sh''"
  by (auto simp: loan_kept_def)

lemma loans_kept_trans:
  assumes "loans_kept w w'" and "loans_kept w' w''"
  shows "loans_kept w w''"
proof -
  have "lw_pool w'' = (lw_pool w)\<lparr> lp_total_reserves := lp_total_reserves (lw_pool w''),
       lp_total_borrowed := lp_total_borrowed (lw_pool w''), lp_active_positions := lp_active_positions (lw_pool w'') \<rparr>"
    using assms by (cases "lw_pool w"; cases "lw_pool w'"; cases "lw_pool w''") (simp add: loans_kept_def)
  moreover have "loan_kept (lw_positions w ! i) (lw_positions w'' ! i)" if "i < length (lw_positions w)" for i
    using assms that by (auto simp: loans_kept_def intro: loan_kept_trans dest: order.strict_trans2)
  ultimately show ?thesis using assms by (auto simp: loans_kept_def)
qed

lemma settle_keeps_loans:
  assumes "settle_position (lw_pool w) (lw_positions w ! i) status = Inr (lp, sh')" and "sh_status (lw_positions w ! i) = 0"
    and "i < length (lw_positions w)"
  shows "loans_kept w \<lparr> lw_pool = lp, lw_positions = (lw_positions w)[i := sh'] \<rparr>"
proof -
  have "lp = (lw_pool w)\<lparr> lp_active_positions := lp_active_positions lp, lp_total_borrowed := lp_total_borrowed lp \<rparr>"
    and sh': "sh' = (lw_positions w ! i)\<lparr> sh_status := status \<rparr>"
    using assms(1) unfolding settle_position_eq_Inr by blast+
  then obtain n m where "lp = (lw_pool w)\<lparr> lp_active_positions := n, lp_total_borrowed := m \<rparr>" by blast
  with sh' assms(2,3) show ?thesis by (auto simp: loans_kept_def loan_kept_def nth_list_update)
qed

lemma open_keeps_loans:
  assumes "handle_open_short le ctx params = Inr (lp, sh, amm, ts)" and "lx_lending_pool ctx = lw_pool w"
  shows "loans_kept w \<lparr> lw_pool = lp, lw_positions = lw_positions w @ [sh] \<rparr>"
proof -
  obtain n m k where "lp = (lw_pool w)\<lparr> lp_total_reserves := n, lp_total_borrowed := m, lp_active_positions := k \<rparr>"
    using assms
    by (auto simp: handle_open_short_def bindr_eq_Inr Let_def add_reserves_def add_borrowed_def increment_positions_def)
  moreover have "lp_total_reserves (lw_pool w) \<le> lp_total_reserves lp"
    using open_short_frame(3) [OF assms(1)] assms(2) by (simp add: word_le_nat_alt)
  ultimately show ?thesis by (simp add: loans_kept_def loan_kept_refl nth_append)
qed

lemma lending_step_keeps_loans: "lending_step w w' \<Longrightarrow> loans_kept w w'"
proof (induction rule: lending_step.induct)
  case open_short
  then show ?case by (blast intro: open_keeps_loans)
next
  case close_short
  then show ?case by (auto elim!: close_short_frame intro!: settle_keeps_loans)
next
  case liquidate
  then show ?case by (auto elim!: liquidate_frame intro!: settle_keeps_loans)
qed

interpretation loans: step_order lending_step loans_kept
  by unfold_locales
    (simp add: loans_kept_def loan_kept_refl, rule loans_kept_trans, assumption+, rule lending_step_keeps_loans)

end
