(* ===== verification/Samples.thy ===== *)
theory Samples
  imports EventLog Quote Lending
begin

text \<open>
  Concrete accounts and calls on which the properties are instantiated: a pool over the full
  price range at price one, opened with \<open>2 ^ 100\<close> units of liquidity and a fee of 0.25 percent,
  the contexts of calls on it, and a token program.
\<close>

section \<open>Accounts\<close>

definition sample_fee_parameters :: pool_fee_parameters where
  "sample_fee_parameters =
     \<lparr> pp_base_fee = \<lparr> bp_cliff_fee_numerator = 2500000, bp_number_of_period = 0, bp_period_frequency = 0,
         bp_reduction_factor = 0, bp_fee_scheduler_mode = 0 \<rparr>,
       pp_dynamic_fee = None \<rparr>"

definition sample_mint :: "pubkey \<Rightarrow> mint_account" where
  "sample_mint k = \<lparr> mint_key = k, mint_program = TOKEN_PROGRAM_ID, mint_is_native_2022 = False,
     mint_extensions = [], mint_epoch_fee = None \<rparr>"

definition sample_account :: "pubkey \<Rightarrow> pubkey \<Rightarrow> pubkey \<Rightarrow> token_account" where
  "sample_account k m owner = \<lparr> ta_key = k, ta_program = TOKEN_PROGRAM_ID, ta_mint = m, ta_authority = owner,
     ta_amount = 1, ta_frozen = False \<rparr>"

definition sample_env :: environment where
  "sample_env = \<lparr> env_clock = \<lparr> clk_slot = 5, clk_unix_timestamp = 1000 \<rparr>, env_pool_authority = 1,
     env_pda = (\<lambda>s ks. of_nat (length s) + sum_list ks), env_alpha_vault_pda = (\<lambda>s ks. 7) \<rparr>"

text \<open>The pool at address 28 with the mints 11 and 12, and the position at 68 with its NFT at 80.\<close>

definition sample_pool :: pool where
  "sample_pool = (pool_initialize default_pool 40 (to_pool_fees_struct sample_fee_parameters) 11 12 50 51
     0 0 4295048016 79226673521066979257578248091 (2 ^ 64) 5 0 0 0 (2 ^ 100) 0 1)
     \<lparr> pool_metrics := default_pool_metrics\<lparr> mt_total_position := 1 \<rparr> \<rparr>"

definition sample_position :: position where
  "sample_position = default_position\<lparr> pos_pool := 28, pos_nft_mint := 60, pos_unlocked_liquidity := 2 ^ 100 \<rparr>"

lemma sample_fees:
  "to_pool_fees_struct sample_fee_parameters =
     \<lparr> pf_base_fee = \<lparr> bf_cliff_fee_numerator = 2500000, bf_fee_scheduler_mode = 0, bf_number_of_period = 0,
         bf_period_frequency = 0, bf_reduction_factor = 0 \<rparr>,
       pf_protocol_fee_percent = 20, pf_partner_fee_percent = 0, pf_referral_fee_percent = 20,
       pf_dynamic_fee = default_dynamic_fee \<rparr>"
  by (simp add: sample_fee_parameters_def config_eval fee_const_defs pool_eval)

lemmas account_defs =
  sample_fees sample_mint_def sample_account_def sample_env_def sample_pool_def sample_position_def

lemma ucast_minus_one:
  "(ucast (- 1 :: u256) :: u512) = 0xFFFFFFFFFFFFFFFFFFFFFFFFFFFFFFFFFFFFFFFFFFFFFFFFFFFFFFFFFFFFFFFF"
proof -
  have "(- 1 :: u256) = 0xFFFFFFFFFFFFFFFFFFFFFFFFFFFFFFFFFFFFFFFFFFFFFFFFFFFFFFFFFFFFFFFF" by simp
  then show ?thesis by (simp only: word_eq_unat unat_ucast_512) simp
qed

lemmas sample_eval =
  account_defs fee_const_defs activation_const_defs scale_defs ucast_minus_one
  update_account_lamports_to_minimum_balance_def pool_type_u8_def

section \<open>Opening the pool\<close>

definition sample_init_ctx :: initialize_pool_ctx where
  "sample_init_ctx = \<lparr> ip_creator = 40, ip_position_nft_mint = 60, ip_position_nft_account = 80, ip_payer = 40,
     ip_pool_creator_authority = 0, ip_config_key = 0,
     ip_config = \<lparr> cf_vault_config_key = 0, cf_pool_creator_authority = 0,
       cf_pool_fees = to_pool_fees_config sample_fee_parameters, cf_activation_type = 0, cf_collect_fee_mode = 0,
       cf_config_type = 0, cf_index = 0, cf_sqrt_min_price = 4295048016,
       cf_sqrt_max_price = 79226673521066979257578248091 \<rparr>,
     ip_pool_authority = 1, ip_pool_key = 28, ip_position_key = 68, ip_accounts_exist = False,
     ip_token_a_mint = sample_mint 11, ip_token_b_mint = sample_mint 12,
     ip_token_a_vault = sample_account 50 11 1, ip_token_b_vault = sample_account 51 12 1,
     ip_payer_token_a = sample_account 31 11 40, ip_payer_token_b = sample_account 32 12 40,
     ip_token_a_program = TOKEN_PROGRAM_ID, ip_token_b_program = TOKEN_PROGRAM_ID,
     ip_remaining_accounts = [], ip_minimum_balance = 0, ip_current_lamport = 0 \<rparr>"

definition sample_init_params :: initialize_customizable_pool_parameters where
  "sample_init_params = \<lparr> ic_pool_fees = sample_fee_parameters, ic_sqrt_min_price = 4295048016,
     ic_sqrt_max_price = 79226673521066979257578248091, ic_has_alpha_vault = False, ic_liquidity = 2 ^ 100,
     ic_sqrt_price = 2 ^ 64, ic_activation_type = 0, ic_collect_fee_mode = 0, ic_activation_point = None \<rparr>"

lemma sample_init:
  "\<exists>nft. handle_initialize_customizable_pool sample_env sample_init_ctx sample_init_params =
     Inr (sample_pool, sample_position, nft, initial_transfers sample_init_ctx 68719476720 68719476720)"
  by (simp add: sample_eval sample_fee_parameters_def sample_init_ctx_def sample_init_params_def initialize_eval cong: bindr_weak_cong)

section \<open>A token program and the world of the pool\<close>

text \<open>The accounts of the pool authority, of the lending pool at address 12028, and of one user.\<close>

definition sample_owner :: "pubkey \<Rightarrow> pubkey" where
  "sample_owner k = (if k \<in> {41, 50, 51} then 1 else if k \<in> {25028, 25035, 38068} then 12028 else 40)"

definition sample_transfer :: "(pubkey \<Rightarrow> mint_account) \<Rightarrow> transfer \<Rightarrow> ledger \<Rightarrow> ledger option" where
  "sample_transfer mints t b =
     (if tr_authority t \<noteq> sample_owner (tr_from t) then None
      else if tr_from t = tr_to t then Some b
      else Option.bind (b (tr_from t)) (\<lambda>x. Option.bind (b (tr_to t)) (\<lambda>y.
           Option.bind (received (mints (tr_mint t)) (tr_amount t)) (\<lambda>r.
           if unat (tr_amount t) \<le> x then Some (b(tr_from t \<mapsto> x - unat (tr_amount t), tr_to t \<mapsto> y + r)) else None))))"

definition sample_chain :: chain where
  "sample_chain = \<lparr> ch_pool_authority = 1, ch_owner = sample_owner, ch_transfer = sample_transfer \<rparr>"

lemma sample_chain_ok: "token_program_ok sample_chain"
  unfolding token_program_ok_def
  by (auto simp: sample_chain_def sample_owner_def sample_transfer_def Option_bind_eq_Some split: if_splits)

definition sample_ledger :: ledger where
  "sample_ledger = [31 \<mapsto> 2 ^ 60, 32 \<mapsto> 2 ^ 60, 33 \<mapsto> 2 ^ 60]"

definition sample_tokens :: ledger where
  "sample_tokens = [31 \<mapsto> 2 ^ 60 - 68719476720, 32 \<mapsto> 2 ^ 60 - 68719476720, 33 \<mapsto> 2 ^ 60, 50 \<mapsto> 68719476720, 51 \<mapsto> 68719476720]"

definition sample_world :: world where
  "sample_world = \<lparr> w_pool = sample_pool, w_positions = [68 \<mapsto> sample_position], w_vestings = Map.empty,
     w_tokens = sample_tokens \<rparr>"

lemma sample_sees: "sees sample_mint (sample_mint k)"
  by (simp add: sees_def sample_mint_def)

lemma sample_mint_key: "mint_key (sample_mint k) = k"
  by (simp add: sample_mint_def)

lemma sample_received: "received (sample_mint k) x = Some (unat x)"
  by (simp add: received_def sample_mint_def token_eval)

lemma sample_log_start: "\<exists>evs. log_start sample_chain 28 sample_world evs"
proof -
  obtain nft evs where init: "initialize_customizable_pool sample_env sample_init_ctx sample_init_params =
     Inr (sample_pool, sample_position, nft, initial_transfers sample_init_ctx 68719476720 68719476720, evs)"
    using sample_init opening_emits(2) by blast
  have run: "run_transfers sample_chain sample_mint (initial_transfers sample_init_ctx 68719476720 68719476720)
      (sample_ledger(ta_key (ip_token_a_vault sample_init_ctx) \<mapsto> 0, ta_key (ip_token_b_vault sample_init_ctx) \<mapsto> 0)) =
      Some sample_tokens"
    by (simp add: initial_transfers_def sample_init_ctx_def sample_chain_def sample_owner_def sample_transfer_def sample_ledger_def
        sample_tokens_def sample_received sample_mint_key sample_account_def transfer_from_user_def fun_eq_iff)
  have keys: "ip_payer sample_init_ctx = 40" "ta_key (ip_token_a_vault sample_init_ctx) = 50"
    "ta_key (ip_token_b_vault sample_init_ctx) = 51" "ip_token_a_mint sample_init_ctx = sample_mint 11"
    "ip_token_b_mint sample_init_ctx = sample_mint 12" "ip_position_key sample_init_ctx = 68" "ip_pool_key sample_init_ctx = 28"
    by (simp_all add: sample_init_ctx_def sample_account_def)
  show ?thesis
    using log_start.opened [OF disjI2 [OF disjI2 [OF init]] _ _ _ _ _ _ _ run, of 28] unfolding sample_world_def keys
    by (intro exI) (simp add: sample_chain_def sample_owner_def sample_sees)
qed

lemma sample_reachable: "pool_reachable sample_chain sample_world"
  using sample_log_start log_start_start by (blast intro: reachable.init)

section \<open>Calls on the pool\<close>

definition sample_swap_ctx :: swap_ctx where
  "sample_swap_ctx = \<lparr> sc_pool_authority = 1, sc_pool = sample_pool,
     sc_input_token_account = sample_account 31 11 40, sc_output_token_account = sample_account 32 12 40,
     sc_token_a_vault = sample_account 50 11 1, sc_token_b_vault = sample_account 51 12 1,
     sc_token_a_mint = sample_mint 11, sc_token_b_mint = sample_mint 12, sc_payer = 40,
     sc_token_a_program = TOKEN_PROGRAM_ID, sc_token_b_program = TOKEN_PROGRAM_ID,
     sc_referral_token_account = None \<rparr>"

definition sample_swap_params :: swap_parameters where
  "sample_swap_params = \<lparr> sp_amount_in = 100000, sp_minimum_amount_out = 1 \<rparr>"

lemma sample_swap:
  "\<exists>p sr trs. handle_swap sample_env sample_swap_ctx sample_swap_params = Inr (p, sr, trs)"
  by (simp add: sample_eval sample_swap_ctx_def sample_swap_params_def swap_handler_eval cong: bindr_weak_cong)

definition sample_liquidity_ctx :: "pool \<Rightarrow> position \<Rightarrow> liquidity_ctx" where
  "sample_liquidity_ctx p pos = \<lparr> lc_pool_authority = 1, lc_pool_key = 28, lc_pool = p, lc_position = pos,
     lc_token_a_account = sample_account 31 11 40, lc_token_b_account = sample_account 32 12 40,
     lc_token_a_vault = sample_account 50 11 1, lc_token_b_vault = sample_account 51 12 1,
     lc_token_a_mint = sample_mint 11, lc_token_b_mint = sample_mint 12,
     lc_position_nft_account = sample_account 80 60 40, lc_owner = 40,
     lc_token_a_program = TOKEN_PROGRAM_ID, lc_token_b_program = TOKEN_PROGRAM_ID \<rparr>"

definition sample_grown :: "pool \<times> position" where
  "sample_grown = (sample_pool\<lparr> pool_liquidity := 2 ^ 101 \<rparr>, sample_position\<lparr> pos_unlocked_liquidity := 2 ^ 101 \<rparr>)"

lemma sample_add:
  "handle_add_liquidity sample_env (sample_liquidity_ctx sample_pool sample_position)
     \<lparr> al_liquidity_delta = 2 ^ 100, al_token_a_amount_threshold = 2 ^ 40, al_token_b_amount_threshold = 2 ^ 40 \<rparr> =
   Inr (fst sample_grown, snd sample_grown,
     [transfer_from_user 40 (sample_mint 11) (sample_account 31 11 40) (sample_account 50 11 1) 68719476720,
      transfer_from_user 40 (sample_mint 12) (sample_account 32 12 40) (sample_account 51 12 1) 68719476720])"
  by (simp add: sample_eval sample_liquidity_ctx_def sample_grown_def liquidity_handlers_eval cong: bindr_weak_cong)

lemma sample_remove:
  "\<exists>p pos trs. handle_remove_liquidity sample_env (sample_liquidity_ctx (fst sample_grown) (snd sample_grown))
     (Some (2 ^ 100)) 1 1 = Inr (p, pos, trs)"
  by (simp add: sample_eval sample_liquidity_ctx_def sample_grown_def liquidity_handlers_eval cong: bindr_weak_cong)

lemma sample_claim:
  "\<exists>pos trs. handle_claim_position_fee sample_env
     (sample_liquidity_ctx (sample_pool\<lparr> pool_fee_a_per_liquidity := 2 ^ 60 \<rparr>) sample_position) = Inr (pos, trs)"
  by (simp add: sample_eval sample_liquidity_ctx_def liquidity_handlers_eval cong: bindr_weak_cong)

section \<open>Locks on the position\<close>

definition sample_vesting :: vesting where
  "sample_vesting = v_initialize default_vesting 68 100 10 500 50 10"

definition sample_lock_ctx :: lock_position_ctx where
  "sample_lock_ctx = \<lparr> lk_pool_key = 28, lk_pool = sample_pool, lk_position_key = 68, lk_position = sample_position,
     lk_vesting_key = 90, lk_position_nft_account = sample_account 80 60 40, lk_owner = 40 \<rparr>"

definition sample_vesting_parameters :: vesting_parameters where
  "sample_vesting_parameters = \<lparr> vp_cliff_point = Some 100, vp_period_frequency = 10, vp_cliff_unlock_liquidity = 500,
     vp_liquidity_per_period = 50, vp_number_of_period = 10 \<rparr>"

definition sample_locked_world :: world where
  "sample_locked_world = sample_world\<lparr> w_positions := [68 \<mapsto> sample_position\<lparr> pos_unlocked_liquidity := 2 ^ 100 - 1000,
     pos_vested_liquidity := 1000 \<rparr>], w_vestings := [90 \<mapsto> sample_vesting] \<rparr>"

lemma sample_lock:
  "handle_lock_position sample_env Map.empty sample_lock_ctx sample_vesting_parameters =
     Inr (sample_position\<lparr> pos_unlocked_liquidity := 2 ^ 100 - 1000, pos_vested_liquidity := 1000 \<rparr>, [90 \<mapsto> sample_vesting])"
  by (simp add: sample_eval sample_lock_ctx_def sample_vesting_parameters_def sample_vesting_def vesting_eval
      cong: bindr_weak_cong)

lemma sample_lock_step: "pool_step sample_chain sample_world sample_locked_world"
proof -
  have ctx: "lk_pool sample_lock_ctx = sample_pool" "lk_position_key sample_lock_ctx = 68" "lk_position sample_lock_ctx = sample_position"
    by (simp_all add: sample_lock_ctx_def)
  show ?thesis
    using pool_step.lock_position [of sample_lock_ctx sample_world sample_env sample_vesting_parameters _ _ sample_chain]
      sample_lock by (simp add: ctx sample_world_def sample_locked_world_def)
qed

lemma sample_locked_reachable: "pool_reachable sample_chain sample_locked_world"
  by (rule reachable.step [OF sample_reachable sample_lock_step])

section \<open>A farming reward on the pool\<close>

text \<open>An admin opens the second reward for a day, and the funder pays in 1000 units per second.\<close>

definition sample_campaign_ctx :: reward_admin_ctx where
  "sample_campaign_ctx = \<lparr> ra_pool_authority = 1, ra_pool_key = 28, ra_pool = sample_pool, ra_reward_vault = 41,
     ra_reward_vault_exists = False, ra_reward_mint = sample_mint 13, ra_signer = hd ADMINS, ra_remaining_accounts = [] \<rparr>"

definition sample_campaign :: reward_info where
  "sample_campaign = init_reward default_reward_info 13 41 40 86400 0"

definition sample_campaign_world :: world where
  "sample_campaign_world = sample_world\<lparr> w_pool := sample_pool\<lparr> pool_reward_infos := Array2 default_reward_info sample_campaign \<rparr>,
     w_tokens := sample_tokens(41 \<mapsto> 0) \<rparr>"

definition sample_farm_ctx :: reward_fund_ctx where
  "sample_farm_ctx = \<lparr> fd_pool_authority = 1, fd_pool = w_pool sample_campaign_world,
     fd_reward_vault = sample_account 41 13 1, fd_reward_mint = sample_mint 13,
     fd_funder_token_account = sample_account 33 13 40, fd_funder = 40 \<rparr>"

definition sample_farm_pool :: pool where
  "sample_farm_pool = sample_pool\<lparr> pool_reward_infos := Array2 default_reward_info
     (sample_campaign\<lparr> ri_reward_rate := 1000 * 2 ^ 64, ri_last_update_time := 1000, ri_reward_duration_end := 87400 \<rparr>) \<rparr>"

definition sample_farm_world :: world where
  "sample_farm_world = sample_world\<lparr> w_pool := sample_farm_pool,
     w_tokens := sample_tokens(33 \<mapsto> 2 ^ 60 - 86400000, 41 \<mapsto> 86400000) \<rparr>"

lemma sample_campaign_opened:
  "handle_initialize_reward sample_env sample_campaign_ctx 1 86400 40 = Inr (w_pool sample_campaign_world)"
  by (simp add: sample_eval sample_campaign_ctx_def sample_campaign_def sample_campaign_world_def reward_handlers_eval
      pool_eval cong: bindr_weak_cong)

lemma sample_farm_funded:
  "handle_fund_reward sample_env sample_farm_ctx 1 86400000 False = Inr (sample_farm_pool, 86400000,
     [transfer_from_user 40 (sample_mint 13) (sample_account 33 13 40) (sample_account 41 13 1) 86400000])"
  by (simp add: sample_eval sample_farm_ctx_def sample_farm_pool_def sample_campaign_def sample_campaign_world_def
      reward_handlers_eval pool_eval cong: bindr_weak_cong)

lemma sample_campaign_step: "pool_step sample_chain sample_world sample_campaign_world"
proof -
  have ctx: "ra_pool sample_campaign_ctx = w_pool sample_world" "ra_reward_vault sample_campaign_ctx = 41"
    "w_tokens sample_world 41 = None"
    by (simp_all add: sample_campaign_ctx_def sample_world_def sample_tokens_def)
  have "sample_campaign_world = sample_world\<lparr> w_pool := w_pool sample_campaign_world, w_tokens := (w_tokens sample_world)(41 \<mapsto> 0) \<rparr>"
    by (simp add: sample_campaign_world_def sample_world_def)
  then show ?thesis
    using pool_step.initialize_reward [OF ctx(1) _ sample_campaign_opened, of sample_chain]
    by (simp add: ctx(2,3)) (simp add: sample_env_def sample_chain_def sample_owner_def)
qed

lemma sample_farm_step: "pool_step sample_chain sample_campaign_world sample_farm_world"
proof -
  have ctx: "fd_pool sample_farm_ctx = w_pool sample_campaign_world" "fd_funder sample_farm_ctx = 40"
    "fd_reward_mint sample_farm_ctx = sample_mint 13"
    by (simp_all add: sample_farm_ctx_def)
  have run: "run_transfers sample_chain sample_mint
      [transfer_from_user 40 (sample_mint 13) (sample_account 33 13 40) (sample_account 41 13 1) 86400000]
      (w_tokens sample_campaign_world) = Some (sample_tokens(33 \<mapsto> 2 ^ 60 - 86400000, 41 \<mapsto> 86400000))"
    by (simp add: sample_chain_def sample_owner_def sample_transfer_def sample_campaign_world_def sample_tokens_def
        sample_received sample_mint_key sample_account_def transfer_from_user_def fun_eq_iff)
  have "sample_farm_world = sample_campaign_world\<lparr> w_pool := sample_farm_pool,
      w_tokens := sample_tokens(33 \<mapsto> 2 ^ 60 - 86400000, 41 \<mapsto> 86400000) \<rparr>"
    by (simp add: sample_farm_world_def sample_campaign_world_def sample_world_def)
  then show ?thesis
    using pool_step.fund_reward [OF ctx(1) _ sample_farm_funded run]
    by (simp add: ctx(2,3) sample_sees) (simp add: sample_chain_def sample_owner_def)
qed

lemma sample_farm_reachable: "pool_reachable sample_chain sample_farm_world"
  by (rule reachable.step [OF reachable.step [OF sample_reachable sample_campaign_step] sample_farm_step])

end
