(* ===== verification/TradeProperties.thy ===== *)
theory TradeProperties
  imports Samples
begin

text \<open>
  What a trader and the liquidity providers are promised by a swap: properties of the curve,
  of the swap of a pool, of the instruction that carries it out and of the quote computed off
  chain, each with an instance on the sample pool.
\<close>

section \<open>A swap on the sample pool, and one back\<close>

definition sample_traded :: pool where
  "sample_traded = sample_pool\<lparr> pool_sqrt_price := 18446717230203014060, pool_protocol_b_fee := 50,
     pool_fee_b_per_liquidity := 53687091200,
     pool_metrics := (pool_metrics sample_pool)\<lparr> mt_total_lp_b_fee := 200, mt_total_protocol_b_fee := 50 \<rparr> \<rparr>"

lemma sample_pool_swap:
  "pool_swap AtoB sample_pool 100000 False 5 1000 = Inr (sample_traded,
     \<lparr> sr_output_amount = 99749, sr_next_sqrt_price = 18446717230203014060, sr_lp_fee = 200, sr_protocol_fee = 50,
       sr_partner_fee = 0, sr_referral_fee = 0 \<rparr>)"
  by (simp add: sample_eval sample_traded_def pool_swap_def swap_handler_eval cong: bindr_weak_cong)

definition sample_back_ctx :: swap_ctx where
  "sample_back_ctx = sample_swap_ctx\<lparr> sc_pool := sample_traded, sc_input_token_account := sample_account 32 12 40,
     sc_output_token_account := sample_account 31 11 40 \<rparr>"

lemma sample_swap_there:
  "\<exists>sr trs. handle_swap sample_env sample_swap_ctx sample_swap_params = Inr (sample_traded, sr, trs) \<and>
     sr_output_amount sr = 99749"
  by (simp add: sample_eval sample_traded_def sample_swap_ctx_def sample_swap_params_def swap_handler_eval
      cong: bindr_weak_cong)

lemma sample_swap_back:
  "\<exists>p sr trs. handle_swap sample_env sample_back_ctx \<lparr> sp_amount_in = 99749, sp_minimum_amount_out = 1 \<rparr> = Inr (p, sr, trs)"
  by (simp add: sample_eval sample_traded_def sample_swap_ctx_def sample_back_ctx_def swap_handler_eval
      cong: bindr_weak_cong)

lemma sample_directions:
  "get_trade_direction sample_swap_ctx = AtoB" "get_trade_direction sample_back_ctx = BtoA"
  "sc_pool sample_swap_ctx = sample_pool" "sc_pool sample_back_ctx = sample_traded" "sp_amount_in sample_swap_params = 100000"
  by (simp_all add: sample_swap_ctx_def sample_back_ctx_def get_trade_direction_def sample_account_def sample_mint_def
      sample_swap_params_def)

section \<open>Nobody gains by trading\<close>

definition opposite :: "trade_direction \<Rightarrow> trade_direction" where
  "opposite d = (case d of AtoB \<Rightarrow> BtoA | BtoA \<Rightarrow> AtoB)"

text \<open>C2: Over any sequence of successful swap instructions on one pool, by whomever, at whatever times and with
  whatever fees, traders who get more of one token than they paid in pay more of the other token than
  they get back: no sequence of swaps takes value out of the pool. What is paid in counts with its
  transfer fee, what is gotten is what leaves the vault as the output of the swap.\<close>

theorem trading_is_never_free:
  assumes "trades swap_trade p ts p'"
  shows "(paid AtoB ts < got BtoA ts \<longrightarrow> got AtoB ts < paid BtoA ts) \<and>
         (paid BtoA ts < got AtoB ts \<longrightarrow> got BtoA ts < paid AtoB ts)"
  using swap_market.no_free_lunch [OF assms] by blast

lemma trading_is_never_free_witness:
  "\<exists>x p'. trades swap_trade sample_pool [(AtoB, 100000, 99749), (BtoA, 99749, x)] p' \<and>
     \<not> 100000 < x \<and> got BtoA [(AtoB, 100000, 99749), (BtoA, 99749, x)] = x"
proof -
  obtain sr trs where there: "handle_swap sample_env sample_swap_ctx sample_swap_params = Inr (sample_traded, sr, trs)"
    and out: "sr_output_amount sr = 99749"
    using sample_swap_there by blast
  have 1: "swap_trade AtoB sample_pool 100000 99749 sample_traded"
    unfolding swap_trade_def by (intro exI conjI, rule there) (simp_all add: sample_directions out)
  obtain p' sr' trs' where
    "handle_swap sample_env sample_back_ctx \<lparr> sp_amount_in = 99749, sp_minimum_amount_out = 1 \<rparr> = Inr (p', sr', trs')"
    using sample_swap_back by blast
  then have 2: "swap_trade BtoA sample_traded 99749 (unat (sr_output_amount sr')) p'"
    unfolding swap_trade_def by (intro exI conjI, assumption) (simp_all add: sample_directions)
  have t: "trades swap_trade sample_pool [(AtoB, 100000, 99749), (BtoA, 99749, unat (sr_output_amount sr'))] p'"
    unfolding trades.simps using 1 2 by blast
  show ?thesis
    using trading_is_never_free [OF t] t by (intro exI [of _ p'] exI [of _ "unat (sr_output_amount sr')"]) simp
qed

text \<open>C10: Swapping an amount and swapping at most the proceeds straight back never returns more than was put
  in, in either direction and whatever the fees, static or dynamic, the referral, the accounts and the
  time of the two instructions.\<close>

theorem swap_back_never_profits:
  assumes "handle_swap env ctx params = Inr (p1, sr1, trs1)"
    and "handle_swap env' ctx' params' = Inr (p2, sr2, trs2)"
    and "sc_pool ctx' = p1" and "get_trade_direction ctx' = opposite (get_trade_direction ctx)"
    and "sp_amount_in params' \<le> sr_output_amount sr1"
  shows "sr_output_amount sr2 \<le> sp_amount_in params"
proof -
  let ?d = "get_trade_direction ctx"
  have "swap_trade ?d (sc_pool ctx) (unat (sp_amount_in params)) (unat (sr_output_amount sr1)) p1"
    "swap_trade (opposite ?d) p1 (unat (sp_amount_in params')) (unat (sr_output_amount sr2)) p2"
    using assms(1-4) unfolding swap_trade_def by blast+
  then show ?thesis
    using assms(5) unfolding word_le_nat_alt
    by (cases ?d) (auto simp: opposite_def dest: swap_market.round_trip_from_a swap_market.round_trip_from_b)
qed

lemma swap_back_never_profits_witness:
  "\<exists>p sr trs. handle_swap sample_env sample_back_ctx \<lparr> sp_amount_in = 99749, sp_minimum_amount_out = 1 \<rparr> = Inr (p, sr, trs) \<and>
     sr_output_amount sr \<le> 100000"
proof -
  obtain sr trs where there: "handle_swap sample_env sample_swap_ctx sample_swap_params = Inr (sample_traded, sr, trs)"
    "sr_output_amount sr = 99749"
    using sample_swap_there by blast
  obtain p sr' trs' where
    again: "handle_swap sample_env sample_back_ctx \<lparr> sp_amount_in = 99749, sp_minimum_amount_out = 1 \<rparr> = Inr (p, sr', trs')"
    using sample_swap_back by blast
  show ?thesis
    using swap_back_never_profits [OF there(1) again] there(2) again by (simp add: sample_directions opposite_def)
qed

section \<open>The curve\<close>

lemma curve_amount_a:
  assumes "0 < lo" and "lo \<le> up"
  shows "real L * (1 / real lo - 1 / real up) = real (L * (up - lo)) / real (lo * up)"
  using assms by (simp add: of_nat_diff field_simps)

text \<open>The token amounts between two prices are the curve's, rounded to the requested side: for a liquidity
  \<open>L\<close>, token A comes to \<open>L * (1 / lower - 1 / upper)\<close> and token B to \<open>L * (upper - lower) / 2 ^ 128\<close>,
  never below when rounded up, never above when rounded down, and less than one unit off.\<close>

theorem delta_amounts_bracket:
  assumes "get_delta_amount_a_unsigned lo up L r = Inr a" and "get_delta_amount_b_unsigned lo up L r = Inr b"
  defines "exact_a \<equiv> real (unat L) * (1 / real (unat lo) - 1 / real (unat up))"
    and "exact_b \<equiv> real (unat L) * (real (unat up) - real (unat lo)) / 2 ^ 128"
  shows "(case r of Up \<Rightarrow> exact_a \<le> real (unat a) \<and> real (unat a) < exact_a + 1 \<and>
                          exact_b \<le> real (unat b) \<and> real (unat b) < exact_b + 1
                  | Down \<Rightarrow> real (unat a) \<le> exact_a \<and> exact_a < real (unat a) + 1 \<and>
                            real (unat b) \<le> exact_b \<and> exact_b < real (unat b) + 1)"
proof -
  let ?L = "unat L" and ?lo = "unat lo" and ?up = "unat up"
  have a: "lo \<le> up" "0 < lo" "unat a = rdiv r (?L * (?up - ?lo)) (?lo * ?up)"
    and b: "unat b = rdiv r (?L * (?up - ?lo)) (2 ^ 128)"
    using assms(1,2) by (simp_all add: ok_iff)
  have le: "?lo \<le> ?up" and pos: "0 < ?lo" "0 < ?lo * ?up" using a(1,2) by (auto simp: word_le_nat_alt word_pos)
  have "exact_a = real (?L * (?up - ?lo)) / real (?lo * ?up)"
    unfolding exact_a_def by (rule curve_amount_a [OF pos(1) le])
  moreover have "exact_b = real (?L * (?up - ?lo)) / real (2 ^ 128)"
    using le by (simp add: exact_b_def of_nat_diff)
  ultimately show ?thesis
    using rdiv_real [OF pos(2), of "?L * (?up - ?lo)"] rdiv_real [of "2 ^ 128" "?L * (?up - ?lo)"] a(3) b
    by (cases r) simp_all
qed

lemma delta_amounts_bracket_witness:
  "get_delta_amount_a_unsigned (2 ^ 64) (2 ^ 65) (2 ^ 70 + 1) Up = Inr 33 \<and>
   get_delta_amount_b_unsigned (2 ^ 64) (2 ^ 65) (2 ^ 70 + 1) Up = Inr 65 \<and>
   (2 ^ 70 + 1) * (1 / 2 ^ 64 - 1 / 2 ^ 65) \<le> (33 :: real)"
proof -
  have "get_delta_amount_a_unsigned (2 ^ 64) (2 ^ 65) (2 ^ 70 + 1) Up = Inr 33"
    "get_delta_amount_b_unsigned (2 ^ 64) (2 ^ 65) (2 ^ 70 + 1) Up = Inr 65"
    by (simp_all add: ok_iff cdiv_def word_le_nat_alt word_pos)
  then show ?thesis
    using delta_amounts_bracket [of "2 ^ 64" "2 ^ 65" "2 ^ 70 + 1" Up 33 65] by simp
qed

section \<open>The swap of a pool\<close>

text \<open>C17: A swap moves the price and pays exactly as the curve says: selling token A takes the price
  to \<open>L * P / (L + x * P)\<close> rounded up, selling token B takes it to \<open>P + x * 2 ^ 128 / L\<close> rounded
  down; the output is the other side's share of the move, rounded down; and the price stays in
  the range of the pool.\<close>

theorem swap_step_exact:
  assumes "swap_step d p x = Inr sa"
  defines "L \<equiv> unat (pool_liquidity p)" and "P \<equiv> unat (pool_sqrt_price p)"
    and "P' \<equiv> unat (sa_next_sqrt_price sa)" and "out \<equiv> unat (sa_output_amount sa)"
  shows "0 < L \<and> 0 < P \<and> 0 < P' \<and>
    (case d of
       AtoB \<Rightarrow> P' = cdiv (L * P) (L + unat x * P) \<and> out = L * (P - P') div 2 ^ 128 \<and>
               unat (pool_sqrt_min_price p) \<le> P' \<and> P' \<le> P
     | BtoA \<Rightarrow> P' = P + unat x * 2 ^ 128 div L \<and> out = L * (P' - P) div (P * P') \<and>
               P \<le> P' \<and> P' \<le> unat (pool_sqrt_max_price p))"
proof (cases d)
  case AtoB
  then have "get_swap_result_from_a_to_b p x = Inr sa" using assms(1) by (simp add: swap_step_def)
  from swap_a_to_b_exact [OF this] AtoB show ?thesis unfolding assms(2-5) by simp
next
  case BtoA
  then have "get_swap_result_from_b_to_a p x = Inr sa" using assms(1) by (simp add: swap_step_def)
  from swap_b_to_a_exact [OF this] BtoA show ?thesis unfolding assms(2-5) by simp
qed

lemma swap_step_exact_witness:
  "swap_step AtoB sample_pool 100000 =
     Inr \<lparr> sa_output_amount = 99999, sa_next_sqrt_price = 18446717230203014060 \<rparr> \<and>
   (18446717230203014060 :: nat) = cdiv (2 ^ 100 * 2 ^ 64) (2 ^ 100 + 100000 * 2 ^ 64)"
proof -
  have step: "swap_step AtoB sample_pool 100000 =
     Inr \<lparr> sa_output_amount = 99999, sa_next_sqrt_price = 18446717230203014060 \<rparr>"
    by (simp add: sample_eval swap_step_def swap_handler_eval cong: bindr_weak_cong)
  have "unat (pool_liquidity sample_pool) = 2 ^ 100" "unat (pool_sqrt_price sample_pool) = 2 ^ 64"
    by (simp_all add: sample_pool_def pool_initialize_def)
  then show ?thesis using swap_step_exact [OF step] step by simp
qed

text \<open>The abstract market that the pool implements: two reserves with a constant product, whose
  traders pay at least what the reserve of the input grows by and get at most what the other shrinks by.\<close>

definition market_swap :: "trade_direction \<Rightarrow> real \<times> real \<Rightarrow> nat \<Rightarrow> nat \<Rightarrow> real \<times> real \<Rightarrow> bool" where
  "market_swap d r x y r' \<longleftrightarrow> fst r' * snd r' = fst r * snd r \<and>
     (case d of AtoB \<Rightarrow> fst r' \<le> fst r + real x \<and> snd r' \<le> snd r - real y
              | BtoA \<Rightarrow> snd r' \<le> snd r + real x \<and> fst r' \<le> fst r - real y)"

definition pool_reserves :: "pool \<Rightarrow> real \<times> real" where
  "pool_reserves p = (curve_reserve_a p, curve_reserve_b p)"

text \<open>C3: The swap of a pool implements the abstract constant product market: the product of the two
  curve reserves is unchanged, the input covers the growth of one reserve and the output is covered
  by the shrinkage of the other.\<close>

theorem swap_refines_market:
  assumes "pool_swap d p x ref cp ts = Inr (p', sr)"
  shows "market_swap d (pool_reserves p) (unat x) (unat (sr_output_amount sr)) (pool_reserves p')"
proof -
  note r = pool_swap_reserves [OF assms]
  have "0 < real (unat (pool_sqrt_price p))" "0 < real (unat (pool_sqrt_price p'))"
    using r(5,6) by (simp_all only: word_pos of_nat_0_less_iff)
  then have "curve_reserve_a p' * curve_reserve_b p' = curve_reserve_a p * curve_reserve_b p"
    unfolding curve_reserve_a_def curve_reserve_b_def r(3) by (simp only: times_divide_times_eq) simp
  then show ?thesis using r(1,2) by (cases d) (simp_all add: market_swap_def pool_reserves_def)
qed

lemma swap_refines_market_witness:
  "market_swap AtoB (pool_reserves sample_pool) 100000 99749 (pool_reserves sample_traded)"
  using swap_refines_market [OF sample_pool_swap] by simp

section \<open>The swap instruction\<close>

lemma swap_step_moves:
  assumes "swap_step d p x = Inr sa"
  shows "case d of AtoB \<Rightarrow> sa_next_sqrt_price sa \<le> pool_sqrt_price p | BtoA \<Rightarrow> pool_sqrt_price p \<le> sa_next_sqrt_price sa"
  using assms swap_a_to_b_exact(5) [of p x sa] swap_b_to_a_exact(5) [of p x sa]
  by (cases d) (simp_all add: swap_step_def word_le_nat_alt)

lemma handle_swap_curve:
  assumes "handle_swap env ctx params = Inr (p', sr, trs)"
  obtains p x sa where "swap_step (get_trade_direction ctx) p x = Inr sa" and "pool_sqrt_price p' = sa_next_sqrt_price sa"
    and "pool_liquidity p' = pool_liquidity (sc_pool ctx)" and "pool_sqrt_price p = pool_sqrt_price (sc_pool ctx)"
    and "pool_sqrt_min_price p = pool_sqrt_min_price (sc_pool ctx)"
    and "pool_sqrt_max_price p = pool_sqrt_max_price (sc_pool ctx)"
proof -
  obtain p fm cp and excluded_in :: transfer_fee_amount where
    pre: "update_pre_swap (sc_pool ctx) (current_time env) = Inr p"
    and sr: "get_swap_result p (tfa_amount excluded_in) fm (get_trade_direction ctx) cp = Inr sr"
    and post: "apply_swap_result p sr fm (current_time env) = Inr p'"
    by (rule handle_swap_frame [OF assms])
  obtain net sa where step: "swap_step (get_trade_direction ctx) p net = Inr sa"
    and nxt: "sr_next_sqrt_price sr = sa_next_sqrt_price sa"
    by (rule get_swap_result_split [OF sr])
  obtain df where p: "p = (sc_pool ctx)\<lparr> pool_fees := (pool_fees (sc_pool ctx))\<lparr> pf_dynamic_fee := df \<rparr> \<rparr>"
    by (rule update_pre_swap_frame [OF pre])
  show ?thesis
    using apply_swap_result_reserves [OF post] nxt by (intro that [OF step]) (simp_all add: p)
qed

text \<open>C4: A swap that succeeds was on an enabled pool that is past its activation point, or whose
  whitelisted vault is trading; the user, who signed, pays the stated amount into the vault of the
  input token; the vault of the other token pays the computed output, of which the user receives at
  least the stated minimum after transfer fees; and the price moves against the trader within the
  range of the pool, at unchanged liquidity.\<close>

theorem swap_guarantees:
  assumes "handle_swap env ctx params = Inr (p', sr, trs)"
    and "pool_sqrt_min_price (sc_pool ctx) \<le> pool_sqrt_price (sc_pool ctx)"
    and "pool_sqrt_price (sc_pool ctx) \<le> pool_sqrt_max_price (sc_pool ctx)"
  defines "p \<equiv> sc_pool ctx"
  shows "pool_enabled p \<and> (sc_payer ctx \<noteq> pool_whitelisted_vault p \<longrightarrow> pool_active (env_clock env) p) \<and>
    tr_from (trs ! 0) = ta_key (sc_input_token_account ctx) \<and> tr_authority (trs ! 0) = sc_payer ctx \<and>
    tr_to (trs ! 0) = vault (side_in (get_trade_direction ctx)) p \<and> tr_amount (trs ! 0) = sp_amount_in params \<and>
    tr_from (trs ! 1) = vault (side_out (get_trade_direction ctx)) p \<and>
    tr_to (trs ! 1) = ta_key (sc_output_token_account ctx) \<and> tr_amount (trs ! 1) = sr_output_amount sr \<and>
    (\<exists>y. received (mint_out ctx) (sr_output_amount sr) = Some y \<and> unat (sp_minimum_amount_out params) \<le> y) \<and>
    pool_liquidity p' = pool_liquidity p \<and>
    pool_sqrt_min_price p \<le> pool_sqrt_price p' \<and> pool_sqrt_price p' \<le> pool_sqrt_max_price p \<and>
    (case get_trade_direction ctx of AtoB \<Rightarrow> pool_sqrt_price p' \<le> pool_sqrt_price p
                                   | BtoA \<Rightarrow> pool_sqrt_price p \<le> pool_sqrt_price p')"
proof -
  let ?d = "get_trade_direction ctx"
  obtain pa excluded_out where sc: "swap_constraints env ctx = Inr ()"
    and pa: "get_pool_access_validator (env_clock env) p = Inr pa" "can_swap pa (sc_payer ctx)"
    and out: "calculate_transfer_fee_excluded_amount (mint_out ctx) (sr_output_amount sr) = Inr excluded_out"
      "sp_minimum_amount_out params \<le> tfa_amount excluded_out"
    unfolding p_def by (rule handle_swap_frame [OF assms(1)])
  have vaults: "ta_key (side_pair s (sc_token_a_vault ctx) (sc_token_b_vault ctx)) = vault s p" for s
    using sc by (intro vault_pair) (simp_all add: swap_constraints_def p_def bindr_eq_Inr require_eq_Inr)
  obtain refs where trs: "trs = transfer_from_user (sc_payer ctx) (mint_in ctx) (sc_input_token_account ctx)
                 (side_pair (side_in ?d) (sc_token_a_vault ctx) (sc_token_b_vault ctx)) (sp_amount_in params) #
               transfer_from_pool (sc_pool_authority ctx) (mint_out ctx)
                 (side_pair (side_out ?d) (sc_token_a_vault ctx) (sc_token_b_vault ctx))
                 (sc_output_token_account ctx) (sr_output_amount sr) # refs"
    by (rule handle_swap_transfers [OF assms(1)])
  obtain q x sa where step: "swap_step ?d q x = Inr sa" and nxt: "pool_sqrt_price p' = sa_next_sqrt_price sa"
    and same: "pool_liquidity p' = pool_liquidity p" "pool_sqrt_price q = pool_sqrt_price p"
      "pool_sqrt_min_price q = pool_sqrt_min_price p" "pool_sqrt_max_price q = pool_sqrt_max_price p"
    unfolding p_def by (rule handle_swap_curve [OF assms(1)])
  have range: "pool_sqrt_min_price p \<le> pool_sqrt_price p'" "pool_sqrt_price p' \<le> pool_sqrt_max_price p"
    using swap_step_range [OF step] assms(2,3) by (simp_all add: nxt same p_def)
  have moves: "case ?d of AtoB \<Rightarrow> pool_sqrt_price p' \<le> pool_sqrt_price p | BtoA \<Rightarrow> pool_sqrt_price p \<le> pool_sqrt_price p'"
    using swap_step_moves [OF step] unfolding nxt same .
  have "pool_enabled p" using permissionless.swap_enabled [OF pa] .
  moreover have "sc_payer ctx \<noteq> pool_whitelisted_vault p \<Longrightarrow> pool_active (env_clock env) p"
    using permissionless.swap_active [OF pa] .
  ultimately show ?thesis
    using excluded_amount_received(1) [OF out(1)] out(2) range moves same(1)
    by (simp add: trs vaults word_le_nat_alt)
qed

lemma swap_guarantees_witness:
  "\<exists>p' sr trs. handle_swap sample_env sample_swap_ctx sample_swap_params = Inr (p', sr, trs) \<and>
     tr_amount (trs ! 0) = 100000 \<and> tr_amount (trs ! 1) = sr_output_amount sr \<and> pool_enabled sample_pool"
proof -
  obtain p' sr trs where swap: "handle_swap sample_env sample_swap_ctx sample_swap_params = Inr (p', sr, trs)"
    using sample_swap by blast
  have "pool_sqrt_min_price (sc_pool sample_swap_ctx) \<le> pool_sqrt_price (sc_pool sample_swap_ctx)"
    "pool_sqrt_price (sc_pool sample_swap_ctx) \<le> pool_sqrt_max_price (sc_pool sample_swap_ctx)"
    "sc_pool sample_swap_ctx = sample_pool" "sp_amount_in sample_swap_params = 100000"
    by (simp_all add: sample_swap_ctx_def sample_swap_params_def sample_pool_def pool_initialize_def)
  with swap_guarantees [OF swap] swap show ?thesis by auto
qed

section \<open>The quote\<close>

text \<open>C18: Once a pool is past its activation point, the quote that a client computes off chain is exactly
  the result of the swap: same output, same next price and same fees, for the amount that arrives
  after the transfer fee of the input token.\<close>

theorem quote_is_the_swap:
  assumes "handle_swap env ctx params = Inr (p', sr, trs)" and "pool_active (env_clock env) (sc_pool ctx)"
    and "calculate_transfer_fee_excluded_amount (mint_in ctx) (sp_amount_in params) = Inr excluded_in"
  shows "get_quote (sc_pool ctx) (clk_unix_timestamp (env_clock env)) (clk_slot (env_clock env))
           (tfa_amount excluded_in) (get_trade_direction ctx = AtoB) (sc_referral_token_account ctx \<noteq> None) = Inr sr"
proof -
  let ?p = "sc_pool ctx" and ?d = "get_trade_direction ctx" and ?clk = "env_clock env"
  obtain pa p fm cp where
    pa: "get_pool_access_validator ?clk ?p = Inr pa" "can_swap pa (sc_payer ctx)"
    and pos: "0 < tfa_amount excluded_in"
    and pre: "update_pre_swap ?p (current_time env) = Inr p"
    and cp: "get_current_point ?clk (pool_activation_type p) = Inr cp"
    and fm: "get_fee_mode (pool_collect_fee_mode p) ?d (sc_referral_token_account ctx \<noteq> None) = Inr fm"
    and sr: "get_swap_result p (tfa_amount excluded_in) fm ?d cp = Inr sr"
    using assms(1,3) by (cases ?d) (auto simp: handle_swap_def mint_in_def bindr_eq_Inr require_eq_Inr Let_def)
  obtain df where p: "p = ?p\<lparr> pool_fees := (pool_fees ?p)\<lparr> pf_dynamic_fee := df \<rparr> \<rparr>"
    by (rule update_pre_swap_frame [OF pre])
  obtain t where t: "to_activation_type (pool_activation_type ?p) = Inr t"
    and cp': "cp = (case t of Slot \<Rightarrow> clk_slot ?clk | Timestamp \<Rightarrow> clk_unix_timestamp ?clk)"
    using cp by (auto simp: get_current_point_def bindr_eq_Inr p)
  have "pool_pool_status ?p = 0" using permissionless.swap_enabled [OF pa] by (simp add: pool_enabled_def)
  moreover have "pool_activation_point ?p \<le> cp"
    using assms(2) t unfolding pool_active_def cp' by (cases t) (auto simp: to_activation_type_eq_Inr)
  moreover have "get_fee_mode (pool_collect_fee_mode ?p) ?d (sc_referral_token_account ctx \<noteq> None) = Inr fm"
    using fm by (simp add: p)
  moreover have "get_swap_result ?p (tfa_amount excluded_in) fm ?d cp = Inr sr"
    using sr by (simp add: get_swap_result_pre_swap [OF pre])
  moreover have "(if ?d = AtoB then AtoB else BtoA) = ?d" by (cases ?d) simp_all
  ultimately show ?thesis
    using pos t by (simp add: get_quote_def get_internal_quote_def Let_def flip: cp')
qed

lemma quote_is_the_swap_witness:
  "\<exists>p' sr trs. handle_swap sample_env sample_swap_ctx sample_swap_params = Inr (p', sr, trs) \<and>
     get_quote sample_pool 1000 5 100000 True False = Inr sr"
proof -
  obtain p' sr trs where swap: "handle_swap sample_env sample_swap_ctx sample_swap_params = Inr (p', sr, trs)"
    using sample_swap by blast
  have ex: "calculate_transfer_fee_excluded_amount (mint_in sample_swap_ctx) (sp_amount_in sample_swap_params) =
      Inr \<lparr> tfa_amount = 100000, tfa_transfer_fee = 0 \<rparr>"
    by (simp add: sample_swap_ctx_def sample_swap_params_def mint_in_def get_trade_direction_def sample_account_def
        sample_mint_def token_eval)
  have "pool_active (env_clock sample_env) (sc_pool sample_swap_ctx)"
    "get_trade_direction sample_swap_ctx = AtoB" "sc_referral_token_account sample_swap_ctx = None"
    "sc_pool sample_swap_ctx = sample_pool" "env_clock sample_env = \<lparr> clk_slot = 5, clk_unix_timestamp = 1000 \<rparr>"
    by (simp_all add: sample_swap_ctx_def get_trade_direction_def sample_account_def sample_mint_def sample_env_def
        pool_active_def sample_pool_def pool_initialize_def)
  with quote_is_the_swap [OF swap _ ex] swap show ?thesis by auto
qed

end
