(* ===== verification/FeeProperties.thy ===== *)
theory FeeProperties
  imports Samples
begin

text \<open>
  The wide arithmetic, the trading fee and its schedules: exactness of the multiply and divide
  routines, accuracy of the fixed point power, the split of a fee, the bounds of the base and
  of the variable fee, and that a fee whose parameters were validated can always be computed.
\<close>

section \<open>Arithmetic\<close>

text \<open>C34: The multiply and divide routines return the exact quotient, rounded as asked, and fail exactly
  when the divisor is zero or the quotient does not fit: no product is cut off on the way.\<close>

theorem wide_arithmetic_exact:
  "(mul_div_u256 x y d r = Some z \<longleftrightarrow> d \<noteq> 0 \<and> unat z = rdiv r (unat x * unat y) (unat d)) \<and>
   (safe_mul_div_cast_u64 x64 y64 d64 r = Inr z64 \<longleftrightarrow>
      d64 \<noteq> 0 \<and> unat (z64 :: 'a::len word) = rdiv r (unat x64 * unat y64) (unat d64)) \<and>
   (mul_shr a b n = Some c \<longleftrightarrow> unat c = unat a * unat b div 2 ^ n) \<and>
   (shl_div a b n r = Some c \<longleftrightarrow>
      b \<noteq> 0 \<and> n < 256 \<and> unat a * 2 ^ n < 2 ^ 256 \<and> unat c = rdiv r (unat a * 2 ^ n) (unat b))"
  by (simp only: mul_div_u256_eq_Some safe_mul_div_cast_u64_eq_Inr mul_shr_eq_Some shl_div_eq_Some)

text \<open>C25: The fixed point power, for every base and every signed exponent: it panics on the smallest exponent,
  whose magnitude does not fit; it returns nothing from a magnitude of \<open>2 ^ 19\<close> on, and one for exponent
  zero; and for every magnitude in between it runs through the bits of the exponent, never overflows and
  gives nothing only when the power of the base below one rounds to zero. That power, of the base or of
  its inverse when the base is not below one, is below the exact one by at most one unit of the last
  place per factor, and is inverted at the end when exactly one of base and exponent asks for it.\<close>

theorem pow_accurate:
  "let n = nat \<bar>sint expo\<bar>;
       b = (if base < ONE_Q64 then base else - 1 div base);
       inverted = ((sint expo < 0) \<noteq> (ONE_Q64 \<le> base)) in
   if sint expo = - (2 ^ 31) then pow base expo = Inl Panic
   else if 2 ^ 19 \<le> n then pow base expo = Inr None
   else if n = 0 then pow base expo = Inr (Some ONE_Q64)
   else \<exists>r. pow base expo = Inr (if r = 0 then None else Some (if inverted then - 1 div r else r)) \<and>
     q64 (unat r) \<le> q64 (unat b) ^ n \<and> q64 (unat b) ^ n \<le> q64 (unat r) + real n / 2 ^ 64"
proof -
  define n b e where "n = nat \<bar>sint expo\<bar>" and "b = (if base < ONE_Q64 then base else - 1 div base)"
    and "e = (if sint expo < 0 then - expo else expo)"
  define inverted where "inverted = ((sint expo < 0) \<noteq> (ONE_Q64 \<le> base))"
  have "\<exists>r. pow base expo = Inr (if r = 0 then None else Some (if inverted then - 1 div r else r)) \<and>
     q64 (unat r) \<le> q64 (unat b) ^ n \<and> q64 (unat b) ^ n \<le> q64 (unat r) + real n / 2 ^ 64"
    if "sint expo \<noteq> - (2 ^ 31)" "\<not> 2 ^ 19 \<le> n" "n \<noteq> 0"
  proof -
    note small = that(2)
    have "expo \<noteq> 0" using that(3) by (auto simp: n_def)
    note red = pow_reduces(1) [OF this that(1), of base] pow_reduces(2,3) [OF this that(1)] pow_reduces(4) [OF this that(1), of base]
    have b: "b = (if ONE_Q64 \<le> base then - 1 div base else base)" by (auto simp: b_def)
    obtain r where r: "pow b e = Inr (if r = 0 then None else Some r)" and short: "short_of_power (unat b) n n (unat r)"
      using pow_returns [OF red(1,3)] red(2) small unfolding b [symmetric] e_def [symmetric] n_def [symmetric] by auto
    have "q64 (unat r) \<le> q64 (unat b) ^ n"
    proof (cases "r = 0")
      case False
      then show ?thesis
        using pow_below [of b e r] r red(1-3) below_power_q64 [of "unat b" n "unat r"]
        unfolding b [symmetric] e_def [symmetric] n_def [symmetric] by simp
    next
      case True
      then have "q64 (unat r) = 0" by (simp add: q64_def)
      then show ?thesis by simp
    qed
    moreover have "pow base expo = Inr (if r = 0 then None else Some (if inverted then - 1 div r else r))"
      using red(4) unfolding b [symmetric] e_def [symmetric] inverted_def [symmetric] r by simp
    ultimately show ?thesis using short by (auto simp: short_of_power_def q64_def)
  qed
  then show ?thesis
    using pow_special(1,3) [where ex = expo and base = base] pow_special(2) [where base = base] i32_cases(3) [where w = expo] unat_eq_0 [of expo]
    unfolding Let_def n_def [symmetric] b_def [symmetric] inverted_def [symmetric] by (auto simp: n_def)
qed

lemma pow_accurate_witness:
  "(\<exists>r. pow (2 ^ 63) 3 = Inr (if r = 0 then None else Some r) \<and> q64 (unat r) \<le> 1 / 8 \<and> 1 / 8 \<le> q64 (unat r) + 3 / 2 ^ 64) \<and>
   pow (2 ^ 63) 0x80000 = Inr None \<and> pow (2 ^ 63) 0x80000000 = Inl Panic"
  using pow_accurate [where expo = "3" and base = "2 ^ 63"] pow_accurate [where expo = "0x80000" and base = "2 ^ 63"]
    pow_accurate [where expo = "0x80000000" and base = "2 ^ 63"]
  by (simp add: sint_i32 ONE_Q64_def q64_def power3_eq_cube word_less_nat_alt word_le_nat_alt cong: if_cong)

section \<open>The trading fee\<close>

text \<open>C22: A trading fee is the stated fraction of the amount, rounded up and capped at one half; what is
  left of the amount and the shares of the liquidity providers, the protocol, the partner and the
  referrer make up the amount exactly, and the last three share the stated percentage of the fee.\<close>

theorem fee_split_exact:
  assumes "get_fee_on_amount pf amount referral p a partner = Inr r" and "get_total_trading_fee pf p a = Inr t"
  defines "fee \<equiv> cdiv (unat amount * min (unat t) 500000000) 1000000000"
  shows "unat amount = unat (fr_amount r) + fee \<and> 2 * fee \<le> unat amount + 1 \<and>
    fee = unat (fr_lp_fee r) + unat (fr_protocol_fee r) + unat (fr_partner_fee r) + unat (fr_referral_fee r) \<and>
    unat (fr_protocol_fee r) + unat (fr_partner_fee r) + unat (fr_referral_fee r) =
      fee * unat (pf_protocol_fee_percent pf) div 100 \<and>
    (\<not> referral \<longrightarrow> fr_referral_fee r = 0) \<and> (\<not> partner \<longrightarrow> fr_partner_fee r = 0)"
proof -
  have fee: "fee = trade_fee_spec amount t"
    by (simp add: fee_def trade_fee_spec_def MAX_FEE_NUMERATOR_def FEE_DENOMINATOR_def)
  obtain t' fee' protocol where tt: "get_total_trading_fee pf p a = Inr t'" and fee': "fee' = trade_fee_spec amount t'"
    and parts: "unat amount = unat (fr_amount r) + fee'" "protocol = fee' * unat (pf_protocol_fee_percent pf) div 100"
      "fee' = unat (fr_lp_fee r) + protocol"
      "protocol = unat (fr_protocol_fee r) + unat (fr_partner_fee r) + unat (fr_referral_fee r)"
    and referral: "unat (fr_referral_fee r) = (if referral then protocol * unat (pf_referral_fee_percent pf) div 100 else 0)"
    and partner: "unat (fr_partner_fee r) =
      (if partner then (protocol - unat (fr_referral_fee r)) * unat (pf_partner_fee_percent pf) div 100 else 0)"
    by (rule fee_on_amount_exact [OF assms(1)])
  have eq: "fee' = fee" using tt assms(2) fee fee' by simp
  have "\<not> referral \<longrightarrow> fr_referral_fee r = 0"
    using referral by (cases referral) (simp_all add: unat_eq_0)
  moreover have "\<not> partner \<longrightarrow> fr_partner_fee r = 0"
    using partner by (cases partner) (simp_all add: unat_eq_0)
  moreover have "2 * fee \<le> unat amount + 1" unfolding fee by (rule trade_fee_spec_le)
  ultimately show ?thesis using parts unfolding eq by linarith
qed

lemma sample_fee:
  "\<exists>r. get_fee_on_amount (pool_fees sample_pool) 100000 True 5 5 False = Inr r"
  by (simp add: sample_eval swap_handler_eval cong: bindr_weak_cong)

lemma fee_split_exact_witness:
  "\<exists>r. get_fee_on_amount (pool_fees sample_pool) 100000 True 5 5 False = Inr r \<and>
     unat (fr_lp_fee r) + unat (fr_protocol_fee r) + unat (fr_partner_fee r) + unat (fr_referral_fee r) = 250 \<and>
     fr_partner_fee r = 0"
proof -
  obtain r where r: "get_fee_on_amount (pool_fees sample_pool) 100000 True 5 5 False = Inr r" using sample_fee by blast
  have t: "get_total_trading_fee (pool_fees sample_pool) 5 5 = Inr 2500000"
    by (simp add: sample_eval swap_handler_eval cong: bindr_weak_cong)
  show ?thesis using fee_split_exact [OF r t] r by (intro exI [of _ r]) (auto simp: cdiv_def)
qed

text \<open>Fees can never block a pool: with base fee parameters that passed validation, the fee of every
  amount can be computed at every time, whatever the state of the volatility references.\<close>

theorem validated_fees_always_computable:
  assumes "base_fee_validate (pp_base_fee pp) = Inr u" and "fees_from pp pf"
  shows "\<exists>r. get_fee_on_amount pf amount referral p a partner = Inr r"
  by (rule fees_from_total [OF assms])

definition sample_schedule :: base_fee_parameters where
  "sample_schedule = \<lparr> bp_cliff_fee_numerator = 2500000, bp_number_of_period = 10, bp_period_frequency = 60,
     bp_reduction_factor = 100000, bp_fee_scheduler_mode = 0 \<rparr>"

lemma sample_schedule_valid: "base_fee_validate sample_schedule = Inr ()"
  by (simp add: sample_schedule_def config_eval fee_eval fee_const_defs cong: bindr_weak_cong)

definition sample_dynamic :: dynamic_fee_parameters where
  "sample_dynamic = \<lparr> dp_bin_step = 1, dp_bin_step_u128 = 1844674407370955, dp_filter_period = 10, dp_decay_period = 120,
     dp_reduction_factor = 5000, dp_max_volatility_accumulator = 14460000, dp_variable_fee_control = 956 \<rparr>"

lemma validated_fees_always_computable_witness:
  "\<exists>r. get_fee_on_amount (to_pool_fees_struct \<lparr> pp_base_fee = sample_schedule, pp_dynamic_fee = Some sample_dynamic \<rparr>)
     100000 True 500 5 False = Inr r"
  using validated_fees_always_computable
    [of "\<lparr> pp_base_fee = sample_schedule, pp_dynamic_fee = Some sample_dynamic \<rparr>" "()"] sample_schedule_valid fees_from_new
  by simp

section \<open>Fee schedules\<close>

text \<open>C23: Validation bounds the base fee over its whole life: at every point in time the base fee of
  validated parameters is defined, at least 0.01 percent up to one unit of rounding, and at most one half.\<close>

theorem base_fee_stays_in_bounds:
  assumes "base_fee_validate bp = Inr u"
  shows "\<exists>fee. get_current_base_fee_numerator (to_base_fee_struct bp) p a = Inr fee \<and>
           99999 \<le> unat fee \<and> unat fee \<le> 500000000 \<and> fee \<le> bp_cliff_fee_numerator bp"
proof -
  obtain fee where fee: "get_current_base_fee_numerator (to_base_fee_struct bp) p a = Inr fee"
    "100000 \<le> unat fee + 1" "unat fee \<le> 500000000"
    using validated_base_fee [OF assms] by blast
  then show ?thesis
    using base_fee_le_cliff [OF fee(1)] by (auto simp: get_max_base_fee_numerator_def)
qed

lemma base_fee_stays_in_bounds_witness:
  "\<exists>fee. get_current_base_fee_numerator (to_base_fee_struct sample_schedule) 500 5 = Inr fee \<and>
     99999 \<le> unat fee \<and> unat fee \<le> 500000000 \<and> fee \<le> bp_cliff_fee_numerator sample_schedule"
  by (rule base_fee_stays_in_bounds [OF sample_schedule_valid])

text \<open>A linear schedule charges the initial fee less the reduction per elapsed period, never rises
  over time, and stops falling after the last period.\<close>

theorem linear_schedule:
  assumes "bf_period_frequency bf \<noteq> 0" and "bf_fee_scheduler_mode bf = 0" and "a \<le> p" and "p \<le> q"
    and "get_current_base_fee_numerator bf p a = Inr fee" and "get_current_base_fee_numerator bf q a = Inr later"
  defines "periods \<equiv> min ((unat p - unat a) div unat (bf_period_frequency bf)) (unat (bf_number_of_period bf))"
  shows "unat fee = unat (bf_cliff_fee_numerator bf) - periods * unat (bf_reduction_factor bf) \<and> later \<le> fee \<and>
    (periods = unat (bf_number_of_period bf) \<longrightarrow> later = fee)"
proof -
  have periods: "elapsed_periods bf p a = periods" using leD [OF assms(3)] by (simp add: elapsed_periods_def periods_def)
  have fee: "unat (bf_cliff_fee_numerator bf) = elapsed_periods bf p a * unat (bf_reduction_factor bf) + unat fee"
    "unat (bf_cliff_fee_numerator bf) = elapsed_periods bf q a * unat (bf_reduction_factor bf) + unat later"
    using assms(5,6) base_fee_linear [OF assms(1,2)] by simp_all
  have mono: "elapsed_periods bf p a \<le> elapsed_periods bf q a" by (rule elapsed_periods_mono [OF assms(3,4)])
  then have "elapsed_periods bf p a * unat (bf_reduction_factor bf) \<le> elapsed_periods bf q a * unat (bf_reduction_factor bf)"
    by (rule mult_right_mono) simp
  then have "later \<le> fee" using fee unfolding word_le_nat_alt by linarith
  moreover have "later = fee" if "periods = unat (bf_number_of_period bf)"
  proof -
    have "elapsed_periods bf q a = elapsed_periods bf p a"
      using mono elapsed_periods_le [of bf q a] that periods by linarith
    then show ?thesis using fee by (simp add: word_eq_unat)
  qed
  ultimately show ?thesis using fee(1) periods by simp
qed

lemma linear_schedule_witness:
  "\<exists>fee later. get_current_base_fee_numerator (to_base_fee_struct sample_schedule) 200 5 = Inr fee \<and>
     get_current_base_fee_numerator (to_base_fee_struct sample_schedule) 500 5 = Inr later \<and>
     unat fee = 2500000 - 3 * 100000 \<and> later \<le> fee"
proof -
  let ?bf = "to_base_fee_struct sample_schedule"
  obtain fee later where fee: "get_current_base_fee_numerator ?bf 200 5 = Inr fee"
    "get_current_base_fee_numerator ?bf 500 5 = Inr later"
    using validated_base_fee [OF sample_schedule_valid] by meson
  have "bf_period_frequency ?bf \<noteq> 0" "bf_fee_scheduler_mode ?bf = 0" by (simp_all add: sample_schedule_def)
  from linear_schedule [OF this _ _ fee] show ?thesis using fee by (auto simp: sample_schedule_def)
qed

text \<open>C24: An exponential schedule charges the initial fee times the exact power of its decay factor, up to
  two units of rounding: after \<open>n\<close> periods the fee is never above \<open>cliff * b ^ n\<close> and less than two
  below it, where \<open>b\<close> is one less the reduction factor in basis points as a 64 bit fraction.\<close>

theorem exponential_schedule:
  assumes "get_fee_in_period cliff rf n = Inr fee" and "rf \<noteq> 0" and "unat cliff \<le> 500000000"
  defines "b \<equiv> q64 (2 ^ 64 - unat rf * 2 ^ 64 div 10000)"
  shows "real (unat fee) \<le> real (unat cliff) * b ^ unat n \<and> real (unat cliff) * b ^ unat n < real (unat fee) + 2"
proof -
  obtain base power where base: "unat base = 2 ^ 64 - unat rf * 2 ^ 64 div 10000" and "unat rf \<le> 10000"
    and power: "pow base (ucast n) = Inr (Some power)"
    and fee: "unat fee = unat power * unat cliff div 2 ^ 64"
    using assms(1) fee_in_period_value [OF assms(2)] by blast
  have "1 \<le> unat rf" using assms(2) by (simp add: word_pos unat_gt_0 Suc_le_eq)
  then have "0 < unat rf * 2 ^ 64 div 10000" by (simp add: div_greater_zero_iff)
  then have lt: "base < ONE_Q64" using base by (simp add: word_less_nat_alt)
  obtain r where r: "pow base (ucast n) = Inr (if r = 0 then None else Some r)"
    and short: "short_of_power (unat base) (unat n) (unat n) (unat r)"
    using pow_total [OF lt, of n] by blast
  have "r = power" using r power by (auto split: if_splits)
  have up: "q64 (unat power) \<le> b ^ unat n"
    using below_power_q64 [OF pow_below [OF power lt sint_ucast_u16]] base by (simp add: b_def)
  have low: "b ^ unat n \<le> q64 (unat power) + q64 (unat n)"
    using short base by (simp add: short_of_power_def b_def \<open>r = power\<close>)
  have exact: "real (unat power * unat cliff) / real (2 ^ 64) = real (unat cliff) * q64 (unat power)"
    by (simp only: q64_def of_nat_mult of_nat_power of_nat_numeral times_divide_eq_right mult.commute)
  have val: "real (unat fee) \<le> real (unat cliff) * q64 (unat power)"
    "real (unat cliff) * q64 (unat power) < real (unat fee) + 1"
    using rdiv_real(1,2) [of "2 ^ 64" "unat power * unat cliff"] unfolding fee exact rdiv_simps by simp_all
  have "unat n < 2 ^ LENGTH(16)" by (rule unsigned_less)
  then have "unat n \<le> 2 ^ 16" by simp
  moreover have "real (unat cliff) \<le> real 500000000" using assms(3) by (simp only: of_nat_le_iff)
  ultimately have "real (unat cliff) * q64 (unat n) \<le> real 500000000 * q64 (2 ^ 16)"
    by (intro mult_mono) simp_all
  then have small: "real (unat cliff) * q64 (unat n) < 1" by (simp add: q64_def)
  have "real (unat cliff) * b ^ unat n \<le> real (unat cliff) * q64 (unat power) + real (unat cliff) * q64 (unat n)"
    using mult_left_mono [OF low of_nat_0_le_iff, of "unat cliff"] by (simp only: distrib_left)
  moreover have "real (unat cliff) * q64 (unat power) \<le> real (unat cliff) * b ^ unat n"
    by (rule mult_left_mono [OF up of_nat_0_le_iff])
  ultimately show ?thesis using val small by linarith
qed

lemma exponential_schedule_witness:
  "\<exists>fee. get_fee_in_period 2500000 5000 2 = Inr fee \<and> real (unat fee) \<le> 625000 \<and> 625000 < real (unat fee) + 2"
proof -
  obtain fee where fee: "get_fee_in_period 2500000 5000 2 = Inr fee"
    by (simp add: fee_math_eval fee_const_defs scale_defs cong: bindr_weak_cong)
  show ?thesis using exponential_schedule [OF fee] fee by (simp add: q64_def power2_eq_square)
qed

section \<open>The dynamic fee\<close>

text \<open>C26: The variable fee is \<open>(volatility * bin step)\<^sup>2 * control / 10 ^ 11\<close> rounded up; within the bound
  that every update of the accumulator keeps, none of its products overflows and it is always defined.\<close>

theorem variable_fee_exact:
  assumes "unat (df_volatility_accumulator df) \<le> unat (df_max_volatility_accumulator df)"
  shows "\<exists>v. get_variable_fee df = Inr v \<and> unat v < 2 ^ 92 \<and>
    unat v = (if is_dynamic_fee_enable df
      then cdiv ((unat (df_volatility_accumulator df) * unat (df_bin_step df))\<^sup>2 * unat (df_variable_fee_control df)) (10 ^ 11)
      else 0)"
  using variable_fee_total [OF assms] variable_fee_value unfolding variable_fee_spec_def by blast

lemma variable_fee_exact_witness:
  "\<exists>v. get_variable_fee ((to_dynamic_fee_struct sample_dynamic)\<lparr> df_volatility_accumulator := 100000 \<rparr>) = Inr v \<and> unat v = 96"
proof -
  let ?df = "(to_dynamic_fee_struct sample_dynamic)\<lparr> df_volatility_accumulator := 100000 \<rparr>"
  have "unat (df_volatility_accumulator ?df) \<le> unat (df_max_volatility_accumulator ?df)"
    by (simp add: to_dynamic_fee_struct_def sample_dynamic_def)
  from variable_fee_exact [OF this] show ?thesis
    by (auto simp: to_dynamic_fee_struct_def sample_dynamic_def is_dynamic_fee_enable_def cdiv_def)
qed

text \<open>The references of the dynamic fee follow the time since the last swap: within the filter period
  nothing changes; after it the price reference moves to the current price, with the volatility
  reference scaled down by the reduction factor inside the decay period and reset to zero after it.
  The accumulator computed from them never exceeds its configured maximum.\<close>

theorem volatility_references:
  assumes "update_references df P now = Inr df'" and "update_volatility_accumulator df' Q = Inr df2"
  defines "elapsed \<equiv> unat now - unat (df_last_update_timestamp df)"
  shows "(elapsed < unat (df_filter_period df) \<longrightarrow> df' = df) \<and>
    (unat (df_filter_period df) \<le> elapsed \<longrightarrow> df_sqrt_price_reference df' = P \<and>
       unat (df_volatility_reference df') =
         (if elapsed < unat (df_decay_period df)
          then unat (df_volatility_accumulator df) * unat (df_reduction_factor df) div 10000 else 0)) \<and>
    unat (df_volatility_accumulator df2) \<le> unat (df_max_volatility_accumulator df)"
proof -
  have "df_max_volatility_accumulator df2 = df_max_volatility_accumulator df"
    by (rule update_volatility_accumulator_frame [OF assms(2)])
      (simp add: update_references_frame(2) [OF assms(1)])
  then have acc: "unat (df_volatility_accumulator df2) \<le> unat (df_max_volatility_accumulator df)"
    using update_volatility_accumulator_bounded [OF assms(2)] by simp
  note windows = update_references_windows [OF assms(1), folded elapsed_def]
  show ?thesis
  proof (cases "elapsed < unat (df_decay_period df)")
    case True
    then show ?thesis using windows(1,3) acc by auto
  next
    case False
    then show ?thesis using windows(1) windows(2) acc by auto
  qed
qed

lemma volatility_references_witness:
  "\<exists>df' df2. update_references (to_dynamic_fee_struct sample_dynamic) (2 ^ 64) 1000 = Inr df' \<and>
     update_volatility_accumulator df' (2 ^ 64 + 2 ^ 54) = Inr df2 \<and>
     df_sqrt_price_reference df' = 2 ^ 64 \<and> df_volatility_reference df' = 0 \<and>
     unat (df_volatility_accumulator df2) \<le> 14460000"
proof -
  let ?df = "to_dynamic_fee_struct sample_dynamic"
  let ?df' = "?df\<lparr> df_sqrt_price_reference := 2 ^ 64, df_volatility_reference := 0 \<rparr>"
  have refs: "update_references ?df (2 ^ 64) 1000 = Inr ?df'"
    by (simp add: to_dynamic_fee_struct_def sample_dynamic_def default_dynamic_fee_def fee_eval fee_const_defs
        cong: bindr_weak_cong)
  obtain df2 where acc: "update_volatility_accumulator ?df' (2 ^ 64 + 2 ^ 54) = Inr df2"
    by (simp add: to_dynamic_fee_struct_def sample_dynamic_def default_dynamic_fee_def fee_eval fee_const_defs scale_defs
        wide_eval cong: bindr_weak_cong)
  have "df_max_volatility_accumulator ?df = 14460000" "df_filter_period ?df = 10" "df_decay_period ?df = 120"
    "df_last_update_timestamp ?df = 0"
    by (simp_all add: to_dynamic_fee_struct_def sample_dynamic_def default_dynamic_fee_def)
  with volatility_references [OF refs acc] refs acc show ?thesis by (auto simp: unat_eq_0)
qed

section \<open>Stored fee parameters\<close>

text \<open>Storing fee parameters in a configuration account and reading them back loses nothing.\<close>

theorem config_keeps_fee_parameters:
  "pc_to_pool_fee_parameters (to_pool_fees_config pp) = pp"
  by (rule config_round_trip)

text \<open>A pool opened from a configuration gets the same fee structure as a pool opened with the fee
  parameters themselves: the two conversions of the code agree.\<close>

theorem config_pool_equals_direct_pool:
  "pc_to_pool_fees_struct (to_pool_fees_config pp) = to_pool_fees_struct pp"
  by (rule config_struct_agrees)

end
