(* ===== verification/PositionProperties.thy ===== *)
theory PositionProperties
  imports Samples
begin

text \<open>
  What a liquidity provider is promised: how fees reach a position, what adding, removing and
  claiming move, that splitting and locking create and destroy nothing, and how vesting
  schedules release liquidity.
\<close>

section \<open>Fees of a position\<close>

text \<open>The fee updates that a position goes through at successive values of the two accumulators.\<close>

fun update_fees :: "position \<Rightarrow> (u256 \<times> u256) list \<Rightarrow> position result" where
  "update_fees pos [] = Inr pos"
| "update_fees pos ((a, b) # gs) = bindr (update_fee pos a b) (\<lambda>pos. update_fees pos gs)"

lemma update_fees_settle:
  "update_fees pos gs = Inr pos' \<Longrightarrow> fee_a.settles (map (\<lambda>g. unat (fst g)) gs) pos pos' \<and>
     fee_b.settles (map (\<lambda>g. unat (snd g)) gs) pos pos'"
proof (induction pos gs rule: update_fees.induct)
  case (2 pos a b gs)
  then obtain pos1 where "update_fee pos a b = Inr pos1" "update_fees pos1 gs = Inr pos'" by (auto simp: bindr_eq_Inr)
  moreover from this have "settle_fee_a (unat a) pos pos1" "settle_fee_b (unat b) pos pos1"
    by (auto simp: settle_fee_a_def settle_fee_b_def)
  ultimately show ?case using "2.IH" [of pos1] by auto
qed simp

text \<open>C19: However often a position is updated, its fees are counted once: a history of updates never
  credits more than a single update at its end would, and each update on the way loses less than
  one unit to rounding.\<close>

theorem fees_accrue_once:
  assumes "update_fees pos (gs @ [(a, b)]) = Inr pos'" and "update_fee pos a b = Inr direct"
  shows "unat (pos_fee_a_pending pos') \<le> unat (pos_fee_a_pending direct) \<and>
    unat (pos_fee_a_pending direct) \<le> unat (pos_fee_a_pending pos') + length gs + 1 \<and>
    unat (pos_fee_b_pending pos') \<le> unat (pos_fee_b_pending direct) \<and>
    unat (pos_fee_b_pending direct) \<le> unat (pos_fee_b_pending pos') + length gs + 1"
proof -
  have s: "fee_a.settles (map (\<lambda>g. unat (fst g)) (gs @ [(a, b)])) pos pos'"
    "fee_b.settles (map (\<lambda>g. unat (snd g)) (gs @ [(a, b)])) pos pos'"
    using update_fees_settle [OF assms(1)] by simp_all
  have "settle_fee_a (last (map (\<lambda>g. unat (fst g)) (gs @ [(a, b)]))) pos direct"
    "settle_fee_b (last (map (\<lambda>g. unat (snd g)) (gs @ [(a, b)]))) pos direct"
    using assms(2) by (auto simp: settle_fee_a_def settle_fee_b_def)
  then show ?thesis
    using fee_a.settles_at_most_once [OF s(1)] fee_b.settles_at_most_once [OF s(2)] by simp
qed

lemma fees_accrue_once_witness:
  "\<exists>pos' direct. update_fees sample_position ([(2 ^ 40, 2 ^ 41)] @ [(2 ^ 50, 2 ^ 51)]) = Inr pos' \<and>
     update_fee sample_position (2 ^ 50) (2 ^ 51) = Inr direct \<and>
     unat (pos_fee_a_pending pos') \<le> unat (pos_fee_a_pending direct)"
proof -
  obtain pos' where p: "update_fees sample_position ([(2 ^ 40, 2 ^ 41)] @ [(2 ^ 50, 2 ^ 51)]) = Inr pos'"
    by (simp add: sample_position_def position_eval scale_defs wide_eval cong: bindr_weak_cong)
  obtain direct where d: "update_fee sample_position (2 ^ 50) (2 ^ 51) = Inr direct"
    by (simp add: sample_position_def position_eval scale_defs wide_eval cong: bindr_weak_cong)
  show ?thesis using fees_accrue_once [OF p d] p d by blast
qed

text \<open>C20: Claiming pays out of the two vaults exactly the fees pending after the update, to the accounts
  named by the owner, leaves nothing pending and the liquidity unchanged; a second claim at the same
  accumulators pays nothing.\<close>

theorem claim_pays_pending_once:
  assumes "handle_claim_position_fee env ctx = Inr (pos', trs)"
    and "handle_claim_position_fee env2 (ctx\<lparr> lc_position := pos' \<rparr>) = Inr (pos2, trs2)"
    and "pool_token_a_vault (lc_pool ctx) \<noteq> pool_token_b_vault (lc_pool ctx)"
  shows "\<exists>pos. update_fee (lc_position ctx) (pool_fee_a_per_liquidity (lc_pool ctx)) (pool_fee_b_per_liquidity (lc_pool ctx)) = Inr pos \<and>
    paid_from (vault SideA (lc_pool ctx)) trs = unat (pos_fee_a_pending pos) \<and>
    paid_from (vault SideB (lc_pool ctx)) trs = unat (pos_fee_b_pending pos) \<and>
    (\<forall>t\<in>set trs. tr_to t = ta_key (lc_token_a_account ctx) \<or> tr_to t = ta_key (lc_token_b_account ctx)) \<and>
    pos_fee_a_pending pos' = 0 \<and> pos_fee_b_pending pos' = 0 \<and> pos_liquidity pos' = pos_liquidity (lc_position ctx) \<and>
    trs2 = []"
proof -
  let ?p = "lc_pool ctx"
  obtain pos m where lc: "liquidity_constraints ctx = Inr ()"
    and upd: "update_fee (lc_position ctx) (pool_fee_a_per_liquidity ?p) (pool_fee_b_per_liquidity ?p) = Inr pos"
    and pos': "pos' = reset_pending_fee (pos\<lparr> pos_metrics := m \<rparr>)"
    and trs: "trs = (if pos_fee_a_pending pos > 0
        then [transfer_from_pool (lc_pool_authority ctx) (lc_token_a_mint ctx) (lc_token_a_vault ctx)
                (lc_token_a_account ctx) (pos_fee_a_pending pos)] else []) @
       (if pos_fee_b_pending pos > 0
        then [transfer_from_pool (lc_pool_authority ctx) (lc_token_b_mint ctx) (lc_token_b_vault ctx)
                (lc_token_b_account ctx) (pos_fee_b_pending pos)] else [])"
    by (rule claim_position_fee_frame [OF assms(1)])
  have vaults: "ta_key (lc_token_a_vault ctx) = vault SideA ?p" "ta_key (lc_token_b_vault ctx) = vault SideB ?p"
    using liquidity_vaults [OF lc, of SideA] liquidity_vaults [OF lc, of SideB] by simp_all
  have reset: "pos_fee_a_pending pos' = 0" "pos_fee_b_pending pos' = 0" "pos_liquidity pos' = pos_liquidity (lc_position ctx)"
    "pos_fee_a_per_token_checkpoint pos' = pool_fee_a_per_liquidity ?p"
    "pos_fee_b_per_token_checkpoint pos' = pool_fee_b_per_liquidity ?p"
    using update_fee_liquidity [OF upd] by (simp_all add: pos' reset_pending_fee_def pos_liquidity_def)
  have paid: "paid_from (vault SideA ?p) trs = unat (pos_fee_a_pending pos)"
    "paid_from (vault SideB ?p) trs = unat (pos_fee_b_pending pos)"
    using assms(3) by (auto simp: trs vaults vault_def word_pos unat_eq_0)
  have "trs2 = []"
  proof -
    obtain pos3 where upd3: "update_fee pos' (pool_fee_a_per_liquidity ?p) (pool_fee_b_per_liquidity ?p) = Inr pos3"
      and trs2: "pos_fee_a_pending pos3 = 0 \<Longrightarrow> pos_fee_b_pending pos3 = 0 \<Longrightarrow> trs2 = []"
      by (rule claim_position_fee_frame [OF assms(2)]) simp
    have "unat (pos_fee_a_pending pos3) = 0 \<and> unat (pos_fee_b_pending pos3) = 0"
      by (rule update_fee_frame [OF upd3]) (simp add: reset)
    then show ?thesis using trs2 by (simp add: unat_eq_0)
  qed
  then show ?thesis using upd paid reset(1-3) by (auto simp: trs)
qed

lemma claim_pays_pending_once_witness:
  "\<exists>pos' trs. handle_claim_position_fee sample_env
     (sample_liquidity_ctx (sample_pool\<lparr> pool_fee_a_per_liquidity := 2 ^ 60 \<rparr>) sample_position) = Inr (pos', trs) \<and>
     paid_from 50 trs = 2 ^ 32 \<and> pos_fee_a_pending pos' = 0"
proof -
  let ?ctx = "sample_liquidity_ctx (sample_pool\<lparr> pool_fee_a_per_liquidity := 2 ^ 60 \<rparr>) sample_position"
  obtain pos' trs where claim: "handle_claim_position_fee sample_env ?ctx = Inr (pos', trs)"
    and pos': "pos' = sample_position\<lparr> pos_fee_a_per_token_checkpoint := 2 ^ 60,
      pos_metrics := (pos_metrics sample_position)\<lparr> pm_total_claimed_a_fee := 2 ^ 32 \<rparr> \<rparr>"
    by (simp add: sample_eval sample_liquidity_ctx_def liquidity_handlers_eval cong: bindr_weak_cong)
  obtain pos2 trs2 where again: "handle_claim_position_fee sample_env (?ctx\<lparr> lc_position := pos' \<rparr>) = Inr (pos2, trs2)"
    by (simp add: pos' sample_eval sample_liquidity_ctx_def liquidity_handlers_eval cong: bindr_weak_cong)
  have "pool_token_a_vault (lc_pool ?ctx) \<noteq> pool_token_b_vault (lc_pool ?ctx)" "vault SideA (lc_pool ?ctx) = 50"
    by (simp_all add: sample_liquidity_ctx_def sample_pool_def pool_initialize_def vault_def)
  moreover obtain pos where "update_fee (lc_position ?ctx) (pool_fee_a_per_liquidity (lc_pool ?ctx))
      (pool_fee_b_per_liquidity (lc_pool ?ctx)) = Inr pos" "unat (pos_fee_a_pending pos) = 2 ^ 32"
    by (simp add: sample_eval sample_liquidity_ctx_def liquidity_handlers_eval cong: bindr_weak_cong)
  ultimately show ?thesis using claim_pays_pending_once [OF claim again] claim by auto
qed

section \<open>Adding and removing liquidity\<close>

lemma amounts_of_smaller_withdrawal:
  assumes "get_amounts_for_modify_liquidity p d Up = Inr m" and "get_amounts_for_modify_liquidity q d' Down = Inr m'"
    and "d' \<le> d" and "pool_sqrt_price q = pool_sqrt_price p" and "pool_sqrt_min_price q = pool_sqrt_min_price p"
    and "pool_sqrt_max_price q = pool_sqrt_max_price p"
  shows "unat (ml_token_a_amount m') \<le> unat (ml_token_a_amount m)" "unat (ml_token_b_amount m') \<le> unat (ml_token_b_amount m)"
proof -
  note a = get_amounts_exact [OF assms(1)] and b = get_amounts_exact [OF assms(2), unfolded assms(4-6)]
  have le: "unat d' \<le> unat d" using assms(3) by (simp add: word_le_nat_alt)
  have "rdiv Down (x * y) z \<le> rdiv Up (x' * y) z" if "0 < z" "x \<le> x'" for x x' y z
    by (rule rdiv_mono) (use that in simp_all)
  then show "unat (ml_token_a_amount m') \<le> unat (ml_token_a_amount m)" "unat (ml_token_b_amount m') \<le> unat (ml_token_b_amount m)"
    using a(4,5) le unfolding a(1,2) b(1,2) by simp_all
qed

text \<open>C11: Liquidity that is added and taken out again at the same price never returns more of either token
  than the vault received for it, after the transfer fees of both tokens: the first pair of transfers
  pays in, the second pays out, token A before token B.\<close>

theorem add_then_remove_never_profits:
  assumes "handle_add_liquidity env ctx params = Inr (p1, pos1, trs1)"
    and "handle_remove_liquidity env2 ctx2 (Some d) min_a min_b = Inr (p2, pos2, trs2)"
    and "d \<le> al_liquidity_delta params" and "pool_sqrt_price (lc_pool ctx2) = pool_sqrt_price (lc_pool ctx)"
    and "pool_sqrt_min_price (lc_pool ctx2) = pool_sqrt_min_price (lc_pool ctx)"
    and "pool_sqrt_max_price (lc_pool ctx2) = pool_sqrt_max_price (lc_pool ctx)"
  shows "unat (tr_amount (trs2 ! 0)) \<le> (case received (lc_token_a_mint ctx) (tr_amount (trs1 ! 0)) of Some y \<Rightarrow> y | None \<Rightarrow> 0) \<and>
         unat (tr_amount (trs2 ! 1)) \<le> (case received (lc_token_b_mint ctx) (tr_amount (trs1 ! 1)) of Some y \<Rightarrow> y | None \<Rightarrow> 0)"
proof -
  obtain p pos m total_a total_b where
    rew: "pos_update_rewards (lc_position ctx) (lc_pool ctx) (current_time env) = Inr (pos, p)"
    and m: "get_amounts_for_modify_liquidity p (al_liquidity_delta params) Up = Inr m"
    and total: "calculate_transfer_fee_included_amount (lc_token_a_mint ctx) (ml_token_a_amount m) = Inr total_a"
      "calculate_transfer_fee_included_amount (lc_token_b_mint ctx) (ml_token_b_amount m) = Inr total_b"
    and trs1: "trs1 = [transfer_from_user (lc_owner ctx) (lc_token_a_mint ctx) (lc_token_a_account ctx)
              (lc_token_a_vault ctx) (tfa_amount total_a),
            transfer_from_user (lc_owner ctx) (lc_token_b_mint ctx) (lc_token_b_account ctx)
              (lc_token_b_vault ctx) (tfa_amount total_b)]"
    by (rule handle_add_liquidity_frame [OF assms(1)])
  obtain p' pos' m' where
    rew': "pos_update_rewards (lc_position ctx2) (lc_pool ctx2) (current_time env2) = Inr (pos', p')"
    and m': "get_amounts_for_modify_liquidity p' d Down = Inr m'"
    and trs2: "trs2 = [transfer_from_pool (lc_pool_authority ctx2) (lc_token_a_mint ctx2) (lc_token_a_vault ctx2)
              (lc_token_a_account ctx2) (ml_token_a_amount m'),
            transfer_from_pool (lc_pool_authority ctx2) (lc_token_b_mint ctx2) (lc_token_b_vault ctx2)
              (lc_token_b_account ctx2) (ml_token_b_amount m')]"
    by (rule handle_remove_liquidity_frame [OF assms(2)]) simp
  have "pool_sqrt_price p = pool_sqrt_price (lc_pool ctx) \<and> pool_sqrt_min_price p = pool_sqrt_min_price (lc_pool ctx) \<and>
      pool_sqrt_max_price p = pool_sqrt_max_price (lc_pool ctx)"
    by (rule pos_update_rewards_frame [OF rew]) simp
  moreover have "pool_sqrt_price p' = pool_sqrt_price (lc_pool ctx2) \<and>
      pool_sqrt_min_price p' = pool_sqrt_min_price (lc_pool ctx2) \<and> pool_sqrt_max_price p' = pool_sqrt_max_price (lc_pool ctx2)"
    by (rule pos_update_rewards_frame [OF rew']) simp
  ultimately have "unat (ml_token_a_amount m') \<le> unat (ml_token_a_amount m)" "unat (ml_token_b_amount m') \<le> unat (ml_token_b_amount m)"
    using amounts_of_smaller_withdrawal [OF m m' assms(3)] assms(4-6) by simp_all
  then show ?thesis
    using included_covers [OF total(1)] included_covers [OF total(2)] by (simp add: trs1 trs2)
qed

lemma add_then_remove_never_profits_witness:
  "\<exists>p pos trs. handle_remove_liquidity sample_env (sample_liquidity_ctx (fst sample_grown) (snd sample_grown))
     (Some (2 ^ 100)) 1 1 = Inr (p, pos, trs) \<and>
     unat (tr_amount (trs ! 0)) \<le> 68719476720 \<and> unat (tr_amount (trs ! 1)) \<le> 68719476720"
proof -
  obtain p pos trs where r: "handle_remove_liquidity sample_env (sample_liquidity_ctx (fst sample_grown) (snd sample_grown))
     (Some (2 ^ 100)) 1 1 = Inr (p, pos, trs)" using sample_remove by blast
  have "lc_pool (sample_liquidity_ctx q pos) = q" "lc_token_a_mint (sample_liquidity_ctx q pos) = sample_mint 11"
    "lc_token_b_mint (sample_liquidity_ctx q pos) = sample_mint 12" for q pos
    by (simp_all add: sample_liquidity_ctx_def)
  with add_then_remove_never_profits [OF sample_add r] r show ?thesis
    by (simp add: sample_grown_def sample_received)
qed

section \<open>Splitting and locking\<close>

definition same_amounts :: "position \<Rightarrow> position \<Rightarrow> bool" where
  "same_amounts pos pos' \<longleftrightarrow> pos_unlocked_liquidity pos' = pos_unlocked_liquidity pos \<and>
     pos_vested_liquidity pos' = pos_vested_liquidity pos \<and>
     pos_permanent_locked_liquidity pos' = pos_permanent_locked_liquidity pos"

text \<open>C21: Splitting a position moves parts of it to another and creates nothing: of the unlocked and the
  permanently locked liquidity, of the pending fees of both tokens and of the pending rewards, the
  two positions hold together what they held after bringing their fees and rewards up to date; vested
  liquidity stays where it is.\<close>

theorem split_creates_nothing:
  assumes "handle_split_position2 env ctx params = Inr (p', first', second', info)"
  shows "\<exists>r1 r2 f s. update_position_reward (sx_first_position ctx) p' = Inr r1 \<and>
    update_position_reward (sx_second_position ctx) p' = Inr r2 \<and>
    update_fee r1 (pool_fee_a_per_liquidity p') (pool_fee_b_per_liquidity p') = Inr f \<and>
    update_fee r2 (pool_fee_a_per_liquidity p') (pool_fee_b_per_liquidity p') = Inr s \<and>
    same_amounts (sx_first_position ctx) f \<and> same_amounts (sx_second_position ctx) s \<and>
    same_totals f s first' second'"
proof -
  obtain r1 r2 amounts n1 n2 n3 n4 n5 n6 where
    r: "update_position_reward (sx_first_position ctx) p' = Inr r1" "update_position_reward (sx_second_position ctx) p' = Inr r2"
    and split: "apply_split_position p' r1 r2 n1 n2 n3 n4 n5 n6 = Inr (first', second', amounts)"
    by (rule handle_split_frame [OF assms])
  obtain f s where fs: "update_fee r1 (pool_fee_a_per_liquidity p') (pool_fee_b_per_liquidity p') = Inr f"
    "update_fee r2 (pool_fee_a_per_liquidity p') (pool_fee_b_per_liquidity p') = Inr s" "same_totals f s first' second'"
    by (rule apply_split_position_totals [OF split])
  have "same_amounts (sx_first_position ctx) r1" "same_amounts (sx_second_position ctx) r2"
    using r by (auto simp: update_position_reward_def bindr_eq_Inr same_amounts_def)
  then have "same_amounts (sx_first_position ctx) f" "same_amounts (sx_second_position ctx) s"
    using fs by (simp_all add: same_amounts_def update_fee_liquidity)
  then show ?thesis using r fs by blast
qed

definition sample_split_ctx :: split_position_ctx where
  "sample_split_ctx = \<lparr> sx_pool_key = 28, sx_pool = sample_pool, sx_first_position_key = 68,
     sx_first_position = sample_position\<lparr> pos_fee_a_pending := 101, pos_permanent_locked_liquidity := 2 ^ 20 \<rparr>,
     sx_first_position_nft_account = sample_account 80 60 40, sx_second_position_key = 69,
     sx_second_position = default_position\<lparr> pos_pool := 28, pos_nft_mint := 61 \<rparr>,
     sx_second_position_nft_account = sample_account 81 61 40, sx_first_owner = 40, sx_second_owner = 40 \<rparr>"

lemma split_creates_nothing_witness:
  "\<exists>p first second info. handle_split_position2 sample_env sample_split_ctx
     \<lparr> s2_unlocked_liquidity_numerator = 500000000, s2_permanent_locked_liquidity_numerator = 250000000,
       s2_fee_a_numerator = 500000000, s2_fee_b_numerator = 0, s2_reward_0_numerator = 0, s2_reward_1_numerator = 0 \<rparr> =
       Inr (p, first, second, info) \<and>
     unat (pos_permanent_locked_liquidity first) + unat (pos_permanent_locked_liquidity second) = 2 ^ 20 \<and>
     unat (pos_unlocked_liquidity first) + unat (pos_unlocked_liquidity second) = 2 ^ 100"
proof -
  obtain p first second info where split: "handle_split_position2 sample_env sample_split_ctx
     \<lparr> s2_unlocked_liquidity_numerator = 500000000, s2_permanent_locked_liquidity_numerator = 250000000,
       s2_fee_a_numerator = 500000000, s2_fee_b_numerator = 0, s2_reward_0_numerator = 0, s2_reward_1_numerator = 0 \<rparr> =
       Inr (p, first, second, info)"
    by (simp add: sample_eval sample_split_ctx_def position_handlers_eval cong: bindr_weak_cong)
  obtain f s where "same_totals f s first second" "same_amounts (sx_first_position sample_split_ctx) f"
    "same_amounts (sx_second_position sample_split_ctx) s"
    using split_creates_nothing [OF split] by blast
  then have "unat (pos_permanent_locked_liquidity first) + unat (pos_permanent_locked_liquidity second) = 2 ^ 20 \<and>
     unat (pos_unlocked_liquidity first) + unat (pos_unlocked_liquidity second) = 2 ^ 100"
    by (simp add: same_totals_def same_amounts_def sample_split_ctx_def sample_position_def default_position_def)
  then show ?thesis using split by blast
qed

section \<open>Vesting schedules\<close>

text \<open>C31: The liquidity that a vesting schedule has unlocked is nothing before the cliff, never decreases
  over time, never exceeds the locked total, and is the whole of it once the last period is over.\<close>

theorem vesting_schedule:
  assumes "get_max_unlocked_liquidity v p = Inr x" and "get_max_unlocked_liquidity v q = Inr y" and "p \<le> q"
  shows "x \<le> y \<and> unat y \<le> total_lock v \<and> (p < v_cliff_point v \<longrightarrow> x = 0) \<and>
    (unat (v_cliff_point v) + unat (v_period_frequency v) * unat (v_number_of_period v) \<le> unat q \<and>
       (v_number_of_period v = 0 \<or> v_period_frequency v \<noteq> 0) \<longrightarrow> unat y = total_lock v)"
proof -
  have x: "unat x = unlocked_at v (unat p)" and y: "unat y = unlocked_at v (unat q)"
    using assms(1,2) by (simp_all add: max_unlocked_eq_Inr)
  have "unlocked_at v (unat p) \<le> unlocked_at v (unat q)"
    by (rule unlocked_at_mono) (use assms(3) in \<open>simp add: word_le_nat_alt\<close>)
  moreover have "unlocked_at v (unat q) \<le> total_lock v" by (rule unlocked_at_le_total)
  moreover have "p < v_cliff_point v \<Longrightarrow> unlocked_at v (unat p) = 0" by (simp add: unlocked_at_def word_less_nat_alt)
  ultimately show ?thesis
    using unlocked_at_end [of v "unat q"] x y by (auto simp: word_le_nat_alt word_eq_unat)
qed

lemma vesting_schedule_witness:
  "\<exists>x y. get_max_unlocked_liquidity sample_vesting 50 = Inr x \<and> get_max_unlocked_liquidity sample_vesting 200 = Inr y \<and>
     x = 0 \<and> unat y = 1000"
proof -
  obtain x y where xy: "get_max_unlocked_liquidity sample_vesting 50 = Inr x" "get_max_unlocked_liquidity sample_vesting 200 = Inr y"
    by (simp add: sample_vesting_def v_initialize_def default_vesting_def vesting_eval cong: bindr_weak_cong)
  show ?thesis using vesting_schedule [OF xy] xy
    by (simp add: sample_vesting_def v_initialize_def default_vesting_def total_lock_def)
qed

section \<open>Closing\<close>

text \<open>A position can be closed only by the holder of its NFT and only when it is empty: without
  liquidity of any kind, without pending fees and without pending rewards; the pool counts one position less
  and is otherwise unchanged.\<close>

theorem close_only_empty:
  assumes "handle_close_position env ctx = Inr (p', nft)"
  shows "pos_liquidity (cl_position ctx) = 0 \<and> pos_fee_a_pending (cl_position ctx) = 0 \<and>
    pos_fee_b_pending (cl_position ctx) = 0 \<and>
    uri_reward_pendings (elem0 (pos_reward_infos (cl_position ctx))) = 0 \<and>
    uri_reward_pendings (elem1 (pos_reward_infos (cl_position ctx))) = 0 \<and>
    ta_mint (cl_position_nft_account ctx) = pos_nft_mint (cl_position ctx) \<and>
    ta_authority (cl_position_nft_account ctx) = cl_owner ctx \<and> ta_amount (cl_position_nft_account ctx) = 1 \<and>
    p' = (cl_pool ctx)\<lparr> pool_metrics := reduce_position (pool_metrics (cl_pool ctx)) \<rparr>"
  using assms
  by (auto simp: handle_close_position_def bindr_eq_Inr require_eq_Inr pos_is_empty_eq_Inr check_position_nft_eq_Inr)

definition sample_close_ctx :: close_position_ctx where
  "sample_close_ctx = \<lparr> cl_position_nft_mint = 61, cl_position_nft_account = sample_account 81 61 40, cl_pool_key = 28,
     cl_pool = sample_pool, cl_position = default_position\<lparr> pos_pool := 28, pos_nft_mint := 61 \<rparr>,
     cl_pool_authority = 1, cl_rent_receiver = 40, cl_owner = 40 \<rparr>"

lemma close_only_empty_witness:
  "\<exists>p nft. handle_close_position sample_env sample_close_ctx = Inr (p, nft) \<and>
     pos_liquidity (cl_position sample_close_ctx) = 0"
proof -
  obtain p nft where "handle_close_position sample_env sample_close_ctx = Inr (p, nft)"
    by (simp add: sample_eval sample_close_ctx_def position_handlers_eval cong: bindr_weak_cong)
  then show ?thesis using close_only_empty by blast
qed

end
