(* ===== verification/PoolTerms.thy ===== *)
theory PoolTerms
  imports PoolSteps
begin

text \<open>
  What the life of a pool leaves alone: the terms it was opened with (its mints and vaults, price
  range, activation, fee schedule, partner and creator) never change, its volatility accumulator
  stays within its maximum, and its status is one of the two the code knows. As a consequence
  the fees of a pool with validated parameters can be computed forever.
\<close>

section \<open>The terms of a pool\<close>

text \<open>The terms are what is left of a pool when all that its instructions write is erased.\<close>

definition dynamic_terms :: "dynamic_fee_struct \<Rightarrow> dynamic_fee_struct" where
  "dynamic_terms df = df\<lparr> df_last_update_timestamp := 0, df_sqrt_price_reference := 0,
     df_volatility_accumulator := 0, df_volatility_reference := 0 \<rparr>"

definition fee_terms :: "pool_fees_struct \<Rightarrow> pool_fees_struct" where
  "fee_terms f = f\<lparr> pf_dynamic_fee := dynamic_terms (pf_dynamic_fee f) \<rparr>"

definition pool_terms :: "pool \<Rightarrow> pool" where
  "pool_terms p = p\<lparr> pool_fees := fee_terms (pool_fees p), pool_liquidity := 0, pool_protocol_a_fee := 0,
     pool_protocol_b_fee := 0, pool_partner_a_fee := 0, pool_partner_b_fee := 0, pool_sqrt_price := 0,
     pool_pool_status := 0, pool_fee_a_per_liquidity := 0, pool_fee_b_per_liquidity := 0,
     pool_permanent_lock_liquidity := 0, pool_metrics := default_pool_metrics,
     pool_reward_infos := Array2 default_reward_info default_reward_info \<rparr>"

definition volatility_ok :: "pool \<Rightarrow> bool" where
  "volatility_ok p \<longleftrightarrow> unat (df_volatility_accumulator (pf_dynamic_fee (pool_fees p))) \<le>
     unat (df_max_volatility_accumulator (pf_dynamic_fee (pool_fees p)))"

text \<open>All instructions but two also leave the status and the permanently locked total alone.\<close>

definition terms_step :: "pool \<Rightarrow> pool \<Rightarrow> bool" where
  "terms_step p p' \<longleftrightarrow> pool_terms p' = pool_terms p \<and> (volatility_ok p \<longrightarrow> volatility_ok p') \<and>
     pool_permanent_lock_liquidity p' = pool_permanent_lock_liquidity p \<and> pool_pool_status p' = pool_pool_status p"

lemma terms_step_refl [simp]: "terms_step p p"
  by (simp add: terms_step_def)

lemma terms_step_trans: "terms_step p p' \<Longrightarrow> terms_step p' p'' \<Longrightarrow> terms_step p p''"
  by (simp add: terms_step_def)

lemma terms_step_rewards [simp]: "terms_step p (p\<lparr> pool_reward_infos := ri \<rparr>)"
  and terms_step_metrics [simp]: "terms_step p (p\<lparr> pool_metrics := m \<rparr>)"
  and terms_step_liquidity [simp]: "terms_step p (p\<lparr> pool_liquidity := l \<rparr>)"
  and terms_step_protocol [simp]: "terms_step p (p\<lparr> pool_protocol_a_fee := x, pool_protocol_b_fee := y \<rparr>)"
  and terms_step_partner [simp]: "terms_step p (p\<lparr> pool_partner_a_fee := x, pool_partner_b_fee := y \<rparr>)"
  by (simp_all add: terms_step_def pool_terms_def volatility_ok_def)

lemma terms_step_dynamic:
  assumes "dynamic_terms df = dynamic_terms (pf_dynamic_fee (pool_fees p))"
    and "volatility_ok p \<Longrightarrow> unat (df_volatility_accumulator df) \<le> unat (df_max_volatility_accumulator df)"
  shows "terms_step p (p\<lparr> pool_fees := (pool_fees p)\<lparr> pf_dynamic_fee := df \<rparr> \<rparr>)"
  using assms by (simp add: terms_step_def pool_terms_def fee_terms_def volatility_ok_def)

section \<open>Swaps\<close>

lemma update_references_terms: "update_references df P now = Inr df' \<Longrightarrow> dynamic_terms df' = dynamic_terms df"
  by (auto simp: update_references_def bindr_eq_Inr Let_def dynamic_terms_def split: if_splits)

lemma update_pre_swap_terms:
  assumes "update_pre_swap p ts = Inr p'"
  shows "terms_step p p'"
proof (cases "is_dynamic_fee_enable (pf_dynamic_fee (pool_fees p))")
  case True
  then obtain df where df: "update_references (pf_dynamic_fee (pool_fees p)) (pool_sqrt_price p) ts = Inr df"
    and p': "p' = p\<lparr> pool_fees := (pool_fees p)\<lparr> pf_dynamic_fee := df \<rparr> \<rparr>"
    using assms by (auto simp: update_pre_swap_def Let_def bindr_eq_Inr)
  show ?thesis
    unfolding p' using update_references_terms [OF df] update_references_frame(1,2) [OF df]
    by (intro terms_step_dynamic) (simp_all add: volatility_ok_def)
next
  case False
  then show ?thesis using assms by (simp add: update_pre_swap_def Let_def)
qed

lemma update_post_swap_terms:
  assumes "update_post_swap p old ts = Inr p'"
  shows "terms_step p p'"
proof (cases "is_dynamic_fee_enable (pf_dynamic_fee (pool_fees p))")
  case True
  then obtain df x where df: "update_volatility_accumulator (pf_dynamic_fee (pool_fees p)) (pool_sqrt_price p) = Inr df"
    and p': "p' = p\<lparr> pool_fees := (pool_fees p)\<lparr> pf_dynamic_fee :=
      (if x then df\<lparr> df_last_update_timestamp := ts \<rparr> else df) \<rparr> \<rparr>"
    using assms by (auto simp: update_post_swap_def Let_def bindr_eq_Inr)
  have "dynamic_terms df = dynamic_terms (pf_dynamic_fee (pool_fees p))"
    by (rule update_volatility_accumulator_frame [OF df]) (simp add: dynamic_terms_def)
  then show ?thesis
    unfolding p' using update_volatility_accumulator_bounded [OF df]
    by (intro terms_step_dynamic) (simp_all add: dynamic_terms_def)
next
  case False
  then show ?thesis using assms by (simp add: update_post_swap_def Let_def)
qed

lemma apply_swap_result_terms:
  assumes "apply_swap_result p sr fm ts = Inr p'"
  shows "terms_step p p'"
proof -
  obtain q where q: "update_post_swap q (pool_sqrt_price p) ts = Inr p'"
    and "pool_terms q = pool_terms p" "pool_fees q = pool_fees p"
      "pool_permanent_lock_liquidity q = pool_permanent_lock_liquidity p" "pool_pool_status q = pool_pool_status p"
    using assms
    by (auto simp: apply_swap_result_def Let_def bindr_eq_Inr pool_terms_def split: if_splits)
  then have "terms_step p q" by (simp add: terms_step_def volatility_ok_def)
  then show ?thesis using update_post_swap_terms [OF q] terms_step_trans by blast
qed

lemma handle_swap_terms:
  assumes "handle_swap env ctx params = Inr (p', sr, trs)"
  shows "terms_step (sc_pool ctx) p'"
proof -
  obtain p fm where "update_pre_swap (sc_pool ctx) (current_time env) = Inr p"
    and "apply_swap_result p sr fm (current_time env) = Inr p'"
    by (rule handle_swap_frame [OF assms])
  then show ?thesis using update_pre_swap_terms apply_swap_result_terms terms_step_trans by blast
qed

section \<open>The other instructions\<close>

lemma pool_update_rewards_terms: "pool_update_rewards p now = Inr p' \<Longrightarrow> terms_step p p'"
  by (auto simp: pool_update_rewards_def bindr_eq_Inr)

lemma pos_update_rewards_terms:
  assumes "pos_update_rewards pos p now = Inr (pos', p')"
  shows "terms_step p p'"
  by (rule pos_update_rewards_frame [OF assms]) simp

lemma handle_add_liquidity_terms:
  assumes "handle_add_liquidity env ctx params = Inr (p', pos', trs)"
  shows "terms_step (lc_pool ctx) p'"
proof -
  obtain p pos where r: "pos_update_rewards (lc_position ctx) (lc_pool ctx) (current_time env) = Inr (pos, p)"
    and a: "apply_add_liquidity p pos (al_liquidity_delta params) = Inr (p', pos')"
    by (rule handle_add_liquidity_frame [OF assms])
  have "terms_step p p'" by (rule apply_add_liquidity_frame [OF a]) simp
  then show ?thesis using pos_update_rewards_terms [OF r] terms_step_trans by blast
qed

lemma handle_remove_liquidity_terms:
  assumes "handle_remove_liquidity env ctx d min_a min_b = Inr (p', pos', trs)"
  shows "terms_step (lc_pool ctx) p'"
proof -
  obtain p pos where r: "pos_update_rewards (lc_position ctx) (lc_pool ctx) (current_time env) = Inr (pos, p)"
    and a: "apply_remove_liquidity p pos (case d of Some d \<Rightarrow> d | None \<Rightarrow> pos_unlocked_liquidity (lc_position ctx)) = Inr (p', pos')"
    by (rule handle_remove_liquidity_frame [OF assms])
  have "terms_step p p'" by (rule apply_remove_liquidity_frame [OF a]) simp
  then show ?thesis using pos_update_rewards_terms [OF r] terms_step_trans by blast
qed

lemma claim_protocol_terms:
  assumes "handle_claim_protocol_fee env ctx ma mb = Inr (p', trs)"
  shows "terms_step (cc_pool ctx) p'"
  by (rule claim_protocol_fee_frame [OF assms]) (simp add: claim_protocol_fee_eq_Inr)

lemma claim_partner_terms:
  assumes "handle_claim_partner_fee env ctx ma mb = Inr (p', trs)"
  shows "terms_step (cc_pool ctx) p'"
  by (rule claim_partner_fee_frame [OF assms]) (simp add: claim_partner_fee_eq_Inr)

lemma create_position_terms:
  assumes "handle_create_position env ctx = Inr (p', pos', nft)"
  shows "terms_step (cp_pool ctx) p'"
  using assms by (auto simp: handle_create_position_def bindr_eq_Inr Let_def pos_initialize_def split: prod.splits)

lemma close_position_terms:
  assumes "handle_close_position env ctx = Inr (p', nft)"
  shows "terms_step (cl_pool ctx) p'"
  using assms by (auto simp: handle_close_position_def bindr_eq_Inr)

lemma split_terms:
  assumes "handle_split_position2 env ctx params = Inr (p', pos1', pos2', info)"
  shows "terms_step (sx_pool ctx) p'"
  by (rule handle_split_frame [OF assms]) (rule pool_update_rewards_terms)

lemma reward_terms:
  "handle_initialize_reward env rctx i d f = Inr p' \<Longrightarrow> terms_step (ra_pool rctx) p'"
  "handle_withdraw_ineligible_reward env fctx i = Inr (p', trs) \<Longrightarrow> terms_step (fd_pool fctx) p'"
  "handle_update_reward_duration env p signer i d = Inr p' \<Longrightarrow> terms_step p p'"
  "handle_update_reward_funder p signer i f = Inr p' \<Longrightarrow> terms_step p p'"
  by (auto simp: handle_initialize_reward_def handle_withdraw_ineligible_reward_def handle_update_reward_duration_def
      handle_update_reward_funder_def claim_ineligible_reward_def Let_def bindr_eq_Inr split: prod.splits simp del: bindr_assoc
      intro: terms_step_trans [OF pool_update_rewards_terms])

lemma fund_reward_terms:
  assumes "handle_fund_reward env ctx i amount carry = Inr (p', x, trs)"
  shows "terms_step (fd_pool ctx) p'"
  by (insert assms, unfold handle_fund_reward_def Let_def bindr_eq_Inr, elim exE conjE; cases carry;
      clarsimp simp: bindr_eq_Inr simp del: bindr_assoc; erule terms_step_trans [OF pool_update_rewards_terms]; simp)

lemma claim_reward_terms:
  assumes "handle_claim_reward env ctx i skip = Inr (p', pos', trs)"
  shows "terms_step (cr_pool ctx) p'"
  using assms pos_update_rewards_terms
  by (auto simp: handle_claim_reward_def bindr_eq_Inr Let_def split: if_splits prod.splits)

lemma permanent_lock_terms:
  assumes "handle_permanent_lock_position env ctx l = Inr (p', pos')"
  obtains x where "p' = (pl_pool ctx)\<lparr> pool_permanent_lock_liquidity := x \<rparr>"
    and "unat x = unat (pool_permanent_lock_liquidity (pl_pool ctx)) + unat l"
proof -
  obtain x where x: "p' = (pl_pool ctx)\<lparr> pool_permanent_lock_liquidity := x \<rparr>"
    using assms by (auto simp: handle_permanent_lock_position_def accumulate_permanent_locked_liquidity_def bindr_eq_Inr
        simp del: bindr_assoc)
  show ?thesis using permanent_lock_frame(3) [OF assms] by (intro that [OF x]) (simp add: x)
qed

section \<open>Invariants of every instruction\<close>

definition pool_ok :: "pool \<Rightarrow> bool" where
  "pool_ok p \<longleftrightarrow> volatility_ok p \<and> unat (pool_pool_status p) \<le> 1 \<and> unat (pool_activation_type p) \<le> 1"

lemma pool_terms_activation: "pool_terms p' = pool_terms p \<Longrightarrow> pool_activation_type p' = pool_activation_type p"
  by (drule arg_cong [where f = pool_activation_type]) (simp add: pool_terms_def)

lemma terms_step_keeps:
  assumes "terms_step p p'"
  shows "pool_terms p' = pool_terms p" and "pool_ok p \<Longrightarrow> pool_ok p'"
    and "unat (pool_permanent_lock_liquidity p) \<le> unat (pool_permanent_lock_liquidity p')"
proof -
  show t: "pool_terms p' = pool_terms p" using assms by (simp add: terms_step_def)
  show "pool_ok p'" if "pool_ok p"
    using that assms by (simp add: terms_step_def pool_ok_def pool_terms_activation [OF t])
  show "unat (pool_permanent_lock_liquidity p) \<le> unat (pool_permanent_lock_liquidity p')"
    using assms by (simp add: terms_step_def)
qed

text \<open>A step of the world: a step with the same terms, a change of the status, or a permanent lock.\<close>

lemma pool_step_kinds:
  assumes "pool_step ch w w'"
  obtains (terms) "terms_step (w_pool w) (w_pool w')"
  | (status) admin status where "handle_set_pool_status (w_pool w) admin status = Inr (w_pool w')"
  | (permanent) env ctx l pos k where "pl_pool ctx = w_pool w" and "w_positions w k = Some (pl_position ctx)"
      and "handle_permanent_lock_position env ctx l = Inr (w_pool w', pos)" and "w_positions w' = (w_positions w)(k \<mapsto> pos)"
  using assms
proof cases
  case (swap env ctx mints params p sr trs b)
  then show ?thesis using handle_swap_terms [of env ctx params p sr trs] terms by simp
next
  case (add_liquidity env ctx k mints params p pos trs b)
  then show ?thesis using handle_add_liquidity_terms [of env ctx params p pos trs] terms by simp
next
  case (remove_liquidity env ctx k d min_a min_b p pos trs mints b)
  then show ?thesis using handle_remove_liquidity_terms [of env ctx d min_a min_b p pos trs] terms by simp
next
  case (claim_protocol_fee env ctx ma mb p trs mints b)
  then show ?thesis using claim_protocol_terms [of env ctx ma mb p trs] terms by simp
next
  case (claim_partner_fee env ctx ma mb p trs mints b)
  then show ?thesis using claim_partner_terms [of env ctx ma mb p trs] terms by simp
next
  case (create_position ctx env p pos nft)
  then show ?thesis using create_position_terms [of env ctx p pos nft] terms by simp
next
  case (close_position ctx k env p nft)
  then show ?thesis using close_position_terms [of env ctx p nft] terms by simp
next
  case (permanent_lock_position ctx k env l p pos)
  then show ?thesis using permanent [of ctx k env l pos] by simp
next
  case (split_position ctx env params2 p pos1 pos2 info)
  then show ?thesis using split_terms [of env ctx params2 p pos1 pos2 info] terms by simp
next
  case (set_pool_status admin status p)
  then show ?thesis using status [of admin status] by simp
next
  case (initialize_reward ctx env i duration funder p)
  then show ?thesis using reward_terms(1) [of env ctx i duration funder p] terms by simp
next
  case (fund_reward ctx env i amount carry p x trs mints b)
  then show ?thesis using fund_reward_terms [of env ctx i amount carry p x trs] terms by simp
next
  case (withdraw_ineligible_reward ctx env i p trs mints b)
  then show ?thesis using reward_terms(2) [of env ctx i p trs] terms by simp
next
  case (update_reward_duration env signer i duration p)
  then show ?thesis using reward_terms(3) [of env "w_pool w" signer i duration p] terms by simp
next
  case (update_reward_funder signer i funder p)
  then show ?thesis using reward_terms(4) [of "w_pool w" signer i funder p] terms by simp
next
  case (claim_reward ctx k env i skip p pos trs mints b)
  then show ?thesis using claim_reward_terms [of env ctx i skip p pos trs] terms by simp
qed (use terms in simp_all)

lemma pool_step_keeps:
  assumes "pool_step ch w w'"
  shows "pool_terms (w_pool w') = pool_terms (w_pool w)" and "pool_ok (w_pool w) \<Longrightarrow> pool_ok (w_pool w')"
    and "unat (pool_permanent_lock_liquidity (w_pool w)) \<le> unat (pool_permanent_lock_liquidity (w_pool w'))"
proof -
  have *: "pool_terms (w_pool w') = pool_terms (w_pool w) \<and> (pool_ok (w_pool w) \<longrightarrow> pool_ok (w_pool w')) \<and>
    unat (pool_permanent_lock_liquidity (w_pool w)) \<le> unat (pool_permanent_lock_liquidity (w_pool w'))"
    using assms
  proof (cases rule: pool_step_kinds)
    case terms
    then show ?thesis using terms_step_keeps by blast
  next
    case (status admin status)
    then obtain "unat status \<le> 1" and p': "w_pool w' = (w_pool w)\<lparr> pool_pool_status := status \<rparr>"
      by (auto simp: set_pool_status_eq_Inr)
    then show ?thesis by (simp add: pool_terms_def pool_ok_def volatility_ok_def)
  next
    case (permanent env ctx l pos k)
    obtain x where "w_pool w' = (w_pool w)\<lparr> pool_permanent_lock_liquidity := x \<rparr>"
      "unat x = unat (pool_permanent_lock_liquidity (w_pool w)) + unat l"
      using permanent_lock_terms [OF permanent(3)] permanent(1) by auto
    then show ?thesis by (simp add: pool_terms_def pool_ok_def volatility_ok_def)
  qed
  then show "pool_terms (w_pool w') = pool_terms (w_pool w)" and "pool_ok (w_pool w) \<Longrightarrow> pool_ok (w_pool w')"
    and "unat (pool_permanent_lock_liquidity (w_pool w)) \<le> unat (pool_permanent_lock_liquidity (w_pool w'))"
    by blast+
qed

definition terms_kept :: "world \<Rightarrow> world \<Rightarrow> bool" where
  "terms_kept w w' \<longleftrightarrow> pool_terms (w_pool w') = pool_terms (w_pool w) \<and>
     pool_permanent_lock_liquidity (w_pool w) \<le> pool_permanent_lock_liquidity (w_pool w')"

interpretation terms: step_order "pool_step ch" terms_kept for ch
  by unfold_locales (auto simp: terms_kept_def word_le_nat_alt pool_step_keeps)

section \<open>New pools\<close>

lemma open_pool_ok:
  assumes "open_pool ctx fees av partner lo hi P point ty l mode kind = Inr (p, pos, nft)"
    and "df_volatility_accumulator (pf_dynamic_fee fees) = 0" and "unat ty \<le> 1"
  shows "pool_ok p"
  using assms
  by (auto simp: open_pool_def Let_def bindr_eq_Inr pos_initialize_def pool_initialize_def pool_ok_def volatility_ok_def
      default_pool_def split: prod.splits)

lemma get_current_point_type: "get_current_point clk ty = Inr x \<Longrightarrow> unat ty \<le> 1"
  by (auto simp: get_current_point_def bindr_eq_Inr to_activation_type_eq_Inr)

lemma new_fees_calm: "df_volatility_accumulator (pf_dynamic_fee (to_pool_fees_struct pp)) = 0"
  "df_volatility_accumulator (pf_dynamic_fee (pc_to_pool_fees_struct pc)) = 0"
  by (auto simp: to_pool_fees_struct_def default_pool_fees_def default_dynamic_fee_def to_dynamic_fee_struct_def
      pc_to_pool_fees_struct_def dc_to_dynamic_fee_struct_def split: option.splits)

lemma open_customizable_ok:
  assumes "open_customizable_pool env ctx params partner = Inr ((p, pos, nft), a, b)"
  shows "pool_ok p"
  using assms
  by (auto simp: open_customizable_pool_def Let_def bindr_eq_Inr new_fees_calm dest: get_current_point_type
      intro: open_pool_ok split: prod.splits)

lemma initialize_ok:
  "handle_initialize_pool env ctx params = Inr (p, pos, nft, trs) \<Longrightarrow> pool_ok p"
  "handle_initialize_pool_with_dynamic_config env ctx cparams = Inr (p, pos, nft, trs) \<Longrightarrow> pool_ok p"
  "handle_initialize_customizable_pool env ctx cparams = Inr (p, pos, nft, trs) \<Longrightarrow> pool_ok p"
  by (auto simp: handle_initialize_pool_def handle_initialize_pool_with_dynamic_config_def
      handle_initialize_customizable_pool_def Let_def bindr_eq_Inr new_fees_calm dest: get_current_point_type
      intro: open_pool_ok open_customizable_ok split: prod.splits)

lemma pool_start_ok: "pool_start ch w \<Longrightarrow> pool_ok (w_pool w)"
  by (induction rule: pool_start.induct) (use initialize_ok in auto)

interpretation pool_account: state_invariant "pool_start ch" "pool_step ch" "\<lambda>w. pool_ok (w_pool w)" for ch
  by unfold_locales (rule pool_start_ok, assumption, rule pool_step_keeps(2))

lemmas pool_reachable_ok = pool_account.always

section \<open>Fees\<close>

lemma pool_terms_fees:
  assumes "pool_terms p' = pool_terms p" and "volatility_ok p'" and "fees_from pp (pool_fees p)"
  shows "fees_from pp (pool_fees p')"
proof -
  have f: "fee_terms (pool_fees p') = fee_terms (pool_fees p)"
    using arg_cong [OF assms(1), where f = pool_fees] by (simp add: pool_terms_def)
  have "pf_base_fee (pool_fees p') = pf_base_fee (pool_fees p)"
    "pf_protocol_fee_percent (pool_fees p') = pf_protocol_fee_percent (pool_fees p)"
    "pf_partner_fee_percent (pool_fees p') = pf_partner_fee_percent (pool_fees p)"
    "pf_referral_fee_percent (pool_fees p') = pf_referral_fee_percent (pool_fees p)"
    using arg_cong [OF f, where f = pf_base_fee] arg_cong [OF f, where f = pf_protocol_fee_percent]
      arg_cong [OF f, where f = pf_partner_fee_percent] arg_cong [OF f, where f = pf_referral_fee_percent]
    by (simp_all add: fee_terms_def)
  then show ?thesis using assms(2,3) by (simp add: fees_from_def volatility_ok_def word_le_nat_alt)
qed

end
