(* ===== verification/GovernanceProperties.thy ===== *)
theory GovernanceProperties
  imports PoolTerms Samples
begin

text \<open>
  Who may do what and when: the gates of the instructions (pool status, activation, admin, fee
  operator, partner), the accounting of transfer fees, and the funding and claiming of rewards.
\<close>

section \<open>Gates\<close>

lemma fails_iff: "(\<exists>e. x = Inl e) \<longleftrightarrow> (\<forall>r. x \<noteq> Inr r)"
  by (cases x) auto

text \<open>C29: On a pool that is not enabled nobody swaps, adds liquidity, opens a position, locks a position for
  a time or for good, or splits one: each of these instructions fails whatever its other accounts are.\<close>

theorem disabled_pool_is_frozen:
  assumes "\<not> pool_enabled p"
  shows "(\<forall>ctx params. sc_pool ctx = p \<longrightarrow> (\<exists>e. handle_swap env ctx params = Inl e)) \<and>
    (\<forall>ctx params. lc_pool ctx = p \<longrightarrow> (\<exists>e. handle_add_liquidity env ctx params = Inl e)) \<and>
    (\<forall>ctx. cp_pool ctx = p \<longrightarrow> (\<exists>e. handle_create_position env ctx = Inl e)) \<and>
    (\<forall>vs ctx params. lk_pool ctx = p \<longrightarrow> (\<exists>e. handle_lock_position env vs ctx params = Inl e)) \<and>
    (\<forall>ctx l. pl_pool ctx = p \<longrightarrow> (\<exists>e. handle_permanent_lock_position env ctx l = Inl e)) \<and>
    (\<forall>ctx params. sx_pool ctx = p \<longrightarrow> (\<exists>e. handle_split_position2 env ctx params = Inl e))"
proof -
  note no = permissionless.disabled_pool [OF _ assms]
  have "handle_swap env ctx params \<noteq> Inr r" if "sc_pool ctx = p" for ctx params r
    using no(5) that by (cases r) (auto elim!: handle_swap_frame)
  moreover have "handle_add_liquidity env ctx params \<noteq> Inr r" if "lc_pool ctx = p" for ctx params r
    using no(1) that by (cases r) (auto elim!: handle_add_liquidity_frame)
  moreover have "handle_create_position env ctx \<noteq> Inr r" if "cp_pool ctx = p" for ctx r
    using no(2) that by (auto simp: handle_create_position_def bindr_eq_Inr require_eq_Inr Let_def)
  moreover have "handle_lock_position env vs ctx params \<noteq> Inr r" if "lk_pool ctx = p" for vs ctx params r
    using no(3) that by (auto simp: handle_lock_position_def bindr_eq_Inr require_eq_Inr)
  moreover have "handle_permanent_lock_position env ctx l \<noteq> Inr r" if "pl_pool ctx = p" for ctx l r
    using no(3) that by (auto simp: handle_permanent_lock_position_def bindr_eq_Inr require_eq_Inr)
  moreover have "handle_split_position2 env ctx params \<noteq> Inr r" if "sx_pool ctx = p" for ctx params r
    using no(4) that by (auto simp: handle_split_position2_def bindr_eq_Inr require_eq_Inr)
  ultimately show ?thesis unfolding fails_iff by blast
qed

lemma disabled_pool_is_frozen_witness:
  "\<exists>e. handle_swap sample_env (sample_swap_ctx\<lparr> sc_pool := sample_pool\<lparr> pool_pool_status := 1 \<rparr> \<rparr>) sample_swap_params = Inl e"
proof -
  have "\<not> pool_enabled (sample_pool\<lparr> pool_pool_status := 1 \<rparr>)" by (simp add: pool_enabled_def)
  from disabled_pool_is_frozen [OF this, of sample_env] show ?thesis by simp
qed

text \<open>C30: Before the activation point of a pool nobody can remove liquidity, and nobody but its whitelisted
  vault can swap; not even the vault can before the buffer that precedes the activation point.\<close>

theorem nothing_before_activation:
  assumes "\<not> pool_active (env_clock env) p"
  shows "(\<forall>ctx d a b. lc_pool ctx = p \<longrightarrow> (\<exists>e. handle_remove_liquidity env ctx d a b = Inl e)) \<and>
    (\<forall>ctx params. sc_pool ctx = p \<longrightarrow>
       sc_payer ctx \<noteq> pool_whitelisted_vault p \<or>
       unat (if pool_activation_type p = 0 then clk_slot (env_clock env) else clk_unix_timestamp (env_clock env)) <
         unat (pool_activation_point p) - (if pool_activation_type p = 0 then 9000 else 3600) \<longrightarrow>
       (\<exists>e. handle_swap env ctx params = Inl e))"
proof -
  have "handle_remove_liquidity env ctx d a b \<noteq> Inr r" if "lc_pool ctx = p" for ctx d a b r
    using permissionless.no_sandwich_before_activation(1) [OF _ assms] that
    by (cases r) (auto elim!: handle_remove_liquidity_frame)
  moreover have False
    if ok: "handle_swap env ctx params = Inr r" and pool: "sc_pool ctx = p" and who:
      "sc_payer ctx \<noteq> pool_whitelisted_vault p \<or>
       unat (if pool_activation_type p = 0 then clk_slot (env_clock env) else clk_unix_timestamp (env_clock env)) <
         unat (pool_activation_point p) - (if pool_activation_type p = 0 then 9000 else 3600)" for ctx params r
  proof -
    obtain p' sr trs where "handle_swap env ctx params = Inr (p', sr, trs)" by (cases r) (use ok in auto)
    then obtain pa where pa: "get_pool_access_validator (env_clock env) p = Inr pa" "can_swap pa (sc_payer ctx)"
      using pool by (auto elim!: handle_swap_frame)
    have "sc_payer ctx = pool_whitelisted_vault p"
      using permissionless.no_sandwich_before_activation(2) [OF pa(1) assms pa(2)] .
    then have "pa_pre_activation_point pa \<le> pa_current_point pa"
      using pa(2) permissionless_new_frame(3) [OF pa(1)] by (simp add: can_swap_def split: if_splits)
    then show False
      using who \<open>sc_payer ctx = pool_whitelisted_vault p\<close> permissionless_new_frame(4,5) [OF pa(1)]
      by (simp add: word_le_nat_alt)
  qed
  ultimately show ?thesis unfolding fails_iff by blast
qed

lemma nothing_before_activation_witness:
  "\<exists>e. handle_swap sample_env (sample_swap_ctx\<lparr> sc_pool := sample_pool\<lparr> pool_activation_point := 6 \<rparr> \<rparr>) sample_swap_params = Inl e"
proof -
  have "\<not> pool_active (env_clock sample_env) (sample_pool\<lparr> pool_activation_point := 6 \<rparr>)"
    "pool_whitelisted_vault (sample_pool\<lparr> pool_activation_point := 6 \<rparr>) = 0" "sc_payer sample_swap_ctx = 40"
    by (simp_all add: pool_active_def sample_env_def sample_pool_def pool_initialize_def sample_swap_ctx_def)
  with nothing_before_activation [OF this(1)] show ?thesis by simp
qed

text \<open>A pool opens at a validated time: not in the past and at most 31 days ahead, and with an alpha vault
  at least an hour and ten minutes from now, in slots or in seconds, so that the vault can fill.\<close>

theorem activation_is_near:
  assumes "activation_params_validate clk ap = Inr u" and "ap_activation_point ap = Some point"
    and "get_current_point clk (ap_activation_type ap) = Inr now"
  defines "hour \<equiv> (if ap_activation_type ap = 0 then 9000 else 3600)"
  shows "unat now \<le> unat point \<and> unat point \<le> unat now + hour * 24 * 31 \<and>
    (ap_has_alpha_vault ap \<longrightarrow> unat now + hour + hour div 6 \<le> unat point)"
  using activation_params_validate_sound [OF assms(1-3)] unfolding hour_def by blast

lemma activation_is_near_witness:
  "activation_params_validate \<lparr> clk_slot = 5, clk_unix_timestamp = 1000 \<rparr>
     \<lparr> ap_activation_point = Some 20000, ap_has_alpha_vault = True, ap_activation_type = 1 \<rparr> = Inr () \<and>
   1000 + 3600 + 600 \<le> (20000 :: nat)"
proof -
  let ?clk = "\<lparr> clk_slot = 5, clk_unix_timestamp = 1000 \<rparr>"
  let ?ap = "\<lparr> ap_activation_point = Some 20000, ap_has_alpha_vault = True, ap_activation_type = 1 \<rparr>"
  have v: "activation_params_validate ?clk ?ap = Inr ()"
    by (simp add: activation_eval safe_eval Let_def cong: bindr_weak_cong)
  have now: "get_current_point ?clk (ap_activation_type ?ap) = Inr 1000" by (simp add: activation_eval cong: bindr_weak_cong)
  show ?thesis using activation_is_near [OF v _ now, of 20000] v by simp
qed

section \<open>Authority\<close>

text \<open>Only an admin of the list in the code creates and closes configurations, fee operators and token
  badges and sets the status of a pool: signed by anyone else each of these instructions fails.\<close>

theorem only_admins_govern:
  assumes "\<not> assert_eq_admin signer"
  shows "(\<exists>e. handle_set_pool_status p signer status = Inl e) \<and>
    (\<exists>e. handle_create_static_config env account ex signer index params = Inl e) \<and>
    (\<exists>e. handle_create_dynamic_config env account ex signer index creator = Inl e) \<and>
    (\<exists>e. handle_close_config receiver signer = Inl e) \<and>
    (\<exists>e. handle_create_claim_fee_operator env account ex operator signer = Inl e) \<and>
    (\<exists>e. handle_close_claim_fee_operator receiver signer = Inl e) \<and>
    (\<exists>e. handle_create_token_badge env account ex m signer = Inl e) \<and>
    (\<exists>e. handle_close_token_badge receiver signer = Inl e)"
  using assms unfolding fails_iff
  by (auto simp: handle_create_static_config_def handle_create_dynamic_config_def handle_close_config_def
      handle_create_claim_fee_operator_def handle_close_claim_fee_operator_def handle_create_token_badge_def
      handle_close_token_badge_def handle_set_pool_status_def bindr_eq_Inr check_admin_eq_Inr)

lemma only_admins_govern_witness: "\<exists>e. handle_close_config 40 41 = Inl e"
proof -
  have "\<not> assert_eq_admin 41" by (simp add: assert_eq_admin_def ADMINS_def)
  from only_admins_govern [OF this] show ?thesis by blast
qed

text \<open>The status of a pool changes exactly when an admin asks for the other one of the two statuses, and
  nothing else of the pool changes with it.\<close>

theorem status_toggles:
  "handle_set_pool_status p admin status = Inr p' \<longleftrightarrow> assert_eq_admin admin \<and>
     {pool_pool_status p, status} = {0, 1} \<and> p' = p\<lparr> pool_pool_status := status \<rparr>"
  by (auto simp: set_pool_status_eq_Inr doubleton_eq_iff)

text \<open>C32: Claiming protocol fees needs a registered operator, pays only into accounts of the treasury, pays
  out of each vault the smaller of the fee and the stated maximum, takes exactly that off the books
  of the pool and changes nothing else in it.\<close>

theorem protocol_fee_claim_exact:
  assumes "handle_claim_protocol_fee env ctx max_a max_b = Inr (p', trs)"
    and "pool_token_a_vault (cc_pool ctx) \<noteq> pool_token_b_vault (cc_pool ctx)"
  defines "p \<equiv> cc_pool ctx"
  shows "co_operator (cc_claim_fee_operator ctx) = cc_signer ctx \<and>
    ta_authority (cc_token_a_account ctx) = treasury_ID \<and> ta_authority (cc_token_b_account ctx) = treasury_ID \<and>
    (\<forall>t\<in>set trs. tr_to t = ta_key (cc_token_a_account ctx) \<or> tr_to t = ta_key (cc_token_b_account ctx)) \<and>
    paid_from (vault SideA p) trs = min (unat (pool_protocol_a_fee p)) (unat max_a) \<and>
    paid_from (vault SideB p) trs = min (unat (pool_protocol_b_fee p)) (unat max_b) \<and>
    p' = p\<lparr> pool_protocol_a_fee := pool_protocol_a_fee p - min (pool_protocol_a_fee p) max_a,
            pool_protocol_b_fee := pool_protocol_b_fee p - min (pool_protocol_b_fee p) max_b \<rparr>"
proof -
  obtain a b where c: "claim_fee_constraints env ctx = Inr ()" and ab: "claim_protocol_fee p max_a max_b = Inr (p', a, b)"
    and trs: "trs = (if a > 0 then [transfer_from_pool (cc_pool_authority ctx) (cc_token_a_mint ctx) (cc_token_a_vault ctx)
                (cc_token_a_account ctx) a] else []) @
               (if b > 0 then [transfer_from_pool (cc_pool_authority ctx) (cc_token_b_mint ctx) (cc_token_b_vault ctx)
                (cc_token_b_account ctx) b] else [])"
    and who: "co_operator (cc_claim_fee_operator ctx) = cc_signer ctx"
      "ta_authority (cc_token_a_account ctx) = treasury_ID" "ta_authority (cc_token_b_account ctx) = treasury_ID"
    unfolding p_def by (rule claim_protocol_fee_frame [OF assms(1)])
  note vaults = claim_vaults [OF c, folded p_def]
  have "unat (min x y) = min (unat x) (unat y)" for x y :: u64 by (simp add: min_def word_le_nat_alt)
  then show ?thesis
    using ab who assms(2) by (auto simp: claim_protocol_fee_eq_Inr trs vaults vault_def p_def word_pos unat_eq_0)
qed

definition sample_claim_ctx :: "pubkey \<Rightarrow> claim_fee_ctx" where
  "sample_claim_ctx signer = \<lparr> cc_pool_authority = 1,
     cc_pool = sample_pool\<lparr> pool_protocol_a_fee := 700, pool_partner := 41, pool_partner_b_fee := 30 \<rparr>,
     cc_token_a_vault = sample_account 50 11 1, cc_token_b_vault = sample_account 51 12 1,
     cc_token_a_mint = sample_mint 11, cc_token_b_mint = sample_mint 12,
     cc_token_a_account = (sample_account 0 11 treasury_ID)\<lparr> ta_key := env_pda sample_env ''associated_token'' [treasury_ID, TOKEN_PROGRAM_ID, 11] \<rparr>,
     cc_token_b_account = (sample_account 0 12 treasury_ID)\<lparr> ta_key := env_pda sample_env ''associated_token'' [treasury_ID, TOKEN_PROGRAM_ID, 12] \<rparr>,
     cc_token_a_program = TOKEN_PROGRAM_ID, cc_token_b_program = TOKEN_PROGRAM_ID,
     cc_claim_fee_operator = \<lparr> co_operator = 44 \<rparr>, cc_signer = signer \<rparr>"

lemma sample_claim_pool:
  "cc_pool (sample_claim_ctx k) = sample_pool\<lparr> pool_protocol_a_fee := 700, pool_partner := 41, pool_partner_b_fee := 30 \<rparr>"
  "pool_token_a_vault (cc_pool (sample_claim_ctx k)) \<noteq> pool_token_b_vault (cc_pool (sample_claim_ctx k))"
  by (simp_all add: sample_claim_ctx_def sample_pool_def pool_initialize_def)

lemma protocol_fee_claim_exact_witness:
  "\<exists>p trs. handle_claim_protocol_fee sample_env (sample_claim_ctx 44) 500 500 = Inr (p, trs) \<and>
     paid_from (vault SideA sample_pool) trs = 500 \<and> pool_protocol_a_fee p = 200"
proof -
  obtain p trs where claim: "handle_claim_protocol_fee sample_env (sample_claim_ctx 44) 500 500 = Inr (p, trs)"
    by (simp add: sample_eval sample_claim_ctx_def admin_eval liquidity_handlers_eval cong: bindr_weak_cong)
  then show ?thesis
    using protocol_fee_claim_exact [OF claim sample_claim_pool(2)] sample_claim_pool(1) by (auto simp: vault_def)
qed

text \<open>Claiming partner fees needs the signature of the partner of the pool, pays out of each vault the
  smaller of the fee and the stated maximum, takes exactly that off the books of the pool and changes
  nothing else in it.\<close>

theorem partner_fee_claim_exact:
  assumes "handle_claim_partner_fee env ctx max_a max_b = Inr (p', trs)"
    and "pool_token_a_vault (cc_pool ctx) \<noteq> pool_token_b_vault (cc_pool ctx)"
  defines "p \<equiv> cc_pool ctx"
  shows "pool_partner p = cc_signer ctx \<and>
    paid_from (vault SideA p) trs = min (unat (pool_partner_a_fee p)) (unat max_a) \<and>
    paid_from (vault SideB p) trs = min (unat (pool_partner_b_fee p)) (unat max_b) \<and>
    p' = p\<lparr> pool_partner_a_fee := pool_partner_a_fee p - min (pool_partner_a_fee p) max_a,
            pool_partner_b_fee := pool_partner_b_fee p - min (pool_partner_b_fee p) max_b \<rparr>"
proof -
  obtain a b where c: "claim_fee_constraints env ctx = Inr ()" and ab: "claim_partner_fee p max_a max_b = Inr (p', a, b)"
    and trs: "trs = (if max_a > 0 then [transfer_from_pool (cc_pool_authority ctx) (cc_token_a_mint ctx) (cc_token_a_vault ctx)
                (cc_token_a_account ctx) a] else []) @
               (if max_b > 0 then [transfer_from_pool (cc_pool_authority ctx) (cc_token_b_mint ctx) (cc_token_b_vault ctx)
                (cc_token_b_account ctx) b] else [])"
    and who: "pool_partner p = cc_signer ctx"
    unfolding p_def by (rule claim_partner_fee_frame [OF assms(1)])
  note vaults = claim_vaults [OF c, folded p_def]
  have "unat (min x y) = min (unat x) (unat y)" for x y :: u64 by (simp add: min_def word_le_nat_alt)
  then show ?thesis
    using ab who assms(2) by (auto simp: claim_partner_fee_eq_Inr trs vaults vault_def p_def word_pos unat_eq_0)
qed

lemma partner_fee_claim_exact_witness:
  "\<exists>p trs. handle_claim_partner_fee sample_env (sample_claim_ctx 41) 500 500 = Inr (p, trs) \<and>
     paid_from (vault SideB sample_pool) trs = 30 \<and> pool_partner_b_fee p = 0"
proof -
  obtain p trs where claim: "handle_claim_partner_fee sample_env (sample_claim_ctx 41) 500 500 = Inr (p, trs)"
    by (simp add: sample_eval sample_claim_ctx_def admin_eval liquidity_handlers_eval cong: bindr_weak_cong)
  then show ?thesis
    using partner_fee_claim_exact [OF claim sample_claim_pool(2)] sample_claim_pool(1) by (auto simp: vault_def)
qed

section \<open>Transfer fees\<close>

text \<open>C33: The amount to send so that a given amount arrives is computed so that it does: for every fee function of
  the mint, sending the fee-included amount credits exactly the requested one, and the fee-excluded
  amount is what a transfer credits; amount and fee add up in both directions.\<close>

theorem transfer_fees_exact:
  assumes "calculate_transfer_fee_included_amount m x = Inr inc" and "x \<noteq> 0"
    and "calculate_transfer_fee_excluded_amount m (tfa_amount inc) = Inr exc"
  shows "received m (tfa_amount inc) = Some (unat x) \<and> tfa_amount exc = x \<and>
    unat (tfa_amount inc) = unat x + unat (tfa_transfer_fee inc) \<and> tfa_transfer_fee exc = tfa_transfer_fee inc"
proof -
  note i = included_amount_received [OF assms(1,2)] and e = excluded_amount_received [OF assms(3)]
  have "unat (tfa_amount exc) = unat x" using i(1) e(1) by simp
  then show ?thesis using i e by (simp add: word_eq_unat)
qed

definition sample_fee_mint :: mint_account where
  "sample_fee_mint = (sample_mint 13)\<lparr> mint_program := 5,
     mint_epoch_fee := Some \<lparr> tf_transfer_fee_basis_points = 100, tf_maximum_fee = 5000,
       tf_calculate_fee = (\<lambda>x. Some (min ((x + 99) div 100) 5000)),
       tf_calculate_inverse_fee = (\<lambda>x. Some (min ((x + 98) div 99) 5000)) \<rparr> \<rparr>"

lemma transfer_fees_exact_witness:
  "\<exists>inc. calculate_transfer_fee_included_amount sample_fee_mint 990 = Inr inc \<and> unat (tfa_amount inc) = 1000 \<and>
     received sample_fee_mint (tfa_amount inc) = Some 990"
proof -
  have inc: "calculate_transfer_fee_included_amount sample_fee_mint 990 =
      Inr \<lparr> tfa_amount = 1000, tfa_transfer_fee = 10 \<rparr>"
    and exc: "calculate_transfer_fee_excluded_amount sample_fee_mint 1000 =
      Inr \<lparr> tfa_amount = 990, tfa_transfer_fee = 10 \<rparr>"
    by (simp_all add: sample_fee_mint_def sample_mint_def token_eval safe_eval cong: bindr_weak_cong)
  show ?thesis using transfer_fees_exact [OF inc _] exc inc by simp
qed

end
