(* ===== verification/RewardBooks.thy ===== *)
theory RewardBooks
  imports PoolSteps
begin

text \<open>
  The books of a farming reward: what its campaign still has to distribute, what its positions have
  earned, and what each operation does to the sum. The vault of a reward must cover that sum.
\<close>

section \<open>Campaigns\<close>

text \<open>The campaign of an index; the handlers reject an index other than 0 and 1.\<close>

definition campaign :: "pool \<Rightarrow> u8 \<Rightarrow> reward_info" where
  "campaign p i = (if unat i = 0 then elem0 (pool_reward_infos p) else elem1 (pool_reward_infos p))"

lemma index_campaign:
  assumes "unat i < NUM_REWARDS"
  shows "arr_get (pool_reward_infos p) (unat i) = Inr ri \<longleftrightarrow> ri = campaign p i"
  using assms by (auto simp: arr_get_eq_Inr campaign_def NUM_REWARDS_def)

lemma campaign_set:
  assumes "unat i < NUM_REWARDS"
  shows "campaign (p\<lparr> pool_reward_infos := arr_set a (unat i) z \<rparr>) i = z"
  using assms by (auto simp: campaign_def NUM_REWARDS_def)

definition remaining_seconds :: "reward_info \<Rightarrow> nat" where
  "remaining_seconds ri = unat (ri_reward_duration_end ri) - unat (ri_last_update_time ri)"

lemma update_rewards_frame:
  assumes "ri_update_rewards ri l now = Inr ri'" and "ri_is_initialized ri"
  defines "t \<equiv> unat (min now (ri_reward_duration_end ri)) - unat (ri_last_update_time ri)"
  obtains s c where
    "ri' = ri\<lparr> ri_reward_per_token_stored := s, ri_cumulative_seconds_with_empty_liquidity_reward := c,
               ri_last_update_time := min now (ri_reward_duration_end ri) \<rparr>"
    "ri_last_update_time ri \<le> min now (ri_reward_duration_end ri)"
    "unat s = unat (ri_reward_per_token_stored ri) + t * unat (ri_reward_rate ri) * 2 ^ 128 div unat l"
    "unat c = unat (ri_cumulative_seconds_with_empty_liquidity_reward ri) + (if 0 < l then 0 else t)"
proof -
  have elapsed: "get_seconds_elapsed_since_last_update ri now = Inr dt \<longleftrightarrow>
      ri_last_update_time ri \<le> min now (ri_reward_duration_end ri) \<and> unat dt = t" for dt
    by (auto simp: get_seconds_elapsed_since_last_update_def Let_def safe_sub_eq_Inr t_def word_le_nat_alt)
  have ucast_unat: "unat (ucast (dt :: u64) :: u128) = unat dt" for dt
    by simp
  show ?thesis
  proof (cases "0 < l")
    case True
    obtain dt and total :: u128 and g s :: u256 where dt: "ri_last_update_time ri \<le> min now (ri_reward_duration_end ri)" "unat (dt :: u64) = t"
      and total: "unat (total :: u128) = unat (ucast dt :: u128) * unat (ri_reward_rate ri)"
      and g: "shl_div_256 total l LIQUIDITY_SCALE = Some g"
      and s: "unat s = unat (ri_reward_per_token_stored ri) + unat g"
      and ri': "ri' = ri\<lparr> ri_reward_per_token_stored := s, ri_last_update_time := min now (ri_reward_duration_end ri) \<rparr>"
      using assms(1,2) True
      by (auto simp: ri_update_rewards_def bindr_eq_Inr calculate_reward_per_token_stored_since_last_update_def
          accumulate_reward_per_token_stored_def update_last_update_time_def elapsed
          safe_mul_eq_Inr safe_add_eq_Inr ok_or_eq_Inr)
    have "unat g = t * unat (ri_reward_rate ri) * 2 ^ 128 div unat l"
      using g total dt(2) by (simp add: shl_div_256_eq_Some ucast_unat LIQUIDITY_SCALE_def)
    then show ?thesis
      using that [of "ri_cumulative_seconds_with_empty_liquidity_reward ri" s] s ri' dt(1) True by simp
  next
    case False
    obtain dt c where dt: "ri_last_update_time ri \<le> min now (ri_reward_duration_end ri)" "unat (dt :: u64) = t"
      and c: "unat c = unat (ri_cumulative_seconds_with_empty_liquidity_reward ri) + unat dt"
      and ri': "ri' = ri\<lparr> ri_cumulative_seconds_with_empty_liquidity_reward := c,
                  ri_last_update_time := min now (ri_reward_duration_end ri) \<rparr>"
      using assms(1,2) False
      by (auto simp: ri_update_rewards_def bindr_eq_Inr update_last_update_time_def elapsed safe_add_eq_Inr)
    have "unat l = 0" using False by (simp add: word_neq_0_conv [symmetric])
    then show ?thesis using that [of c "ri_reward_per_token_stored ri"] c ri' dt False by simp
  qed
qed

text \<open>What the liquidity earns and what is left of the campaign never exceed what was left before.\<close>

lemma update_rewards_conserves:
  assumes "ri_update_rewards ri l now = Inr ri'" and "ri_is_initialized ri"
  shows "unat (ri_reward_per_token_stored ri) \<le> unat (ri_reward_per_token_stored ri')"
    and "(unat (ri_reward_per_token_stored ri') - unat (ri_reward_per_token_stored ri)) * unat l
      + unat (ri_reward_rate ri) * remaining_seconds ri' * 2 ^ 128
      + unat (ri_reward_rate ri) * 2 ^ 128 *
          (unat (ri_cumulative_seconds_with_empty_liquidity_reward ri') -
           unat (ri_cumulative_seconds_with_empty_liquidity_reward ri))
      \<le> unat (ri_reward_rate ri) * remaining_seconds ri * 2 ^ 128"
    and "0 < l \<longrightarrow> ri_cumulative_seconds_with_empty_liquidity_reward ri' = ri_cumulative_seconds_with_empty_liquidity_reward ri"
    and "ri_last_update_time ri \<le> ri_last_update_time ri'" and "ri_reward_rate ri' = ri_reward_rate ri"
    and "unat (ri_cumulative_seconds_with_empty_liquidity_reward ri) \<le> unat (ri_cumulative_seconds_with_empty_liquidity_reward ri')"
proof -
  define t where "t = unat (min now (ri_reward_duration_end ri)) - unat (ri_last_update_time ri)"
  define R where "R = unat (ri_reward_rate ri)"
  obtain s c where ri': "ri' = ri\<lparr> ri_reward_per_token_stored := s, ri_cumulative_seconds_with_empty_liquidity_reward := c,
               ri_last_update_time := min now (ri_reward_duration_end ri) \<rparr>"
    and time: "ri_last_update_time ri \<le> min now (ri_reward_duration_end ri)"
    and s: "unat s = unat (ri_reward_per_token_stored ri) + t * R * 2 ^ 128 div unat l"
    and c: "unat c = unat (ri_cumulative_seconds_with_empty_liquidity_reward ri) + (if 0 < l then 0 else t)"
    unfolding t_def R_def by (rule update_rewards_frame [OF assms])
  have "unat (min now (ri_reward_duration_end ri)) \<le> unat (ri_reward_duration_end ri)"
    by (simp add: word_le_nat_alt [symmetric])
  then have "remaining_seconds ri = remaining_seconds ri' + t"
    using time by (simp add: remaining_seconds_def ri' t_def word_le_nat_alt)
  then have left: "R * remaining_seconds ri * 2 ^ 128 = R * remaining_seconds ri' * 2 ^ 128 + t * R * 2 ^ 128"
    by (simp add: algebra_simps)
  have shares: "t * R * 2 ^ 128 div unat l * unat l \<le> t * R * 2 ^ 128" by (simp add: div_mult_le_nat)
  have empty: "\<not> 0 < l \<Longrightarrow> unat l = 0" by (simp add: word_neq_0_conv [symmetric])
  show "0 < l \<longrightarrow> ri_cumulative_seconds_with_empty_liquidity_reward ri' = ri_cumulative_seconds_with_empty_liquidity_reward ri"
    using c by (simp add: ri' word_eq_unat)
  show "(unat (ri_reward_per_token_stored ri') - unat (ri_reward_per_token_stored ri)) * unat l
      + unat (ri_reward_rate ri) * remaining_seconds ri' * 2 ^ 128
      + unat (ri_reward_rate ri) * 2 ^ 128 *
          (unat (ri_cumulative_seconds_with_empty_liquidity_reward ri') -
           unat (ri_cumulative_seconds_with_empty_liquidity_reward ri))
      \<le> unat (ri_reward_rate ri) * remaining_seconds ri * 2 ^ 128"
    using left s c time shares empty unfolding R_def [symmetric] by (cases "0 < l") (simp_all add: ri')
  show "unat (ri_reward_per_token_stored ri) \<le> unat (ri_reward_per_token_stored ri')"
    using s by (simp add: ri')
  show "ri_last_update_time ri \<le> ri_last_update_time ri'" using time by (simp add: ri')
  show "ri_reward_rate ri' = ri_reward_rate ri" by (simp add: ri')
  show "unat (ri_cumulative_seconds_with_empty_liquidity_reward ri) \<le> unat (ri_cumulative_seconds_with_empty_liquidity_reward ri')"
    using c by (simp add: ri')
qed

section \<open>The rewards of a position\<close>

definition pending_reward :: "position \<Rightarrow> u8 \<Rightarrow> user_reward_info" where
  "pending_reward pos i = (if unat i = 0 then elem0 (pos_reward_infos pos) else elem1 (pos_reward_infos pos))"

lemma index_pending:
  assumes "unat i < NUM_REWARDS"
  shows "arr_get (pos_reward_infos pos) (unat i) = Inr uri \<longleftrightarrow> uri = pending_reward pos i"
  using assms by (auto simp: arr_get_eq_Inr pending_reward_def NUM_REWARDS_def)

lemma pending_reward_set:
  assumes "unat i < NUM_REWARDS"
  shows "pending_reward (pos\<lparr> pos_reward_infos := arr_set a (unat i) z \<rparr>) i = z"
  using assms by (auto simp: pending_reward_def NUM_REWARDS_def)

lemma update_rewards_pending:
  assumes "pos_update_rewards pos p now = Inr (pos1, p1)" and "unat i < NUM_REWARDS"
    and "ri_is_initialized (campaign p i)"
  shows "pool_update_rewards p now = Inr p1"
    and "unat (uri_reward_pendings (pending_reward pos1 i)) = unat (uri_reward_pendings (pending_reward pos i)) +
      pos_liquidity pos * (unat (ri_reward_per_token_stored (campaign p1 i)) -
        unat (uri_reward_per_token_checkpoint (pending_reward pos i))) div 2 ^ 192"
proof -
  have "pool_reward_initialized p"
    using assms(3) by (auto simp: pool_reward_initialized_def campaign_def split: if_splits)
  then have p1: "pool_update_rewards p now = Inr p1" and pos1: "update_position_reward pos p1 = Inr pos1"
    using assms(1) by (auto simp: pos_update_rewards_def bindr_eq_Inr)
  show "pool_update_rewards p now = Inr p1" by (rule p1)
  have "ri_is_initialized (campaign p1 i)"
    using pool_update_rewards_step [OF p1] assms(3) by (auto simp: reward_step_def same_campaign_def campaign_def split: if_splits)
  then obtain l where l: "unat l = pos_liquidity pos" and u: "uri_update_rewards (pending_reward pos i) l
      (ri_reward_per_token_stored (campaign p1 i)) = Inr (pending_reward pos1 i)"
    using pos1 by (cases "unat i = 0")
      (auto simp: update_position_reward_def update_position_reward_at_def bindr_eq_Inr get_total_liquidity_eq_Inr
        campaign_def pending_reward_def)
  show "unat (uri_reward_pendings (pending_reward pos1 i)) = unat (uri_reward_pendings (pending_reward pos i)) +
      pos_liquidity pos * (unat (ri_reward_per_token_stored (campaign p1 i)) -
        unat (uri_reward_per_token_checkpoint (pending_reward pos i))) div 2 ^ 192"
    by (rule uri_update_rewards_frame [OF u]) (simp add: l)
qed

section \<open>What a reward owes\<close>

lemma unsigned_real_nonneg [simp]: "0 \<le> (unsigned (w :: 'a::len word) :: real)"
  by (metis of_nat_0_le_iff of_nat_unat)

definition reward_growth :: "u8 \<Rightarrow> pool \<Rightarrow> nat" where
  "reward_growth i p = unat (ri_reward_per_token_stored (campaign p i))"

definition reward_checkpoint :: "u8 \<Rightarrow> position \<Rightarrow> nat" where
  "reward_checkpoint i pos = unat (uri_reward_per_token_checkpoint (pending_reward pos i))"

definition reward_pending :: "u8 \<Rightarrow> position \<Rightarrow> nat" where
  "reward_pending i pos = unat (uri_reward_pendings (pending_reward pos i))"

text \<open>What a position has earned, and what the campaign has still to give: the seconds to come and the
  seconds nobody was there, at the rate of the campaign.\<close>

definition reward_earned :: "u8 \<Rightarrow> pool \<Rightarrow> position \<Rightarrow> real" where
  "reward_earned i p pos = real (reward_pending i pos) +
     real (pos_liquidity pos) * (real (reward_growth i p) - real (reward_checkpoint i pos)) / 2 ^ 192"

definition reward_promised :: "reward_info \<Rightarrow> real" where
  "reward_promised ri = real (unat (ri_reward_rate ri)) * (real (remaining_seconds ri) +
     real (unat (ri_cumulative_seconds_with_empty_liquidity_reward ri))) / 2 ^ 64"

definition reward_owes :: "u8 \<Rightarrow> pool \<Rightarrow> (pubkey \<Rightarrow> position option) \<Rightarrow> real" where
  "reward_owes i p ps = reward_promised (campaign p i) + total (reward_earned i p) ps"

text \<open>No position is ahead of a campaign, and a reward that does not exist yet owes nothing.\<close>

definition reward_books_ok :: "pool \<Rightarrow> (pubkey \<Rightarrow> position option) \<Rightarrow> bool" where
  "reward_books_ok p ps \<longleftrightarrow> (\<forall>i.
     (\<forall>k pos. ps k = Some pos \<longrightarrow> reward_checkpoint i pos \<le> reward_growth i p) \<and>
     (ri_is_initialized (campaign p i) \<or> reward_growth i p = 0 \<and> reward_owes i p ps \<le> 0))"

lemmas reward_defs = reward_growth_def reward_checkpoint_def reward_pending_def reward_earned_def

lemma reward_earned_nonneg:
  assumes "reward_checkpoint i pos \<le> reward_growth i p"
  shows "real (reward_pending i pos) \<le> reward_earned i p pos" and "0 \<le> reward_earned i p pos"
proof -
  show "real (reward_pending i pos) \<le> reward_earned i p pos" using assms by (simp add: reward_earned_def)
  then show "0 \<le> reward_earned i p pos" by (meson of_nat_0_le_iff order_trans)
qed

lemma reward_promised_nonneg: "0 \<le> reward_promised ri"
  unfolding reward_promised_def
  by (intro divide_nonneg_nonneg mult_nonneg_nonneg add_nonneg_nonneg of_nat_0_le_iff) simp

lemma reward_total_nonneg: "reward_books_ok p ps \<Longrightarrow> 0 \<le> total (reward_earned i p) ps"
  by (rule total_nonneg) (auto simp: reward_books_ok_def reward_earned_nonneg)

lemma reward_member:
  assumes "reward_books_ok p ps" and "ps k = Some pos"
  shows "real (reward_pending i pos) \<le> reward_earned i p pos" and "reward_earned i p pos \<le> total (reward_earned i p) ps"
proof -
  have le: "reward_checkpoint i q \<le> reward_growth i p" if "ps j = Some q" for j q
    using assms(1) that unfolding reward_books_ok_def by blast
  show "real (reward_pending i pos) \<le> reward_earned i p pos" by (rule reward_earned_nonneg [OF le [OF assms(2)]])
  show "reward_earned i p pos \<le> total (reward_earned i p) ps"
    by (rule total_member [of ps k, OF assms(2)]) (rule reward_earned_nonneg(2) [OF le])
qed

section \<open>Steps that keep the reward books\<close>

text \<open>The pool keeps its campaigns.\<close>

lemma same_reward_infos:
  assumes "pool_reward_infos p' = pool_reward_infos p"
  shows "campaign p' i = campaign p i" and "reward_growth i p' = reward_growth i p" and "reward_earned i p' = reward_earned i p"
    and "reward_owes i p' ps = reward_owes i p ps" and "reward_books_ok p' ps \<longleftrightarrow> reward_books_ok p ps"
proof -
  show c: "campaign p' i = campaign p i" for i using assms by (simp add: campaign_def)
  show g: "reward_growth i p' = reward_growth i p" for i by (simp add: reward_growth_def c)
  show e: "reward_earned i p' = reward_earned i p" for i by (rule ext) (simp add: reward_earned_def g)
  show o: "reward_owes i p' ps = reward_owes i p ps" for i by (simp add: reward_owes_def c e)
  show "reward_books_ok p' ps \<longleftrightarrow> reward_books_ok p ps" by (simp add: reward_books_ok_def c g o)
qed

text \<open>A position that is not ahead and has earned no more than before.\<close>

lemma reward_books_update:
  assumes "reward_books_ok p ps" and "ps k = Some pos"
    and "\<And>i. reward_checkpoint i pos' \<le> reward_growth i p" and "\<And>i. reward_earned i p pos' \<le> reward_earned i p pos"
  shows "reward_books_ok p (ps(k \<mapsto> pos'))"
    and "reward_owes i p (ps(k \<mapsto> pos')) + (reward_earned i p pos - reward_earned i p pos') = reward_owes i p ps"
proof -
  show o: "reward_owes i p (ps(k \<mapsto> pos')) + (reward_earned i p pos - reward_earned i p pos') = reward_owes i p ps" for i
    using assms(2) by (simp add: reward_owes_def total_update)
  have "reward_owes i p (ps(k \<mapsto> pos')) \<le> reward_owes i p ps" for i using o [of i] assms(4) [of i] by linarith
  then show "reward_books_ok p (ps(k \<mapsto> pos'))"
    using assms(1,3) unfolding reward_books_ok_def by (auto intro: order_trans)
qed

text \<open>A position that keeps its liquidity and its rewards.\<close>

definition same_reward_claim :: "position \<Rightarrow> position \<Rightarrow> bool" where
  "same_reward_claim pos pos' \<longleftrightarrow> pos_liquidity pos' = pos_liquidity pos \<and> pos_reward_infos pos' = pos_reward_infos pos"

lemma same_reward_claim_eq:
  assumes "pos_reward_infos pos' = pos_reward_infos pos"
  shows "reward_checkpoint i pos' = reward_checkpoint i pos" and "reward_pending i pos' = reward_pending i pos"
  using assms by (simp_all add: reward_checkpoint_def reward_pending_def pending_reward_def)

lemma same_reward_claim_books:
  assumes "reward_books_ok p ps" and "ps k = Some pos" and "same_reward_claim pos pos'"
  shows "reward_books_ok p (ps(k \<mapsto> pos'))" and "reward_owes i p (ps(k \<mapsto> pos')) = reward_owes i p ps"
proof -
  have same: "reward_checkpoint i pos' = reward_checkpoint i pos" "reward_earned i p pos' = reward_earned i p pos" for i
    using assms(3) same_reward_claim_eq [of pos' pos] by (simp_all add: same_reward_claim_def reward_earned_def)
  have le: "reward_checkpoint i pos' \<le> reward_growth i p" for i
    using assms(1,2) unfolding same(1) reward_books_ok_def by blast
  have e: "reward_earned i p pos' \<le> reward_earned i p pos" for i by (simp only: same(2))
  note u = reward_books_update [where pos' = pos', OF assms(1,2) le e]
  show "reward_books_ok p (ps(k \<mapsto> pos'))" by (rule u(1))
  show "reward_owes i p (ps(k \<mapsto> pos')) = reward_owes i p ps" using u(2) [of i] same(2) [of i] by linarith
qed

text \<open>A settled position may change its liquidity.\<close>

definition settled :: "pool \<Rightarrow> position \<Rightarrow> bool" where
  "settled p pos \<longleftrightarrow> (\<forall>i. reward_checkpoint i pos = reward_growth i p)"

lemma settled_earned: "settled p pos \<Longrightarrow> reward_earned i p pos = real (reward_pending i pos)"
  by (simp add: settled_def reward_earned_def)

lemma settled_books:
  assumes "reward_books_ok p ps" and "ps k = Some pos" and "settled p pos"
    and "pos_reward_infos pos' = pos_reward_infos pos" and "pool_reward_infos p' = pool_reward_infos p"
  shows "reward_books_ok p' (ps(k \<mapsto> pos'))" and "reward_owes i p' (ps(k \<mapsto> pos')) = reward_owes i p ps"
proof -
  note c = same_reward_claim_eq [OF assms(4)]
  have s: "settled p pos'" using assms(3) by (simp add: settled_def c)
  have same: "reward_checkpoint i pos' = reward_growth i p" "reward_earned i p pos' = reward_earned i p pos" for i
    using s settled_earned [OF s] settled_earned [OF assms(3)] by (simp_all add: settled_def c)
  have le: "reward_checkpoint i pos' \<le> reward_growth i p" for i by (simp only: same(1))
  have e: "reward_earned i p pos' \<le> reward_earned i p pos" for i by (simp only: same(2))
  note u = reward_books_update [where pos' = pos', OF assms(1,2) le e]
  show "reward_books_ok p' (ps(k \<mapsto> pos'))" unfolding same_reward_infos(5) [OF assms(5)] by (rule u(1))
  show "reward_owes i p' (ps(k \<mapsto> pos')) = reward_owes i p ps"
    using u(2) [of i] same(2) [of i] unfolding same_reward_infos(4) [OF assms(5)] by linarith
qed

text \<open>Bringing the campaigns up to date moves what they promise to the positions.\<close>

lemma campaign_updated:
  assumes "pool_update_rewards p now = Inr p'"
  shows "ri_update_rewards (campaign p i) (pool_liquidity p) now = Inr (campaign p' i)"
  using assms by (auto simp: pool_update_rewards_def bindr_eq_Inr campaign_def)

lemma ri_update_rewards_promised:
  assumes "ri_update_rewards ri l now = Inr ri'"
  shows "unat (ri_reward_per_token_stored ri) \<le> unat (ri_reward_per_token_stored ri')"
    and "real (unat l) * (real (unat (ri_reward_per_token_stored ri')) - real (unat (ri_reward_per_token_stored ri))) / 2 ^ 192
      + reward_promised ri' \<le> reward_promised ri"
    and "\<not> ri_is_initialized ri \<Longrightarrow> ri' = ri"
proof -
  have un: "ri' = ri" if "\<not> ri_is_initialized ri" using assms that by (simp add: ri_update_rewards_def)
  then show "\<not> ri_is_initialized ri \<Longrightarrow> ri' = ri" by simp
  show mono: "unat (ri_reward_per_token_stored ri) \<le> unat (ri_reward_per_token_stored ri')"
    using un update_rewards_conserves(1) [OF assms] by (cases "ri_is_initialized ri") simp_all
  show "real (unat l) * (real (unat (ri_reward_per_token_stored ri')) - real (unat (ri_reward_per_token_stored ri))) / 2 ^ 192
      + reward_promised ri' \<le> reward_promised ri"
  proof (cases "ri_is_initialized ri")
    case True
    note c = update_rewards_conserves [OF assms True]
    define D R S S' C C' L where v: "D = unat (ri_reward_per_token_stored ri') - unat (ri_reward_per_token_stored ri)"
      "R = unat (ri_reward_rate ri)" "S = remaining_seconds ri" "S' = remaining_seconds ri'"
      "C = unat (ri_cumulative_seconds_with_empty_liquidity_reward ri)"
      "C' = unat (ri_cumulative_seconds_with_empty_liquidity_reward ri')" "L = unat l"
    have "real (D * L + R * S' * 2 ^ 128 + R * 2 ^ 128 * (C' - C)) \<le> real (R * S * 2 ^ 128)"
      using c(2) unfolding v of_nat_le_iff .
    then have le: "real D * real L + real R * (real S' + (real C' - real C)) * 2 ^ 128 \<le> real R * real S * 2 ^ 128"
      using c(6) by (simp add: of_nat_diff algebra_simps flip: v)
    have "(real D * real L + real R * (real S' + (real C' - real C)) * 2 ^ 128) / 2 ^ 192 \<le> real R * real S * 2 ^ 128 / 2 ^ 192"
      by (rule divide_right_mono [OF le]) simp
    then have "real L * real D / 2 ^ 192 + real R * (real S' + real C') / 2 ^ 64 \<le> real R * (real S + real C) / 2 ^ 64"
      by (simp add: field_simps)
    moreover have "real D = real (unat (ri_reward_per_token_stored ri')) - real (unat (ri_reward_per_token_stored ri))"
      unfolding v by (rule of_nat_diff [OF mono])
    ultimately show ?thesis unfolding reward_promised_def c(5) v by (simp only:)
  qed (simp add: un)
qed

lemma pool_update_rewards_books:
  assumes "pool_update_rewards p now = Inr p'" and "reward_books_ok p ps" and "books_ok p ps"
  shows "reward_books_ok p' ps" and "reward_owes i p' ps \<le> reward_owes i p ps"
proof -
  note u = ri_update_rewards_promised [OF campaign_updated [OF assms(1)]]
  have grow: "reward_growth i p \<le> reward_growth i p'" for i using u(1) by (simp add: reward_growth_def)
  show o: "reward_owes i p' ps \<le> reward_owes i p ps" for i
  proof -
    define c where "c = (real (reward_growth i p') - real (reward_growth i p)) / 2 ^ 192"
    have "reward_earned i p' = (\<lambda>pos. reward_earned i p pos + real (pos_liquidity pos) * c)"
      by (rule ext) (simp add: reward_earned_def c_def field_simps)
    then have "total (reward_earned i p') ps = total (reward_earned i p) ps + total (\<lambda>pos. real (pos_liquidity pos)) ps * c"
      by (simp only: total_add_scaled)
    also have "total (\<lambda>pos. real (pos_liquidity pos)) ps = real (unat (pool_liquidity p))"
      using assms(3) by (simp add: books_ok_def)
    finally show ?thesis using u(2) [of i] by (simp add: reward_owes_def c_def reward_growth_def)
  qed
  have init: "ri_is_initialized (campaign p' i) = ri_is_initialized (campaign p i)" for i
    using ri_update_rewards_campaign [OF campaign_updated [OF assms(1)]] by (simp add: same_campaign_def)
  have "reward_growth i p' = reward_growth i p" if "\<not> ri_is_initialized (campaign p i)" for i
    using u(3) [OF that] by (simp add: reward_growth_def)
  then show "reward_books_ok p' ps"
    using assms(2) grow o unfolding reward_books_ok_def init by (metis order_trans)
qed

text \<open>Settling a position rounds down what it has earned.\<close>

lemma update_position_reward_earned:
  assumes "update_position_reward pos p = Inr pos'"
    and "\<And>i. reward_checkpoint i pos \<le> reward_growth i p"
    and "\<And>i. \<not> ri_is_initialized (campaign p i) \<Longrightarrow> reward_growth i p = 0"
  shows "settled p pos'" and "reward_earned i p pos' \<le> reward_earned i p pos" and "pos_liquidity pos' = pos_liquidity pos"
proof -
  show l: "pos_liquidity pos' = pos_liquidity pos"
    using assms(1) by (auto simp: update_position_reward_def bindr_eq_Inr)
  obtain l where l: "unat l = pos_liquidity pos" and u: "update_position_reward_at (campaign p i) l (pending_reward pos i) =
      Inr (pending_reward pos' i)" for i
    using assms(1) by (auto simp: update_position_reward_def bindr_eq_Inr get_total_liquidity_eq_Inr campaign_def
        pending_reward_def)
  have at: "reward_checkpoint i pos' = reward_growth i p \<and> reward_earned i p pos' \<le> reward_earned i p pos" for i
  proof (cases "ri_is_initialized (campaign p i)")
    case True
    then have "uri_update_rewards (pending_reward pos i) l (ri_reward_per_token_stored (campaign p i)) = Inr (pending_reward pos' i)"
      using u [of i] by (simp add: update_position_reward_at_def)
    then obtain q where q: "pending_reward pos' i = (pending_reward pos i)\<lparr> uri_reward_pendings := q,
          uri_reward_per_token_checkpoint := ri_reward_per_token_stored (campaign p i) \<rparr>"
      "unat q = reward_pending i pos + pos_liquidity pos * (reward_growth i p - reward_checkpoint i pos) div 2 ^ 192"
      by (rule uri_update_rewards_frame) (simp add: l reward_defs)
    have "real (pos_liquidity pos * (reward_growth i p - reward_checkpoint i pos) div 2 ^ 192)
        \<le> real (pos_liquidity pos) * (real (reward_growth i p) - real (reward_checkpoint i pos)) / 2 ^ 192"
      using div_le_real [of "pos_liquidity pos * (reward_growth i p - reward_checkpoint i pos)" "2 ^ 192"] assms(2) [of i]
      by (simp add: of_nat_diff)
    moreover have "reward_checkpoint i pos' = reward_growth i p" "reward_pending i pos' = unat q"
      by (simp_all add: reward_checkpoint_def reward_growth_def reward_pending_def q(1))
    ultimately show ?thesis by (simp add: reward_earned_def q(2))
  next
    case False
    then have "pending_reward pos' i = pending_reward pos i" using u [of i] by (simp add: update_position_reward_at_def)
    then have "reward_checkpoint i pos' = reward_checkpoint i pos" "reward_pending i pos' = reward_pending i pos"
      by (simp_all add: reward_checkpoint_def reward_pending_def)
    then show ?thesis using assms(2) [of i] assms(3) [OF False] l
        \<open>pos_liquidity pos' = pos_liquidity pos\<close> by (simp add: reward_earned_def)
  qed
  then show "settled p pos'" and "reward_earned i p pos' \<le> reward_earned i p pos" by (simp_all add: settled_def)
qed

end
