(* ===== verification/RewardSteps.thy ===== *)
theory RewardSteps
  imports RewardBooks
begin

text \<open>
  What each instruction does to the reward books: settling, opening, closing and splitting positions,
  claiming, funding and editing campaigns.
\<close>

section \<open>Positions\<close>

lemma reward_books_le:
  assumes "reward_books_ok p ps" and "ps k = Some pos"
  shows "reward_checkpoint i pos \<le> reward_growth i p"
  using assms unfolding reward_books_ok_def by blast

lemma uninitialized_growth: "reward_books_ok p ps \<Longrightarrow> \<not> ri_is_initialized (campaign p i) \<Longrightarrow> reward_growth i p = 0"
  unfolding reward_books_ok_def by blast

lemma settle_position_books:
  assumes "update_position_reward pos p = Inr pos'" and "ps k = Some pos" and "reward_books_ok p ps"
  shows "reward_books_ok p (ps(k \<mapsto> pos'))" and "reward_owes i p (ps(k \<mapsto> pos')) \<le> reward_owes i p ps"
    and "settled p pos'" and "pos_liquidity pos' = pos_liquidity pos"
proof -
  note u = update_position_reward_earned [OF assms(1) reward_books_le [of p ps k, OF assms(3,2)] uninitialized_growth [OF assms(3)]]
  show "pos_liquidity pos' = pos_liquidity pos" by (rule u(3))
  show "settled p pos'" by (rule u(1))
  then have "reward_checkpoint i pos' \<le> reward_growth i p" for i by (simp add: settled_def)
  note b = reward_books_update [of p ps k, OF assms(3,2) this u(2)]
  show "reward_books_ok p (ps(k \<mapsto> pos'))" by (rule b(1))
  show "reward_owes i p (ps(k \<mapsto> pos')) \<le> reward_owes i p ps" using b(2) [of i] u(2) [of i] by linarith
qed

lemma pos_update_rewards_books:
  assumes "pos_update_rewards pos p now = Inr (pos', p')" and "ps k = Some pos" and "reward_books_ok p ps" and "books_ok p ps"
  shows "reward_books_ok p' (ps(k \<mapsto> pos'))" and "reward_owes i p' (ps(k \<mapsto> pos')) \<le> reward_owes i p ps" and "settled p' pos'"
proof -
  have "reward_books_ok p' (ps(k \<mapsto> pos')) \<and> (\<forall>i. reward_owes i p' (ps(k \<mapsto> pos')) \<le> reward_owes i p ps) \<and> settled p' pos'"
  proof (cases "pool_reward_initialized p")
    case True
    then have u: "pool_update_rewards p now = Inr p'" and s: "update_position_reward pos p' = Inr pos'"
      using assms(1) by (auto simp: pos_update_rewards_def bindr_eq_Inr)
    note b = pool_update_rewards_books [OF u assms(3,4)]
    note c = settle_position_books [of _ _ _ ps k, OF s assms(2) b(1)]
    show ?thesis using c(1,3) order_trans [OF c(2) b(2)] by blast
  next
    case False
    then have same: "pos' = pos" "p' = p" using assms(1) by (simp_all add: pos_update_rewards_def)
    have "\<not> ri_is_initialized (campaign p i)" for i using False by (simp add: pool_reward_initialized_def campaign_def)
    then have "settled p pos"
      using reward_books_le [of p ps k, OF assms(3,2)] uninitialized_growth [OF assms(3)] unfolding settled_def
      by (metis le_zero_eq)
    then show ?thesis using assms(2,3) by (simp add: same fun_upd_idem)
  qed
  then show "reward_books_ok p' (ps(k \<mapsto> pos'))" and "reward_owes i p' (ps(k \<mapsto> pos')) \<le> reward_owes i p ps" and "settled p' pos'"
    by blast+
qed

text \<open>A new position has earned nothing, and one that is closed has nothing left.\<close>

lemma open_position_books:
  assumes "reward_books_ok p ps" and "ps k = None" and "pos_liquidity pos = 0"
    and "pos_reward_infos pos = Array2 default_user_reward_info default_user_reward_info"
  shows "reward_books_ok p (ps(k \<mapsto> pos))" and "reward_owes i p (ps(k \<mapsto> pos)) = reward_owes i p ps"
proof -
  have zero: "reward_checkpoint i pos = 0" "reward_earned i p pos = 0" for i
    using assms(3,4) by (simp_all add: reward_defs pending_reward_def default_user_reward_info_def)
  show o: "reward_owes i p (ps(k \<mapsto> pos)) = reward_owes i p ps" for i
    by (simp add: reward_owes_def total_new [of ps k, OF assms(2)] zero)
  show "reward_books_ok p (ps(k \<mapsto> pos))" using assms(1) unfolding reward_books_ok_def o by (auto simp: zero)
qed

lemma close_position_books:
  assumes "reward_books_ok p ps" and "ps k = Some pos" and "pos_is_empty pos = Inr True"
  shows "reward_books_ok p (ps(k := None))" and "reward_owes i p (ps(k := None)) = reward_owes i p ps"
proof -
  have "reward_pending i pos = 0" "pos_liquidity pos = 0" for i
    using assms(3) by (simp_all add: pos_is_empty_eq_Inr reward_pending_def pending_reward_def)
  then have zero: "reward_earned i p pos = 0" for i by (simp add: reward_earned_def)
  show o: "reward_owes i p (ps(k := None)) = reward_owes i p ps" for i
    by (simp add: reward_owes_def total_delete [of ps k, OF assms(2)] zero)
  show "reward_books_ok p (ps(k := None))" using assms(1) unfolding reward_books_ok_def o by auto
qed

text \<open>A split of settled positions moves rewards between them.\<close>

lemma split_reward_books:
  assumes "apply_split_position p f g n1 n2 n3 n4 n5 n6 = Inr (f', g', info)"
    and "reward_books_ok p ps" and "ps i = Some f" and "ps j = Some g" and "i \<noteq> j" and "settled p f" and "settled p g"
  shows "reward_books_ok p (ps(i \<mapsto> f', j \<mapsto> g'))" and "reward_owes x p (ps(i \<mapsto> f', j \<mapsto> g')) = reward_owes x p ps"
proof -
  obtain f1 g1 where uf: "update_fee f (pool_fee_a_per_liquidity p) (pool_fee_b_per_liquidity p) = Inr f1"
    and ug: "update_fee g (pool_fee_a_per_liquidity p) (pool_fee_b_per_liquidity p) = Inr g1"
    and same: "same_totals f1 g1 f' g'"
    by (rule apply_split_position_totals [OF assms(1)])
  note infos = update_fee_liquidity(5) [OF uf] update_fee_liquidity(5) [OF ug]
  have checks: "reward_checkpoint x f' = reward_checkpoint x f" "reward_checkpoint x g' = reward_checkpoint x g" for x
    using same by (simp_all add: same_totals_def same_reward_checkpoints_def infos reward_checkpoint_def pending_reward_def)
  have "reward_pending x f' + reward_pending x g' = reward_pending x f + reward_pending x g" for x
    using same by (simp add: same_totals_def infos reward_pending_def pending_reward_def)
  then have pend: "real (reward_pending x f') + real (reward_pending x g') = real (reward_pending x f) + real (reward_pending x g)" for x
    by (metis of_nat_add)
  have "settled p f'" "settled p g'" using assms(6,7) by (simp_all add: settled_def checks)
  note e = this [THEN settled_earned] assms(6,7) [THEN settled_earned]
  have at: "(ps(i \<mapsto> f')) j = Some g" using assms(4,5) by simp
  show o: "reward_owes x p (ps(i \<mapsto> f', j \<mapsto> g')) = reward_owes x p ps" for x
    using pend [of x] by (simp add: reward_owes_def total_update [of "ps(i \<mapsto> f')" j g, OF at] total_update [of ps i f, OF assms(3)] e)
  show "reward_books_ok p (ps(i \<mapsto> f', j \<mapsto> g'))"
    using assms(2,6,7) unfolding reward_books_ok_def o by (auto simp: checks settled_def)
qed

section \<open>Campaigns\<close>

definition same_reward :: "u8 \<Rightarrow> u8 \<Rightarrow> bool" where
  "same_reward i j \<longleftrightarrow> (unat i = 0 \<longleftrightarrow> unat j = 0)"

lemma campaign_arr_set:
  assumes "unat i < NUM_REWARDS"
  shows "campaign (p\<lparr> pool_reward_infos := arr_set (pool_reward_infos p) (unat i) z \<rparr>) j =
    (if same_reward j i then z else campaign p j)"
  using assms by (auto simp: campaign_def same_reward_def NUM_REWARDS_def)

lemma set_campaign_books:
  assumes "reward_books_ok p ps" and "unat i < NUM_REWARDS" and "ri_is_initialized z"
    and "ri_reward_per_token_stored z = ri_reward_per_token_stored (campaign p i)"
  defines "p' \<equiv> p\<lparr> pool_reward_infos := arr_set (pool_reward_infos p) (unat i) z \<rparr>"
  shows "reward_books_ok p' ps"
    and "reward_owes j p' ps = reward_owes j p ps +
      (if same_reward j i then reward_promised z - reward_promised (campaign p i) else 0)"
proof -
  have c: "campaign p' j = (if same_reward j i then z else campaign p j)" for j
    unfolding p'_def by (rule campaign_arr_set [OF assms(2)])
  have same: "campaign p j = campaign p i" if "same_reward j i" for j
    using that by (simp add: same_reward_def campaign_def)
  have g: "reward_growth j p' = reward_growth j p" for j
    using same [of j] assms(4) by (cases "same_reward j i") (simp_all add: reward_growth_def c)
  have e: "reward_earned j p' = reward_earned j p" for j by (rule ext) (simp add: reward_earned_def g)
  show o: "reward_owes j p' ps = reward_owes j p ps +
      (if same_reward j i then reward_promised z - reward_promised (campaign p i) else 0)" for j
    using same [of j] by (cases "same_reward j i") (simp_all add: reward_owes_def c e)
  show "reward_books_ok p' ps"
    using assms(1,3) unfolding reward_books_ok_def g o c by (simp split: if_splits)
qed

text \<open>The two vaults are two accounts.\<close>

definition reward_vault :: "u8 \<Rightarrow> pool \<Rightarrow> pubkey" where
  "reward_vault i p = ri_vault (campaign p i)"

definition reward_vaults_apart :: "pool \<Rightarrow> bool" where
  "reward_vaults_apart p \<longleftrightarrow> (\<forall>i j. ri_is_initialized (campaign p i) \<and> ri_is_initialized (campaign p j) \<and>
     reward_vault i p = reward_vault j p \<longrightarrow> same_reward i j)"

lemma reward_step_campaign: "reward_step p p' \<Longrightarrow> same_campaign (campaign p i) (campaign p' i)"
  by (simp add: reward_step_def campaign_def)

lemma paid_from_reward_vault:
  assumes "reward_vaults_apart p" and "ri_is_initialized (campaign p i)" and "ri_is_initialized (campaign p j)"
    and "trs = [] \<or> trs = [t]" and "tr_from t = reward_vault i p"
  shows "real (paid_from (reward_vault j p) trs) \<le> (if same_reward j i then real (unat (tr_amount t)) else 0)"
proof (cases "same_reward j i")
  case False
  then have "reward_vault i p \<noteq> reward_vault j p"
    using assms(1-3) unfolding reward_vaults_apart_def by metis
  then show ?thesis using False assms(4,5) by auto
qed (use assms(4) in auto)

text \<open>A claim takes what it pays off what the position has earned.\<close>

lemma pos_claim_reward_books:
  assumes "pos_claim_reward pos (unat i) = Inr (pos', r)" and "unat i < NUM_REWARDS" and "ps k = Some pos"
    and "reward_books_ok p ps"
  shows "reward_books_ok p (ps(k \<mapsto> pos'))"
    and "reward_owes j p (ps(k \<mapsto> pos')) + (if same_reward j i then real (unat r) else 0) = reward_owes j p ps"
proof -
  have r: "unat r = reward_pending i pos" and l: "pos_liquidity pos' = pos_liquidity pos"
    and pos': "reward_checkpoint j pos' = reward_checkpoint j pos"
      "reward_pending j pos' = (if same_reward j i then 0 else reward_pending j pos)" for j
    using assms(1,2)
    by (auto simp: pos_claim_reward_def get_total_reward_def accumulate_total_claimed_rewards_def
        reset_all_pending_reward_def bindr_eq_Inr index_pending reward_checkpoint_def reward_pending_def
        pending_reward_def same_reward_def NUM_REWARDS_def arr_get_eq_Inr)
  have same: "reward_pending j pos = reward_pending i pos" if "same_reward j i" for j
    using that by (simp add: same_reward_def reward_pending_def pending_reward_def)
  have e: "reward_earned j p pos' = reward_earned j p pos - (if same_reward j i then real (unat r) else 0)" for j
    using same [of j] by (cases "same_reward j i") (simp_all add: reward_earned_def l pos' r)
  have "reward_checkpoint j pos' \<le> reward_growth j p" for j
    using reward_books_le [of p ps k, OF assms(4,3)] by (simp add: pos')
  moreover have "reward_earned j p pos' \<le> reward_earned j p pos" for j by (simp add: e)
  ultimately have u: "reward_books_ok p (ps(k \<mapsto> pos'))"
    "reward_owes j p (ps(k \<mapsto> pos')) + (reward_earned j p pos - reward_earned j p pos') = reward_owes j p ps" for j
    using reward_books_update [of p ps k, OF assms(4,3)] by blast+
  show "reward_books_ok p (ps(k \<mapsto> pos'))" by (rule u(1))
  show "reward_owes j p (ps(k \<mapsto> pos')) + (if same_reward j i then real (unat r) else 0) = reward_owes j p ps"
    using u(2) [of j] by (simp add: e)
qed

lemma claim_reward_books:
  assumes "handle_claim_reward env ctx i skip = Inr (p', pos', trs)" and "ps k = Some (cr_position ctx)"
    and "reward_books_ok (cr_pool ctx) ps" and "books_ok (cr_pool ctx) ps" and "reward_vaults_apart (cr_pool ctx)"
  shows "reward_books_ok p' (ps(k \<mapsto> pos'))"
    and "ri_is_initialized (campaign (cr_pool ctx) j) \<Longrightarrow>
      reward_owes j p' (ps(k \<mapsto> pos')) + real (paid_from (reward_vault j (cr_pool ctx)) trs) \<le> reward_owes j (cr_pool ctx) ps"
proof -
  obtain pos r where v: "claim_reward_validate ctx (unat i) = Inr ()"
    and u: "pos_update_rewards (cr_position ctx) (cr_pool ctx) (current_time env) = Inr (pos, p')"
    and c: "pos_claim_reward pos (unat i) = Inr (pos', r)"
    and trs: "trs = [] \<or> trs = [transfer_from_pool (cr_pool_authority ctx) (cr_reward_mint ctx) (cr_reward_vault ctx)
                (cr_user_token_account ctx) r]"
    using assms(1) by (auto simp: handle_claim_reward_def bindr_eq_Inr Let_def split: if_splits prod.splits)
  have i: "unat i < NUM_REWARDS" and init: "ri_is_initialized (campaign (cr_pool ctx) i)"
    and vault: "ta_key (cr_reward_vault ctx) = reward_vault i (cr_pool ctx)"
    using v by (auto simp: claim_reward_validate_def bindr_eq_Inr require_eq_Inr index_campaign reward_vault_def)
  note b = pos_update_rewards_books [of _ _ _ _ _ ps k, OF u assms(2-4)]
  have at: "(ps(k \<mapsto> pos)) k = Some pos" by simp
  note cb = pos_claim_reward_books [of _ _ _ _ "ps(k \<mapsto> pos)" k, OF c i at b(1), simplified]
  show "reward_books_ok p' (ps(k \<mapsto> pos'))" by (rule cb(1))
  show "reward_owes j p' (ps(k \<mapsto> pos')) + real (paid_from (reward_vault j (cr_pool ctx)) trs) \<le> reward_owes j (cr_pool ctx) ps"
    if "ri_is_initialized (campaign (cr_pool ctx) j)"
  proof -
    have "real (paid_from (reward_vault j (cr_pool ctx)) trs) \<le> (if same_reward j i then real (unat r) else 0)"
      by (rule order_trans [OF paid_from_reward_vault [OF assms(5) init that trs]]) (simp_all add: vault transfer_from_pool_def)
    then show ?thesis using cb(2) [of j] b(2) [of j] by linarith
  qed
qed

text \<open>Withdrawing what nobody earned takes it off the promise.\<close>

lemma withdraw_ineligible_books:
  assumes "handle_withdraw_ineligible_reward env ctx i = Inr (p', trs)"
    and "reward_books_ok (fd_pool ctx) ps" and "books_ok (fd_pool ctx) ps" and "reward_vaults_apart (fd_pool ctx)"
  shows "reward_books_ok p' ps"
    and "ri_is_initialized (campaign (fd_pool ctx) j) \<Longrightarrow>
      reward_owes j p' ps + real (paid_from (reward_vault j (fd_pool ctx)) trs) \<le> reward_owes j (fd_pool ctx) ps"
proof -
  obtain p r where v: "withdraw_ineligible_validate env ctx (unat i) = Inr ()"
    and u: "pool_update_rewards (fd_pool ctx) (current_time env) = Inr p"
    and c: "claim_ineligible_reward p (unat i) = Inr (p', r)"
    and trs: "trs = [] \<or> trs = [transfer_from_pool (fd_pool_authority ctx) (fd_reward_mint ctx) (fd_reward_vault ctx)
                     (fd_funder_token_account ctx) r]"
    using assms(1) by (auto simp: handle_withdraw_ineligible_reward_def bindr_eq_Inr Let_def split: if_splits prod.splits)
  have i: "unat i < NUM_REWARDS" and init: "ri_is_initialized (campaign (fd_pool ctx) i)"
    and vault: "ta_key (fd_reward_vault ctx) = reward_vault i (fd_pool ctx)"
    using v by (auto simp: withdraw_ineligible_validate_def bindr_eq_Inr require_eq_Inr index_campaign reward_vault_def)
  define z where "z = (campaign p i)\<lparr> ri_cumulative_seconds_with_empty_liquidity_reward := 0 \<rparr>"
  define x where "x = unat (ri_cumulative_seconds_with_empty_liquidity_reward (campaign p i)) * unat (ri_reward_rate (campaign p i))"
  have p': "p' = p\<lparr> pool_reward_infos := arr_set (pool_reward_infos p) (unat i) z \<rparr>" and r: "unat r = x div 2 ^ 64"
    using c i by (auto simp: claim_ineligible_reward_def bindr_eq_Inr index_campaign z_def x_def safe_mul_shr_cast_eq_Inr
      REWARD_RATE_SCALE_def)
  have "ri_is_initialized (campaign p i)"
    using reward_step_campaign [OF pool_update_rewards_step [OF u]] init by (simp add: same_campaign_def)
  then have z: "ri_is_initialized z" "ri_reward_per_token_stored z = ri_reward_per_token_stored (campaign p i)"
    by (simp_all add: z_def ri_is_initialized_def)
  note b = pool_update_rewards_books [OF u assms(2,3)]
  note cb = set_campaign_books [OF b(1) i z, folded p']
  have "real (unat r) \<le> real x / 2 ^ 64" using div_le_real [of x "2 ^ 64"] by (simp add: r)
  moreover have "reward_promised z = reward_promised (campaign p i) - real x / 2 ^ 64"
    by (simp add: reward_promised_def z_def x_def remaining_seconds_def field_simps)
  ultimately have less: "reward_promised z + real (unat r) \<le> reward_promised (campaign p i)" by linarith
  show "reward_books_ok p' ps" by (rule cb(1))
  show "reward_owes j p' ps + real (paid_from (reward_vault j (fd_pool ctx)) trs) \<le> reward_owes j (fd_pool ctx) ps"
    if "ri_is_initialized (campaign (fd_pool ctx) j)"
  proof -
    have "real (paid_from (reward_vault j (fd_pool ctx)) trs) \<le> (if same_reward j i then real (unat r) else 0)"
      by (rule order_trans [OF paid_from_reward_vault [OF assms(4) init that trs]]) (simp_all add: vault transfer_from_pool_def)
    then show ?thesis using cb(2) [of j] b(2) [of j] less by (simp split: if_splits)
  qed
qed

text \<open>Funding promises at most what arrives and what was promised already.\<close>

lemma funded_campaign_promised:
  assumes "update_rate_after_funding (ri\<lparr> ri_cumulative_seconds_with_empty_liquidity_reward := 0 \<rparr>) now funded = Inr ri'"
    and "unat funded = arrived + (if carry then unat (ri_reward_rate ri) *
       unat (ri_cumulative_seconds_with_empty_liquidity_reward ri) div 2 ^ 64 else 0)"
    and "ri_last_update_time ri = min now (ri_reward_duration_end ri)"
  shows "reward_promised ri' \<le> reward_promised ri + real arrived"
    and "ri_reward_per_token_stored ri' = ri_reward_per_token_stored ri"
    and "ri_is_initialized ri' = ri_is_initialized ri"
proof -
  show "ri_reward_per_token_stored ri' = ri_reward_per_token_stored ri" and "ri_is_initialized ri' = ri_is_initialized ri"
    using assms(1) by (auto simp: update_rate_after_funding_def bindr_eq_Inr ri_is_initialized_def simp del: bindr_assoc)
  have zero: "ri_cumulative_seconds_with_empty_liquidity_reward ri' = 0"
    using assms(1) by (auto simp: update_rate_after_funding_def bindr_eq_Inr simp del: bindr_assoc)
  define R C S where v: "R = unat (ri_reward_rate ri)" "C = unat (ri_cumulative_seconds_with_empty_liquidity_reward ri)"
    "S = remaining_seconds ri"
  let ?z = "ri\<lparr> ri_cumulative_seconds_with_empty_liquidity_reward := 0 \<rparr>"
  obtain tot :: u64 where z: "unat tot = unat funded +
      (if ri_reward_duration_end ?z \<le> now then 0
       else unat (ri_reward_rate ?z) * (unat (ri_reward_duration_end ?z) - unat now) div 2 ^ 64)"
    and rate: "unat (ri_reward_rate ri') = unat tot * 2 ^ 64 div unat (ri_reward_duration ?z)"
    and stop: "unat (ri_reward_duration_end ri') = unat now + unat (ri_reward_duration ?z)" and last: "ri_last_update_time ri' = now"
    by (rule rate_after_funding_exact [OF assms(1)])
  have tot: "unat tot = unat funded +
      (if ri_reward_duration_end ri \<le> now then 0 else R * (unat (ri_reward_duration_end ri) - unat now) div 2 ^ 64)"
    using z by (simp add: v)
  have "R * (unat (ri_reward_duration_end ri) - unat now) div 2 ^ 64 = R * S div 2 ^ 64" if "\<not> ri_reward_duration_end ri \<le> now"
    using that assms(3) by (simp add: v remaining_seconds_def min_def)
  then have "unat tot \<le> arrived + R * C div 2 ^ 64 + R * S div 2 ^ 64" using tot assms(2) by (simp flip: v)
  then have "real (unat tot) \<le> real arrived + real (R * C div 2 ^ 64) + real (R * S div 2 ^ 64)"
    by (metis of_nat_add of_nat_le_iff)
  also have "\<dots> \<le> real arrived + real R * real C / 2 ^ 64 + real R * real S / 2 ^ 64"
    using div_le_real [of "R * C" "2 ^ 64"] div_le_real [of "R * S" "2 ^ 64"] by simp
  also have "\<dots> = real arrived + reward_promised ri" unfolding reward_promised_def v by (simp add: field_simps)
  finally have le: "real (unat tot) \<le> real arrived + reward_promised ri" .
  have "unat (ri_reward_rate ri') * remaining_seconds ri' \<le> unat tot * 2 ^ 64"
    by (simp only: rate remaining_seconds_def stop last add_diff_cancel_left' div_mult_le_nat)
  then have "real (unat (ri_reward_rate ri') * remaining_seconds ri') \<le> real (unat tot * 2 ^ 64)" by (simp only: of_nat_le_iff)
  then have "real (unat (ri_reward_rate ri')) * real (remaining_seconds ri') / 2 ^ 64 \<le> real (unat tot)"
    by (simp add: divide_le_eq)
  moreover have "reward_promised ri' = real (unat (ri_reward_rate ri')) * real (remaining_seconds ri') / 2 ^ 64"
    by (simp add: reward_promised_def zero)
  ultimately show "reward_promised ri' \<le> reward_promised ri + real arrived" using le by linarith
qed

text \<open>The frame of funding, shared with the property of a campaign's rate.\<close>

lemma handle_fund_reward_frame:
  assumes "handle_fund_reward env ctx i amount carry = Inr (p', funded, trs)"
    and "pool_update_rewards (fd_pool ctx) (current_time env) = Inr p"
  defines "ri \<equiv> campaign p i"
  obtains exc where
    "is_valid_funder (campaign (fd_pool ctx) i) (fd_funder ctx)"
    "calculate_transfer_fee_excluded_amount (fd_reward_mint ctx) amount = Inr exc" "0 < tfa_amount exc"
    "unat funded = unat (tfa_amount exc) + (if carry then unat (ri_reward_rate ri) *
       unat (ri_cumulative_seconds_with_empty_liquidity_reward ri) div 2 ^ 64 else 0)"
    "update_rate_after_funding (ri\<lparr> ri_cumulative_seconds_with_empty_liquidity_reward := 0 \<rparr>)
       (current_time env) funded = Inr (campaign p' i)"
    "unat i < NUM_REWARDS" "ri_is_initialized (campaign (fd_pool ctx) i)"
    "reward_vault i (fd_pool ctx) = ta_key (fd_reward_vault ctx)"
    "p' = p\<lparr> pool_reward_infos := arr_set (pool_reward_infos p) (unat i) (campaign p' i) \<rparr>"
    "trs = [transfer_from_user (fd_funder ctx) (fd_reward_mint ctx) (fd_funder_token_account ctx) (fd_reward_vault ctx) amount]"
proof -
  have i: "unat i < NUM_REWARDS"
    using assms(1) by (auto simp: handle_fund_reward_def fund_reward_validate_def bindr_eq_Inr require_eq_Inr Let_def)
  have same: "ri\<lparr> ri_cumulative_seconds_with_empty_liquidity_reward := 0 \<rparr> = ri"
    if "ri_cumulative_seconds_with_empty_liquidity_reward ri = 0" using that by simp
  show ?thesis
    using assms(1,2) that i
    by (cases carry) (auto simp: handle_fund_reward_def fund_reward_validate_def Let_def bindr_eq_Inr require_eq_Inr
      index_campaign campaign_set same ri_def [symmetric] safe_mul_shr_cast_eq_Inr safe_add_eq_Inr REWARD_RATE_SCALE_def
      reward_vault_def simp del: bindr_assoc)
qed

lemma fund_reward_books:
  assumes "handle_fund_reward env ctx i amount carry = Inr (p', funded, trs)"
    and "reward_books_ok (fd_pool ctx) ps" and "books_ok (fd_pool ctx) ps"
  obtains exc where "calculate_transfer_fee_excluded_amount (fd_reward_mint ctx) amount = Inr exc"
    and "reward_books_ok p' ps"
    and "\<forall>j. reward_owes j p' ps \<le> reward_owes j (fd_pool ctx) ps + (if same_reward j i then real (unat (tfa_amount exc)) else 0)"
    and "ri_is_initialized (campaign (fd_pool ctx) i)" and "reward_vault i (fd_pool ctx) = ta_key (fd_reward_vault ctx)"
    and "trs = [transfer_from_user (fd_funder ctx) (fd_reward_mint ctx) (fd_funder_token_account ctx) (fd_reward_vault ctx) amount]"
proof -
  obtain p where u: "pool_update_rewards (fd_pool ctx) (current_time env) = Inr p"
    using assms(1) by (auto simp: handle_fund_reward_def Let_def bindr_eq_Inr simp del: bindr_assoc)
  obtain exc where exc: "calculate_transfer_fee_excluded_amount (fd_reward_mint ctx) amount = Inr exc"
    and funded: "unat funded = unat (tfa_amount exc) + (if carry then unat (ri_reward_rate (campaign p i)) *
       unat (ri_cumulative_seconds_with_empty_liquidity_reward (campaign p i)) div 2 ^ 64 else 0)"
    and rate: "update_rate_after_funding ((campaign p i)\<lparr> ri_cumulative_seconds_with_empty_liquidity_reward := 0 \<rparr>)
       (current_time env) funded = Inr (campaign p' i)"
    and i: "unat i < NUM_REWARDS" and init: "ri_is_initialized (campaign (fd_pool ctx) i)"
    and vault: "reward_vault i (fd_pool ctx) = ta_key (fd_reward_vault ctx)"
    and p': "p' = p\<lparr> pool_reward_infos := arr_set (pool_reward_infos p) (unat i) (campaign p' i) \<rparr>"
    and trs: "trs = [transfer_from_user (fd_funder ctx) (fd_reward_mint ctx) (fd_funder_token_account ctx) (fd_reward_vault ctx) amount]"
    by (rule handle_fund_reward_frame [OF assms(1) u])
  have "ri_last_update_time (campaign p i) = min (current_time env) (ri_reward_duration_end (campaign p i))"
    by (rule update_rewards_frame [OF campaign_updated [OF u] init]) simp
  note f = funded_campaign_promised [OF rate funded this]
  have on: "ri_is_initialized (campaign p' i)"
    using f(3) reward_step_campaign [OF pool_update_rewards_step [OF u]] init by (simp add: same_campaign_def)
  note b = pool_update_rewards_books [OF u assms(2,3)]
  note cb = set_campaign_books [OF b(1) i on f(2), folded p']
  have "reward_owes j p' ps \<le> reward_owes j (fd_pool ctx) ps + (if same_reward j i then real (unat (tfa_amount exc)) else 0)" for j
    using cb(2) [of j] b(2) [of j] f(1) by (simp split: if_splits)
  then show ?thesis using that [OF exc cb(1) _ init vault trs] by blast
qed

text \<open>A new campaign promises nothing yet, and an edited one what it did.\<close>

lemma initialize_reward_books:
  assumes "handle_initialize_reward env ctx i d f = Inr p'" and "reward_books_ok (ra_pool ctx) ps"
  shows "reward_books_ok p' ps" and "reward_owes j p' ps = reward_owes j (ra_pool ctx) ps"
    and "same_reward j i \<Longrightarrow> reward_owes j (ra_pool ctx) ps \<le> 0 \<and> reward_vault j p' = ra_reward_vault ctx"
    and "\<not> same_reward j i \<Longrightarrow> campaign p' j = campaign (ra_pool ctx) j"
proof -
  define z where "z = init_reward (campaign (ra_pool ctx) i) (mint_key (ra_reward_mint ctx)) (ra_reward_vault ctx) f d
    (token_program_flags_u8 (get_token_program_flags (ra_reward_mint ctx)))"
  have i: "unat i < NUM_REWARDS" and new: "\<not> ri_is_initialized (campaign (ra_pool ctx) i)"
    and p': "p' = (ra_pool ctx)\<lparr> pool_reward_infos := arr_set (pool_reward_infos (ra_pool ctx)) (unat i) z \<rparr>"
    using assms(1) by (auto simp: handle_initialize_reward_def initialize_reward_validate_def bindr_eq_Inr require_eq_Inr
      Let_def index_campaign z_def)
  have z: "ri_is_initialized z" "ri_reward_per_token_stored z = ri_reward_per_token_stored (campaign (ra_pool ctx) i)"
    "reward_promised z = reward_promised (campaign (ra_pool ctx) i)" "ri_vault z = ra_reward_vault ctx"
    by (simp_all add: z_def init_reward_def ri_is_initialized_def reward_promised_def remaining_seconds_def)
  note cb = set_campaign_books [OF assms(2) i z(1,2), folded p']
  have c: "campaign p' j = (if same_reward j i then z else campaign (ra_pool ctx) j)" for j
    unfolding p' by (rule campaign_arr_set [OF i])
  show "reward_books_ok p' ps" by (rule cb(1))
  show "reward_owes j p' ps = reward_owes j (ra_pool ctx) ps" using cb(2) [of j] z(3) by simp
  show "\<not> same_reward j i \<Longrightarrow> campaign p' j = campaign (ra_pool ctx) j" by (simp add: c)
  show "reward_owes j (ra_pool ctx) ps \<le> 0 \<and> reward_vault j p' = ra_reward_vault ctx" if "same_reward j i"
  proof -
    have "campaign (ra_pool ctx) j = campaign (ra_pool ctx) i" using that by (simp add: same_reward_def campaign_def)
    then have "reward_owes j (ra_pool ctx) ps \<le> 0" using assms(2) new unfolding reward_books_ok_def by metis
    then show ?thesis using that by (simp add: reward_vault_def c z(4))
  qed
qed

lemma edit_reward_books:
  assumes "handle_update_reward_duration env p signer i d = Inr p' \<or> handle_update_reward_funder p signer i f = Inr p'"
    and "reward_books_ok p ps"
  shows "reward_books_ok p' ps" and "reward_owes j p' ps = reward_owes j p ps"
proof -
  let ?ri = "campaign p i"
  have i: "unat i < NUM_REWARDS" and on: "ri_is_initialized ?ri"
    using assms(1)
    by (auto simp: handle_update_reward_duration_def update_reward_duration_validate_def handle_update_reward_funder_def
      update_reward_funder_validate_def Let_def bindr_eq_Inr require_eq_Inr index_campaign)
  obtain z where p': "p' = p\<lparr> pool_reward_infos := arr_set (pool_reward_infos p) (unat i) z \<rparr>"
    and "z = ?ri\<lparr> ri_reward_duration := d \<rparr> \<or> z = ?ri\<lparr> ri_funder := f \<rparr>"
    using assms(1) i
    by (auto simp: handle_update_reward_duration_def handle_update_reward_funder_def Let_def bindr_eq_Inr index_campaign)
  then have z: "ri_is_initialized z" "ri_reward_per_token_stored z = ri_reward_per_token_stored ?ri"
    and same: "reward_promised z = reward_promised ?ri"
    using on by (auto simp: ri_is_initialized_def reward_promised_def remaining_seconds_def)
  note cb = set_campaign_books [OF assms(2) i z, folded p']
  show "reward_books_ok p' ps" by (rule cb(1))
  show "reward_owes j p' ps = reward_owes j p ps" using cb(2) [of j] same by simp
qed

end
