(* ===== verification/RewardSolvency.thy ===== *)
theory RewardSolvency
  imports RewardSteps
begin

text \<open>
  Every step of a pool keeps its reward vaults solvent: the vault of a reward covers what its campaign
  has still to give and what all positions have earned of it.
\<close>

section \<open>Reward vaults\<close>

definition reward_solvent :: "chain \<Rightarrow> world \<Rightarrow> bool" where
  "reward_solvent ch w \<longleftrightarrow> reward_books_ok (w_pool w) (w_positions w) \<and> reward_vaults_apart (w_pool w) \<and>
     (\<forall>i. ri_is_initialized (campaign (w_pool w) i) \<longrightarrow>
        ch_owner ch (reward_vault i (w_pool w)) = ch_pool_authority ch \<and> w_tokens w (reward_vault i (w_pool w)) \<noteq> None \<and>
        reward_owes i (w_pool w) (w_positions w) \<le> real (balance (w_tokens w) (reward_vault i (w_pool w))))"

lemma same_frame_campaign: "same_frame p p' \<Longrightarrow> same_campaign (campaign p i) (campaign p' i)"
  by (simp add: same_frame_def campaign_def)

lemma same_frame_reward:
  assumes "same_frame p p'"
  shows "reward_vault i p' = reward_vault i p" and "ri_is_initialized (campaign p' i) = ri_is_initialized (campaign p i)"
    and "reward_vaults_apart p' = reward_vaults_apart p"
proof -
  show v: "reward_vault i p' = reward_vault i p" and o: "ri_is_initialized (campaign p' i) = ri_is_initialized (campaign p i)" for i
    using same_frame_campaign [OF assms, of i] by (simp_all add: same_campaign_def reward_vault_def)
  show "reward_vaults_apart p' = reward_vaults_apart p" by (simp add: reward_vaults_apart_def v o)
qed

lemma reward_solvent_keep:
  assumes "reward_solvent ch w" and "same_frame (w_pool w) (w_pool w')" and "reward_books_ok (w_pool w') (w_positions w')"
    and "\<And>i. w_tokens w (reward_vault i (w_pool w)) \<noteq> None \<Longrightarrow> ch_owner ch (reward_vault i (w_pool w)) = ch_pool_authority ch \<Longrightarrow>
      w_tokens w' (reward_vault i (w_pool w)) \<noteq> None"
    and "\<And>i. ri_is_initialized (campaign (w_pool w) i) \<Longrightarrow>
      reward_owes i (w_pool w') (w_positions w') \<le> real (balance (w_tokens w') (reward_vault i (w_pool w)))"
  shows "reward_solvent ch w'"
  using assms(1,3-5) unfolding reward_solvent_def same_frame_reward [OF assms(2)] by auto

lemma reward_solvent_transfers:
  assumes "token_program_ok ch" and "reward_solvent ch w" and "run_transfers ch mints trs (w_tokens w) = Some (w_tokens w')"
    and "same_frame (w_pool w) (w_pool w')" and "reward_books_ok (w_pool w') (w_positions w')"
    and "\<And>i. ri_is_initialized (campaign (w_pool w) i) \<Longrightarrow>
      reward_owes i (w_pool w') (w_positions w') + real (paid_from (reward_vault i (w_pool w)) trs)
        \<le> reward_owes i (w_pool w) (w_positions w) + real (credited mints (reward_vault i (w_pool w)) trs)"
  shows "reward_solvent ch w'"
proof (rule reward_solvent_keep [OF assms(2,4,5)])
  show "w_tokens w (reward_vault i (w_pool w)) \<noteq> None \<Longrightarrow> w_tokens w' (reward_vault i (w_pool w)) \<noteq> None" for i
    using run_balance(3) [OF assms(1,3)] by (auto simp: domIff set_eq_iff)
  fix i assume init: "ri_is_initialized (campaign (w_pool w) i)"
  let ?v = "reward_vault i (w_pool w)"
  have "real (balance (w_tokens w) ?v + credited mints ?v trs) \<le> real (balance (w_tokens w') ?v + paid_from ?v trs)"
    using run_balance(1) [OF assms(1,3)] by (simp only: of_nat_le_iff)
  moreover have "reward_owes i (w_pool w) (w_positions w) \<le> real (balance (w_tokens w) ?v)"
    using assms(2) init by (simp add: reward_solvent_def)
  ultimately show "reward_owes i (w_pool w') (w_positions w') \<le> real (balance (w_tokens w') ?v)"
    using assms(6) [OF init] by simp
qed

text \<open>Steps that take nothing from a reward vault, or move no tokens at all.\<close>

lemma reward_solvent_elsewhere:
  assumes "token_program_ok ch" and "reward_solvent ch w" and "run_transfers ch mints trs (w_tokens w) = Some (w_tokens w')"
    and "same_frame (w_pool w) (w_pool w')" and "reward_books_ok (w_pool w') (w_positions w')"
    and "\<And>i. reward_owes i (w_pool w') (w_positions w') \<le> reward_owes i (w_pool w) (w_positions w)"
    and "\<And>i. ri_is_initialized (campaign (w_pool w) i) \<Longrightarrow> paid_from (reward_vault i (w_pool w)) trs = 0"
  shows "reward_solvent ch w'"
proof (rule reward_solvent_transfers [OF assms(1-5)])
  fix i assume "ri_is_initialized (campaign (w_pool w) i)"
  then show "reward_owes i (w_pool w') (w_positions w') + real (paid_from (reward_vault i (w_pool w)) trs)
      \<le> reward_owes i (w_pool w) (w_positions w) + real (credited mints (reward_vault i (w_pool w)) trs)"
    using assms(6) [of i] assms(7) [of i] by simp
qed

lemma reward_solvent_quiet:
  assumes "reward_solvent ch w" and "w_tokens w' = w_tokens w"
    and "same_frame (w_pool w) (w_pool w')" and "reward_books_ok (w_pool w') (w_positions w')"
    and "\<And>i. reward_owes i (w_pool w') (w_positions w') \<le> reward_owes i (w_pool w) (w_positions w)"
  shows "reward_solvent ch w'"
proof (rule reward_solvent_keep [OF assms(1,3,4)])
  fix i assume "ri_is_initialized (campaign (w_pool w) i)"
  then have "reward_owes i (w_pool w) (w_positions w) \<le> real (balance (w_tokens w) (reward_vault i (w_pool w)))"
    using assms(1) by (simp add: reward_solvent_def)
  then show "reward_owes i (w_pool w') (w_positions w') \<le> real (balance (w_tokens w') (reward_vault i (w_pool w)))"
    using assms(5) [of i] by (simp add: assms(2))
qed (simp add: assms(2))

text \<open>What a user signs and what leaves a token vault does not leave a reward vault.\<close>

lemma not_from_reward_vault:
  assumes "token_program_ok ch" and "run_transfers ch mints trs b = Some b'" and "reward_solvent ch w" and "rewards_apart (w_pool w)"
    and "ri_is_initialized (campaign (w_pool w) i)" and "t \<in> set trs"
    and "tr_authority t \<noteq> ch_pool_authority ch \<or> tr_from t = vault s (w_pool w)"
  shows "tr_from t \<noteq> reward_vault i (w_pool w)"
proof (cases "tr_authority t = ch_pool_authority ch")
  case True
  then have "tr_from t = vault s (w_pool w)" using assms(7) by blast
  then show ?thesis using assms(4,5) by (cases s) (auto simp: rewards_apart_def reward_vault_def campaign_def vault_def split: if_splits)
next
  case False
  have "ch_owner ch (reward_vault i (w_pool w)) = ch_pool_authority ch" using assms(3,5) by (simp add: reward_solvent_def)
  then show ?thesis by (rule run_user_transfer [OF assms(1,2,6) False])
qed

lemma paid_from_none: "\<forall>t\<in>set trs. tr_from t \<noteq> k \<Longrightarrow> paid_from k trs = 0"
  by (induction trs) auto

section \<open>Each instruction\<close>

lemma swap_reward_infos:
  assumes "handle_swap env ctx params = Inr (p', sr, trs)"
  shows "pool_reward_infos p' = pool_reward_infos (sc_pool ctx)"
proof -
  obtain p fm where pre: "update_pre_swap (sc_pool ctx) (current_time env) = Inr p"
    and post: "apply_swap_result p sr fm (current_time env) = Inr p'"
    by (rule handle_swap_frame [OF assms])
  show ?thesis by (rule update_pre_swap_frame [OF pre], rule apply_swap_result_frame [OF post]) simp
qed

lemma claim_reward_infos:
  "handle_claim_protocol_fee env ctx ma mb = Inr (p', trs) \<or> handle_claim_partner_fee env ctx ma mb = Inr (p', trs) \<Longrightarrow>
     pool_reward_infos p' = pool_reward_infos (cc_pool ctx)"
  by (auto elim!: claim_protocol_fee_frame claim_partner_fee_frame simp: claim_protocol_fee_eq_Inr claim_partner_fee_eq_Inr)

lemma reward_solvent_swap:
  assumes "token_program_ok ch" and "solvent ch w" and "reward_solvent ch w"
    and "sc_pool ctx = w_pool w" and "sc_payer ctx \<noteq> ch_pool_authority ch"
    and "handle_swap env ctx params = Inr (p, sr, trs)" and "run_transfers ch mints trs (w_tokens w) = Some b"
  shows "reward_solvent ch (w\<lparr> w_pool := p, w_tokens := b \<rparr>)"
proof -
  have c: "swap_constraints env ctx = Inr ()" by (rule handle_swap_frame [OF assms(6)])
  have infos: "pool_reward_infos p = pool_reward_infos (w_pool w)" using swap_reward_infos [OF assms(6)] assms(4) by simp
  have key: "ta_key (side_pair s (sc_token_a_vault ctx) (sc_token_b_vault ctx)) = vault s (w_pool w)" for s
    unfolding assms(4) [symmetric]
    by (rule vault_pair) (use c in \<open>auto simp: swap_constraints_def bindr_eq_Inr require_eq_Inr\<close>)
  obtain fm' refs where trs: "trs = transfer_from_user (sc_payer ctx) (mint_in ctx) (sc_input_token_account ctx)
                 (side_pair (side_in (get_trade_direction ctx)) (sc_token_a_vault ctx) (sc_token_b_vault ctx)) (sp_amount_in params) #
               transfer_from_pool (sc_pool_authority ctx) (mint_out ctx)
                 (side_pair (side_out (get_trade_direction ctx)) (sc_token_a_vault ctx) (sc_token_b_vault ctx))
                 (sc_output_token_account ctx) (sr_output_amount sr) # refs"
    and refs: "\<forall>v. paid_from v refs \<le> (if v = ta_key (side_pair (side_fee fm') (sc_token_a_vault ctx) (sc_token_b_vault ctx))
                 then unat (sr_referral_fee sr) else 0)"
    by (rule handle_swap_transfers [OF assms(6)])
  have ok: "books_ok (w_pool w) (w_positions w)" and apart: "rewards_apart (w_pool w)" using assms(2) by (simp_all add: solvent_def)
  have frame: "same_frame (w_pool w) p"
    using swap_books_handler [OF assms(6), of "w_positions w"] ok unfolding assms(4) by blast
  have none: "paid_from (reward_vault i (w_pool w)) trs = 0" if init: "ri_is_initialized (campaign (w_pool w) i)" for i
  proof -
    note far = not_from_reward_vault [OF assms(1,7,3) apart init]
    have vs: "vault s (w_pool w) \<noteq> reward_vault i (w_pool w)" for s
      using apart init by (cases s) (auto simp: rewards_apart_def reward_vault_def campaign_def vault_def split: if_splits)
    have "paid_from (reward_vault i (w_pool w)) refs = 0"
      using spec [OF refs, of "reward_vault i (w_pool w)"] vs [of "side_fee fm'"] unfolding key by (simp split: if_splits)
    moreover have "ta_key (sc_input_token_account ctx) \<noteq> reward_vault i (w_pool w)"
      using far [of "hd trs"] assms(5) by (simp add: trs)
    ultimately show ?thesis using vs by (simp add: trs key)
  qed
  show ?thesis
    using assms(3,7) frame none
    by (intro reward_solvent_elsewhere [OF assms(1,3), of mints trs])
      (simp_all add: same_reward_infos(4,5) [OF infos] reward_solvent_def)
qed

lemma reward_solvent_payout:
  assumes "token_program_ok ch" and "solvent ch w" and "reward_solvent ch w"
    and "run_transfers ch mints trs (w_tokens w) = Some (w_tokens w')"
    and "same_frame (w_pool w) (w_pool w')" and "reward_books_ok (w_pool w') (w_positions w')"
    and "\<And>i. reward_owes i (w_pool w') (w_positions w') \<le> reward_owes i (w_pool w) (w_positions w)"
    and "\<And>t. t \<in> set trs \<Longrightarrow> tr_authority t \<noteq> ch_pool_authority ch \<or> (\<exists>s. tr_from t = vault s (w_pool w))"
  shows "reward_solvent ch w'"
proof (rule reward_solvent_elsewhere [OF assms(1,3,4,5,6,7)])
  fix i assume "ri_is_initialized (campaign (w_pool w) i)"
  moreover have "rewards_apart (w_pool w)" using assms(2) by (simp add: solvent_def)
  ultimately show "paid_from (reward_vault i (w_pool w)) trs = 0"
    using not_from_reward_vault [OF assms(1,4,3)] assms(8) by (intro paid_from_none) blast
qed

text \<open>A position settles its rewards before its liquidity changes.\<close>

lemma liquidity_reward_books:
  assumes "pos_update_rewards pos0 p0 now = Inr (pos, p)" and "ps k = Some pos0" and "reward_books_ok p0 ps" and "books_ok p0 ps"
    and "apply_add_liquidity p pos d = Inr (p', pos') \<or> apply_remove_liquidity p pos d = Inr (p', pos')"
  shows "reward_books_ok p' (ps(k \<mapsto> pos'))" and "reward_owes i p' (ps(k \<mapsto> pos')) \<le> reward_owes i p0 ps"
proof -
  note b = pos_update_rewards_books [of _ _ _ _ _ ps k, OF assms(1-4)]
  have infos: "pos_reward_infos pos' = pos_reward_infos pos" "pool_reward_infos p' = pool_reward_infos p"
    using assms(5) update_fee_liquidity(5)
    by (auto simp: apply_add_liquidity_def apply_remove_liquidity_def bindr_eq_Inr pos_add_liquidity_eq_Inr
      remove_unlocked_liquidity_eq_Inr)
  have at: "(ps(k \<mapsto> pos)) k = Some pos" by simp
  note s = settled_books [of _ "ps(k \<mapsto> pos)" k, OF b(1) at b(3) infos, simplified]
  show "reward_books_ok p' (ps(k \<mapsto> pos'))" by (rule s(1))
  show "reward_owes i p' (ps(k \<mapsto> pos')) \<le> reward_owes i p0 ps" using s(2) [of i] b(2) [of i] by linarith
qed

lemma reward_solvent_add_liquidity:
  assumes "token_program_ok ch" and "solvent ch w" and "reward_solvent ch w" and "lc_pool ctx = w_pool w"
    and "w_positions w k = Some (lc_position ctx)" and "lc_owner ctx \<noteq> ch_pool_authority ch"
    and "handle_add_liquidity env ctx params = Inr (p', pos', trs)"
    and "run_transfers ch mints trs (w_tokens w) = Some b"
  shows "reward_solvent ch (w\<lparr> w_pool := p', w_positions := (w_positions w)(k \<mapsto> pos'), w_tokens := b \<rparr>)"
proof -
  obtain p pos and total_a total_b :: transfer_fee_amount where u: "pos_update_rewards (lc_position ctx) (lc_pool ctx) (current_time env) = Inr (pos, p)"
    and add: "apply_add_liquidity p pos (al_liquidity_delta params) = Inr (p', pos')"
    and trs: "trs = [transfer_from_user (lc_owner ctx) (lc_token_a_mint ctx) (lc_token_a_account ctx)
                (lc_token_a_vault ctx) (tfa_amount total_a),
              transfer_from_user (lc_owner ctx) (lc_token_b_mint ctx) (lc_token_b_account ctx)
                (lc_token_b_vault ctx) (tfa_amount total_b)]"
    by (rule handle_add_liquidity_frame [OF assms(7)])
  have ok: "reward_books_ok (lc_pool ctx) (w_positions w)" "books_ok (lc_pool ctx) (w_positions w)"
    using assms(2,3,4) by (simp_all add: solvent_def reward_solvent_def)
  note l = liquidity_reward_books [of _ _ _ _ _ "w_positions w" k, OF u assms(5) ok disjI1 [OF add]]
  have frame: "same_frame (lc_pool ctx) p'"
    using same_frame_trans [OF reward_step_frame [OF pos_update_rewards_step(1) [OF u]] same_books_liquidity] add by blast
  show ?thesis
    using assms(4,6,8) l frame
    by (intro reward_solvent_payout [OF assms(1-3), of mints trs]) (auto simp: trs)
qed

lemma reward_solvent_remove_liquidity:
  assumes "token_program_ok ch" and "solvent ch w" and "reward_solvent ch w" and "lc_pool ctx = w_pool w"
    and "w_positions w k = Some (lc_position ctx)"
    and "handle_remove_liquidity env ctx d min_a min_b = Inr (p', pos', trs)"
    and "run_transfers ch mints trs (w_tokens w) = Some b"
  shows "reward_solvent ch (w\<lparr> w_pool := p', w_positions := (w_positions w)(k \<mapsto> pos'), w_tokens := b \<rparr>)"
proof -
  let ?d = "case d of Some d \<Rightarrow> d | None \<Rightarrow> pos_unlocked_liquidity (lc_position ctx)"
  obtain p pos and m :: modify_liquidity_result where c: "liquidity_constraints ctx = Inr ()"
    and u: "pos_update_rewards (lc_position ctx) (lc_pool ctx) (current_time env) = Inr (pos, p)"
    and rem: "apply_remove_liquidity p pos ?d = Inr (p', pos')"
    and trs: "trs = [transfer_from_pool (lc_pool_authority ctx) (lc_token_a_mint ctx) (lc_token_a_vault ctx)
                (lc_token_a_account ctx) (ml_token_a_amount m),
              transfer_from_pool (lc_pool_authority ctx) (lc_token_b_mint ctx) (lc_token_b_vault ctx)
                (lc_token_b_account ctx) (ml_token_b_amount m)]"
    by (rule handle_remove_liquidity_frame [OF assms(6)])
  have ok: "reward_books_ok (lc_pool ctx) (w_positions w)" "books_ok (lc_pool ctx) (w_positions w)"
    using assms(2,3,4) by (simp_all add: solvent_def reward_solvent_def)
  note l = liquidity_reward_books [of _ _ _ _ _ "w_positions w" k, OF u assms(5) ok disjI2 [OF rem]]
  have frame: "same_frame (lc_pool ctx) p'"
    using same_frame_trans [OF reward_step_frame [OF pos_update_rewards_step(1) [OF u]] same_books_liquidity] rem by blast
  have key: "ta_key (lc_token_a_vault ctx) = vault SideA (w_pool w)" "ta_key (lc_token_b_vault ctx) = vault SideB (w_pool w)"
    using liquidity_vaults [OF c, of SideA] liquidity_vaults [OF c, of SideB] assms(4) by simp_all
  show ?thesis
    using assms(4,7) l frame
    by (intro reward_solvent_payout [OF assms(1-3), of mints trs]) (auto simp: trs key)
qed

lemma reward_solvent_claim_position_fee:
  assumes "token_program_ok ch" and "solvent ch w" and "reward_solvent ch w" and "lc_pool ctx = w_pool w"
    and "w_positions w k = Some (lc_position ctx)" and "handle_claim_position_fee env ctx = Inr (pos', trs)"
    and "run_transfers ch mints trs (w_tokens w) = Some b"
  shows "reward_solvent ch (w\<lparr> w_positions := (w_positions w)(k \<mapsto> pos'), w_tokens := b \<rparr>)"
proof -
  obtain pos m where c: "liquidity_constraints ctx = Inr ()"
    and f: "update_fee (lc_position ctx) (pool_fee_a_per_liquidity (lc_pool ctx)) (pool_fee_b_per_liquidity (lc_pool ctx)) = Inr pos"
    and pos': "pos' = reset_pending_fee (pos\<lparr> pos_metrics := m \<rparr>)"
    and trs: "trs = (if pos_fee_a_pending pos > 0
        then [transfer_from_pool (lc_pool_authority ctx) (lc_token_a_mint ctx) (lc_token_a_vault ctx)
                (lc_token_a_account ctx) (pos_fee_a_pending pos)] else []) @
       (if pos_fee_b_pending pos > 0
        then [transfer_from_pool (lc_pool_authority ctx) (lc_token_b_mint ctx) (lc_token_b_vault ctx)
                (lc_token_b_account ctx) (pos_fee_b_pending pos)] else [])"
    by (rule claim_position_fee_frame [OF assms(6)])
  have same: "same_reward_claim (lc_position ctx) pos'"
    using update_fee_liquidity(1,5) [OF f] by (simp add: same_reward_claim_def pos' reset_pending_fee_def)
  have ok: "reward_books_ok (w_pool w) (w_positions w)" using assms(3) by (simp add: reward_solvent_def)
  note b = same_reward_claim_books [of _ "w_positions w" k, OF ok assms(5) same]
  have key: "ta_key (lc_token_a_vault ctx) = vault SideA (w_pool w)" "ta_key (lc_token_b_vault ctx) = vault SideB (w_pool w)"
    using liquidity_vaults [OF c, of SideA] liquidity_vaults [OF c, of SideB] assms(4) by simp_all
  show ?thesis
    using assms(7) b
    by (intro reward_solvent_payout [OF assms(1-3), of mints trs]) (auto simp: trs key split: if_splits)
qed

lemma reward_solvent_claim:
  assumes "token_program_ok ch" and "solvent ch w" and "reward_solvent ch w" and "cc_pool ctx = w_pool w"
    and "handle_claim_protocol_fee env ctx ma mb = Inr (p', trs) \<or> handle_claim_partner_fee env ctx ma mb = Inr (p', trs)"
    and "run_transfers ch mints trs (w_tokens w) = Some b"
  shows "reward_solvent ch (w\<lparr> w_pool := p', w_tokens := b \<rparr>)"
proof -
  note infos = claim_reward_infos [OF assms(5)]
  have c: "claim_fee_constraints env ctx = Inr ()" and frame: "same_frame (cc_pool ctx) p'"
    and from_vaults: "\<forall>t\<in>set trs. tr_from t = ta_key (cc_token_a_vault ctx) \<or> tr_from t = ta_key (cc_token_b_vault ctx)"
    using assms(5)
    by (auto elim!: claim_protocol_fee_frame claim_partner_fee_frame
      simp: claim_protocol_fee_eq_Inr claim_partner_fee_eq_Inr same_frame_def split: if_splits)
  have from_pool: "\<exists>s. tr_from t = vault s (w_pool w)" if "t \<in> set trs" for t
    using from_vaults that claim_vaults [OF c] assms(4) by metis
  show ?thesis
    using assms(3,4,6) frame from_pool
    by (intro reward_solvent_payout [OF assms(1-3), of mints trs])
      (simp_all add: same_reward_infos(4,5) [OF infos] reward_solvent_def)
qed

text \<open>Steps that leave the campaigns alone, and the rewards of the position they work on.\<close>

lemma reward_solvent_same:
  assumes "reward_solvent ch w" and "w_tokens w' = w_tokens w"
    and "same_frame (w_pool w) (w_pool w')" and "pool_reward_infos (w_pool w') = pool_reward_infos (w_pool w)"
    and "w_positions w k = Some pos" and "same_claim pos pos'" and "pos_reward_infos pos' = pos_reward_infos pos"
    and "w_positions w' = (w_positions w)(k \<mapsto> pos')"
  shows "reward_solvent ch w'"
proof -
  have same: "same_reward_claim pos pos'" using assms(6,7) by (simp add: same_reward_claim_def same_claim_def)
  have ok: "reward_books_ok (w_pool w) (w_positions w)" using assms(1) by (simp add: reward_solvent_def)
  note b = same_reward_claim_books [of _ "w_positions w" k, OF ok assms(5) same]
  show ?thesis
    using b by (intro reward_solvent_quiet [OF assms(1-3)]) (simp_all add: assms(8) same_reward_infos(4,5) [OF assms(4)])
qed

lemma reward_solvent_same_pool:
  assumes "reward_solvent ch w" and "same_frame (w_pool w) p'" and "pool_reward_infos p' = pool_reward_infos (w_pool w)"
  shows "reward_solvent ch (w\<lparr> w_pool := p' \<rparr>)"
  using assms(1,2)
  by (intro reward_solvent_quiet [OF assms(1)]) (simp_all add: same_reward_infos(4,5) [OF assms(3)] reward_solvent_def)

lemma release_reward_infos: "release_vesting_liquidity_to_position v pos point = Inr (v', pos') \<Longrightarrow> pos_reward_infos pos' = pos_reward_infos pos"
  by (auto simp: release_vesting_liquidity_to_position_def bindr_eq_Inr release_vested_liquidity_eq_Inr split: if_splits)

lemma refresh_reward_infos:
  "refresh_vestings vs pos pk point keys = Inr (vs', pos') \<Longrightarrow> pos_reward_infos pos' = pos_reward_infos pos"
proof (induction keys arbitrary: vs pos)
  case (Cons k keys)
  then show ?case by (auto simp: bindr_eq_Inr dest: release_reward_infos split: prod.splits)
qed simp

lemma lock_reward_infos:
  "handle_lock_position env vs ctx vparams = Inr (pos', vs') \<Longrightarrow> pos_reward_infos pos' = pos_reward_infos (lk_position ctx)"
  "handle_permanent_lock_position env pctx l = Inr (p', pos') \<Longrightarrow> pos_reward_infos pos' = pos_reward_infos (pl_position pctx)"
  "handle_refresh_vesting env vs rctx keys = Inr (vs', pos') \<Longrightarrow> pos_reward_infos pos' = pos_reward_infos (rv_position rctx)"
  by (auto simp: handle_lock_position_def handle_permanent_lock_position_def handle_refresh_vesting_def bindr_eq_Inr Let_def
    lock_eq_Inr permanent_lock_liquidity_eq_Inr refresh_reward_infos split: prod.splits)

lemma reward_solvent_create_position:
  assumes "reward_solvent ch w" and "cp_pool ctx = w_pool w"
    and "w_positions w (cp_position_key ctx) \<noteq> None \<longrightarrow> cp_accounts_exist ctx"
    and "handle_create_position env ctx = Inr (p', pos', nft)"
  shows "reward_solvent ch (w\<lparr> w_pool := p', w_positions := (w_positions w)(cp_position_key ctx \<mapsto> pos') \<rparr>)"
proof -
  have init: "pos_initialize default_position (cp_pool ctx) (cp_pool_key ctx) (cp_position_nft_mint ctx) 0 = (pos', p')"
    and none: "w_positions w (cp_position_key ctx) = None"
    using assms(3,4) by (auto simp: handle_create_position_def bindr_eq_Inr require_eq_Inr Let_def split: prod.splits)
  have pos': "pos_liquidity pos' = 0" "pos_reward_infos pos' = Array2 default_user_reward_info default_user_reward_info"
    and infos: "pool_reward_infos p' = pool_reward_infos (w_pool w)" and frame: "same_frame (w_pool w) p'"
    using init assms(2) by (auto simp: pos_initialize_def default_position_def pos_liquidity_def same_frame_def)
  have ok: "reward_books_ok (w_pool w) (w_positions w)" using assms(1) by (simp add: reward_solvent_def)
  note b = open_position_books [of _ "w_positions w" "cp_position_key ctx", OF ok none pos']
  show ?thesis
    using b frame by (intro reward_solvent_quiet [OF assms(1)]) (simp_all add: same_reward_infos(4,5) [OF infos])
qed

lemma reward_solvent_close_position:
  assumes "reward_solvent ch w" and "cl_pool ctx = w_pool w" and "w_positions w k = Some (cl_position ctx)"
    and "handle_close_position env ctx = Inr (p', nft)"
  shows "reward_solvent ch (w\<lparr> w_pool := p', w_positions := (w_positions w)(k := None) \<rparr>)"
proof -
  have p': "p' = (w_pool w)\<lparr> pool_metrics := reduce_position (pool_metrics (w_pool w)) \<rparr>"
    and e: "pos_is_empty (cl_position ctx) = Inr True"
    using assms(2,4) by (auto simp: handle_close_position_def bindr_eq_Inr require_eq_Inr)
  have infos: "pool_reward_infos p' = pool_reward_infos (w_pool w)" and frame: "same_frame (w_pool w) p'"
    by (simp_all add: p' same_frame_def)
  have ok: "reward_books_ok (w_pool w) (w_positions w)" using assms(1) by (simp add: reward_solvent_def)
  note b = close_position_books [of _ "w_positions w" k, OF ok assms(3) e]
  show ?thesis
    using b frame by (intro reward_solvent_quiet [OF assms(1)]) (simp_all add: same_reward_infos(4,5) [OF infos])
qed

lemma reward_solvent_split_position:
  assumes "solvent ch w" and "reward_solvent ch w" and "sx_pool ctx = w_pool w"
    and "w_positions w (sx_first_position_key ctx) = Some (sx_first_position ctx)"
    and "w_positions w (sx_second_position_key ctx) = Some (sx_second_position ctx)"
    and "handle_split_position2 env ctx params = Inr (p', pos1', pos2', info)"
  shows "reward_solvent ch (w\<lparr> w_pool := p',
    w_positions := (w_positions w)(sx_first_position_key ctx \<mapsto> pos1', sx_second_position_key ctx \<mapsto> pos2') \<rparr>)"
proof -
  obtain pos1 pos2 amounts n1 n2 n3 n4 n5 n6 where u: "pool_update_rewards (w_pool w) (current_time env) = Inr p'"
    and u1: "update_position_reward (sx_first_position ctx) p' = Inr pos1"
    and u2: "update_position_reward (sx_second_position ctx) p' = Inr pos2"
    and split: "apply_split_position p' pos1 pos2 n1 n2 n3 n4 n5 n6 = Inr (pos1', pos2', amounts)"
    and ne: "sx_first_position_key ctx \<noteq> sx_second_position_key ctx"
    by (rule handle_split_frame [OF assms(6), unfolded assms(3)])
  let ?i = "sx_first_position_key ctx" and ?j = "sx_second_position_key ctx"
  define ps1 where "ps1 = (w_positions w)(?i \<mapsto> pos1)"
  define ps2 where "ps2 = ps1(?j \<mapsto> pos2)"
  have ok: "reward_books_ok (w_pool w) (w_positions w)" "books_ok (w_pool w) (w_positions w)"
    using assms(1,2) by (simp_all add: solvent_def reward_solvent_def)
  note b = pool_update_rewards_books [OF u ok]
  note s1 = settle_position_books [of _ _ _ "w_positions w" ?i, OF u1 assms(4) b(1), folded ps1_def]
  have j1: "ps1 ?j = Some (sx_second_position ctx)" using assms(5) ne by (simp add: ps1_def)
  note s2 = settle_position_books [of _ _ _ ps1 ?j, OF u2 j1 s1(1), folded ps2_def]
  have at: "ps2 ?i = Some pos1" "ps2 ?j = Some pos2" using ne by (simp_all add: ps2_def ps1_def)
  note sb = split_reward_books [OF split s2(1) at ne s1(3) s2(3)]
  have eq: "ps2(?i \<mapsto> pos1', ?j \<mapsto> pos2') = (w_positions w)(?i \<mapsto> pos1', ?j \<mapsto> pos2')"
    using ne by (auto simp: ps2_def ps1_def)
  have "reward_owes x p' (ps2(?i \<mapsto> pos1', ?j \<mapsto> pos2')) \<le> reward_owes x (w_pool w) (w_positions w)" for x
    using sb(2) [of x] s2(2) [of x] s1(2) [of x] b(2) [of x] by linarith
  then show ?thesis
    using sb(1) reward_step_frame [OF pool_update_rewards_step [OF u]]
    by (intro reward_solvent_quiet [OF assms(2)]) (simp_all flip: eq)
qed

lemma reward_solvent_edit:
  assumes "reward_solvent ch w"
    and "handle_update_reward_duration env (w_pool w) signer i d = Inr p' \<or> handle_update_reward_funder (w_pool w) signer i f = Inr p'"
  shows "reward_solvent ch (w\<lparr> w_pool := p' \<rparr>)"
proof -
  have ok: "reward_books_ok (w_pool w) (w_positions w)" using assms(1) by (simp add: reward_solvent_def)
  have "same_frame (w_pool w) p'" using assms(2) update_reward_steps reward_step_frame by blast
  then show ?thesis
    using edit_reward_books [OF assms(2) ok] by (intro reward_solvent_quiet [OF assms(1)]) simp_all
qed

lemma reward_solvent_claim_reward:
  assumes "token_program_ok ch" and "solvent ch w" and "reward_solvent ch w" and "cr_pool ctx = w_pool w"
    and "w_positions w k = Some (cr_position ctx)" and "handle_claim_reward env ctx i skip = Inr (p', pos', trs)"
    and "run_transfers ch mints trs (w_tokens w) = Some b"
  shows "reward_solvent ch (w\<lparr> w_pool := p', w_positions := (w_positions w)(k \<mapsto> pos'), w_tokens := b \<rparr>)"
proof -
  have ok: "reward_books_ok (cr_pool ctx) (w_positions w)" "books_ok (cr_pool ctx) (w_positions w)" "reward_vaults_apart (cr_pool ctx)"
    using assms(2-4) by (simp_all add: solvent_def reward_solvent_def)
  note b = claim_reward_books [of _ _ _ _ _ _ _ "w_positions w" k, OF assms(6,5) ok, unfolded assms(4)]
  have "same_frame (w_pool w) p'" using reward_step_frame [OF claim_reward_step(1) [OF assms(6)]] by (simp add: assms(4))
  then show ?thesis
    using assms(7) b
    by (intro reward_solvent_transfers [OF assms(1,3), of mints trs]) (auto intro: add_increasing2)
qed

lemma reward_solvent_withdraw_ineligible:
  assumes "token_program_ok ch" and "solvent ch w" and "reward_solvent ch w" and "fd_pool ctx = w_pool w"
    and "handle_withdraw_ineligible_reward env ctx i = Inr (p', trs)" and "run_transfers ch mints trs (w_tokens w) = Some b"
  shows "reward_solvent ch (w\<lparr> w_pool := p', w_tokens := b \<rparr>)"
proof -
  have ok: "reward_books_ok (fd_pool ctx) (w_positions w)" "books_ok (fd_pool ctx) (w_positions w)" "reward_vaults_apart (fd_pool ctx)"
    using assms(2-4) by (simp_all add: solvent_def reward_solvent_def)
  note b = withdraw_ineligible_books [OF assms(5) ok, unfolded assms(4)]
  have "same_frame (w_pool w) p'" using reward_step_frame [OF withdraw_ineligible_step(1) [OF assms(5)]] by (simp add: assms(4))
  then show ?thesis
    using assms(6) b
    by (intro reward_solvent_transfers [OF assms(1,3), of mints trs]) (auto intro: add_increasing2)
qed

lemma reward_solvent_fund_reward:
  assumes "token_program_ok ch" and "solvent ch w" and "reward_solvent ch w" and "fd_pool ctx = w_pool w"
    and "fd_funder ctx \<noteq> ch_pool_authority ch" and "handle_fund_reward env ctx i amount carry = Inr (p', x, trs)"
    and "run_transfers ch mints trs (w_tokens w) = Some b" and "sees mints (fd_reward_mint ctx)"
  shows "reward_solvent ch (w\<lparr> w_pool := p', w_tokens := b \<rparr>)"
proof -
  have ok: "reward_books_ok (fd_pool ctx) (w_positions w)" "books_ok (fd_pool ctx) (w_positions w)"
    using assms(2-4) by (simp_all add: solvent_def reward_solvent_def)
  obtain exc where exc: "calculate_transfer_fee_excluded_amount (fd_reward_mint ctx) amount = Inr exc"
    and rb: "reward_books_ok p' (w_positions w)"
    and o: "\<forall>j. reward_owes j p' (w_positions w) \<le> reward_owes j (fd_pool ctx) (w_positions w) +
      (if same_reward j i then real (unat (tfa_amount exc)) else 0)"
    and init: "ri_is_initialized (campaign (fd_pool ctx) i)" and vault: "reward_vault i (fd_pool ctx) = ta_key (fd_reward_vault ctx)"
    and trs: "trs = [transfer_from_user (fd_funder ctx) (fd_reward_mint ctx) (fd_funder_token_account ctx) (fd_reward_vault ctx) amount]"
    by (rule fund_reward_books [OF assms(6) ok])
  have frame: "same_frame (w_pool w) p'" using reward_step_frame [OF fund_reward_step(1) [OF assms(6)]] by (simp add: assms(4))
  have "rewards_apart (w_pool w)" using assms(2) by (simp add: solvent_def)
  then have user: "ta_key (fd_funder_token_account ctx) \<noteq> reward_vault j (w_pool w)" if "ri_is_initialized (campaign (w_pool w) j)" for j
    using not_from_reward_vault [OF assms(1,7,3) _ that, of "hd trs"] assms(5) by (simp add: trs)
  have "reward_owes j p' (w_positions w) + real (paid_from (reward_vault j (w_pool w)) trs)
      \<le> reward_owes j (w_pool w) (w_positions w) + real (credited mints (reward_vault j (w_pool w)) trs)"
    if "ri_is_initialized (campaign (w_pool w) j)" for j
  proof -
    have at: "ta_key (fd_reward_vault ctx) = reward_vault j (w_pool w)" if "same_reward j i"
      using that vault by (simp add: assms(4) same_reward_def reward_vault_def campaign_def)
    note arrives = excluded_amount_received(1) [OF exc] user [OF that] assms(8) [unfolded sees_def]
    have "unat (tfa_amount exc) \<le> credited mints (reward_vault j (w_pool w)) trs" if "same_reward j i"
      using arrives by (simp add: trs at [OF that])
    then have "(if same_reward j i then real (unat (tfa_amount exc)) else 0) \<le> real (credited mints (reward_vault j (w_pool w)) trs)"
      by (cases "same_reward j i") (simp_all only: of_nat_le_iff if_True if_False of_nat_0_le_iff)
    then show ?thesis using spec [OF o, of j] user [OF that] by (simp add: assms(4) trs)
  qed
  then show ?thesis
    using assms(7) rb frame by (intro reward_solvent_transfers [OF assms(1,3), of mints trs]) simp_all
qed

lemma reward_solvent_initialize_reward:
  assumes "reward_solvent ch w" and "ra_pool ctx = w_pool w"
    and "w_tokens w (ra_reward_vault ctx) \<noteq> None \<longrightarrow> ra_reward_vault_exists ctx"
    and "handle_initialize_reward env ctx i duration funder = Inr p'"
    and "ch_owner ch (ra_reward_vault ctx) = ch_pool_authority ch"
  shows "reward_solvent ch (w\<lparr> w_pool := p', w_tokens := (w_tokens w)(ra_reward_vault ctx \<mapsto> 0) \<rparr>)"
proof -
  let ?b = "(w_tokens w)(ra_reward_vault ctx \<mapsto> 0)"
  have none: "w_tokens w (ra_reward_vault ctx) = None"
    using assms(3,4) by (auto simp: handle_initialize_reward_def bindr_eq_Inr require_eq_Inr)
  have ok: "reward_books_ok (ra_pool ctx) (w_positions w)" using assms(1,2) by (simp add: reward_solvent_def)
  note b = initialize_reward_books [OF assms(4) ok, unfolded assms(2)]
  have old: "reward_vault j p' = reward_vault j (w_pool w)" "ri_is_initialized (campaign p' j) = ri_is_initialized (campaign (w_pool w) j)"
    if "\<not> same_reward j i" for j using b(4) [OF that] by (simp_all add: reward_vault_def)
  have fresh: "reward_vault j (w_pool w) \<noteq> ra_reward_vault ctx" if "ri_is_initialized (campaign (w_pool w) j)" for j
    using assms(1) none that unfolding reward_solvent_def by metis
  have "reward_vaults_apart p'"
    unfolding reward_vaults_apart_def
  proof (intro allI impI, elim conjE)
    fix j k assume on: "ri_is_initialized (campaign p' j)" "ri_is_initialized (campaign p' k)" and eq: "reward_vault j p' = reward_vault k p'"
    have apart: "reward_vaults_apart (w_pool w)" using assms(1) by (simp add: reward_solvent_def)
    show "same_reward j k"
      using b(3) old fresh on eq apart unfolding reward_vaults_apart_def
      by (cases "same_reward j i"; cases "same_reward k i"; metis same_reward_def)
  qed
  moreover have "ch_owner ch (reward_vault j p') = ch_pool_authority ch \<and> ?b (reward_vault j p') \<noteq> None \<and>
      reward_owes j p' (w_positions w) \<le> real (balance ?b (reward_vault j p'))"
    if on: "ri_is_initialized (campaign p' j)" for j
  proof (cases "same_reward j i")
    case True
    then show ?thesis using b(2,3) [of j] assms(5) by (simp add: balance_def)
  next
    case False
    then have init: "ri_is_initialized (campaign (w_pool w) j)" using on old by simp
    then show ?thesis using assms(1) fresh [OF init] b(2) [of j] unfolding reward_solvent_def old(1) [OF False]
      by (auto simp: balance_def)
  qed
  ultimately show ?thesis using b(1) by (simp add: reward_solvent_def)
qed

lemma reward_solvent_others:
  assumes "reward_solvent ch w" and "keeps_accounts ch (ch_pool_authority ch) (w_tokens w) b"
  shows "reward_solvent ch (w\<lparr> w_tokens := b \<rparr>)"
proof (rule reward_solvent_keep [OF assms(1)])
  fix i assume "ri_is_initialized (campaign (w_pool w) i)"
  then have "reward_owes i (w_pool w) (w_positions w) \<le> real (balance (w_tokens w) (reward_vault i (w_pool w)))"
    and "balance (w_tokens w) (reward_vault i (w_pool w)) \<le> balance b (reward_vault i (w_pool w))"
    using assms(1) keeps_accountsD(1) [OF assms(2)] by (simp_all add: reward_solvent_def)
  then show "reward_owes i (w_pool (w\<lparr> w_tokens := b \<rparr>)) (w_positions (w\<lparr> w_tokens := b \<rparr>))
      \<le> real (balance (w_tokens (w\<lparr> w_tokens := b \<rparr>)) (reward_vault i (w_pool w)))" by simp
qed (use assms(1) keeps_accountsD(2) [OF assms(2)] in \<open>simp_all add: reward_solvent_def\<close>)

section \<open>Every reachable world\<close>

lemma pool_step_reward_solvent:
  assumes "pool_step ch w w'" and "token_program_ok ch" and "solvent ch w" and "reward_solvent ch w"
  shows "reward_solvent ch w'"
  using assms(1)
proof cases
  case swap then show ?thesis using reward_solvent_swap assms(2-4) by blast
next
  case add_liquidity then show ?thesis using reward_solvent_add_liquidity assms(2-4) by blast
next
  case remove_liquidity then show ?thesis using reward_solvent_remove_liquidity assms(2-4) by blast
next
  case claim_position_fee then show ?thesis using reward_solvent_claim_position_fee assms(2-4) by blast
next
  case claim_protocol_fee then show ?thesis using reward_solvent_claim assms(2-4) by blast
next
  case claim_partner_fee then show ?thesis using reward_solvent_claim assms(2-4) by blast
next
  case create_position then show ?thesis using reward_solvent_create_position assms(4) by blast
next
  case close_position then show ?thesis using reward_solvent_close_position assms(4) by blast
next
  case (permanent_lock_position ctx k env l p pos)
  then show ?thesis
    using reward_solvent_same [OF assms(4), of w' k "pl_position ctx" pos] permanent_lock_books(2,3) [of env ctx l p pos]
      permanent_lock_same_frame [of env ctx l p pos] lock_reward_infos(2) [of env ctx l p pos] by simp
next
  case split_position then show ?thesis using reward_solvent_split_position assms(3,4) by blast
next
  case (lock_position ctx env vparams pos vs)
  then show ?thesis
    using reward_solvent_same [OF assms(4), of w' "lk_position_key ctx" "lk_position ctx" pos]
      lock_position_same_claim [of env "w_vestings w" ctx vparams pos vs] lock_reward_infos(1) [of env "w_vestings w" ctx vparams pos vs]
    by simp
next
  case (refresh_vesting ctx env keys vs pos)
  then show ?thesis
    using reward_solvent_same [OF assms(4), of w' "rv_position_key ctx" "rv_position ctx" pos]
      refresh_same_claim [of env "w_vestings w" ctx keys vs pos] lock_reward_infos(3) [of env "w_vestings w" ctx keys vs pos]
    by simp
next
  case (set_pool_status admin status p)
  then show ?thesis
    using status_books [of "w_pool w" admin status p] by (auto simp: set_pool_status_eq_Inr intro!: reward_solvent_same_pool [OF assms(4)])
next
  case initialize_reward then show ?thesis using reward_solvent_initialize_reward assms(4) by blast
next
  case fund_reward then show ?thesis using reward_solvent_fund_reward assms(2-4) by blast
next
  case withdraw_ineligible_reward then show ?thesis using reward_solvent_withdraw_ineligible assms(2-4) by blast
next
  case update_reward_duration then show ?thesis using reward_solvent_edit assms(4) by blast
next
  case update_reward_funder then show ?thesis using reward_solvent_edit assms(4) by blast
next
  case claim_reward then show ?thesis using reward_solvent_claim_reward assms(2-4) by blast
next
  case elsewhere then show ?thesis using reward_solvent_others assms(4) by blast
qed

text \<open>A new pool has no rewards.\<close>

lemma reward_solvent_start:
  assumes "pool_start ch w"
  shows "reward_solvent ch w"
proof -
  define p where "p = w_pool w"
  obtain ctx pos trs where "opened ctx (w_pool w) pos trs" and ps: "w_positions w = [ip_position_key ctx \<mapsto> pos]"
    by (rule pool_start_opened [OF assms])
  then have c: "campaign p i = default_reward_info" and "pending_reward pos i = default_user_reward_info" for i
    by (simp_all add: opened_def fresh_pool_def campaign_def pending_reward_def p_def)
  then have zero: "reward_growth i p = 0" "reward_checkpoint i pos = 0" "reward_earned i p pos = 0" "reward_promised (campaign p i) = 0"
    "\<not> ri_is_initialized (campaign p i)" for i
    by (simp_all add: reward_defs default_reward_info_def default_user_reward_info_def reward_promised_def ri_is_initialized_def)
  have "reward_owes i p [ip_position_key ctx \<mapsto> pos] = 0" for i by (simp only: reward_owes_def zero) (simp add: total_def zero)
  then show ?thesis by (simp add: reward_solvent_def reward_books_ok_def reward_vaults_apart_def ps zero flip: p_def)
qed

text \<open>Keeping the reward vaults covered relies on the positions adding up to the liquidity of the pool.\<close>

interpretation reward_solvency: relative_invariant "pool_start ch" "pool_step ch"
  "\<lambda>w. token_program_ok ch \<longrightarrow> solvent ch w" "\<lambda>w. token_program_ok ch \<longrightarrow> reward_solvent ch w" for ch
  by unfold_locales (simp_all add: reward_solvent_start pool_step_reward_solvent)

lemma pool_reachable_reward_solvent: "pool_reachable ch w \<Longrightarrow> token_program_ok ch \<Longrightarrow> reward_solvent ch w"
  using reward_solvency.relatively_always by blast

text \<open>A claim never asks the vault of a reward for more than it holds.\<close>

lemma reward_solvent_covers:
  assumes "reward_solvent ch w" and "ri_is_initialized (campaign (w_pool w) i)" and "reward_books_ok p' ps'"
    and "reward_owes i p' ps' + real n \<le> reward_owes i (w_pool w) (w_positions w)"
  shows "n \<le> balance (w_tokens w) (reward_vault i (w_pool w))"
proof -
  have "0 \<le> reward_owes i p' ps'"
    using reward_promised_nonneg [of "campaign p' i"] reward_total_nonneg [OF assms(3), of i] by (simp add: reward_owes_def)
  moreover have "reward_owes i (w_pool w) (w_positions w) \<le> real (balance (w_tokens w) (reward_vault i (w_pool w)))"
    using assms(1,2) by (simp add: reward_solvent_def)
  ultimately have "real n \<le> real (balance (w_tokens w) (reward_vault i (w_pool w)))" using assms(4) by linarith
  then show ?thesis by (simp only: of_nat_le_iff)
qed

end
