(* ===== verification/RewardProperties.thy ===== *)
theory RewardProperties
  imports RewardSolvency Samples
begin

text \<open>
  Farming rewards: what funding promises, what a
  position is paid and what the funder gets back of the time without liquidity.
\<close>

text \<open>A campaign in slot 0, paid from the vault 52.\<close>

definition sample_reward :: reward_info where
  "sample_reward = default_reward_info\<lparr> ri_initialized := 1, ri_mint := 13, ri_vault := 52, ri_funder := 40,
     ri_reward_duration := 86400, ri_reward_duration_end := 2000, ri_reward_rate := 2 ^ 64, ri_last_update_time := 900 \<rparr>"

section \<open>Funding\<close>

text \<open>C27: A campaign never promises more than what funds it: over the full new duration the rate pays out at
  most the tokens that arrive, the undistributed seconds carried forward and the unspent rest of a
  campaign still running; and who funds is the funder named for the campaign, or an admin.\<close>

theorem funding_covers_the_rate:
  assumes "handle_fund_reward env ctx i amount carry = Inr (p', funded, trs)"
    and "pool_update_rewards (fd_pool ctx) (current_time env) = Inr p"
  defines "ri \<equiv> campaign p i" and "ri' \<equiv> campaign p' i"
  shows "\<exists>arrived. received (fd_reward_mint ctx) amount = Some arrived \<and> 0 < arrived \<and>
    unat (ri_reward_rate ri') * unat (ri_reward_duration ri') \<le>
      (arrived + (if carry then unat (ri_reward_rate ri) * unat (ri_cumulative_seconds_with_empty_liquidity_reward ri) div 2 ^ 64 else 0)
        + unat (ri_reward_rate ri) * (unat (ri_reward_duration_end ri) - unat (current_time env)) div 2 ^ 64) * 2 ^ 64 \<and>
    ri_cumulative_seconds_with_empty_liquidity_reward ri' = 0 \<and>
    is_valid_funder (campaign (fd_pool ctx) i) (fd_funder ctx)"
proof -
  let ?ri = "ri\<lparr> ri_cumulative_seconds_with_empty_liquidity_reward := 0 \<rparr>"
  obtain exc where v: "is_valid_funder (campaign (fd_pool ctx) i) (fd_funder ctx)"
    and exc: "calculate_transfer_fee_excluded_amount (fd_reward_mint ctx) amount = Inr exc" "0 < tfa_amount exc"
    and funded: "unat funded = unat (tfa_amount exc) + (if carry then unat (ri_reward_rate ri) *
       unat (ri_cumulative_seconds_with_empty_liquidity_reward ri) div 2 ^ 64 else 0)"
    and rate: "update_rate_after_funding ?ri (current_time env) funded = Inr ri'"
    unfolding ri_def ri'_def by (rule handle_fund_reward_frame [OF assms(1,2)])
  obtain tot :: u64 where tot: "unat tot = unat funded +
      (if ri_reward_duration_end ?ri \<le> current_time env then 0
       else unat (ri_reward_rate ?ri) * (unat (ri_reward_duration_end ?ri) - unat (current_time env)) div 2 ^ 64)"
    and r: "unat (ri_reward_rate ri') = unat tot * 2 ^ 64 div unat (ri_reward_duration ?ri)"
    and d: "ri_reward_duration ri' = ri_reward_duration ?ri"
    by (rule rate_after_funding_exact [OF rate])
  have "unat (ri_reward_rate ri') * unat (ri_reward_duration ri') \<le> unat tot * 2 ^ 64"
    unfolding r d by (rule div_mult_le_nat)
  moreover have "unat tot \<le> unat funded + unat (ri_reward_rate ri) *
      (unat (ri_reward_duration_end ri) - unat (current_time env)) div 2 ^ 64"
    using tot by (simp split: if_splits)
  ultimately have "unat (ri_reward_rate ri') * unat (ri_reward_duration ri') \<le> (unat funded + unat (ri_reward_rate ri) *
      (unat (ri_reward_duration_end ri) - unat (current_time env)) div 2 ^ 64) * 2 ^ 64"
    by (rule order_trans [OF _ mult_le_mono1])
  moreover have "ri_cumulative_seconds_with_empty_liquidity_reward ri' = 0"
    using rate by (auto simp: update_rate_after_funding_def bindr_eq_Inr simp del: bindr_assoc)
  moreover have "received (fd_reward_mint ctx) amount = Some (unat (tfa_amount exc))" "0 < unat (tfa_amount exc)"
    using excluded_amount_received(1) [OF exc(1)] exc(2) by (simp_all add: unat_gt_0 word_pos)
  ultimately show ?thesis using v
    by (intro exI [of _ "unat (tfa_amount exc)"]) (simp only: funded simp_thms)
qed

definition sample_fund_ctx :: reward_fund_ctx where
  "sample_fund_ctx = \<lparr> fd_pool_authority = 1, fd_pool = sample_pool\<lparr> pool_reward_infos := Array2 sample_reward default_reward_info \<rparr>,
     fd_reward_vault = sample_account 52 13 1, fd_reward_mint = sample_mint 13,
     fd_funder_token_account = sample_account 33 13 40, fd_funder = 40 \<rparr>"

lemma funding_covers_the_rate_witness:
  "\<exists>p funded trs. handle_fund_reward sample_env sample_fund_ctx 0 86400000 False = Inr (p, funded, trs) \<and>
     unat (ri_reward_rate (campaign p 0)) * 86400 \<le> (86400000 + 1000) * 2 ^ 64"
proof -
  obtain p funded trs where f: "handle_fund_reward sample_env sample_fund_ctx 0 86400000 False = Inr (p, funded, trs)"
      "ri_reward_duration (campaign p 0) = 86400"
    by (simp add: sample_eval sample_fund_ctx_def sample_reward_def campaign_def reward_handlers_eval cong: bindr_weak_cong)
  obtain q where q: "pool_update_rewards (fd_pool sample_fund_ctx) (current_time sample_env) = Inr q"
      "ri_reward_rate (campaign q 0) = 2 ^ 64" "ri_reward_duration_end (campaign q 0) = 2000"
      "current_time sample_env = 1000"
    by (simp add: sample_eval sample_fund_ctx_def sample_reward_def campaign_def reward_handlers_eval cong: bindr_weak_cong)
  have "received (fd_reward_mint sample_fund_ctx) 86400000 = Some 86400000"
    by (simp add: received_def sample_fund_ctx_def sample_mint_def get_epoch_transfer_fee_def)
  then show ?thesis using funding_covers_the_rate [OF f(1) q(1)] f q by auto
qed

section \<open>Claiming\<close>

text \<open>C28: A claim of a reward settles, once, exactly what the liquidity of the position earned since its
  checkpoint plus what was pending: nothing of the reward stays pending, and the liquidity and the
  trading fees of the position are untouched. If the vault is not frozen, that amount is paid, from the
  vault of the campaign alone and to the account the caller names. If it is frozen, nothing is paid: with an
  amount to pay the claim needs the skip flag, and gives the amount up; without the flag it
  is refused with an error of its own.\<close>

theorem claim_reward_pays_pending_once:
  assumes "handle_claim_reward env ctx i skip = Inr (p', pos', trs)"
  defines "pos \<equiv> cr_position ctx"
  defines "due \<equiv> unat (uri_reward_pendings (pending_reward pos i)) +
    pos_liquidity pos * (unat (ri_reward_per_token_stored (campaign p' i)) -
      unat (uri_reward_per_token_checkpoint (pending_reward pos i))) div 2 ^ 192"
  shows "pool_update_rewards (cr_pool ctx) (current_time env) = Inr p' \<and>
    uri_reward_pendings (pending_reward pos' i) = 0 \<and> same_claim pos pos' \<and>
    (\<forall>t\<in>set trs. tr_from t = ri_vault (campaign (cr_pool ctx) i) \<and> tr_to t = ta_key (cr_user_token_account ctx)) \<and>
    (if ta_frozen (cr_reward_vault ctx)
     then trs = [] \<and> (0 < due \<longrightarrow> skip = 1 \<and>
       (\<forall>skip'. skip' \<noteq> 1 \<longrightarrow> handle_claim_reward env ctx i skip' = Inl (Err RewardVaultFrozenSkipRequired)))
     else paid_from (ri_vault (campaign (cr_pool ctx) i)) trs = due)"
proof -
  obtain pos1 r where v: "claim_reward_validate ctx (unat i) = Inr ()"
    and u: "pos_update_rewards pos (cr_pool ctx) (current_time env) = Inr (pos1, p')"
    and c: "pos_claim_reward pos1 (unat i) = Inr (pos', r)"
    and trs: "trs = (if r > 0 \<and> \<not> ta_frozen (cr_reward_vault ctx)
        then [transfer_from_pool (cr_pool_authority ctx) (cr_reward_mint ctx) (cr_reward_vault ctx)
                (cr_user_token_account ctx) r] else [])"
    using assms(1) unfolding pos_def
    by (auto simp: handle_claim_reward_def bindr_eq_Inr Let_def split: if_splits prod.splits)
  have skip: "0 < r \<Longrightarrow> ta_frozen (cr_reward_vault ctx) \<Longrightarrow> skip = 1 \<and>
      (\<forall>skip'. skip' \<noteq> 1 \<longrightarrow> handle_claim_reward env ctx i skip' = Inl (Err RewardVaultFrozenSkipRequired))"
    using assms(1) u c unfolding pos_def
    by (auto simp: handle_claim_reward_def bindr_eq_Inr require_eq_Inr Let_def split: if_splits prod.splits)
  have i: "unat i < NUM_REWARDS" and "ri_is_initialized (campaign (cr_pool ctx) i)"
    and vault: "ta_key (cr_reward_vault ctx) = ri_vault (campaign (cr_pool ctx) i)"
    using v by (auto simp: claim_reward_validate_def bindr_eq_Inr require_eq_Inr index_campaign)
  note accrued = update_rewards_pending [OF u i this(2)]
  have "r = uri_reward_pendings (pending_reward pos1 i)" and "uri_reward_pendings (pending_reward pos' i) = 0"
    using c i by (auto simp: pos_claim_reward_def get_total_reward_def accumulate_total_claimed_rewards_def
        reset_all_pending_reward_def bindr_eq_Inr index_pending pending_reward_set)
  moreover have "same_claim pos pos'" unfolding pos_def by (rule claim_reward_step(2) [OF assms(1)])
  moreover have "unat r = due" using accrued \<open>r = _\<close> by (simp add: due_def)
  ultimately show ?thesis
    using accrued vault skip by (auto simp: trs word_pos unat_eq_0)
qed

definition sample_claim_reward_ctx :: claim_reward_ctx where
  "sample_claim_reward_ctx = \<lparr> cr_pool_authority = 1, cr_pool_key = 28, cr_pool = fd_pool sample_fund_ctx,
     cr_position = sample_position, cr_reward_vault = sample_account 52 13 1, cr_reward_mint = sample_mint 13,
     cr_user_token_account = sample_account 33 13 40, cr_position_nft_account = sample_account 80 60 40, cr_owner = 40 \<rparr>"

definition sample_frozen_claim_ctx :: claim_reward_ctx where
  "sample_frozen_claim_ctx = sample_claim_reward_ctx\<lparr> cr_reward_vault := (sample_account 52 13 1)\<lparr> ta_frozen := True \<rparr> \<rparr>"

lemmas sample_claim_defs =
  sample_frozen_claim_ctx_def sample_claim_reward_ctx_def sample_fund_ctx_def sample_reward_def campaign_def

lemma sample_reward_claims:
  "\<exists>p pos trs. handle_claim_reward sample_env sample_claim_reward_ctx 0 0 = Inr (p, pos, trs) \<and>
     unat (ri_reward_per_token_stored (campaign p 0)) = 100 * 2 ^ 92"
  "\<exists>p pos trs. handle_claim_reward sample_env sample_frozen_claim_ctx 0 1 = Inr (p, pos, trs) \<and>
     unat (ri_reward_per_token_stored (campaign p 0)) = 100 * 2 ^ 92"
  by (simp_all add: sample_eval sample_claim_defs reward_handlers_eval cong: bindr_weak_cong)

lemma claim_reward_pays_pending_once_witness:
  "(\<exists>p pos trs. handle_claim_reward sample_env sample_claim_reward_ctx 0 0 = Inr (p, pos, trs) \<and>
     paid_from 52 trs = 100 \<and> uri_reward_pendings (pending_reward pos 0) = 0) \<and>
   (\<exists>p pos. handle_claim_reward sample_env sample_frozen_claim_ctx 0 1 = Inr (p, pos, []) \<and>
     uri_reward_pendings (pending_reward pos 0) = 0) \<and>
   handle_claim_reward sample_env sample_frozen_claim_ctx 0 0 = Inl (Err RewardVaultFrozenSkipRequired)"
proof -
  obtain p pos trs where c: "handle_claim_reward sample_env sample_claim_reward_ctx 0 0 = Inr (p, pos, trs)"
      "unat (ri_reward_per_token_stored (campaign p 0)) = 100 * 2 ^ 92"
    using sample_reward_claims(1) by blast
  obtain q pos' trs' where f: "handle_claim_reward sample_env sample_frozen_claim_ctx 0 1 = Inr (q, pos', trs')"
      "unat (ri_reward_per_token_stored (campaign q 0)) = 100 * 2 ^ 92"
    using sample_reward_claims(2) by blast
  have args: "ri_vault (campaign (cr_pool sample_claim_reward_ctx) 0) = 52" "\<not> ta_frozen (cr_reward_vault sample_claim_reward_ctx)"
    "ta_frozen (cr_reward_vault sample_frozen_claim_ctx)" "cr_position sample_claim_reward_ctx = sample_position"
    "cr_position sample_frozen_claim_ctx = sample_position" "pos_liquidity sample_position = 2 ^ 100"
    "pending_reward sample_position 0 = default_user_reward_info"
    by (simp_all add: sample_claim_defs sample_account_def sample_position_def default_position_def
        pending_reward_def pos_liquidity_def)
  have "paid_from 52 trs = 100 \<and> uri_reward_pendings (pending_reward pos 0) = 0"
    using claim_reward_pays_pending_once [OF c(1)] c(2) by (simp add: args default_user_reward_info_def)
  moreover have "trs' = [] \<and> uri_reward_pendings (pending_reward pos' 0) = 0 \<and>
      handle_claim_reward sample_env sample_frozen_claim_ctx 0 0 = Inl (Err RewardVaultFrozenSkipRequired)"
    using claim_reward_pays_pending_once [OF f(1)] f(2) by (simp add: args default_user_reward_info_def)
  ultimately show ?thesis using c(1) f(1) by blast
qed

section \<open>What nobody earned\<close>

text \<open>Once a campaign is over, its funder (or an admin) takes back exactly what the seconds without liquidity
  would have paid, and once: the seconds are reset, and nothing else leaves the vault.\<close>

theorem undistributed_returns_to_funder:
  assumes "handle_withdraw_ineligible_reward env ctx i = Inr (p', trs)"
    and "pool_update_rewards (fd_pool ctx) (current_time env) = Inr p"
  defines "ri \<equiv> campaign p i"
  shows "ri_reward_duration_end (campaign (fd_pool ctx) i) < current_time env \<and>
    is_valid_funder (campaign (fd_pool ctx) i) (fd_funder ctx) \<and>
    sum_list (map (\<lambda>t. unat (tr_amount t)) trs) =
      unat (ri_cumulative_seconds_with_empty_liquidity_reward ri) * unat (ri_reward_rate ri) div 2 ^ 64 \<and>
    (\<forall>t\<in>set trs. tr_from t = ri_vault (campaign (fd_pool ctx) i)) \<and>
    campaign p' i = ri\<lparr> ri_cumulative_seconds_with_empty_liquidity_reward := 0 \<rparr>"
proof -
  obtain r where v: "withdraw_ineligible_validate env ctx (unat i) = Inr ()"
    and c: "claim_ineligible_reward p (unat i) = Inr (p', r)"
    and trs: "trs = (if 0 < r then [transfer_from_pool (fd_pool_authority ctx) (fd_reward_mint ctx) (fd_reward_vault ctx)
                     (fd_funder_token_account ctx) r] else [])"
    using assms(1,2) by (auto simp: handle_withdraw_ineligible_reward_def bindr_eq_Inr Let_def split: prod.splits)
  have i: "unat i < NUM_REWARDS" and vault: "ta_key (fd_reward_vault ctx) = ri_vault (campaign (fd_pool ctx) i)"
    and who: "is_valid_funder (campaign (fd_pool ctx) i) (fd_funder ctx)"
    and over: "ri_reward_duration_end (campaign (fd_pool ctx) i) < current_time env"
    using v by (auto simp: withdraw_ineligible_validate_def bindr_eq_Inr require_eq_Inr index_campaign)
  have "unat r = unat (ri_cumulative_seconds_with_empty_liquidity_reward ri) * unat (ri_reward_rate ri) div 2 ^ 64"
    and "campaign p' i = ri\<lparr> ri_cumulative_seconds_with_empty_liquidity_reward := 0 \<rparr>"
    using c i by (auto simp: claim_ineligible_reward_def bindr_eq_Inr index_campaign campaign_set ri_def
        safe_mul_shr_cast_eq_Inr REWARD_RATE_SCALE_def)
  then show ?thesis using vault who over by (auto simp: trs word_pos unat_eq_0)
qed

definition sample_idle_ctx :: reward_fund_ctx where
  "sample_idle_ctx = sample_fund_ctx\<lparr> fd_pool := (fd_pool sample_fund_ctx)\<lparr> pool_liquidity := 0, pool_reward_infos :=
     Array2 (sample_reward\<lparr> ri_reward_duration_end := 990 \<rparr>) default_reward_info \<rparr> \<rparr>"

lemma undistributed_returns_to_funder_witness:
  "\<exists>p trs. handle_withdraw_ineligible_reward sample_env sample_idle_ctx 0 = Inr (p, trs) \<and>
     sum_list (map (\<lambda>t. unat (tr_amount t)) trs) = 90 \<and> ri_vault (campaign (fd_pool sample_idle_ctx) 0) = 52"
proof -
  obtain p trs where w: "handle_withdraw_ineligible_reward sample_env sample_idle_ctx 0 = Inr (p, trs)"
    by (simp add: sample_eval sample_idle_ctx_def sample_fund_ctx_def sample_reward_def reward_handlers_eval
        cong: bindr_weak_cong)
  obtain q where q: "pool_update_rewards (fd_pool sample_idle_ctx) (current_time sample_env) = Inr q"
      "ri_reward_rate (campaign q 0) = 2 ^ 64" "ri_cumulative_seconds_with_empty_liquidity_reward (campaign q 0) = 90"
    by (simp add: sample_eval sample_idle_ctx_def sample_fund_ctx_def sample_reward_def campaign_def reward_handlers_eval
        cong: bindr_weak_cong)
  have "ri_vault (campaign (fd_pool sample_idle_ctx) 0) = 52"
    by (simp add: sample_idle_ctx_def sample_reward_def campaign_def)
  then show ?thesis using undistributed_returns_to_funder [OF w q(1)] w q(2,3) by auto
qed

end
