(* ===== verification/LendingWorld.thy ===== *)
theory LendingWorld
  imports PoolSteps Lending
begin

text \<open>
  The lending program and the AMM together: a lending pool with its shorts, the pool it trades
  on in its surroundings, and one ledger of token accounts. Every run of the two is a run of the
  AMM alone (the calls it gets are swaps, the rest happens elsewhere) and a run of the lending
  program alone, so what is proved of either holds of both. The tokens that were lent out
  come back.
\<close>

section \<open>The world of both programs\<close>

text \<open>
  \<open>lch_key\<close> is the address of the lending pool, \<open>lch_pda\<close> derives the addresses of its program and
  \<open>lch_close\<close> is \<open>close_account\<close> of the token program.
\<close>

record lending_chain =
  lch_chain :: chain
  lch_pda :: "string \<Rightarrow> pubkey list \<Rightarrow> pubkey"
  lch_key :: pubkey
  lch_close :: "account_closing \<Rightarrow> ledger \<Rightarrow> ledger option"

definition lending_vault_a :: "lending_chain \<Rightarrow> pubkey" where
  "lending_vault_a L = lch_pda L ''token_a_vault'' [lch_key L]"

text \<open>
  What is relied on: the token program; the vault of the lent tokens is owned by the lending pool,
  for which only its program signs; and addresses derived from different seeds differ, as far
  as the program needs it.
\<close>

definition lending_chain_ok :: "lending_chain \<Rightarrow> bool" where
  "lending_chain_ok L \<longleftrightarrow> token_program_ok (lch_chain L) \<and>
     (\<forall>c b b'. lch_close L c b = Some b' \<longrightarrow>
        cl_authority c = ch_owner (lch_chain L) (cl_account c) \<and> b' = b(cl_account c := None)) \<and>
     ch_owner (lch_chain L) (lending_vault_a L) = lch_key L \<and> lch_key L \<noteq> ch_pool_authority (lch_chain L) \<and>
     lch_pda L ''token_b_vault'' [lch_key L] \<noteq> lending_vault_a L \<and>
     (\<forall>k. lch_pda L ''temp_token_a'' [k] \<noteq> lending_vault_a L)"

record market =
  mk_lending :: lending_world
  mk_amm :: world

text \<open>What an instruction of the lending program finds: both pools as they are, and users who sign for themselves.\<close>

definition lending_call :: "lending_chain \<Rightarrow> lending_environment \<Rightarrow> (pubkey \<Rightarrow> mint_account) \<Rightarrow> lending_ctx \<Rightarrow> market \<Rightarrow> bool" where
  "lending_call L le mints ctx m \<longleftrightarrow> le_pda le = lch_pda L \<and>
     env_pool_authority (le_amm le) = ch_pool_authority (lch_chain L) \<and>
     lx_lending_pool_key ctx = lch_key L \<and> lx_lending_pool ctx = lw_pool (mk_lending m) \<and>
     lx_amm_pool ctx = w_pool (mk_amm m) \<and>
     lx_user ctx \<noteq> lch_key L \<and> lx_user ctx \<noteq> ch_pool_authority (lch_chain L) \<and>
     sees mints (lx_token_a_mint ctx) \<and> sees mints (lx_token_b_mint ctx)"

text \<open>
  One instruction: its transfers run in order on the ledger, the one that opens a short after the
  temporary account has been created for the lending pool, the others before it is closed.
  \<open>amm\<close> is a step of anyone else, who cannot sign for the lending pool.
\<close>

inductive market_step :: "lending_chain \<Rightarrow> market \<Rightarrow> market \<Rightarrow> bool" for L where
  open_short: "lending_call L le mints ctx m \<Longrightarrow>
     (w_tokens (mk_amm m) (ta_key (lx_temp_token_a_account ctx)) \<noteq> None \<longrightarrow> lx_temp_exists ctx) \<Longrightarrow>
     handle_open_short le ctx params = Inr (lp, sh, p, ts) \<Longrightarrow>
     ch_owner (lch_chain L) (ta_key (lx_temp_token_a_account ctx)) = lch_key L \<Longrightarrow>
     run_transfers (lch_chain L) mints ts ((w_tokens (mk_amm m))(ta_key (lx_temp_token_a_account ctx) \<mapsto> 0)) = Some b \<Longrightarrow>
     market_step L m \<lparr> mk_lending = \<lparr> lw_pool = lp, lw_positions = lw_positions (mk_lending m) @ [sh] \<rparr>,
       mk_amm = (mk_amm m)\<lparr> w_pool := p, w_tokens := b \<rparr> \<rparr>"
| close_short: "lending_call L le mints ctx m \<Longrightarrow> i < length (lw_positions (mk_lending m)) \<Longrightarrow>
     lx_short_position ctx = Some (lw_positions (mk_lending m) ! i) \<Longrightarrow>
     handle_close_short le ctx max_sol_in = Inr (lp, sh, p, ts, cl) \<Longrightarrow>
     run_transfers (lch_chain L) mints ts (w_tokens (mk_amm m)) = Some b \<Longrightarrow> lch_close L cl b = Some b' \<Longrightarrow>
     market_step L m \<lparr> mk_lending = \<lparr> lw_pool = lp, lw_positions = (lw_positions (mk_lending m))[i := sh] \<rparr>,
       mk_amm = (mk_amm m)\<lparr> w_pool := p, w_tokens := b' \<rparr> \<rparr>"
| liquidate: "lending_call L le mints ctx m \<Longrightarrow> i < length (lw_positions (mk_lending m)) \<Longrightarrow>
     lx_short_position ctx = Some (lw_positions (mk_lending m) ! i) \<Longrightarrow>
     handle_liquidate le ctx max_sol_in = Inr (lp, sh, p, ts, cl) \<Longrightarrow>
     run_transfers (lch_chain L) mints ts (w_tokens (mk_amm m)) = Some b \<Longrightarrow> lch_close L cl b = Some b' \<Longrightarrow>
     market_step L m \<lparr> mk_lending = \<lparr> lw_pool = lp, lw_positions = (lw_positions (mk_lending m))[i := sh] \<rparr>,
       mk_amm = (mk_amm m)\<lparr> w_pool := p, w_tokens := b' \<rparr> \<rparr>"
| amm: "pool_step (lch_chain L) (mk_amm m) w \<Longrightarrow>
     keeps_accounts (lch_chain L) (lch_key L) (w_tokens (mk_amm m)) (w_tokens w) \<Longrightarrow>
     market_step L m (m\<lparr> mk_amm := w \<rparr>)"

inductive market_start :: "lending_chain \<Rightarrow> market \<Rightarrow> bool" for L where
  initialize: "handle_initialize_lending_pool le ctx ratio threshold fee = Inr lp \<Longrightarrow>
     le_pda le = lch_pda L \<Longrightarrow> il_lending_pool_key ctx = lch_key L \<Longrightarrow> pool_reachable (lch_chain L) w \<Longrightarrow>
     market_start L \<lparr> mk_lending = \<lparr> lw_pool = lp, lw_positions = [] \<rparr>, mk_amm = w \<rparr>"

section \<open>What the instructions ask the AMM and the token program\<close>

lemma amm_swap_eq_Inr:
  "amm_swap le ctx i out x m = Inr r \<longleftrightarrow>
     handle_swap (le_amm le) (amm_swap_ctx ctx i out) \<lparr> sp_amount_in = x, sp_minimum_amount_out = m \<rparr> = Inr r"
  by (auto simp: amm_swap_def split: sum.splits)

lemma check_classic_eq_Inr:
  "check_classic ctx = Inr u \<longleftrightarrow> lx_token_program ctx = TOKEN_PROGRAM_ID \<and>
     mint_program (lx_token_a_mint ctx) = TOKEN_PROGRAM_ID \<and> mint_program (lx_token_b_mint ctx) = TOKEN_PROGRAM_ID"
  by (auto simp: check_classic_def bindr_eq_Inr require_eq_Inr)

lemma received_classic: "mint_program m = TOKEN_PROGRAM_ID \<Longrightarrow> received m x = Some (unat x)"
  by (simp add: received_def get_epoch_transfer_fee_def)

lemma token_transfer_fields [simp]:
  "tr_from (token_transfer a m x y n) = ta_key x" "tr_to (token_transfer a m x y n) = ta_key y"
  "tr_authority (token_transfer a m x y n) = a" "tr_mint (token_transfer a m x y n) = mint_key m"
  "tr_amount (token_transfer a m x y n) = n"
  by (simp_all add: token_transfer_def)

lemma run_transfers_append:
  "run_transfers ch mints (ts @ us) b = Option.bind (run_transfers ch mints ts b) (run_transfers ch mints us)"
  by (induction ts arbitrary: b) (simp_all split: bind_splits)

text \<open>The two transfers of a swap for the lending pool; what arrives is at least what was asked for.\<close>

lemma lending_swap:
  assumes "amm_swap le ctx i out x least = Inr (p, sr, ts)" and "check_classic ctx = Inr ()"
  obtains mi mo vi vo where "ts = [transfer_from_user (lx_lending_pool_key ctx) mi i vi x,
      transfer_from_pool (env_pool_authority (le_amm le)) mo vo out (sr_output_amount sr)]"
    and "mo = lx_token_a_mint ctx \<or> mo = lx_token_b_mint ctx" and "least \<le> sr_output_amount sr"
proof -
  let ?sc = "amm_swap_ctx ctx i out" and ?params = "\<lparr> sp_amount_in = x, sp_minimum_amount_out = least \<rparr>"
  have h: "handle_swap (le_amm le) ?sc ?params = Inr (p, sr, ts)" using assms(1) by (simp add: amm_swap_eq_Inr)
  obtain excluded_out where auth: "swap_constraints (le_amm le) ?sc = Inr ()"
    and out: "calculate_transfer_fee_excluded_amount (mint_out ?sc) (sr_output_amount sr) = Inr excluded_out"
      "least \<le> tfa_amount excluded_out"
    by (rule handle_swap_frame [OF h]) simp
  have mo: "mint_out ?sc = lx_token_a_mint ctx \<or> mint_out ?sc = lx_token_b_mint ctx"
    by (simp add: mint_out_def amm_swap_ctx_def split: trade_direction.splits)
  then have "mint_program (mint_out ?sc) = TOKEN_PROGRAM_ID" using assms(2) by (auto simp: check_classic_eq_Inr)
  then have "tfa_amount excluded_out = sr_output_amount sr"
    using excluded_amount_received(1) [OF out(1)] by (simp add: received_classic word_eq_unat)
  then have least: "least \<le> sr_output_amount sr" using out(2) by simp
  have "sc_pool_authority ?sc = env_pool_authority (le_amm le)" "sc_payer ?sc = lx_lending_pool_key ctx"
    "sc_input_token_account ?sc = i" "sc_output_token_account ?sc = out" "sc_referral_token_account ?sc = None"
    using auth by (auto simp: swap_constraints_def amm_swap_ctx_def bindr_eq_Inr require_eq_Inr)
  then have "\<exists>mi vi vo. ts = [transfer_from_user (lx_lending_pool_key ctx) mi i vi x,
      transfer_from_pool (env_pool_authority (le_amm le)) (mint_out ?sc) vo out (sr_output_amount sr)]"
    using h by (cases "get_trade_direction ?sc") (auto simp: handle_swap_def mint_out_def bindr_eq_Inr Let_def)
  then show thesis using that mo least by blast
qed

lemma open_short_calls:
  assumes "handle_open_short le ctx params = Inr (lp, sh, p, ts)"
  obtains sr sts where "check_classic ctx = Inr ()" and "check_lending_vaults le ctx = Inr ()" and "\<not> lx_temp_exists ctx"
    and "ta_key (lx_temp_token_a_account ctx) = le_pda le ''temp_token_a'' [lx_short_position_key ctx]"
    and "amm_swap le ctx (lx_temp_token_a_account ctx) (lx_token_b_vault ctx) (os_borrow_amount params)
           (os_minimum_sol_out params) = Inr (p, sr, sts)"
    and "ts = [token_transfer (lx_user ctx) (lx_token_b_mint ctx) (lx_user_token_b_account ctx) (lx_token_b_vault ctx)
                 (os_collateral_amount params),
               token_transfer (lx_lending_pool_key ctx) (lx_token_a_mint ctx) (lx_token_a_vault ctx)
                 (lx_temp_token_a_account ctx) (os_borrow_amount params)] @ sts"
  using assms by (auto simp: handle_open_short_def bindr_eq_Inr ok_or_eq_Inr require_eq_Inr Let_def)

lemma buy_back_calls:
  assumes "buy_back le ctx borrowed max_sol_in = Inr (p, ts)"
  obtains sr sts amount where "amm_swap le ctx (lx_token_b_vault ctx) (lx_temp_token_a_account ctx) max_sol_in borrowed = Inr (p, sr, sts)"
    and "unat amount = unat (ta_amount (lx_temp_token_a_account ctx)) + unat (sr_output_amount sr)"
    and "ts = sts @ [token_transfer (lx_lending_pool_key ctx) (lx_token_a_mint ctx) (lx_temp_token_a_account ctx)
                       (lx_token_a_vault ctx) amount]"
  using assms by (auto simp: buy_back_def bindr_eq_Inr ok_or_eq_Inr checked_add_eq_Some)

text \<open>Closing and liquidating: buying back, one payment out of the vault of the other token, and the closing.\<close>

definition settles_short :: "lending_environment \<Rightarrow> lending_ctx \<Rightarrow> short_position \<Rightarrow> u64 \<Rightarrow> pool \<Rightarrow> transfer list \<Rightarrow> account_closing \<Rightarrow> bool" where
  "settles_short le ctx sh max_sol_in p ts cl \<longleftrightarrow> check_classic ctx = Inr () \<and> check_lending_vaults le ctx = Inr () \<and>
     check_temp_account le ctx = Inr () \<and> cl_authority cl = lx_lending_pool_key ctx \<and>
     cl_account cl = ta_key (lx_temp_token_a_account ctx) \<and>
     (\<exists>ts1 amount. buy_back le ctx (sh_borrowed_amount sh) max_sol_in = Inr (p, ts1) \<and>
        ts = ts1 @ [token_transfer (lx_lending_pool_key ctx) (lx_token_b_mint ctx) (lx_token_b_vault ctx)
                      (lx_user_token_b_account ctx) amount])"

lemma close_short_settles:
  assumes "handle_close_short le ctx max_sol_in = Inr (lp, sh', p, ts, cl)" and "lx_short_position ctx = Some sh"
  shows "settles_short le ctx sh max_sol_in p ts cl"
  using assms
  by (auto simp: handle_close_short_def settles_short_def close_temp_account_def bindr_eq_Inr ok_or_eq_Inr require_eq_Inr)

lemma liquidate_settles:
  assumes "handle_liquidate le ctx max_sol_in = Inr (lp, sh', p, ts, cl)" and "lx_short_position ctx = Some sh"
  shows "settles_short le ctx sh max_sol_in p ts cl"
  using assms
  by (auto simp: handle_liquidate_def settles_short_def close_temp_account_def bindr_eq_Inr ok_or_eq_Inr require_eq_Inr Let_def)

section \<open>A run of both is a run of the AMM\<close>

lemma lending_chain_okD:
  assumes "lending_chain_ok L"
  shows "token_program_ok (lch_chain L)" and "lch_key L \<noteq> ch_pool_authority (lch_chain L)"
    and "ch_owner (lch_chain L) (lending_vault_a L) = lch_key L"
    and "lch_pda L ''token_b_vault'' [lch_key L] \<noteq> lending_vault_a L" and "lch_pda L ''temp_token_a'' [k] \<noteq> lending_vault_a L"
    and "lch_close L c b = Some b' \<Longrightarrow> cl_authority c = ch_owner (lch_chain L) (cl_account c)"
    and "lch_close L c b = Some b' \<Longrightarrow> b' = b(cl_account c := None)"
  using assms unfolding lending_chain_ok_def by blast+

text \<open>The swap of a lending instruction is a step of the pool; what comes before and after it happens elsewhere.\<close>

lemma lending_swap_step:
  assumes "lending_chain_ok L" and "lending_call L le mints ctx m" and "amm_swap le ctx i out x least = Inr (p, sr, sts)"
    and "run_transfers (lch_chain L) mints sts (w_tokens w) = Some b" and "w_pool w = w_pool (mk_amm m)"
  shows "pool_step (lch_chain L) w (w\<lparr> w_pool := p, w_tokens := b \<rparr>)"
proof (rule pool_step.swap)
  let ?sc = "amm_swap_ctx ctx i out"
  show "handle_swap (le_amm le) ?sc \<lparr> sp_amount_in = x, sp_minimum_amount_out = least \<rparr> = Inr (p, sr, sts)"
    using assms(3) by (simp add: amm_swap_eq_Inr)
  show "sees mints (mint_in ?sc)"
    using assms(2) by (simp add: lending_call_def mint_in_def amm_swap_ctx_def split: trade_direction.splits)
qed (use assms(2,4,5) lending_chain_okD(2) [OF assms(1)] in \<open>simp_all add: lending_call_def amm_swap_ctx_def\<close>)

lemma pool_step_elsewhere:
  assumes "keeps_accounts ch (ch_pool_authority ch) b b'"
  shows "(pool_step ch)\<^sup>*\<^sup>* (w\<lparr> w_tokens := b \<rparr>) (w\<lparr> w_tokens := b' \<rparr>)"
  using pool_step.elsewhere [of ch "w\<lparr> w_tokens := b \<rparr>" b'] assms by auto

lemma open_short_amm:
  assumes "lending_chain_ok L" and "lending_call L le mints ctx m"
    and "handle_open_short le ctx params = Inr (lp, sh, p, ts)"
    and "ch_owner (lch_chain L) (ta_key (lx_temp_token_a_account ctx)) = lch_key L"
    and "run_transfers (lch_chain L) mints ts ((w_tokens (mk_amm m))(ta_key (lx_temp_token_a_account ctx) \<mapsto> 0)) = Some b"
  shows "(pool_step (lch_chain L))\<^sup>*\<^sup>* (mk_amm m) ((mk_amm m)\<lparr> w_pool := p, w_tokens := b \<rparr>)"
proof -
  let ?ch = "lch_chain L" and ?w = "mk_amm m"
  let ?b0 = "(w_tokens ?w)(ta_key (lx_temp_token_a_account ctx) \<mapsto> 0)"
  note ok = lending_chain_okD [OF assms(1)]
  obtain sr sts where swap: "amm_swap le ctx (lx_temp_token_a_account ctx) (lx_token_b_vault ctx) (os_borrow_amount params)
      (os_minimum_sol_out params) = Inr (p, sr, sts)"
    and ts: "ts = [token_transfer (lx_user ctx) (lx_token_b_mint ctx) (lx_user_token_b_account ctx) (lx_token_b_vault ctx)
                 (os_collateral_amount params),
               token_transfer (lx_lending_pool_key ctx) (lx_token_a_mint ctx) (lx_token_a_vault ctx)
                 (lx_temp_token_a_account ctx) (os_borrow_amount params)] @ sts" (is "ts = ?pre @ sts")
    by (rule open_short_calls [OF assms(3)])
  obtain b1 where b1: "run_transfers ?ch mints ?pre ?b0 = Some b1" "run_transfers ?ch mints sts b1 = Some b"
    using assms(5) unfolding ts run_transfers_append by (auto simp: Option_bind_eq_Some)
  have "\<forall>t \<in> set ?pre. tr_authority t \<noteq> ch_pool_authority ?ch" using assms(2) ok(2) by (simp add: lending_call_def)
  then have "keeps_accounts ?ch (ch_pool_authority ?ch) ?b0 b1" by (rule run_keeps_accounts [OF ok(1) b1(1)])
  moreover have "keeps_accounts ?ch (ch_pool_authority ?ch) (w_tokens ?w) ?b0"
    using assms(4) ok(2) by (auto simp: keeps_accounts_def balance_def)
  ultimately have "(pool_step ?ch)\<^sup>*\<^sup>* ?w (?w\<lparr> w_tokens := b1 \<rparr>)"
    using pool_step_elsewhere [of ?ch "w_tokens ?w" b1 ?w] keeps_accounts_trans by simp
  moreover have "pool_step ?ch (?w\<lparr> w_tokens := b1 \<rparr>) (?w\<lparr> w_tokens := b1 \<rparr>\<lparr> w_pool := p, w_tokens := b \<rparr>)"
    by (rule lending_swap_step [OF assms(1,2) swap]) (simp_all add: b1(2))
  ultimately show ?thesis by (simp add: rtranclp.rtrancl_into_rtrancl)
qed

lemma settle_amm:
  assumes "lending_chain_ok L" and "lending_call L le mints ctx m" and "settles_short le ctx sh x p ts cl"
    and "run_transfers (lch_chain L) mints ts (w_tokens (mk_amm m)) = Some b" and "lch_close L cl b = Some b'"
  shows "(pool_step (lch_chain L))\<^sup>*\<^sup>* (mk_amm m) ((mk_amm m)\<lparr> w_pool := p, w_tokens := b' \<rparr>)"
proof -
  let ?ch = "lch_chain L" and ?w = "mk_amm m"
  note ok = lending_chain_okD [OF assms(1)]
  obtain sr sts us where swap: "amm_swap le ctx (lx_token_b_vault ctx) (lx_temp_token_a_account ctx) x (sh_borrowed_amount sh) = Inr (p, sr, sts)"
    and ts: "ts = sts @ us" and us: "\<forall>t \<in> set us. tr_authority t = lx_lending_pool_key ctx"
    using assms(3) unfolding settles_short_def by (auto elim!: buy_back_calls)
  obtain b1 where b1: "run_transfers ?ch mints sts (w_tokens ?w) = Some b1" "run_transfers ?ch mints us b1 = Some b"
    using assms(4) unfolding ts run_transfers_append by (auto simp: Option_bind_eq_Some)
  have "pool_step ?ch ?w (?w\<lparr> w_pool := p, w_tokens := b1 \<rparr>)"
    by (rule lending_swap_step [OF assms(1,2) swap b1(1)]) simp
  moreover have "\<forall>t \<in> set us. tr_authority t \<noteq> ch_pool_authority ?ch" using us assms(2) ok(2) by (simp add: lending_call_def)
  then have "keeps_accounts ?ch (ch_pool_authority ?ch) b1 b" by (rule run_keeps_accounts [OF ok(1) b1(2)])
  moreover have "cl_authority cl = lch_key L" using assms(2,3) by (simp add: settles_short_def lending_call_def)
  then have "ch_owner ?ch (cl_account cl) = lch_key L" "b' = b(cl_account cl := None)"
    using ok(6,7) [OF assms(5)] by simp_all
  then have "keeps_accounts ?ch (ch_pool_authority ?ch) b b'" using ok(2) by (auto simp: keeps_accounts_def balance_def)
  ultimately show ?thesis
    using pool_step_elsewhere [of ?ch b1 b' "?w\<lparr> w_pool := p \<rparr>"] keeps_accounts_trans
    by (simp add: converse_rtranclp_into_rtranclp)
qed

lemma market_step_amm:
  assumes "market_step L m m'" and "lending_chain_ok L"
  shows "(pool_step (lch_chain L))\<^sup>*\<^sup>* (mk_amm m) (mk_amm m')"
  using assms(1)
proof cases
  case open_short
  then show ?thesis using open_short_amm [OF assms(2)] by simp
next
  case close_short
  then show ?thesis using settle_amm [OF assms(2) _ close_short_settles] by simp
next
  case liquidate
  then show ?thesis using settle_amm [OF assms(2) _ liquidate_settles] by simp
next
  case amm
  then show ?thesis by simp
qed

interpretation on_the_amm: simulation "lending_chain_ok L" "market_start L" "market_step L"
    "pool_start (lch_chain L)" "pool_step (lch_chain L)" mk_amm for L
  by unfold_locales (auto elim: market_start.cases simp: market_step_amm)

section \<open>A run of both is a run of the lending program\<close>

lemma market_step_lending:
  assumes "market_step L m m'"
  shows "lending_step\<^sup>*\<^sup>* (mk_lending m) (mk_lending m')"
  using assms
proof cases
  case (open_short le mints ctx lp sh p ts b)
  then show ?thesis using lending_step.open_short [of ctx "mk_lending m"] by (auto simp: lending_call_def)
next
  case (close_short le mints ctx i max_sol_in lp sh p ts cl b b')
  then show ?thesis using lending_step.close_short [of ctx "mk_lending m" i] by (auto simp: lending_call_def)
next
  case (liquidate le mints ctx i max_sol_in lp sh p ts cl b b')
  then show ?thesis using lending_step.liquidate [of ctx "mk_lending m" i] by (auto simp: lending_call_def)
next
  case amm
  then show ?thesis by simp
qed

lemma market_start_lending:
  assumes "market_start L m"
  shows "lending_reachable (mk_lending m)"
  using assms
proof cases
  case (initialize le ctx ratio threshold fee lp w)
  show ?thesis unfolding initialize(1) market.simps
    by (rule reachable.init [of lending_start, OF lending_start.initialize [OF initialize(2)]])
qed

interpretation on_the_lending_pool: simulation True "market_start L" "market_step L" lending_start lending_step mk_lending for L
  by unfold_locales (rule market_start_lending, assumption, rule market_step_lending)

section \<open>What was lent out comes back\<close>

text \<open>What the lenders have: the tokens in the vault and what the open shorts owe.\<close>

definition lenders_assets :: "lending_chain \<Rightarrow> market \<Rightarrow> nat" where
  "lenders_assets L m = balance (w_tokens (mk_amm m)) (lending_vault_a L) + open_debt (lw_positions (mk_lending m))"

lemma lending_vault_keys:
  assumes "lending_chain_ok L" and "lending_call L le mints ctx m" and "check_lending_vaults le ctx = Inr ()"
  shows "ta_key (lx_token_a_vault ctx) = lending_vault_a L" and "ta_key (lx_token_b_vault ctx) \<noteq> lending_vault_a L"
  using assms(2,3) lending_chain_okD(4) [OF assms(1)]
  by (auto simp: lending_call_def check_lending_vaults_def lending_vault_a_def bindr_eq_Inr require_eq_Inr)

text \<open>Only transfers that the lending pool signs take from its vault.\<close>

lemma not_from_vault:
  assumes "lending_chain_ok L" and "run_transfers (lch_chain L) mints ts b = Some b'" and "t \<in> set ts"
    and "tr_authority t \<noteq> lch_key L"
  shows "tr_from t \<noteq> lending_vault_a L"
  using run_balance(2) [OF lending_chain_okD(1) [OF assms(1)] assms(2,3)] lending_chain_okD(3) [OF assms(1)] assms(4) by auto

lemma open_short_principal:
  assumes "lending_chain_ok L" and "lending_call L le mints ctx m"
    and "handle_open_short le ctx params = Inr (lp, sh, p, ts)"
    and "run_transfers (lch_chain L) mints ts (tokens(ta_key (lx_temp_token_a_account ctx) \<mapsto> 0)) = Some b"
  shows "balance tokens (lending_vault_a L) \<le> balance b (lending_vault_a L) + unat (os_borrow_amount params)"
proof -
  let ?va = "lending_vault_a L"
  note ok = lending_chain_okD [OF assms(1)] and from_others = not_from_vault [OF assms(1,4)]
  obtain sr sts where classic: "check_classic ctx = Inr ()" and vaults: "check_lending_vaults le ctx = Inr ()"
    and temp: "ta_key (lx_temp_token_a_account ctx) = le_pda le ''temp_token_a'' [lx_short_position_key ctx]"
    and swap: "amm_swap le ctx (lx_temp_token_a_account ctx) (lx_token_b_vault ctx) (os_borrow_amount params)
      (os_minimum_sol_out params) = Inr (p, sr, sts)"
    and ts: "ts = [token_transfer (lx_user ctx) (lx_token_b_mint ctx) (lx_user_token_b_account ctx) (lx_token_b_vault ctx)
                 (os_collateral_amount params),
               token_transfer (lx_lending_pool_key ctx) (lx_token_a_mint ctx) (lx_token_a_vault ctx)
                 (lx_temp_token_a_account ctx) (os_borrow_amount params)] @ sts"
    by (rule open_short_calls [OF assms(3)])
  obtain mi mo vi vo where sts: "sts = [transfer_from_user (lx_lending_pool_key ctx) mi (lx_temp_token_a_account ctx) vi (os_borrow_amount params),
      transfer_from_pool (env_pool_authority (le_amm le)) mo vo (lx_token_b_vault ctx) (sr_output_amount sr)]"
    by (rule lending_swap [OF swap classic])
  have tva: "ta_key (lx_temp_token_a_account ctx) \<noteq> ?va" using temp ok(5) assms(2) by (simp add: lending_call_def)
  moreover have "ta_key (lx_user_token_b_account ctx) \<noteq> ?va" "ta_key vo \<noteq> ?va"
    using from_others [of "ts ! 0"] from_others [of "ts ! 3"] assms(2) ok(2) by (auto simp: ts sts lending_call_def)
  ultimately have "paid_from ?va ts = unat (os_borrow_amount params)"
    using lending_vault_keys(1) [OF assms(1,2) vaults] by (simp add: ts sts)
  then show ?thesis using run_balance(1) [OF ok(1) assms(4), of ?va] tva by (simp add: balance_def)
qed

lemma settle_principal:
  assumes "lending_chain_ok L" and "lending_call L le mints ctx m" and "settles_short le ctx sh x p ts cl"
    and "run_transfers (lch_chain L) mints ts tokens = Some b" and "lch_close L cl b = Some b'"
  shows "balance tokens (lending_vault_a L) + unat (sh_borrowed_amount sh) \<le> balance b' (lending_vault_a L)"
proof -
  let ?va = "lending_vault_a L"
  note ok = lending_chain_okD [OF assms(1)] and from_others = not_from_vault [OF assms(1,4)]
  obtain sr sts amount out where classic: "check_classic ctx = Inr ()" and vaults: "check_lending_vaults le ctx = Inr ()"
    and temp: "check_temp_account le ctx = Inr ()" and cl: "cl_account cl = ta_key (lx_temp_token_a_account ctx)"
    and swap: "amm_swap le ctx (lx_token_b_vault ctx) (lx_temp_token_a_account ctx) x (sh_borrowed_amount sh) = Inr (p, sr, sts)"
    and amount: "unat amount = unat (ta_amount (lx_temp_token_a_account ctx)) + unat (sr_output_amount sr)"
    and ts: "ts = sts @ [token_transfer (lx_lending_pool_key ctx) (lx_token_a_mint ctx) (lx_temp_token_a_account ctx)
                           (lx_token_a_vault ctx) amount,
                         token_transfer (lx_lending_pool_key ctx) (lx_token_b_mint ctx) (lx_token_b_vault ctx)
                           (lx_user_token_b_account ctx) out]"
    using assms(3) unfolding settles_short_def by (auto elim!: buy_back_calls)
  obtain mi mo vi vo where sts: "sts = [transfer_from_user (lx_lending_pool_key ctx) mi (lx_token_b_vault ctx) vi x,
      transfer_from_pool (env_pool_authority (le_amm le)) mo vo (lx_temp_token_a_account ctx) (sr_output_amount sr)]"
    and enough: "sh_borrowed_amount sh \<le> sr_output_amount sr"
    by (rule lending_swap [OF swap classic])
  have tva: "ta_key (lx_temp_token_a_account ctx) \<noteq> ?va"
    using temp ok(5) assms(2) by (simp add: check_temp_account_def lending_call_def require_eq_Inr)
  have "ta_key vo \<noteq> ?va" using from_others [of "ts ! 1"] assms(2) ok(2) by (simp add: ts sts lending_call_def)
  then have paid: "paid_from ?va ts = 0"
    using tva lending_vault_keys(2) [OF assms(1,2) vaults] by (simp add: ts sts)
  have "received (mints (mint_key (lx_token_a_mint ctx))) amount = Some (unat amount)"
    using assms(2) classic by (simp add: lending_call_def sees_def check_classic_eq_Inr received_classic)
  then have "unat amount \<le> credited mints ?va ts"
    using tva lending_vault_keys [OF assms(1,2) vaults] by (simp add: ts sts)
  moreover have "unat (sh_borrowed_amount sh) \<le> unat amount" using amount enough by (simp add: word_le_nat_alt)
  moreover have "balance b' ?va = balance b ?va" using ok(7) [OF assms(5)] cl tva by (simp add: balance_def)
  ultimately show ?thesis using run_balance(1) [OF ok(1) assms(4), of ?va] paid by simp
qed

lemma settled_debt:
  assumes "i < length shs" and "settle_position lp0 (shs ! i) status = Inr (lp, sh')" and "sh_status (shs ! i) = 0" and "status \<noteq> 0"
  shows "open_debt shs = open_debt (shs[i := sh']) + unat (sh_borrowed_amount (shs ! i))"
  using settled_sums(2) [OF assms(1,3,4), of sh'] assms(2) by (simp add: settle_position_eq_Inr)

lemma market_step_principal:
  assumes "market_step L m m'" and "lending_chain_ok L"
  shows "lenders_assets L m \<le> lenders_assets L m'"
  using assms(1)
proof cases
  case (open_short le mints ctx params lp sh p ts b)
  have "open_debt (lw_positions (mk_lending m) @ [sh]) = open_debt (lw_positions (mk_lending m)) + unat (os_borrow_amount params)"
    using open_short_frame(4,5) [OF open_short(4)] by (simp add: open_debt_def)
  then show ?thesis
    using open_short_principal [OF assms(2) open_short(2,4,6)] by (simp add: open_short(1) lenders_assets_def)
next
  case (close_short le mints ctx i max_sol_in lp sh p ts cl b b')
  obtain "sh_status (lw_positions (mk_lending m) ! i) = 0"
    and "settle_position (lx_lending_pool ctx) (lw_positions (mk_lending m) ! i) 1 = Inr (lp, sh)"
    by (rule close_short_frame [OF close_short(5)]) (use close_short(4) in auto)
  then show ?thesis
    using settled_debt [OF close_short(3)]
      settle_principal [OF assms(2) close_short(2) close_short_settles [OF close_short(5,4)] close_short(6,7)]
    by (simp add: close_short(1) lenders_assets_def)
next
  case (liquidate le mints ctx i max_sol_in lp sh p ts cl b b')
  obtain "sh_status (lw_positions (mk_lending m) ! i) = 0"
    and "settle_position (lx_lending_pool ctx) (lw_positions (mk_lending m) ! i) 2 = Inr (lp, sh)"
    by (rule liquidate_frame [OF liquidate(5)]) (use liquidate(4) in auto)
  then show ?thesis
    using settled_debt [OF liquidate(3)]
      settle_principal [OF assms(2) liquidate(2) liquidate_settles [OF liquidate(5,4)] liquidate(6,7)]
    by (simp add: liquidate(1) lenders_assets_def)
next
  case (amm w)
  then show ?thesis
    using keeps_accountsD(1) [OF amm(3) lending_chain_okD(3) [OF assms(2)]] by (simp add: lenders_assets_def)
qed

interpretation lenders: step_order "market_step L" "\<lambda>m m'. lending_chain_ok L \<longrightarrow> lenders_assets L m \<le> lenders_assets L m'" for L
  by unfold_locales (auto dest: market_step_principal)

end
