(* ===== verification/LendingProperties.thy ===== *)
theory LendingProperties
  imports Samples LendingWorld
begin

text \<open>
  The lending program: its books over every sequence of instructions, the life of one short
  position on a pool of the AMM, and what the ratio that lets it be liquidated says of its worth.
\<close>

section \<open>Concrete accounts\<close>

definition sample_lending_env :: lending_environment where
  "sample_lending_env = \<lparr> le_amm = sample_env,
     le_pda = (\<lambda>s ks. if s = ''temp_token_a'' then 38068
               else (if s = ''token_b_vault'' then 7 else 0) + 1000 * of_nat (length s) + sum_list ks) \<rparr>"

text \<open>The lending pool is at 12028, its vaults are 25028 and 25035, the short at 26068, its temporary account at 38068.\<close>

definition sample_lending_pool :: lending_pool where
  "sample_lending_pool = lending_pool_initialize default_lending_pool 40 28 11 12 25028 25035 15000 12000 100 255"

definition sample_short :: short_position where
  "sample_short = \<lparr> sh_lending_pool = 12028, sh_owner = 40, sh_collateral_amount = 49500, sh_borrowed_amount = 100000,
     sh_sol_from_swap = 90000, sh_entry_sqrt_price = 2 ^ 64, sh_opened_at = 1000, sh_bump = 254, sh_status = 0 \<rparr>"

definition sample_lending_ctx :: "lending_pool \<Rightarrow> short_position option \<Rightarrow> pool \<Rightarrow> lending_ctx" where
  "sample_lending_ctx lp sh p = \<lparr> lx_lending_pool_key = 12028, lx_lending_pool = lp, lx_user = 40, lx_payer = 40,
     lx_short_position_key = 26068, lx_short_position = sh, lx_amm_pool_key = 28, lx_amm_pool = p,
     lx_pool_authority = 1, lx_token_program = TOKEN_PROGRAM_ID, lx_token_a_mint = sample_mint 11,
     lx_token_b_mint = sample_mint 12, lx_amm_token_a_vault = sample_account 50 11 1,
     lx_amm_token_b_vault = sample_account 51 12 1, lx_token_a_vault = sample_account 25028 11 12028,
     lx_token_b_vault = sample_account 25035 12 12028, lx_user_token_b_account = sample_account 32 12 40,
     lx_temp_token_a_account = (sample_account 38068 11 12028)\<lparr> ta_amount := 0 \<rparr>, lx_temp_exists = (sh \<noteq> None), lx_bump = 254 \<rparr>"

lemmas lending_sample_eval =
  sample_eval sample_lending_env_def sample_lending_pool_def sample_lending_ctx_def sample_short_def lending_eval

lemma sample_lending_init:
  "handle_initialize_lending_pool sample_lending_env
     \<lparr> il_authority = 40, il_amm_pool = 28, il_token_a_mint = sample_mint 11, il_token_b_mint = sample_mint 12,
       il_lending_pool_key = 12028, il_token_a_vault = 25028, il_token_b_vault = 25035, il_accounts_exist = False,
       il_token_program = TOKEN_PROGRAM_ID, il_bump = 255 \<rparr> 15000 12000 100 = Inr sample_lending_pool"
  by (simp add: lending_sample_eval cong: bindr_weak_cong)

lemma sample_open:
  "\<exists>lp amm ts. handle_open_short sample_lending_env (sample_lending_ctx sample_lending_pool None sample_pool)
     \<lparr> os_collateral_amount = 50000, os_borrow_amount = 100000, os_minimum_sol_out = 90000 \<rparr> =
     Inr (lp, sample_short, amm, ts)"
  by (simp add: lending_sample_eval cong: bindr_weak_cong)

section \<open>The books\<close>

text \<open>C38: The books of a lending pool balance over every sequence of instructions: the number of active positions
  is the number of shorts that are open, and the borrowed total is the sum of what they borrowed; a
  short that was closed or liquidated counts for nothing. No later instruction rewrites the terms of a
  short or touches one that is settled, and of the pool nothing ever changes but the three counters,
  of which the recorded reserves only grow: closing and liquidating take nothing off them.\<close>

theorem lending_books_balance:
  assumes "lending_reachable w" and "lending_step\<^sup>*\<^sup>* w w'"
  shows "unat (lp_active_positions (lw_pool w')) = open_shorts (lw_positions w') \<and>
    unat (lp_total_borrowed (lw_pool w')) = open_debt (lw_positions w') \<and>
    loans_kept w w'"
  using lending_books.always [OF reachable_steps [OF assms(2,1)]] loans.steps_le [OF assms(2)]
  by (simp add: books_balance_def)

lemma lending_books_balance_witness:
  "\<exists>lp. lending_reachable \<lparr> lw_pool = lp, lw_positions = [sample_short] \<rparr> \<and> unat (lp_total_borrowed lp) = 100000 \<and>
     loans_kept \<lparr> lw_pool = sample_lending_pool, lw_positions = [] \<rparr> \<lparr> lw_pool = lp, lw_positions = [sample_short] \<rparr>"
proof -
  let ?start = "\<lparr> lw_pool = sample_lending_pool, lw_positions = [] \<rparr>"
  obtain lp amm ts where o: "handle_open_short sample_lending_env (sample_lending_ctx sample_lending_pool None sample_pool)
     \<lparr> os_collateral_amount = 50000, os_borrow_amount = 100000, os_minimum_sol_out = 90000 \<rparr> = Inr (lp, sample_short, amm, ts)"
    using sample_open by blast
  have "lx_lending_pool (sample_lending_ctx sample_lending_pool None sample_pool) = sample_lending_pool"
    by (simp add: sample_lending_ctx_def)
  then have step: "lending_step ?start \<lparr> lw_pool = lp, lw_positions = [sample_short] \<rparr>"
    using lending_step.open_short [OF _ o, of ?start] by simp
  have start: "lending_reachable ?start"
    by (rule reachable.init [of lending_start, OF lending_start.initialize [OF sample_lending_init]])
  have "lending_reachable \<lparr> lw_pool = lp, lw_positions = [sample_short] \<rparr>"
    by (rule reachable.step [OF start step])
  with lending_books_balance [OF start r_into_rtranclp [of lending_step, OF step]] show ?thesis
    by (auto simp: open_debt_def sample_short_def)
qed

section \<open>Liquidation\<close>

text \<open>
  What the debt of a short is worth in token B, as the simulation of the repository computes it: the
  borrowed amount of token A at the price, which is the square of the pool's square root price.
  \<open>debt_at\<close>, which the ratio of the code divides by, is instead the borrowed amount scaled by the current
  over the entry square root price.
\<close>

definition debt_worth :: "short_position \<Rightarrow> u128 \<Rightarrow> real" where
  "debt_worth sh sqrt_price = real (unat (sh_borrowed_amount sh)) * (real (unat sqrt_price) / 2 ^ 64)\<^sup>2"

lemma debt_at_worth:
  "real (debt_at sh P) * (real (unat (sh_entry_sqrt_price sh)) * real (unat P)) \<le> debt_worth sh P * 2 ^ 128"
proof -
  define b P0 Q where v: "b = unat (sh_borrowed_amount sh)" "P0 = unat (sh_entry_sqrt_price sh)" "Q = unat P"
  have "10000 * (debt_at sh P * P0) \<le> b * (Q * 10000 div P0) * P0"
    unfolding debt_at_def v [symmetric] mult.assoc [symmetric] by (intro mult_le_mono1) (simp add: times_div_less_eq_dividend)
  also have "\<dots> \<le> b * (Q * 10000)" unfolding mult.assoc by (intro mult_le_mono2) (rule div_times_less_eq_dividend)
  finally have "debt_at sh P * P0 \<le> b * Q" by simp
  then have "debt_at sh P * P0 * Q \<le> b * Q * Q" by (rule mult_le_mono1)
  then have "real (debt_at sh P * P0 * Q) \<le> real (b * Q * Q)" by (simp only: of_nat_le_iff)
  then show ?thesis unfolding debt_worth_def v [symmetric] by (simp add: power2_eq_square mult_ac)
qed

text \<open>What a ratio below the threshold says of the worth.\<close>

lemma liquidated_worth:
  assumes "collateral_of sh * 10000 < t * debt_at sh P" and "sh_entry_sqrt_price sh \<noteq> 0"
  shows "10000 * real (collateral_of sh) * (real (unat (sh_entry_sqrt_price sh)) * real (unat P) / 2 ^ 128) <
      real t * debt_worth sh P"
    and "2 ^ 128 \<le> unat (sh_entry_sqrt_price sh) * unat P \<Longrightarrow>
      10000 * real (collateral_of sh) < real t * debt_worth sh P"
proof -
  let ?g = "real (unat (sh_entry_sqrt_price sh)) * real (unat P)" and ?c = "10000 * real (collateral_of sh)"
  have "0 < debt_at sh P" using assms(1) by (cases "debt_at sh P") simp_all
  then have "unat P \<noteq> 0" by (cases "unat P") (simp_all add: debt_at_def)
  moreover have "unat (sh_entry_sqrt_price sh) \<noteq> 0" using assms(2) by (simp add: unat_eq_0)
  ultimately have g: "0 < ?g" by (intro mult_pos_pos) (simp_all only: of_nat_0_less_iff neq0_conv)
  have "real (collateral_of sh * 10000) < real (t * debt_at sh P)" using assms(1) by (simp only: of_nat_less_iff)
  then have "?c < real t * real (debt_at sh P)" by simp
  then have "?c * ?g < real t * real (debt_at sh P) * ?g" using g by (intro mult_strict_right_mono)
  also have "\<dots> \<le> real t * (debt_worth sh P * 2 ^ 128)"
    using debt_at_worth [of sh P] by (simp only: mult.assoc) (rule mult_left_mono, simp_all)
  finally show less: "?c * (?g / 2 ^ 128) < real t * debt_worth sh P" by (simp add: divide_less_eq mult.assoc)
  assume "2 ^ 128 \<le> unat (sh_entry_sqrt_price sh) * unat P"
  then have "real (2 ^ 128) \<le> real (unat (sh_entry_sqrt_price sh) * unat P)" by (simp only: of_nat_le_iff)
  then have "1 \<le> ?g / 2 ^ 128" by (simp add: le_divide_eq)
  then have "?c * 1 \<le> ?c * (?g / 2 ^ 128)" by (intro mult_left_mono) simp_all
  with less show "?c < real t * debt_worth sh P" by simp
qed

text \<open>C39: Which shorts are liquidated, and what that says of their worth. The short was open, and its collateral
  and proceeds are below the threshold of its debt as the code counts it; they stay so at every higher
  price for which the ratio can be computed. The code counts the debt by a ratio of square root prices,
  so its worth times the geometric mean of the entry and the current price is what is below the
  threshold: the short is unsafe in worth when that mean is at least one, and need not be when it
  is less (a short at 152 percent is liquidated at the price of one quarter). The debt leaves
  the books and the short is marked liquidated.\<close>

theorem liquidation_by_price_ratio:
  assumes "handle_liquidate le ctx max_sol_in = Inr (lp, sh', amm, ts, cl)"
  defines "P \<equiv> pool_sqrt_price (lx_amm_pool ctx)" and "threshold \<equiv> lp_liquidation_threshold (lx_lending_pool ctx)"
  shows "\<exists>sh. lx_short_position ctx = Some sh \<and> sh_status sh = 0 \<and> sh' = sh\<lparr> sh_status := 2 \<rparr> \<and>
    collateral_of sh * 10000 < unat threshold * debt_at sh P \<and>
    (\<forall>Q r. P \<le> Q \<longrightarrow> get_collateral_ratio sh Q = Inr r \<longrightarrow> r < ucast threshold) \<and>
    10000 * real (collateral_of sh) * (real (unat (sh_entry_sqrt_price sh)) * real (unat P) / 2 ^ 128) <
      real (unat threshold) * debt_worth sh P \<and>
    (2 ^ 128 \<le> unat (sh_entry_sqrt_price sh) * unat P \<longrightarrow>
      10000 * real (collateral_of sh) < real (unat threshold) * debt_worth sh P) \<and>
    unat (lp_total_borrowed (lx_lending_pool ctx)) = unat (sh_borrowed_amount sh) + unat (lp_total_borrowed lp) \<and>
    unat (lp_active_positions (lx_lending_pool ctx)) = Suc (unat (lp_active_positions lp))"
proof -
  obtain sh ratio where sh: "lx_short_position ctx = Some sh" "sh_status sh = 0"
    and ratio: "get_collateral_ratio sh P = Inr ratio" and unsafe: "ratio < ucast threshold"
    and settle: "settle_position (lx_lending_pool ctx) sh 2 = Inr (lp, sh')"
    unfolding P_def threshold_def by (rule liquidate_frame [OF assms(1)])
  have small: "unat ratio < unat threshold" using unsafe by (simp add: word_less_nat_alt)
  moreover have "unat threshold < 2 ^ 16" using unat_less [of threshold] by simp
  ultimately have debt: "0 < debt_at sh P" using collateral_ratio_exact(2) [OF ratio] by (auto split: if_splits)
  then have below: "collateral_of sh * 10000 < unat threshold * debt_at sh P"
    using collateral_ratio_exact(2) [OF ratio] small by (simp add: div_less_iff_less_mult)
  have later: "r < ucast threshold" if "P \<le> Q" "get_collateral_ratio sh Q = Inr r" for Q r
    using collateral_ratio_antimono [OF ratio that(2,1)] unsafe by simp
  note worth = liquidated_worth [OF below collateral_ratio_exact(1) [OF ratio]]
  show ?thesis
    using sh settle below later worth by (intro exI [of _ sh]) (auto simp: settle_position_eq_Inr)
qed

definition sample_open_pool :: lending_pool where
  "sample_open_pool = sample_lending_pool\<lparr> lp_total_reserves := 49500, lp_total_borrowed := 100000, lp_active_positions := 1 \<rparr>"

text \<open>A short opened at the price of one quarter: it owes 100000 units, worth 25000, and holds 38000.\<close>

definition sample_cheap_pool :: pool where
  "sample_cheap_pool = sample_pool\<lparr> pool_sqrt_price := 2 ^ 63 \<rparr>"

definition sample_cheap_short :: short_position where
  "sample_cheap_short = sample_short\<lparr> sh_collateral_amount := 14000, sh_sol_from_swap := 24000, sh_entry_sqrt_price := 2 ^ 63 \<rparr>"

text \<open>It is liquidated, at the price it was opened at, although it is worth 152 percent of its debt and the
  threshold is 120 percent.\<close>

lemma liquidation_by_price_ratio_witness:
  "\<exists>lp sh amm ts cl. handle_liquidate sample_lending_env
     (sample_lending_ctx sample_open_pool (Some sample_cheap_short) sample_cheap_pool) 30000 = Inr (lp, sh, amm, ts, cl) \<and>
     sh_status sh = 2 \<and> lp_total_borrowed lp = 0 \<and> lp_liquidation_threshold sample_open_pool = 12000 \<and>
     100 * real (collateral_of sample_cheap_short) = 152 * debt_worth sample_cheap_short (pool_sqrt_price sample_cheap_pool)"
proof -
  let ?ctx = "sample_lending_ctx sample_open_pool (Some sample_cheap_short) sample_cheap_pool"
  obtain lp sh amm ts cl where l: "handle_liquidate sample_lending_env ?ctx 30000 = Inr (lp, sh, amm, ts, cl)"
    by (simp add: lending_sample_eval sample_open_pool_def sample_cheap_short_def sample_cheap_pool_def cong: bindr_weak_cong)
  have "lx_short_position ?ctx = Some sample_cheap_short" "lp_total_borrowed (lx_lending_pool ?ctx) = 100000"
    "sh_borrowed_amount sample_cheap_short = 100000" "lp_liquidation_threshold sample_open_pool = 12000"
    "collateral_of sample_cheap_short = 38000" "pool_sqrt_price sample_cheap_pool = 2 ^ 63"
    by (simp_all add: sample_lending_ctx_def sample_open_pool_def sample_cheap_short_def sample_short_def sample_cheap_pool_def
        sample_lending_pool_def lending_pool_initialize_def collateral_of_def)
  with liquidation_by_price_ratio [OF l] show ?thesis
    using l by (auto simp: unat_eq_0 debt_worth_def power2_eq_square)
qed

section \<open>Closing\<close>

text \<open>C40: A short is closed once and only by its owner: the short was open, the caller is the owner, who gets the
  collateral less what the buy-back was allowed to spend, and the debt leaves the books.\<close>

theorem short_closed_once_by_owner:
  assumes "handle_close_short le ctx max_sol_in = Inr (lp, sh', amm, ts, cl)"
  shows "\<exists>sh. lx_short_position ctx = Some sh \<and> sh_status sh = 0 \<and> sh_owner sh = lx_user ctx \<and>
    sh' = sh\<lparr> sh_status := 1 \<rparr> \<and> max_sol_in \<le> sh_collateral_amount sh \<and>
    last ts = token_transfer (lx_lending_pool_key ctx) (lx_token_b_mint ctx) (lx_token_b_vault ctx)
      (lx_user_token_b_account ctx) (sh_collateral_amount sh - max_sol_in) \<and>
    unat (lp_total_borrowed (lx_lending_pool ctx)) = unat (sh_borrowed_amount sh) + unat (lp_total_borrowed lp) \<and>
    (\<forall>le ctx' m. lx_short_position ctx' = Some sh' \<longrightarrow>
       (\<forall>r. handle_close_short le ctx' m \<noteq> Inr r) \<and> (\<forall>r. handle_liquidate le ctx' m \<noteq> Inr r))"
proof -
  obtain sh rest where sh: "lx_short_position ctx = Some sh" "sh_status sh = 0" "sh_owner sh = lx_user ctx"
    and rest: "checked_sub (sh_collateral_amount sh) max_sol_in = Some rest"
    and settle: "settle_position (lx_lending_pool ctx) sh 1 = Inr (lp, sh')"
    and ts: "last ts = token_transfer (lx_lending_pool_key ctx) (lx_token_b_mint ctx) (lx_token_b_vault ctx)
      (lx_user_token_b_account ctx) rest"
    using assms by (auto simp: handle_close_short_def bindr_eq_Inr ok_or_eq_Inr require_eq_Inr)
  have "unat (sh_collateral_amount sh) = unat max_sol_in + unat rest" using rest by (simp add: checked_sub_eq_Some)
  then have "max_sol_in \<le> sh_collateral_amount sh" and "rest = sh_collateral_amount sh - max_sol_in"
    by (auto simp: word_le_nat_alt word_eq_unat unat_sub)
  moreover have "handle_close_short le ctx' m \<noteq> Inr r" "handle_liquidate le ctx' m \<noteq> Inr r'"
    if "lx_short_position ctx' = Some sh'" for le ctx' m r r'
    using that settle
    by (auto simp: settle_position_eq_Inr handle_close_short_def handle_liquidate_def bindr_eq_Inr ok_or_eq_Inr require_eq_Inr)
  ultimately show ?thesis using sh settle ts by (auto simp: settle_position_eq_Inr)
qed

lemma short_closed_once_by_owner_witness:
  "\<exists>lp sh amm ts cl. handle_close_short sample_lending_env
     (sample_lending_ctx sample_open_pool (Some sample_short) (sample_pool\<lparr> pool_sqrt_price := 2 ^ 63 \<rparr>)) 40000 =
       Inr (lp, sh, amm, ts, cl) \<and> sh_status sh = 1 \<and> tr_amount (last ts) = 9500"
proof -
  let ?ctx = "sample_lending_ctx sample_open_pool (Some sample_short) (sample_pool\<lparr> pool_sqrt_price := 2 ^ 63 \<rparr>)"
  obtain lp sh amm ts cl where c: "handle_close_short sample_lending_env ?ctx 40000 = Inr (lp, sh, amm, ts, cl)"
    by (simp add: lending_sample_eval sample_open_pool_def cong: bindr_weak_cong)
  have "lx_short_position ?ctx = Some sample_short" "sh_collateral_amount sample_short = 49500"
    by (simp_all add: sample_lending_ctx_def sample_short_def)
  with short_closed_once_by_owner [OF c] show ?thesis using c by (auto simp: token_transfer_def)
qed

section \<open>On the AMM\<close>

definition sample_lending_chain :: lending_chain where
  "sample_lending_chain = \<lparr> lch_chain = sample_chain, lch_pda = le_pda sample_lending_env, lch_key = 12028,
     lch_close = (\<lambda>c b. if cl_authority c = sample_owner (cl_account c) then Some (b(cl_account c := None)) else None) \<rparr>"

lemma sample_lending_chain_ok: "lending_chain_ok sample_lending_chain"
  unfolding lending_chain_ok_def sample_lending_chain_def lending_vault_a_def
  by (simp add: sample_chain_ok) (simp add: sample_lending_env_def sample_chain_def sample_owner_def)

text \<open>The lenders have put a million into the vault.\<close>

definition sample_lending_tokens :: ledger where
  "sample_lending_tokens = sample_tokens(25028 \<mapsto> 1000000, 25035 \<mapsto> 0)"

definition sample_market :: market where
  "sample_market = \<lparr> mk_lending = \<lparr> lw_pool = sample_lending_pool, lw_positions = [] \<rparr>,
     mk_amm = sample_world\<lparr> w_tokens := sample_lending_tokens \<rparr> \<rparr>"

lemma sample_market_start: "market_start sample_lending_chain sample_market"
proof -
  have "keeps_accounts sample_chain (ch_pool_authority sample_chain) sample_tokens sample_lending_tokens"
    by (auto simp: keeps_accounts_def sample_lending_tokens_def sample_chain_def sample_owner_def balance_def split: if_splits)
  then have "pool_step sample_chain sample_world (sample_world\<lparr> w_tokens := sample_lending_tokens \<rparr>)"
    by (intro pool_step.elsewhere) (simp add: sample_world_def)
  then have "pool_reachable sample_chain (sample_world\<lparr> w_tokens := sample_lending_tokens \<rparr>)"
    by (rule reachable.step [OF sample_reachable])
  then show ?thesis
    using market_start.initialize [OF sample_lending_init, of sample_lending_chain]
    by (simp add: sample_lending_chain_def sample_market_def)
qed

lemma sample_market_open:
  "\<exists>lp p ts b. handle_open_short sample_lending_env (sample_lending_ctx sample_lending_pool None sample_pool)
     \<lparr> os_collateral_amount = 50000, os_borrow_amount = 100000, os_minimum_sol_out = 90000 \<rparr> =
       Inr (lp, sample_short, p, ts) \<and>
     run_transfers sample_chain sample_mint ts (sample_lending_tokens(38068 \<mapsto> 0)) = Some b"
  by (simp add: lending_sample_eval cong: bindr_weak_cong)
    (simp add: sample_chain_def sample_transfer_def sample_owner_def sample_lending_tokens_def sample_tokens_def
      sample_received [unfolded sample_mint_def] sample_mint_def)

lemma sample_market_step:
  "\<exists>m :: market. market_step sample_lending_chain sample_market m \<and> lw_positions (mk_lending m) = [sample_short]"
proof -
  let ?ctx = "sample_lending_ctx sample_lending_pool None sample_pool"
  obtain lp p ts b where o: "handle_open_short sample_lending_env ?ctx
     \<lparr> os_collateral_amount = 50000, os_borrow_amount = 100000, os_minimum_sol_out = 90000 \<rparr> = Inr (lp, sample_short, p, ts)"
    and run: "run_transfers sample_chain sample_mint ts (sample_lending_tokens(38068 \<mapsto> 0)) = Some b"
    using sample_market_open by blast
  have temp: "ta_key (lx_temp_token_a_account ?ctx) = 38068" by (simp add: sample_lending_ctx_def sample_account_def)
  have "lending_call sample_lending_chain sample_lending_env sample_mint ?ctx sample_market"
    by (simp add: lending_call_def sample_lending_chain_def sample_lending_ctx_def sample_market_def sample_world_def sample_sees)
      (simp add: sample_lending_env_def sample_env_def sample_chain_def)
  from market_step.open_short [OF this _ o] run show ?thesis
    by (auto simp: temp sample_market_def sample_world_def sample_lending_tokens_def sample_tokens_def
        sample_lending_chain_def sample_chain_def sample_owner_def)
qed

text \<open>C36: The lending program rides on the AMM: every state the two programs reach together, whoever does what
  in between, is a state the AMM reaches by instructions of its own and a state the lending program
  reaches by its own. So nothing that is proved of either is lost: the pool stays solvent whatever
  the lending program does, and the books of the lending pool balance whatever is traded.\<close>

theorem lending_refines_amm:
  assumes "lending_chain_ok L" and "reachable (market_start L) (market_step L) m"
  shows "pool_reachable (lch_chain L) (mk_amm m) \<and> lending_reachable (mk_lending m) \<and>
    solvent (lch_chain L) (mk_amm m) \<and> books_balance (mk_lending m)"
  using on_the_amm.reachable_view [OF assms(2,1)] on_the_lending_pool.reachable_view [OF assms(2)]
    pool_reachable_solvent [OF _ lending_chain_okD(1) [OF assms(1)]] lending_books.always
  by blast

lemma lending_refines_amm_witness:
  "\<exists>m :: market. lw_positions (mk_lending m) = [sample_short] \<and> solvent sample_chain (mk_amm m)"
proof -
  obtain m where m: "market_step sample_lending_chain sample_market m" "lw_positions (mk_lending m) = [sample_short]"
    using sample_market_step by blast
  have "reachable (market_start sample_lending_chain) (market_step sample_lending_chain) m"
    using m(1) reachable.init [of "market_start sample_lending_chain", OF sample_market_start]
    by (blast intro: reachable.step)
  from lending_refines_amm [OF sample_lending_chain_ok this] have "solvent sample_chain (mk_amm m)"
    by (simp add: sample_lending_chain_def)
  with m(2) show ?thesis by blast
qed

text \<open>C37: What was lent out comes back: over any sequence of instructions of both programs, by whomever, the
  tokens in the vault of the lending pool together with what its open shorts owe never become less.
  An open short owes all it took out of the vault, and whoever closes or liquidates it brings at
  least as much back, whatever the price of the swap.\<close>

theorem lenders_keep_principal:
  assumes "lending_chain_ok L" and "(market_step L)\<^sup>*\<^sup>* m m'"
  shows "balance (w_tokens (mk_amm m)) (lending_vault_a L) + open_debt (lw_positions (mk_lending m))
    \<le> balance (w_tokens (mk_amm m')) (lending_vault_a L) + open_debt (lw_positions (mk_lending m'))"
  using lenders.steps_le [OF assms(2)] assms(1) by (simp add: lenders_assets_def)

lemma lenders_keep_principal_witness:
  "\<exists>m :: market. lw_positions (mk_lending m) = [sample_short] \<and> 900000 \<le> balance (w_tokens (mk_amm m)) 25028"
proof -
  obtain m where m: "market_step sample_lending_chain sample_market m" "lw_positions (mk_lending m) = [sample_short]"
    using sample_market_step by blast
  have "lending_vault_a sample_lending_chain = 25028" "open_debt [sample_short] = 100000"
    by (simp_all add: lending_vault_a_def sample_lending_chain_def sample_lending_env_def open_debt_def sample_short_def)
  with lenders_keep_principal [OF sample_lending_chain_ok r_into_rtranclp [of "market_step sample_lending_chain", OF m(1)]] m(2)
  have "900000 \<le> balance (w_tokens (mk_amm m)) 25028"
    by (simp add: sample_market_def sample_lending_tokens_def balance_def open_debt_def)
  with m(2) show ?thesis by blast
qed

end
