(* ===== verification/LogReader.thy ===== *)
theory LogReader
  imports EventLog RewardSteps
begin

text \<open>
  What a reader of the log alone can tell about a pool: a summary that each event updates, and the
  proof that after any sequence of calls it is the summary of the accounts.
\<close>

section \<open>What a reader of the log keeps\<close>

record campaign_view =
  cv_mint :: pubkey
  cv_funder :: pubkey
  cv_duration :: u64
  cv_duration_end :: u64
  cv_rate :: u128

record summary =
  su_token_a_mint :: pubkey
  su_token_b_mint :: pubkey
  su_creator :: pubkey
  su_alpha_vault :: pubkey
  su_sqrt_min_price :: u128
  su_sqrt_max_price :: u128
  su_activation_point :: u64
  su_activation_type :: u8
  su_collect_fee_mode :: u8
  su_pool_type :: u8
  su_status :: u8
  su_sqrt_price :: u128
  su_liquidity :: u128
  su_permanent_lock :: u128
  su_growth_a :: u256
  su_growth_b :: u256
  su_protocol_a :: u64
  su_protocol_b :: u64
  su_partner_a :: u64
  su_partner_b :: u64
  su_positions :: u64
  su_campaigns :: "campaign_view array2"
  su_holdings :: "pubkey \<Rightarrow> u128 option"

text \<open>Of a position the log tells the liquidity of all three kinds together: releasing vested liquidity emits nothing.\<close>

definition holding :: "position \<Rightarrow> u128" where
  "holding pos = pos_unlocked_liquidity pos + pos_vested_liquidity pos + pos_permanent_locked_liquidity pos"

definition view_reward :: "reward_info \<Rightarrow> campaign_view" where
  "view_reward ri = \<lparr> cv_mint = ri_mint ri, cv_funder = ri_funder ri, cv_duration = ri_reward_duration ri,
     cv_duration_end = ri_reward_duration_end ri, cv_rate = ri_reward_rate ri \<rparr>"

definition view_pool :: "pool \<Rightarrow> (pubkey \<Rightarrow> u128 option) \<Rightarrow> summary" where
  "view_pool p holdings =
     \<lparr> su_token_a_mint = pool_token_a_mint p, su_token_b_mint = pool_token_b_mint p, su_creator = pool_creator p,
       su_alpha_vault = pool_whitelisted_vault p, su_sqrt_min_price = pool_sqrt_min_price p,
       su_sqrt_max_price = pool_sqrt_max_price p, su_activation_point = pool_activation_point p,
       su_activation_type = pool_activation_type p, su_collect_fee_mode = pool_collect_fee_mode p,
       su_pool_type = pool_pool_type p, su_status = pool_pool_status p, su_sqrt_price = pool_sqrt_price p,
       su_liquidity = pool_liquidity p, su_permanent_lock = pool_permanent_lock_liquidity p,
       su_growth_a = pool_fee_a_per_liquidity p, su_growth_b = pool_fee_b_per_liquidity p,
       su_protocol_a = pool_protocol_a_fee p, su_protocol_b = pool_protocol_b_fee p,
       su_partner_a = pool_partner_a_fee p, su_partner_b = pool_partner_b_fee p,
       su_positions = mt_total_position (pool_metrics p),
       su_campaigns = Array2 (view_reward (elem0 (pool_reward_infos p))) (view_reward (elem1 (pool_reward_infos p))),
       su_holdings = holdings \<rparr>"

definition summary_of :: "world \<Rightarrow> summary" where
  "summary_of w = view_pool (w_pool w) (map_option holding \<circ> w_positions w)"

text \<open>Before the first event there is nothing.\<close>

definition blank :: summary where
  "blank = view_pool default_pool Map.empty"

definition edit_campaign :: "(campaign_view \<Rightarrow> campaign_view) \<Rightarrow> u8 \<Rightarrow> summary \<Rightarrow> summary" where
  "edit_campaign f i s = s\<lparr> su_campaigns := Array2 ((if i = 0 then f else id) (elem0 (su_campaigns s)))
     ((if i = 1 then f else id) (elem1 (su_campaigns s))) \<rparr>"

definition edit_holding :: "pubkey \<Rightarrow> (u128 \<Rightarrow> u128) \<Rightarrow> summary \<Rightarrow> summary" where
  "edit_holding k f s = s\<lparr> su_holdings := (su_holdings s)(k := map_option f (su_holdings s k)) \<rparr>"

text \<open>
  What an event tells. The fee of a swap is in token A exactly when the pool collects both tokens and
  the swap goes from B to A; the part of the liquidity providers is spread over the liquidity there is.
\<close>

definition read_swap :: "evt_swap \<Rightarrow> summary \<Rightarrow> summary" where
  "read_swap e s =
     (let sr = esw_swap_result e;
          growth = of_nat (unat (sr_lp_fee sr) * 2 ^ 128 div unat (su_liquidity s));
          s = s\<lparr> su_sqrt_price := sr_next_sqrt_price sr \<rparr> in
      if su_collect_fee_mode s = 0 \<and> esw_trade_direction e = 1
      then s\<lparr> su_growth_a := su_growth_a s + growth, su_protocol_a := su_protocol_a s + sr_protocol_fee sr,
              su_partner_a := su_partner_a s + sr_partner_fee sr \<rparr>
      else s\<lparr> su_growth_b := su_growth_b s + growth, su_protocol_b := su_protocol_b s + sr_protocol_fee sr,
              su_partner_b := su_partner_b s + sr_partner_fee sr \<rparr>)"

definition read_initialize_pool :: "evt_initialize_pool \<Rightarrow> summary \<Rightarrow> summary" where
  "read_initialize_pool e s = s
     \<lparr> su_token_a_mint := eip_token_a_mint e, su_token_b_mint := eip_token_b_mint e, su_creator := eip_creator e,
       su_alpha_vault := eip_alpha_vault e, su_sqrt_min_price := eip_sqrt_min_price e,
       su_sqrt_max_price := eip_sqrt_max_price e, su_activation_point := eip_activation_point e,
       su_activation_type := eip_activation_type e, su_collect_fee_mode := eip_collect_fee_mode e,
       su_pool_type := eip_pool_type e, su_sqrt_price := eip_sqrt_price e, su_liquidity := eip_liquidity e,
       su_holdings := map_option (\<lambda>_. eip_liquidity e) \<circ> su_holdings s \<rparr>"

fun read :: "event \<Rightarrow> summary \<Rightarrow> summary" where
  "read (EvtInitializePool e) s = read_initialize_pool e s"
| "read (EvtCreatePosition e) s =
     s\<lparr> su_positions := su_positions s + 1, su_holdings := (su_holdings s)(ecp_position e \<mapsto> 0) \<rparr>"
| "read (EvtClosePosition e) s =
     s\<lparr> su_positions := su_positions s - 1, su_holdings := (su_holdings s)(ezp_position e := None) \<rparr>"
| "read (EvtAddLiquidity e) s = edit_holding (eal_position e) (\<lambda>l. l + al_liquidity_delta (eal_params e))
     (s\<lparr> su_liquidity := su_liquidity s + al_liquidity_delta (eal_params e) \<rparr>)"
| "read (EvtRemoveLiquidity e) s = edit_holding (erl_position e) (\<lambda>l. l - rl_liquidity_delta (erl_params e))
     (s\<lparr> su_liquidity := su_liquidity s - rl_liquidity_delta (erl_params e) \<rparr>)"
| "read (EvtSwap e) s = read_swap e s"
| "read (EvtPermanentLockPosition e) s = s\<lparr> su_permanent_lock := epl_total_permanent_locked_liquidity e \<rparr>"
| "read (EvtSplitPosition2 e) s =
     (let moved = si_unlocked_liquidity (esp_amount_splits e) + si_permanent_locked_liquidity (esp_amount_splits e) in
      edit_holding (esp_second_position e) (\<lambda>l. l + moved) (edit_holding (esp_first_position e) (\<lambda>l. l - moved) s))"
| "read (EvtClaimProtocolFee e) s = s\<lparr> su_protocol_a := su_protocol_a s - epf_token_a_amount e,
     su_protocol_b := su_protocol_b s - epf_token_b_amount e \<rparr>"
| "read (EvtClaimPartnerFee e) s = s\<lparr> su_partner_a := su_partner_a s - ept_token_a_amount e,
     su_partner_b := su_partner_b s - ept_token_b_amount e \<rparr>"
| "read (EvtSetPoolStatus e) s = s\<lparr> su_status := ess_status e \<rparr>"
| "read (EvtInitializeReward e) s = edit_campaign (\<lambda>c. c\<lparr> cv_mint := eir_reward_mint e,
     cv_funder := eir_funder e, cv_duration := eir_reward_duration e \<rparr>) (eir_reward_index e) s"
| "read (EvtFundReward e) s = edit_campaign (\<lambda>c. c\<lparr> cv_duration_end := efr_reward_duration_end e,
     cv_rate := efr_post_reward_rate e \<rparr>) (efr_reward_index e) s"
| "read (EvtUpdateRewardDuration e) s =
     edit_campaign (\<lambda>c. c\<lparr> cv_duration := eud_new_reward_duration e \<rparr>) (eud_reward_index e) s"
| "read (EvtUpdateRewardFunder e) s =
     edit_campaign (\<lambda>c. c\<lparr> cv_funder := euf_new_funder e \<rparr>) (euf_reward_index e) s"
| "read _ s = s"

section \<open>What a call leaves alone\<close>

lemma safe_sum: "safe_add a b = Inr c \<Longrightarrow> c = a + b"
  by (simp add: safe_add_def checked_add_def split: if_splits)

lemma safe_difference: "safe_sub a b = Inr c \<Longrightarrow> c = a - b"
  by (simp add: safe_sub_def checked_sub_def split: if_splits)

lemma unat_sum: "unat c = unat a + n \<Longrightarrow> c = a + of_nat n" for c :: "'a::len word"
  by (drule arg_cong [of _ _ "of_nat :: nat \<Rightarrow> 'a word"]) simp

lemma holding_of_nat: "holding pos = of_nat (pos_liquidity pos)"
  by (simp add: holding_def pos_liquidity_def)

lemma same_claim_holding: "same_claim pos pos' \<Longrightarrow> holding pos' = holding pos"
  by (simp add: holding_of_nat same_claim_def)

lemma view_reward_update: "ri_update_rewards ri l now = Inr ri' \<Longrightarrow> view_reward ri' = view_reward ri"
  by (auto simp: ri_update_rewards_def bindr_eq_Inr accumulate_reward_per_token_stored_def
      update_last_update_time_def view_reward_def split: if_splits)

lemma view_pool_update: "pool_update_rewards p now = Inr p' \<Longrightarrow> view_pool p' = view_pool p"
  by (rule ext) (auto simp: pool_update_rewards_def bindr_eq_Inr view_pool_def view_reward_update)

lemma view_pool_pos_update: "pos_update_rewards pos p now = Inr (pos', p') \<Longrightarrow> view_pool p' = view_pool p"
  by (auto simp: pos_update_rewards_def bindr_eq_Inr view_pool_update split: if_splits)

lemma edit_holding_liquidity [simp]: "edit_holding k f (s\<lparr> su_liquidity := l \<rparr>) = (edit_holding k f s)\<lparr> su_liquidity := l \<rparr>"
  by (simp add: edit_holding_def)

text \<open>The positions of a world as the reader sees them.\<close>

abbreviation holdings :: "(pubkey \<Rightarrow> position option) \<Rightarrow> pubkey \<Rightarrow> u128 option" where
  "holdings ps \<equiv> map_option holding \<circ> ps"

lemma holdings_upd [simp]: "holdings (ps(k := v)) = (holdings ps)(k := map_option holding v)"
  by (rule ext) simp

lemma edit_holding_view [simp]:
  "edit_holding k f (view_pool p h) = view_pool p (h(k := map_option f (h k)))"
  by (simp add: edit_holding_def view_pool_def)

lemma view_pool_fields [simp]:
  "su_liquidity (view_pool p h) = pool_liquidity p" "su_collect_fee_mode (view_pool p h) = pool_collect_fee_mode p"
  by (simp_all add: view_pool_def)

lemma holdings_same: "ps k = Some pos \<Longrightarrow> same_claim pos pos' \<Longrightarrow> (holdings ps)(k \<mapsto> holding pos') = holdings ps"
  by (rule ext) (simp add: same_claim_holding)

section \<open>What each call tells\<close>

text \<open>The world after a call is what its events say, read on top of the world before.\<close>

definition told :: "world \<Rightarrow> effect \<Rightarrow> bool" where
  "told w e \<longleftrightarrow> view_pool (ef_pool e) (holdings (fold (\<lambda>(k, pos) ps. ps(k := pos)) (ef_positions e) (w_positions w))) =
     fold read (ef_events e) (view_pool (w_pool w) (holdings (w_positions w)))"

lemma add_liquidity_told:
  assumes "liquidity_loads key w k ctx" and "add_liquidity env vs k ctx params = Inr e"
  shows "told w e"
proof -
  obtain p' pos' trs m ta tb where h: "handle_add_liquidity env ctx params = Inr (p', pos', trs)"
    and e: "ef_pool e = p'" "ef_positions e = [(k, Some pos')]"
      "ef_events e = [emit_add_liquidity k ctx params m ta tb]"
    using assms(2) by (auto simp: add_liquidity_def bindr_eq_Inr)
  obtain p pos where u: "pos_update_rewards (lc_position ctx) (lc_pool ctx) (current_time env) = Inr (pos, p)"
    and add: "apply_add_liquidity p pos (al_liquidity_delta params) = Inr (p', pos')"
    by (rule handle_add_liquidity_frame [OF h])
  have v: "view_pool p = view_pool (lc_pool ctx)" by (rule view_pool_pos_update [OF u])
  have hold: "holding pos' = holding (lc_position ctx) + al_liquidity_delta params"
    using add_liquidity_totals(2) [OF add] pos_update_rewards_step(2) [OF u] by (simp add: holding_of_nat same_claim_def)
  have "view_pool p' h = (view_pool p h)\<lparr> su_liquidity := pool_liquidity p + al_liquidity_delta params \<rparr>" for h
    using add by (auto simp: apply_add_liquidity_def bindr_eq_Inr view_pool_def dest!: safe_sum)
  moreover have "pool_liquidity p = pool_liquidity (lc_pool ctx)"
    using arg_cong [OF v, of "\<lambda>f. su_liquidity (f Map.empty)"] by simp
  ultimately show ?thesis
    using assms(1) hold
    by (simp add: told_def e emit_add_liquidity_def liquidity_loads_def v)
qed

lemma remove_liquidity_told:
  assumes "liquidity_loads key w k ctx" and "remove_liquidity env vs k ctx d0 ma mb = Inr e"
  shows "told w e"
proof -
  define d where "d = (case d0 of Some d \<Rightarrow> d | None \<Rightarrow> pos_unlocked_liquidity (lc_position ctx))"
  obtain p' pos' trs m where h: "handle_remove_liquidity env ctx d0 ma mb = Inr (p', pos', trs)"
    and e: "ef_pool e = p'" "ef_positions e = [(k, Some pos')]"
      "ef_events e = [emit_remove_liquidity k ctx d ma mb m]"
    using assms(2) by (auto simp: remove_liquidity_def bindr_eq_Inr Let_def d_def)
  obtain p pos where u: "pos_update_rewards (lc_position ctx) (lc_pool ctx) (current_time env) = Inr (pos, p)"
    and rem: "apply_remove_liquidity p pos d = Inr (p', pos')"
    unfolding d_def by (rule handle_remove_liquidity_frame [OF h])
  have v: "view_pool p = view_pool (lc_pool ctx)" by (rule view_pool_pos_update [OF u])
  have "pos_liquidity (lc_position ctx) = pos_liquidity pos' + unat d"
    using remove_liquidity_totals(2) [OF rem] pos_update_rewards_step(2) [OF u] by (simp add: same_claim_def)
  then have hold: "holding pos' = holding (lc_position ctx) - d" by (simp add: holding_of_nat)
  have "view_pool p' h = (view_pool p h)\<lparr> su_liquidity := pool_liquidity p - d \<rparr>" for h
    using rem by (auto simp: apply_remove_liquidity_def bindr_eq_Inr view_pool_def dest!: safe_difference)
  moreover have "pool_liquidity p = pool_liquidity (lc_pool ctx)"
    using arg_cong [OF v, of "\<lambda>f. su_liquidity (f Map.empty)"] by simp
  ultimately show ?thesis
    using assms(1) hold
    by (simp add: told_def e emit_remove_liquidity_def liquidity_loads_def v)
qed

lemma fee_side_told:
  "get_fee_mode mode d referral = Inr fm \<Longrightarrow> fees_on_token_a fm \<longleftrightarrow> mode = 0 \<and> trade_direction_u8 d = 1"
  by (auto simp: get_fee_mode_def bindr_eq_Inr ok_or_eq_Inr collect_fee_mode_try_from_def trade_direction_u8_def
      split: if_splits trade_direction.splits collect_fee_mode.splits prod.splits)

lemma swap_told:
  assumes "sc_pool ctx = w_pool w" and "swap env key vs ctx params = Inr e"
  shows "told w e"
proof -
  obtain p' sr trs x where h: "handle_swap env ctx params = Inr (p', sr, trs)"
    and e: "ef_pool e = p'" "ef_positions e = []" "ef_events e = [emit_swap env key ctx params sr x]"
    using assms(2) by (auto simp: swap_def bindr_eq_Inr)
  obtain p fm where pre: "update_pre_swap (sc_pool ctx) (current_time env) = Inr p"
    and fm: "get_fee_mode (pool_collect_fee_mode p) (get_trade_direction ctx) (sc_referral_token_account ctx \<noteq> None) = Inr fm"
    and app: "apply_swap_result p sr fm (current_time env) = Inr p'"
    by (rule handle_swap_frame [OF h])
  obtain df where p: "p = (sc_pool ctx)\<lparr> pool_fees := df \<rparr>"
    using update_pre_swap_frame [OF pre] by metis
  note side = fee_side_told [OF fm]
  have "view_pool p' h = read_swap
     \<lparr> esw_pool = key, esw_trade_direction = trade_direction_u8 (get_trade_direction ctx),
       esw_has_referral = (sc_referral_token_account ctx \<noteq> None), esw_params = params, esw_swap_result = sr,
       esw_actual_amount_in = x, esw_current_timestamp = current_time env \<rparr> (view_pool (sc_pool ctx) h)" for h
    by (rule apply_swap_result_frame [OF app])
      (use side in \<open>auto simp: p view_pool_def read_swap_def Let_def accumulate_fee_def bindr_eq_Inr
         dest!: unat_sum split: if_splits\<close>)
  then show ?thesis using assms(1) by (simp add: told_def e emit_swap_def)
qed

lemma claim_position_fee_told:
  assumes "liquidity_loads key w k ctx" and "claim_position_fee env vs k ctx = Inr e"
  shows "told w e"
proof -
  obtain pos' trs a b where h: "handle_claim_position_fee env ctx = Inr (pos', trs)"
    and e: "ef_pool e = lc_pool ctx" "ef_positions e = [(k, Some pos')]" "ef_events e = [emit_claim_position_fee k ctx a b]"
    using assms(2) by (auto simp: claim_position_fee_def bindr_eq_Inr)
  have "holding pos' = holding (lc_position ctx)"
    using h update_fee_liquidity(1) by (auto simp: handle_claim_position_fee_def bindr_eq_Inr reset_pending_fee_def
        holding_of_nat pos_liquidity_simps)
  then show ?thesis
    using assms(1) by (simp add: told_def e emit_claim_position_fee_def liquidity_loads_def fun_upd_idem)
qed

lemma claim_reward_told:
  assumes "cr_pool ctx = w_pool w" and "w_positions w k = Some (cr_position ctx)"
    and "claim_reward env vs k ctx i skip = Inr e"
  shows "told w e"
proof -
  obtain p' pos' trs r where h: "handle_claim_reward env ctx i skip = Inr (p', pos', trs)"
    and e: "ef_pool e = p'" "ef_positions e = [(k, Some pos')]" "ef_events e = [emit_claim_reward k ctx i r]"
    using assms(3) by (auto simp: claim_reward_def bindr_eq_Inr)
  have "view_pool p' = view_pool (cr_pool ctx)"
    using h view_pool_pos_update by (auto simp: handle_claim_reward_def bindr_eq_Inr Let_def split: if_splits prod.splits)
  moreover have "holding pos' = holding (cr_position ctx)"
    by (rule same_claim_holding [OF claim_reward_step(2) [OF h]])
  ultimately show ?thesis
    using assms(1,2) by (simp add: told_def e emit_claim_reward_def fun_upd_idem)
qed

text \<open>Splitting moves between the two positions exactly what the event says.\<close>

definition moves :: "u128 \<Rightarrow> position \<Rightarrow> position \<Rightarrow> position \<Rightarrow> position \<Rightarrow> bool" where
  "moves d f s f' s' \<longleftrightarrow> holding f' = holding f - d \<and> holding s' = holding s + d"

lemma moves_trans: "moves d f s f1 s1 \<Longrightarrow> moves e f1 s1 f2 s2 \<Longrightarrow> moves (d + e) f s f2 s2"
  by (simp add: moves_def algebra_simps)

lemma split_parts_move:
  "split_unlocked f s n = Inr (f', s', d) \<Longrightarrow> moves d f s f' s'"
  "split_permanent f s n = Inr (f', s', d) \<Longrightarrow> moves d f s f' s'"
  "split_fees f s n m = Inr (f', s', a, b) \<Longrightarrow> moves 0 f s f' s'"
  "split_reward p i f s n = Inr (f', s', r) \<Longrightarrow> moves 0 f s f' s'"
  by (auto simp: split_unlocked_def split_permanent_def split_fees_def split_reward_def bindr_eq_Inr moves_def holding_def
      remove_unlocked_liquidity_def pos_add_liquidity_def remove_permanent_locked_liquidity_def
      add_permanent_locked_liquidity_def remove_fee_pending_def add_fee_pending_def remove_reward_pending_def
      add_reward_pending_def dest!: safe_sum safe_difference split: if_splits)

lemma split_moves:
  assumes "apply_split_position p f s n1 n2 n3 n4 n5 n6 = Inr (f', s', amounts)"
  shows "moves (si_unlocked_liquidity amounts + si_permanent_locked_liquidity amounts) f s f' s'"
proof -
  obtain f1 s1 f2 s2 f3 s3 f4 s4 a b c d where
    fee: "update_fee f (pool_fee_a_per_liquidity p) (pool_fee_b_per_liquidity p) = Inr f1"
      "update_fee s (pool_fee_a_per_liquidity p) (pool_fee_b_per_liquidity p) = Inr s1"
    and u: "split_unlocked f1 s1 n1 = Inr (f2, s2, si_unlocked_liquidity amounts)"
    and pm: "split_permanent f2 s2 n2 = Inr (f3, s3, si_permanent_locked_liquidity amounts)"
    and fees: "split_fees f3 s3 n3 n4 = Inr (f4, s4, a, b)"
    and r: "(if pool_reward_initialized p
            then bindr (split_reward p REWARD_INDEX_0 f4 s4 n5) (\<lambda>(f, s, x).
                 bindr (split_reward p REWARD_INDEX_1 f s n6) (\<lambda>(f, s, y). Inr (f, s, x, y)))
            else Inr (f4, s4, 0, 0)) = Inr (f', s', c, d)"
    using assms by (auto simp: apply_split_position_def bindr_eq_Inr split: prod.splits)
  have first: "moves 0 f s f1 s1" using fee update_fee_liquidity(1) by (simp add: moves_def holding_of_nat)
  have last: "moves 0 f4 s4 f' s'"
    using r by (auto simp: bindr_eq_Inr moves_def split: if_splits prod.splits dest!: split_parts_move(4))
  show ?thesis
    using moves_trans [OF moves_trans [OF moves_trans [OF moves_trans [OF first split_parts_move(1) [OF u]]
      split_parts_move(2) [OF pm]] split_parts_move(3) [OF fees]] last] by simp
qed

lemma split_told:
  assumes "split_loads key w ctx" and "handle_split_position2 env ctx params = Inr r" and "e = splitted vs ctx params r"
  shows "told w e"
proof -
  obtain p' pos1' pos2' amounts i1 i2 where r: "r = (p', pos1', pos2', amounts, i1, i2)" by (cases r)
  obtain pos1 pos2 n1 n2 n3 n4 n5 n6 where u: "pool_update_rewards (sx_pool ctx) (current_time env) = Inr p'"
    and u1: "update_position_reward (sx_first_position ctx) p' = Inr pos1"
    and u2: "update_position_reward (sx_second_position ctx) p' = Inr pos2"
    and split: "apply_split_position p' pos1 pos2 n1 n2 n3 n4 n5 n6 = Inr (pos1', pos2', amounts)"
    and ne: "sx_first_position_key ctx \<noteq> sx_second_position_key ctx"
    using assms(2) unfolding r
    by (auto simp: handle_split_position2_def split_constraints_def bindr_eq_Inr require_eq_Inr split: prod.splits)
  note same = same_claim_holding [OF update_position_reward_claim [OF u1]] same_claim_holding [OF update_position_reward_claim [OF u2]]
  note moved = split_moves [OF split]
  show ?thesis
    using assms(1) ne
    by (auto simp: told_def assms(3) r splitted_def emit_split_position2_def split_loads_def view_pool_update [OF u]
        moved [unfolded moves_def] same Let_def)
qed

lemma user_told:
  assumes "user_loads ch mints key w ix" and "dispatch_user env key (w_vestings w) ix = Inr e"
  shows "told w e"
proof (cases ix)
  case (CreatePosition ctx)
  then show ?thesis using assms
    by (auto simp: told_def bindr_eq_Inr handle_create_position_def pos_initialize_def increase_position_def
        emit_create_position_def view_pool_def holding_def default_position_def Let_def)
next
  case (ClosePosition k ctx)
  then show ?thesis using assms
    by (auto simp: told_def bindr_eq_Inr handle_close_position_def reduce_position_def emit_close_position_def view_pool_def)
next
  case (LockPosition ctx params)
  then show ?thesis using assms same_claim_holding [OF lock_position_same_claim]
    by (auto simp: told_def lock_position_def bindr_eq_Inr emit_lock_position_def fun_upd_idem)
next
  case (RefreshVesting ctx accounts)
  then show ?thesis using assms same_claim_holding [OF refresh_same_claim]
    by (auto simp: told_def bindr_eq_Inr fun_upd_idem)
next
  case (PermanentLockPosition k ctx l)
  then obtain p' pos' where h: "handle_permanent_lock_position env ctx l = Inr (p', pos')"
    and e: "ef_pool e = p'" "ef_positions e = [(k, Some pos')]" "ef_events e = [emit_permanent_lock_position k ctx l p']"
    using assms(2) by (auto simp: bindr_eq_Inr)
  obtain t where "p' = (pl_pool ctx)\<lparr> pool_permanent_lock_liquidity := t \<rparr>"
    using h by (auto simp: handle_permanent_lock_position_def bindr_eq_Inr accumulate_permanent_locked_liquidity_def)
  then show ?thesis
    using assms(1) PermanentLockPosition same_claim_holding [OF permanent_lock_books(2) [OF h]]
    by (simp add: told_def e emit_permanent_lock_position_def view_pool_def fun_upd_idem)
next
  case (SplitPosition ctx params)
  then show ?thesis using assms split_told
    by (fastforce simp: split_position_def bindr_eq_Inr)
next
  case (SplitPosition2 ctx numerator)
  then show ?thesis using assms split_told
    by (fastforce simp: split_position2_def bindr_eq_Inr)
qed (use assms add_liquidity_told remove_liquidity_told swap_told claim_position_fee_told claim_reward_told in auto)

section \<open>What admins, funders and partners tell\<close>

lemma edit_campaign_view:
  "edit_campaign f i (view_pool p h) = view_pool (p\<lparr> pool_reward_infos := r \<rparr>) h \<longleftrightarrow>
     view_reward (elem0 r) = (if i = 0 then f else id) (view_reward (elem0 (pool_reward_infos p))) \<and>
     view_reward (elem1 r) = (if i = 1 then f else id) (view_reward (elem1 (pool_reward_infos p)))"
  by (auto simp: edit_campaign_def view_pool_def)

lemma view_reward_rate:
  "update_rate_after_funding ri now x = Inr ri' \<Longrightarrow>
     view_reward ri' = (view_reward ri)\<lparr> cv_duration_end := ri_reward_duration_end ri', cv_rate := ri_reward_rate ri' \<rparr>"
  by (auto simp: update_rate_after_funding_def bindr_eq_Inr view_reward_def simp del: bindr_assoc)

lemma index_u8: "unat (i :: u8) = 0 \<longleftrightarrow> i = 0" "unat (i :: u8) = Suc 0 \<longleftrightarrow> i = 1"
  by (simp_all add: word_eq_unat)

lemma fund_reward_told:
  assumes "fd_pool ctx = w_pool w" and "fund_reward env key vs ctx i amount carry = Inr e"
  shows "told w e"
proof -
  obtain p' total trs x before ri' where h: "handle_fund_reward env ctx i amount carry = Inr (p', total, trs)"
    and at: "arr_get (pool_reward_infos p') (unat i) = (Inr ri' :: reward_info result)"
    and e: "ef_pool e = p'" "ef_positions e = []" "ef_events e = [emit_fund_reward key ctx i total x before ri']"
    using assms(2) by (auto simp: fund_reward_def bindr_eq_Inr)
  obtain p where u: "pool_update_rewards (fd_pool ctx) (current_time env) = Inr p"
    using h by (auto simp: handle_fund_reward_def Let_def bindr_eq_Inr simp del: bindr_assoc)
  have rate: "update_rate_after_funding ((campaign p i)\<lparr> ri_cumulative_seconds_with_empty_liquidity_reward := 0 \<rparr>)
      (current_time env) total = Inr (campaign p' i)"
    and p': "p' = p\<lparr> pool_reward_infos := arr_set (pool_reward_infos p) (unat i) (campaign p' i) \<rparr>"
    and i: "unat i < NUM_REWARDS"
    by (rule handle_fund_reward_frame [OF h u]; assumption)+
  have ri': "ri' = campaign p' i" using at i by (auto simp: arr_get_eq_Inr campaign_def index_u8)
  note view = view_reward_rate [OF rate, folded ri'] and p' = p' [folded ri']
  have "view_pool p' h = edit_campaign (\<lambda>c. c\<lparr> cv_duration_end := ri_reward_duration_end ri',
      cv_rate := ri_reward_rate ri' \<rparr>) i (view_pool p h)" for h
    unfolding p'
    by (intro edit_campaign_view [THEN iffD2, symmetric])
      (use view i in \<open>auto simp: index_u8 campaign_def view_reward_def NUM_REWARDS_def\<close>)
  then show ?thesis by (simp add: told_def e emit_fund_reward_def assms(1) view_pool_update [OF u])
qed

lemma admin_told:
  assumes "admin_loads ch mints key w ix" and "dispatch_admin env key (w_vestings w) ix = Inr e"
  shows "told w e"
proof (cases ix)
  case (InitializeReward ctx i duration funder)
  then show ?thesis using assms
    by (auto simp: told_def bindr_eq_Inr handle_initialize_reward_def emit_initialize_reward_def Let_def arr_get_eq_Inr
        index_u8 init_reward_def view_reward_def intro!: edit_campaign_view [THEN iffD2, symmetric])
next
  case (FundReward ctx i amount carry)
  then show ?thesis using assms fund_reward_told by auto
next
  case (WithdrawIneligibleReward ctx i)
  then obtain p r p' where u: "pool_update_rewards (fd_pool ctx) (current_time env) = Inr p"
    and c: "claim_ineligible_reward p (unat i) = Inr (p', r)"
    and e: "ef_pool e = p'" "ef_positions e = []" "ef_events e = [emit_withdraw_ineligible_reward key ctx r]"
    using assms(2) by (auto simp: withdraw_ineligible_reward_def handle_withdraw_ineligible_reward_def bindr_eq_Inr Let_def)
  have "view_pool p' h = view_pool p h" for h
    using c by (auto simp: claim_ineligible_reward_def bindr_eq_Inr arr_get_eq_Inr view_pool_def view_reward_def)
  then show ?thesis
    using assms(1) WithdrawIneligibleReward
    by (simp add: told_def e emit_withdraw_ineligible_reward_def view_pool_update [OF u])
next
  case (UpdateRewardFunder p signer i funder)
  then show ?thesis using assms
    by (auto simp: told_def bindr_eq_Inr handle_update_reward_funder_def emit_update_reward_funder_def Let_def arr_get_eq_Inr
        index_u8 view_reward_def intro!: edit_campaign_view [THEN iffD2, symmetric])
next
  case (UpdateRewardDuration p signer i duration)
  then show ?thesis using assms
    by (auto simp: told_def bindr_eq_Inr handle_update_reward_duration_def emit_update_reward_duration_def Let_def
        arr_get_eq_Inr index_u8 view_reward_def intro!: edit_campaign_view [THEN iffD2, symmetric])
next
  case (SetPoolStatus p admin status)
  then show ?thesis using assms
    by (auto simp: told_def bindr_eq_Inr set_pool_status_eq_Inr emit_set_pool_status_def view_pool_def)
next
  case (ClaimProtocolFee ctx ma mb)
  then show ?thesis using assms
    by (auto simp: told_def bindr_eq_Inr claim_protocol_fee_eq_Inr emit_claim_protocol_fee_def view_pool_def
        elim!: claim_protocol_fee_frame)
next
  case (ClaimPartnerFee ctx ma mb)
  then show ?thesis using assms
    by (auto simp: told_def bindr_eq_Inr claim_partner_fee_eq_Inr emit_claim_partner_fee_def view_pool_def
        elim!: claim_partner_fee_frame)
qed

section \<open>The log of a pool is its journal\<close>

lemma summary_of_tokens [simp]: "summary_of (w\<lparr> w_tokens := b \<rparr>) = summary_of w"
  by (simp add: summary_of_def)

lemma dispatch_told:
  assumes "loads ch mints key w ix" and "dispatch env key (w_vestings w) ix = Inr e"
  shows "summary_of (after w e b) = fold read (ef_events e) (summary_of w)"
proof -
  have "told w e" using assms admin_told user_told by (cases ix) auto
  then show ?thesis by (simp add: told_def summary_of_def after_def)
qed

lemma log_start_read:
  assumes "log_start ch key w evs"
  shows "summary_of w = fold read evs blank"
  using assms
  by cases
    (auto simp: initialize_pool_def initialize_pool_with_dynamic_config_def initialize_customizable_pool_def
      handle_initialize_pool_def handle_initialize_pool_with_dynamic_config_def handle_initialize_customizable_pool_def
      open_customizable_pool_def open_pool_def pos_initialize_def pool_initialize_def increase_position_def
      emit_first_position_def emit_initialize_pool_def emit_initialize_customizable_pool_def
      read_initialize_pool_def summary_of_def blank_def view_pool_def holding_def default_position_def
      bindr_eq_Inr Let_def fun_eq_iff)

lemma log_step_read: "log_step ch key w evs w' \<Longrightarrow> summary_of w' = fold read evs (summary_of w)"
  by (auto elim!: log_step.cases executeE simp: dispatch_told)

interpretation pool_journal: journal "log_start ch key" "log_step ch key" summary_of read blank for ch key
  by unfold_locales (simp_all add: log_start_read log_step_read)

end
