(* ===== verification/Governance.thy ===== *)
theory Governance
  imports Entry
begin

text \<open>
  The entry points of \<open>lib.rs\<close> on the accounts of the admins: configurations, fee operators and token
  badges. The accounts of the program under their addresses form a registry; what holds of every
  account it can come to hold is what the instructions that read such an account rely on.
\<close>

section \<open>The registry and its entry points\<close>

record registry =
  rg_configs :: "pubkey \<Rightarrow> config option"
  rg_operators :: "pubkey \<Rightarrow> claim_fee_operator option"
  rg_badges :: "pubkey \<Rightarrow> token_badge option"

definition occupied :: "registry \<Rightarrow> pubkey \<Rightarrow> bool" where
  "occupied rg k \<longleftrightarrow> rg_configs rg k \<noteq> None \<or> rg_operators rg k \<noteq> None \<or> rg_badges rg k \<noteq> None"

text \<open>The first key is the account, the last one of a closing the receiver of its rent.\<close>

datatype config_instruction =
    CreateConfig pubkey u64 static_config_parameters
  | CreateDynamicConfig pubkey u64 pubkey
  | CreateTokenBadge pubkey mint_account
  | CreateClaimFeeOperator pubkey pubkey
  | CloseClaimFeeOperator pubkey pubkey
  | CloseConfig pubkey pubkey
  | CloseTokenBadge pubkey pubkey

fun dispatch_config :: "environment \<Rightarrow> pubkey \<Rightarrow> registry \<Rightarrow> config_instruction \<Rightarrow> (registry \<times> event list) result" where
  "dispatch_config env admin rg (CreateConfig account index config_parameters) =
     bindr (handle_create_static_config env account (occupied rg account) admin index config_parameters) (\<lambda>cf.
     Inr (rg\<lparr> rg_configs := (rg_configs rg)(account \<mapsto> cf) \<rparr>, [emit_create_config account index config_parameters]))"
| "dispatch_config env admin rg (CreateDynamicConfig account index pool_creator_authority) =
     bindr (handle_create_dynamic_config env account (occupied rg account) admin index pool_creator_authority) (\<lambda>cf.
     Inr (rg\<lparr> rg_configs := (rg_configs rg)(account \<mapsto> cf) \<rparr>,
          [emit_create_dynamic_config account index pool_creator_authority]))"
| "dispatch_config env admin rg (CreateTokenBadge account m) =
     bindr (handle_create_token_badge env account (occupied rg account) m admin) (\<lambda>tb.
     Inr (rg\<lparr> rg_badges := (rg_badges rg)(account \<mapsto> tb) \<rparr>, [emit_create_token_badge m]))"
| "dispatch_config env admin rg (CreateClaimFeeOperator account operator) =
     bindr (handle_create_claim_fee_operator env account (occupied rg account) operator admin) (\<lambda>co.
     Inr (rg\<lparr> rg_operators := (rg_operators rg)(account \<mapsto> co) \<rparr>, [emit_create_claim_fee_operator operator]))"
| "dispatch_config env admin rg (CloseClaimFeeOperator account rent_receiver) =
     bindr (ok_or (rg_operators rg account) (Constraint ConstraintAccountLoader)) (\<lambda>co.
     bindr (handle_close_claim_fee_operator rent_receiver admin) (\<lambda>_.
     Inr (rg\<lparr> rg_operators := (rg_operators rg)(account := None) \<rparr>, [emit_close_claim_fee_operator account co])))"
| "dispatch_config env admin rg (CloseConfig account rent_receiver) =
     bindr (ok_or (rg_configs rg account) (Constraint ConstraintAccountLoader)) (\<lambda>_.
     bindr (handle_close_config rent_receiver admin) (\<lambda>_.
     Inr (rg\<lparr> rg_configs := (rg_configs rg)(account := None) \<rparr>, [emit_close_config account admin])))"
| "dispatch_config env admin rg (CloseTokenBadge account rent_receiver) =
     bindr (ok_or (rg_badges rg account) (Constraint ConstraintAccountLoader)) (\<lambda>_.
     bindr (handle_close_token_badge rent_receiver admin) (\<lambda>_.
     Inr (rg\<lparr> rg_badges := (rg_badges rg)(account := None) \<rparr>, [])))"

section \<open>What the registry can hold\<close>

text \<open>The program starts with no account of its own; addresses are derived by \<open>pda\<close> at all times.\<close>

definition no_accounts :: registry where
  "no_accounts = \<lparr> rg_configs = Map.empty, rg_operators = Map.empty, rg_badges = Map.empty \<rparr>"

inductive governed :: "(string \<Rightarrow> pubkey list \<Rightarrow> pubkey) \<Rightarrow> registry \<Rightarrow> registry \<Rightarrow> bool" for pda where
  call: "env_pda env = pda \<Longrightarrow> dispatch_config env admin rg ix = Inr (rg', evs) \<Longrightarrow> governed pda rg rg'"

definition static_config_ok :: "config \<Rightarrow> bool" where
  "static_config_ok cf \<longleftrightarrow> MIN_SQRT_PRICE \<le> cf_sqrt_min_price cf \<and> cf_sqrt_min_price cf < cf_sqrt_max_price cf \<and>
     cf_sqrt_max_price cf \<le> MAX_SQRT_PRICE \<and> collect_fee_mode_try_from (cf_collect_fee_mode cf) \<noteq> None \<and>
     (\<exists>t. to_activation_type (cf_activation_type cf) = Inr t) \<and>
     (\<exists>pp. cf_pool_fees cf = to_pool_fees_config pp \<and> pool_fee_validate pp = Inr ())"

definition dynamic_config_ok :: "config \<Rightarrow> bool" where
  "dynamic_config_ok cf \<longleftrightarrow> cf_pool_creator_authority cf \<noteq> default_pubkey"

definition config_ok :: "(string \<Rightarrow> pubkey list \<Rightarrow> pubkey) \<Rightarrow> pubkey \<Rightarrow> config \<Rightarrow> bool" where
  "config_ok pda k cf \<longleftrightarrow> k = pda ''config'' [ucast (cf_index cf)] \<and>
     (get_config_type cf = Inr Static \<and> static_config_ok cf \<or> get_config_type cf = Inr Dynamic \<and> dynamic_config_ok cf)"

definition registry_ok :: "(string \<Rightarrow> pubkey list \<Rightarrow> pubkey) \<Rightarrow> registry \<Rightarrow> bool" where
  "registry_ok pda rg \<longleftrightarrow>
     (\<forall>k cf. rg_configs rg k = Some cf \<longrightarrow> config_ok pda k cf) \<and>
     (\<forall>k co. rg_operators rg k = Some co \<longrightarrow> k = pda ''cf_operator'' [co_operator co]) \<and>
     (\<forall>k tb. rg_badges rg k = Some tb \<longrightarrow> k = pda ''token_badge'' [tb_token_mint tb])"

lemma created_static_config_ok:
  assumes "handle_create_static_config env account ex admin index params = Inr cf"
  shows "config_ok (env_pda env) account cf" and "assert_eq_admin admin" and "\<not> ex"
proof -
  have a: "account = env_pda env ''config'' [ucast index]" and e: "\<not> ex" and ad: "assert_eq_admin admin"
    and cf: "cf = init_static_config default_config index (st_pool_fees params) (st_vault_config_key params)
            (st_pool_creator_authority params) (st_activation_type params) (st_sqrt_min_price params)
            (st_sqrt_max_price params) (st_collect_fee_mode params)"
    and ok: "MIN_SQRT_PRICE \<le> st_sqrt_min_price params" "st_sqrt_max_price params \<le> MAX_SQRT_PRICE"
      "st_sqrt_min_price params < st_sqrt_max_price params" "collect_fee_mode_try_from (st_collect_fee_mode params) \<noteq> None"
      "pool_fee_validate (st_pool_fees params) = Inr ()"
    and t: "\<exists>t. to_activation_type (st_activation_type params) = Inr t"
    using assms
    by (auto simp: handle_create_static_config_def check_init_def check_admin_eq_Inr require_eq_Inr
        get_max_activation_point_def Let_def bindr_eq_Inr)
  show "config_ok (env_pda env) account cf"
    using ok t by (auto simp: config_ok_def static_config_ok_def cf init_static_config_def a get_config_type_def
        config_type_try_from_def config_type_u8_def)
  show "assert_eq_admin admin" "\<not> ex" by (rule ad) (rule e)
qed

lemma created_dynamic_config_ok:
  assumes "handle_create_dynamic_config env account ex admin index authority = Inr cf"
  shows "config_ok (env_pda env) account cf" and "assert_eq_admin admin" and "\<not> ex"
  using assms
  by (auto simp: handle_create_dynamic_config_def check_init_def check_admin_eq_Inr require_eq_Inr
      bindr_eq_Inr config_ok_def dynamic_config_ok_def init_dynamic_config_def get_config_type_def
      config_type_try_from_def config_type_u8_def)

lemma no_accounts_ok: "registry_ok pda no_accounts"
  by (simp add: registry_ok_def no_accounts_def)

lemma governed_ok:
  assumes "governed pda rg rg'" and "registry_ok pda rg"
  shows "registry_ok pda rg'"
  using assms(1)
proof cases
  case (call env admin ix evs)
  have pda: "pda = env_pda env" using call(1) by simp
  show ?thesis
    using call(2) assms(2) unfolding pda
    by (cases ix)
      (auto simp: registry_ok_def bindr_eq_Inr created_static_config_ok created_dynamic_config_ok
        handle_create_token_badge_def handle_create_claim_fee_operator_def token_badge_initialize_def
        claim_fee_operator_initialize_def check_init_def require_eq_Inr split: if_splits)
qed

interpretation governance: state_invariant "\<lambda>rg. rg = no_accounts" "governed pda" "registry_ok pda" for pda
  by unfold_locales (simp add: no_accounts_ok, rule governed_ok)

text \<open>Nobody but an admin changes the registry.\<close>

lemma governed_by_admin:
  assumes "dispatch_config env admin rg ix = Inr r"
  shows "assert_eq_admin admin"
  using assms
  by (cases ix)
    (auto simp: bindr_eq_Inr check_admin_eq_Inr handle_create_static_config_def handle_create_dynamic_config_def
      handle_create_token_badge_def handle_create_claim_fee_operator_def handle_close_claim_fee_operator_def
      handle_close_config_def handle_close_token_badge_def)

section \<open>Pools that are opened\<close>

text \<open>What every new pool has, from whichever parameters it was opened.\<close>

definition opened_valid :: "pool \<Rightarrow> bool" where
  "opened_valid p \<longleftrightarrow> MIN_SQRT_PRICE \<le> pool_sqrt_min_price p \<and> pool_sqrt_min_price p \<le> pool_sqrt_price p \<and>
     pool_sqrt_price p \<le> pool_sqrt_max_price p \<and> pool_sqrt_max_price p \<le> MAX_SQRT_PRICE \<and>
     pool_sqrt_min_price p < pool_sqrt_max_price p \<and> 0 < pool_liquidity p \<and>
     collect_fee_mode_try_from (pool_collect_fee_mode p) \<noteq> None \<and>
     (\<exists>t. to_activation_type (pool_activation_type p) = Inr t) \<and>
     (\<exists>pp. pool_fee_validate pp = Inr () \<and> pool_fees p = to_pool_fees_struct pp)"

lemma initialize_pool_valid:
  assumes "handle_initialize_pool env ctx params = Inr (p, pos, nft, trs)"
    and "config_ok pda k (ip_config ctx)"
  shows "opened_valid p"
proof -
  have s: "static_config_ok (ip_config ctx)"
    using assms by (auto simp: handle_initialize_pool_def config_ok_def Let_def bindr_eq_Inr require_eq_Inr)
  then obtain pp where pp: "cf_pool_fees (ip_config ctx) = to_pool_fees_config pp" "pool_fee_validate pp = Inr ()"
    by (auto simp: static_config_ok_def)
  show ?thesis
    using assms(1) s pp
    by (auto simp: handle_initialize_pool_def open_pool_def pos_initialize_def pool_initialize_def opened_valid_def
        static_config_ok_def config_struct_agrees Let_def bindr_eq_Inr require_eq_Inr)
qed

lemma initialize_with_parameters_valid:
  assumes "handle_initialize_customizable_pool env ctx params = Inr (p, pos, nft, trs) \<or>
    handle_initialize_pool_with_dynamic_config env ctx params = Inr (p, pos, nft, trs)"
  shows "opened_valid p"
  using assms
  by (auto simp: handle_initialize_customizable_pool_def handle_initialize_pool_with_dynamic_config_def
      open_customizable_pool_def open_pool_def customizable_validate_def pos_initialize_def pool_initialize_def
      opened_valid_def get_current_point_def Let_def bindr_eq_Inr require_eq_Inr ok_or_eq_Inr)

end
