(* ===== verification/LogProperties.thy ===== *)
theory LogProperties
  imports LogReader Governance Samples PoolTerms
begin

text \<open>
  The program as its callers see it: its entry points, its log of events and its registry of
  configurations, and what they guarantee together.
\<close>

section \<open>The log\<close>

lemma sample_growing:
  obtains w evs where "pool_logged sample_chain 28 w evs" and "w_pool w = fst sample_grown"
    and "w_positions w = [68 \<mapsto> snd sample_grown]"
proof -
  let ?ctx = "sample_liquidity_ctx sample_pool sample_position"
  let ?params = "\<lparr> al_liquidity_delta = 2 ^ 100, al_token_a_amount_threshold = 2 ^ 40, al_token_b_amount_threshold = 2 ^ 40 \<rparr>"
  obtain evs where start: "log_start sample_chain 28 sample_world evs"
    using sample_log_start by blast
  obtain e where e: "add_liquidity sample_env Map.empty 68 ?ctx ?params = Inr e"
    using add_liquidity_emits [OF sample_add] by blast
  have parts: "ef_pool e = fst sample_grown" "ef_positions e = [(68, Some (snd sample_grown))]" "ef_vault e = None"
    "ef_transfers e = [transfer_from_user 40 (sample_mint 11) (sample_account 31 11 40) (sample_account 50 11 1) 68719476720,
      transfer_from_user 40 (sample_mint 12) (sample_account 32 12 40) (sample_account 51 12 1) 68719476720]"
    using e unfolding add_liquidity_def sample_add by (auto simp: bindr_eq_Inr)
  obtain b where run: "run_transfers sample_chain sample_mint (ef_transfers e) (w_tokens sample_world) = Some b"
    unfolding parts
    by (simp add: sample_chain_def sample_owner_def sample_transfer_def sample_world_def sample_tokens_def
        sample_received sample_mint_key sample_account_def transfer_from_user_def)
  have "execute sample_chain sample_mint sample_env 28 (User (AddLiquidity 68 ?ctx ?params)) sample_world =
      Some (after sample_world e b, ef_events e)"
  proof -
    have "user_loads sample_chain sample_mint 28 sample_world (AddLiquidity 68 ?ctx ?params)"
      by (simp add: liquidity_loads_def sample_liquidity_ctx_def sample_world_def sample_chain_def sample_sees)
    moreover have "env_pool_authority sample_env = ch_pool_authority sample_chain"
      by (simp add: sample_env_def sample_chain_def)
    moreover have "w_vestings sample_world = Map.empty" by (simp add: sample_world_def)
    ultimately show ?thesis using e run parts(3) by (simp add: execute_def)
  qed
  moreover have "pool_logged sample_chain 28 sample_world evs" by (rule logged.opened) (rule start)
  ultimately have "pool_logged sample_chain 28 (after sample_world e b) (evs @ ef_events e)"
    by (blast intro: logged.appended log_step.call)
  then show ?thesis by (rule that) (simp_all add: after_def parts sample_world_def)
qed

text \<open>C14: The log tells the pool: reading the events that the entry points emit, from the opening of a pool on and
  nothing else, gives at every moment exactly what its accounts hold of prices, liquidity, fees per unit of
  liquidity, fees of the protocol and the partner, status, permanent lock, number of positions, reward campaigns and the liquidity
  of every position; every event names the pool; and whatever the entry points do is a sequence of the
  steps of the pool, so that everything shown of reachable pools holds of it.\<close>

theorem log_tells_the_pool:
  assumes "pool_logged ch key w evs"
  shows "fold read evs blank = summary_of w \<and> (\<forall>e\<in>set evs. event_pool e = Some key) \<and> pool_reachable ch w"
  using pool_journal.replay [OF assms] pool_logged_names_pool [OF assms] pool_logged_reachable [OF assms] by blast

lemma log_tells_the_pool_witness:
  "\<exists>evs. su_liquidity (fold read evs blank) = 2 ^ 101 \<and> su_holdings (fold read evs blank) 68 = Some (2 ^ 101) \<and>
     (\<forall>e\<in>set evs. event_pool e = Some 28)"
proof -
  obtain w evs where log: "pool_logged sample_chain 28 w evs" and w: "w_pool w = fst sample_grown"
    "w_positions w = [68 \<mapsto> snd sample_grown]"
    by (rule sample_growing)
  have "su_liquidity (summary_of w) = 2 ^ 101" "su_holdings (summary_of w) 68 = Some (2 ^ 101)"
    by (simp_all add: summary_of_def w sample_grown_def view_pool_def holding_def sample_position_def default_position_def)
  then show ?thesis using log_tells_the_pool [OF log] by metis
qed

section \<open>Every pool of the program\<close>

text \<open>C13: Every pool is valid for life: whatever configurations the admins have created and closed since the program
  has no accounts, a pool opened from one of them or from parameters of its creator has, in every world
  it goes through, a price range inside the bounds of the code with its price in it, and fees that can be
  computed for every amount and time; a static configuration is never checked again when a pool is opened.\<close>

theorem every_pool_is_valid:
  assumes "reachable (\<lambda>rg. rg = no_accounts) (governed (env_pda env)) rg"
    and "rg_configs rg (ip_config_key ctx) = Some (ip_config ctx) \<and>
           initialize_pool env ctx params = Inr (p, pos, nft, trs, evs) \<or>
         initialize_pool_with_dynamic_config env ctx cparams = Inr (p, pos, nft, trs, evs) \<or>
         initialize_customizable_pool env ctx cparams = Inr (p, pos, nft, trs, evs)"
    and "token_program_ok ch" and "pool_reachable ch w" and "w_pool w = p" and "(pool_step ch)\<^sup>*\<^sup>* w w'"
  defines "q \<equiv> w_pool w'"
  shows "MIN_SQRT_PRICE \<le> pool_sqrt_min_price q \<and> pool_sqrt_min_price q < pool_sqrt_max_price q \<and>
    pool_sqrt_max_price q \<le> MAX_SQRT_PRICE \<and> pool_sqrt_min_price q \<le> pool_sqrt_price q \<and>
    pool_sqrt_price q \<le> pool_sqrt_max_price q \<and>
    (\<exists>r. get_fee_on_amount (pool_fees q) amount referral point (pool_activation_point q) partner = Inr r)"
proof -
  have ok: "config_ok (env_pda env) k cf" if "rg_configs rg k = Some cf" for k cf
    using governance.always [OF assms(1)] that by (simp add: registry_ok_def)
  have valid: "opened_valid p"
    using assms(2)
  proof (elim disjE conjE)
    assume "rg_configs rg (ip_config_key ctx) = Some (ip_config ctx)" and "initialize_pool env ctx params = Inr (p, pos, nft, trs, evs)"
    then show ?thesis
      using initialize_pool_valid [OF _ ok] by (auto simp: initialize_pool_def bindr_eq_Inr Let_def)
  qed (auto simp: initialize_pool_with_dynamic_config_def initialize_customizable_pool_def bindr_eq_Inr
        intro: initialize_with_parameters_valid [OF disjI1] initialize_with_parameters_valid [OF disjI2])
  then obtain pp where pp: "pool_fee_validate pp = Inr ()" "pool_fees p = to_pool_fees_struct pp"
    by (auto simp: opened_valid_def)
  have reach: "pool_reachable ch w'" by (rule reachable_steps [OF assms(6,4)])
  have terms: "pool_terms q = pool_terms p"
    using terms.steps_le [OF assms(6)] assms(5) by (simp add: terms_kept_def q_def)
  have range: "pool_sqrt_min_price q = pool_sqrt_min_price p" "pool_sqrt_max_price q = pool_sqrt_max_price p"
    using arg_cong [OF terms, of pool_sqrt_min_price] arg_cong [OF terms, of pool_sqrt_max_price]
    by (simp_all add: pool_terms_def)
  have books: "books_ok q (w_positions w')"
    using pool_reachable_solvent [OF reach assms(3)] by (simp add: solvent_def q_def)
  have "volatility_ok q" using pool_reachable_ok [OF reach] by (simp add: pool_ok_def q_def)
  then have "fees_from pp (pool_fees q)" using pool_terms_fees [OF terms] fees_from_new pp(2) by metis
  moreover have "base_fee_validate (pp_base_fee pp) = Inr ()" using pp(1) by (auto simp: pool_fee_validate_def bindr_eq_Inr)
  ultimately show ?thesis
    using valid books fees_from_total range by (auto simp: opened_valid_def books_ok_def)
qed

lemma every_pool_is_valid_witness:
  "\<exists>r. get_fee_on_amount (pool_fees (w_pool sample_locked_world)) 12345 False 77
     (pool_activation_point (w_pool sample_locked_world)) False = Inr r"
proof -
  obtain nft evs where init: "initialize_customizable_pool sample_env sample_init_ctx sample_init_params =
     Inr (sample_pool, sample_position, nft, initial_transfers sample_init_ctx 68719476720 68719476720, evs)"
    using sample_init opening_emits(2) by blast
  have start: "reachable (\<lambda>rg. rg = no_accounts) (governed (env_pda sample_env)) no_accounts"
    by (rule reachable.init) (rule refl)
  have pool: "w_pool sample_world = sample_pool" by (simp add: sample_world_def)
  show ?thesis
    using every_pool_is_valid [OF start disjI2 [OF disjI2 [OF init]] sample_chain_ok sample_reachable pool
      r_into_rtranclp [of "pool_step sample_chain", OF sample_lock_step]] by blast
qed

end
