(* ===== verification/PoolLocks.thy ===== *)
theory PoolLocks
  imports PoolTerms
begin

text \<open>
  The locks of a pool in all its states: the permanently locked total that the pool records is the
  sum over its positions, and the vested liquidity of a position is exactly what its vesting
  accounts have not released yet.
\<close>

section \<open>The invariant\<close>

definition perm :: "position \<Rightarrow> real" where
  "perm pos = real (unat (pos_permanent_locked_liquidity pos))"

definition vested_at :: "world \<Rightarrow> pubkey \<Rightarrow> nat" where
  "vested_at w k = (case w_positions w k of Some pos \<Rightarrow> unat (pos_vested_liquidity pos) | None \<Rightarrow> 0)"

definition released_ok :: "(pubkey \<Rightarrow> vesting option) \<Rightarrow> bool" where
  "released_ok vs \<longleftrightarrow> (\<forall>k v. vs k = Some v \<longrightarrow>
     unat (v_total_released_liquidity v) \<le> total_lock v \<and> total_lock v < 2 ^ 128)"

definition locks_ok :: "world \<Rightarrow> bool" where
  "locks_ok w \<longleftrightarrow> total perm (w_positions w) = real (unat (pool_permanent_lock_liquidity (w_pool w))) \<and>
     (\<forall>k. locked_in (w_vestings w) k = vested_at w k) \<and> released_ok (w_vestings w)"

lemma locks_ok_backed: "locks_ok w \<Longrightarrow> w_positions w k = Some pos \<Longrightarrow> vesting_backed (w_vestings w) k pos"
  by (auto simp: locks_ok_def released_ok_def vesting_backed_def vested_at_def)

definition same_locks :: "position \<Rightarrow> position \<Rightarrow> bool" where
  "same_locks pos pos' \<longleftrightarrow> pos_permanent_locked_liquidity pos' = pos_permanent_locked_liquidity pos \<and>
     pos_vested_liquidity pos' = pos_vested_liquidity pos"

lemma same_locks_trans: "same_locks p q \<Longrightarrow> same_locks q r \<Longrightarrow> same_locks p r"
  by (simp add: same_locks_def)

lemma locks_same:
  assumes "locks_ok w" and "terms_step (w_pool w) (w_pool w')" and "w_positions w k = Some pos" and "same_locks pos pos'"
    and "w_positions w' = (w_positions w)(k \<mapsto> pos')" and "w_vestings w' = w_vestings w"
  shows "locks_ok w'"
proof -
  have "total perm (w_positions w') = total perm (w_positions w)"
    using assms(4) total_update [of "w_positions w" k pos perm pos', OF assms(3)] by (simp add: assms(5) perm_def same_locks_def)
  moreover have "vested_at w' j = vested_at w j" for j
    using assms(3,4) by (auto simp: vested_at_def assms(5) same_locks_def)
  ultimately show ?thesis using assms(1,2) by (simp add: locks_ok_def assms(6) terms_step_def)
qed

lemma locks_quiet:
  assumes "locks_ok w" and "pool_permanent_lock_liquidity (w_pool w') = pool_permanent_lock_liquidity (w_pool w)"
    and "w_positions w' = w_positions w" and "w_vestings w' = w_vestings w"
  shows "locks_ok w'"
  using assms by (simp add: locks_ok_def vested_at_def)

section \<open>Operations that leave the locks of a position alone\<close>

lemma pos_update_rewards_locks:
  assumes "pos_update_rewards pos p now = Inr (pos', p')"
  shows "same_locks pos pos'"
  by (rule pos_update_rewards_frame [OF assms]) (simp add: same_locks_def)

lemma update_fee_locks: "update_fee pos a b = Inr pos' \<Longrightarrow> same_locks pos pos'"
  by (simp add: same_locks_def update_fee_liquidity)

lemma add_liquidity_locks:
  assumes "handle_add_liquidity env ctx params = Inr (p', pos', trs)"
  shows "same_locks (lc_position ctx) pos'"
proof -
  obtain p pos where r: "pos_update_rewards (lc_position ctx) (lc_pool ctx) (current_time env) = Inr (pos, p)"
    and a: "apply_add_liquidity p pos (al_liquidity_delta params) = Inr (p', pos')"
    by (rule handle_add_liquidity_frame [OF assms])
  have "same_locks pos pos'"
    by (rule apply_add_liquidity_frame [OF a]) (drule update_fee_locks, simp add: same_locks_def)
  then show ?thesis using pos_update_rewards_locks [OF r] same_locks_trans by blast
qed

lemma remove_liquidity_locks:
  assumes "handle_remove_liquidity env ctx d min_a min_b = Inr (p', pos', trs)"
  shows "same_locks (lc_position ctx) pos'"
proof -
  obtain p pos where r: "pos_update_rewards (lc_position ctx) (lc_pool ctx) (current_time env) = Inr (pos, p)"
    and a: "apply_remove_liquidity p pos (case d of Some d \<Rightarrow> d | None \<Rightarrow> pos_unlocked_liquidity (lc_position ctx)) = Inr (p', pos')"
    by (rule handle_remove_liquidity_frame [OF assms])
  have "same_locks pos pos'"
    by (rule apply_remove_liquidity_frame [OF a]) (drule update_fee_locks, simp add: same_locks_def)
  then show ?thesis using pos_update_rewards_locks [OF r] same_locks_trans by blast
qed

lemma claim_fee_locks:
  assumes "handle_claim_position_fee env ctx = Inr (pos', trs)"
  shows "same_locks (lc_position ctx) pos'"
  by (rule claim_position_fee_frame [OF assms]) (drule update_fee_locks, simp add: same_locks_def reset_pending_fee_def)

lemma claim_reward_locks:
  assumes "handle_claim_reward env ctx i skip = Inr (p', pos', trs)"
  shows "same_locks (cr_position ctx) pos'"
proof -
  obtain pos p r where u: "pos_update_rewards (cr_position ctx) (cr_pool ctx) (current_time env) = Inr (pos, p)"
    and c: "pos_claim_reward pos (unat i) = Inr (pos', r)"
    using assms by (auto simp: handle_claim_reward_def bindr_eq_Inr Let_def split: if_splits prod.splits)
  have "same_locks pos pos'" using c
    by (auto simp: pos_claim_reward_def bindr_eq_Inr accumulate_total_claimed_rewards_def
        reset_all_pending_reward_def same_locks_def)
  then show ?thesis using pos_update_rewards_locks [OF u] same_locks_trans by blast
qed

section \<open>Operations on the locks\<close>

lemma vested_le_liquidity: "unat (pos_vested_liquidity pos) \<le> pos_liquidity pos"
  "unat (pos_permanent_locked_liquidity pos) \<le> pos_liquidity pos"
  by (simp_all add: pos_liquidity_def)

lemma create_position_locks:
  assumes "locks_ok w" and "cp_pool ctx = w_pool w"
    and "w_positions w (cp_position_key ctx) \<noteq> None \<longrightarrow> cp_accounts_exist ctx"
    and "handle_create_position env ctx = Inr (p', pos', nft)"
  shows "locks_ok (w\<lparr> w_pool := p', w_positions := (w_positions w)(cp_position_key ctx \<mapsto> pos') \<rparr>)"
proof -
  let ?k = "cp_position_key ctx"
  have init: "pos_initialize default_position (cp_pool ctx) (cp_pool_key ctx) (cp_position_nft_mint ctx) 0 = (pos', p')"
    and none: "w_positions w ?k = None"
    using assms(3,4)
    by (auto simp: handle_create_position_def bindr_eq_Inr require_eq_Inr Let_def split: prod.splits)
  have new: "pos_vested_liquidity pos' = 0" "perm pos' = 0"
    using init by (auto simp: pos_initialize_def default_position_def perm_def)
  have "total perm ((w_positions w)(?k \<mapsto> pos')) = total perm (w_positions w)"
    using total_new [of "w_positions w" ?k perm pos', OF none] new by simp
  moreover have "pool_permanent_lock_liquidity p' = pool_permanent_lock_liquidity (w_pool w)"
    using create_position_terms [OF assms(4)] assms(2) by (simp add: terms_step_def)
  moreover have "vested_at (w\<lparr> w_pool := p', w_positions := (w_positions w)(?k \<mapsto> pos') \<rparr>) j = vested_at w j" for j
    using none new by (simp add: vested_at_def)
  ultimately show ?thesis using assms(1) by (simp add: locks_ok_def)
qed

lemma close_position_locks:
  assumes "locks_ok w" and "cl_pool ctx = w_pool w" and "w_positions w k = Some (cl_position ctx)"
    and "handle_close_position env ctx = Inr (p', nft)"
  shows "locks_ok (w\<lparr> w_pool := p', w_positions := (w_positions w)(k := None) \<rparr>)"
proof -
  have "pos_liquidity (cl_position ctx) = 0"
    using assms(4) by (auto simp: handle_close_position_def bindr_eq_Inr require_eq_Inr pos_is_empty_eq_Inr)
  then have none: "unat (pos_vested_liquidity (cl_position ctx)) = 0" "perm (cl_position ctx) = 0"
    using vested_le_liquidity [of "cl_position ctx"] by (simp_all add: perm_def)
  have "total perm ((w_positions w)(k := None)) = total perm (w_positions w)"
    using total_delete [of "w_positions w" k "cl_position ctx" perm, OF assms(3)] none by simp
  moreover have "pool_permanent_lock_liquidity p' = pool_permanent_lock_liquidity (w_pool w)"
    using close_position_terms [OF assms(4)] assms(2) by (simp add: terms_step_def)
  moreover have "vested_at (w\<lparr> w_pool := p', w_positions := (w_positions w)(k := None) \<rparr>) j = vested_at w j" for j
    using assms(3) none by (simp add: vested_at_def)
  ultimately show ?thesis using assms(1) by (simp add: locks_ok_def)
qed

lemma permanent_lock_locks:
  assumes "locks_ok w" and "pl_pool ctx = w_pool w" and "w_positions w k = Some (pl_position ctx)"
    and "handle_permanent_lock_position env ctx l = Inr (p', pos')"
  shows "locks_ok (w\<lparr> w_pool := p', w_positions := (w_positions w)(k \<mapsto> pos') \<rparr>)"
proof -
  obtain x where p': "p' = (w_pool w)\<lparr> pool_permanent_lock_liquidity := x \<rparr>"
    and x: "unat x = unat (pool_permanent_lock_liquidity (w_pool w)) + unat l"
    using permanent_lock_terms [OF assms(4)] assms(2) by auto
  have "permanent_lock_liquidity (pl_position ctx) l = Inr pos'"
    using assms(4) by (auto simp: handle_permanent_lock_position_def bindr_eq_Inr)
  then have pos': "pos_vested_liquidity pos' = pos_vested_liquidity (pl_position ctx)"
    "unat (pos_permanent_locked_liquidity pos') = unat (pos_permanent_locked_liquidity (pl_position ctx)) + unat l"
    by (auto simp: permanent_lock_liquidity_eq_Inr)
  have "perm pos' = perm (pl_position ctx) + real (unat l)" by (simp only: perm_def pos'(2) of_nat_add)
  then have "total perm ((w_positions w)(k \<mapsto> pos')) = total perm (w_positions w) + real (unat l)"
    using total_update [of "w_positions w" k "pl_position ctx" perm pos', OF assms(3)] by simp
  moreover have "real (unat x) = real (unat (pool_permanent_lock_liquidity (w_pool w))) + real (unat l)"
    by (simp only: x of_nat_add)
  moreover have "vested_at (w\<lparr> w_pool := p', w_positions := (w_positions w)(k \<mapsto> pos') \<rparr>) j = vested_at w j" for j
    using assms(3) pos'(1) by (simp add: vested_at_def)
  ultimately show ?thesis using assms(1) by (simp add: locks_ok_def p')
qed

lemma split_position_locks:
  assumes "locks_ok w" and "sx_pool ctx = w_pool w"
    and "w_positions w (sx_first_position_key ctx) = Some (sx_first_position ctx)"
    and "w_positions w (sx_second_position_key ctx) = Some (sx_second_position ctx)"
    and "handle_split_position2 env ctx params = Inr (p', pos1', pos2', info)"
  shows "locks_ok (w\<lparr> w_pool := p',
    w_positions := (w_positions w)(sx_first_position_key ctx \<mapsto> pos1', sx_second_position_key ctx \<mapsto> pos2') \<rparr>)"
proof -
  let ?i = "sx_first_position_key ctx" and ?j = "sx_second_position_key ctx"
  let ?f = "sx_first_position ctx" and ?s = "sx_second_position ctx"
  obtain r1 r2 amounts n1 n2 n3 n4 n5 n6 where
    r: "update_position_reward ?f p' = Inr r1" "update_position_reward ?s p' = Inr r2"
    and split: "apply_split_position p' r1 r2 n1 n2 n3 n4 n5 n6 = Inr (pos1', pos2', amounts)"
    and ne: "?i \<noteq> ?j"
    by (rule handle_split_frame [OF assms(5)])
  obtain f s where fs: "update_fee r1 (pool_fee_a_per_liquidity p') (pool_fee_b_per_liquidity p') = Inr f"
    "update_fee r2 (pool_fee_a_per_liquidity p') (pool_fee_b_per_liquidity p') = Inr s"
    and tot: "same_totals f s pos1' pos2'"
    by (rule apply_split_position_totals [OF split])
  have "same_locks ?f r1" "same_locks ?s r2"
    using r by (auto simp: update_position_reward_def bindr_eq_Inr same_locks_def)
  then have l: "same_locks ?f f" "same_locks ?s s" using update_fee_locks fs same_locks_trans by blast+
  have vest: "pos_vested_liquidity pos1' = pos_vested_liquidity ?f" "pos_vested_liquidity pos2' = pos_vested_liquidity ?s"
    using tot l by (simp_all add: same_totals_def same_locks_def)
  have "unat (pos_permanent_locked_liquidity pos1') + unat (pos_permanent_locked_liquidity pos2') =
      unat (pos_permanent_locked_liquidity ?f) + unat (pos_permanent_locked_liquidity ?s)"
    using tot l by (simp add: same_totals_def same_locks_def)
  then have perm: "perm pos1' + perm pos2' = perm ?f + perm ?s" unfolding perm_def by (metis of_nat_add)
  have at: "((w_positions w)(?i \<mapsto> pos1')) ?j = Some ?s" using assms(4) ne by simp
  have "total perm ((w_positions w)(?i \<mapsto> pos1', ?j \<mapsto> pos2')) = total perm (w_positions w)"
    using total_update [of "(w_positions w)(?i \<mapsto> pos1')" ?j ?s perm pos2', OF at]
      total_update [of "w_positions w" ?i ?f perm pos1', OF assms(3)] perm by simp
  moreover have "pool_permanent_lock_liquidity p' = pool_permanent_lock_liquidity (w_pool w)"
    using split_terms [OF assms(5)] assms(2) by (simp add: terms_step_def)
  moreover have "vested_at (w\<lparr> w_pool := p', w_positions := (w_positions w)(?i \<mapsto> pos1', ?j \<mapsto> pos2') \<rparr>) k = vested_at w k" for k
    using assms(3,4) vest by (simp add: vested_at_def)
  ultimately show ?thesis using assms(1) by (simp add: locks_ok_def)
qed

lemma lock_position_locks:
  assumes "locks_ok w" and "w_positions w (lk_position_key ctx) = Some (lk_position ctx)"
    and "handle_lock_position env (w_vestings w) ctx params = Inr (pos', vs')"
  shows "locks_ok (w\<lparr> w_positions := (w_positions w)(lk_position_key ctx \<mapsto> pos'), w_vestings := vs' \<rparr>)"
proof -
  let ?k = "lk_position_key ctx"
  note backed = lock_position_backed(1) [OF assms(3) locks_ok_backed [OF assms(1,2)]]
  obtain t v where none: "w_vestings w (lk_vesting_key ctx) = None" and lock: "lock (lk_position ctx) t = Inr pos'"
    and vs': "vs' = (w_vestings w)(lk_vesting_key ctx \<mapsto> v)" and v: "v_position v = ?k" "v_total_released_liquidity v = 0"
    and tl: "total_lock v = unat t"
    using assms(3)
    by (auto simp: handle_lock_position_def bindr_eq_Inr require_eq_Inr Let_def v_initialize_def default_vesting_def
        total_lock_def vp_total_lock_eq_Inr split: prod.splits)
  have "perm pos' = perm (lk_position ctx)" using lock by (auto simp: lock_eq_Inr perm_def)
  then have "total perm ((w_positions w)(?k \<mapsto> pos')) = total perm (w_positions w)"
    using total_update [of "w_positions w" ?k "lk_position ctx" perm pos', OF assms(2)] by simp
  moreover have "locked_in vs' j = vested_at (w\<lparr> w_positions := (w_positions w)(?k \<mapsto> pos'), w_vestings := vs' \<rparr>) j" for j
  proof (cases "j = ?k")
    case True
    then show ?thesis using backed by (simp add: vesting_backed_def vested_at_def)
  next
    case False
    then have "locked_in vs' j = locked_in (w_vestings w) j"
      unfolding vs' by (intro locked_in_other) (use none v in auto)
    then show ?thesis using assms(1) False by (simp add: locks_ok_def vested_at_def)
  qed
  moreover have "unat t < 2 ^ LENGTH(128)" by (rule unsigned_less)
  then have "released_ok vs'" using assms(1) v tl by (auto simp: vs' locks_ok_def released_ok_def split: if_splits)
  ultimately show ?thesis using assms(1) by (simp add: locks_ok_def)
qed

lemma refresh_vestings_others:
  assumes "refresh_vestings vs pos pk point keys = Inr (vs', pos')" and "released_ok vs" and "j \<noteq> pk"
  shows "perm pos' = perm pos \<and> locked_in vs' j = locked_in vs j \<and> released_ok vs'"
  using assms
proof (induction keys arbitrary: vs pos)
  case (Cons k keys)
  then obtain v v1 pos1 fin where v: "load_and_validate vs k pk = Inr v"
    and rel: "release_vesting_liquidity_to_position v pos point = Inr (v1, pos1)" and fin: "v_done v1 = Inr fin"
    and rest: "refresh_vestings (if fin then vs(k := None) else vs(k \<mapsto> v1)) pos1 pk point keys = Inr (vs', pos')"
    by (auto simp: bindr_eq_Inr split: prod.splits)
  let ?vs = "if fin then vs(k := None) else vs(k \<mapsto> v1)"
  have k: "vs k = Some v" "v_position v = pk"
    using v by (auto simp: load_and_validate_def bindr_eq_Inr ok_or_eq_Inr require_eq_Inr)
  obtain r u x where v1: "v1 = v\<lparr> v_total_released_liquidity := r \<rparr>" and r: "unat r = unlocked_at v (unat point)"
    and pos1: "pos1 = pos\<lparr> pos_vested_liquidity := x, pos_unlocked_liquidity := u \<rparr>"
    by (rule release_frame [OF rel])
  have "unat r \<le> total_lock v1" using unlocked_at_le_total [of v "unat point"] by (simp add: r v1 total_lock_def)
  moreover have "total_lock v1 = total_lock v" by (simp add: v1 total_lock_def)
  ultimately have "released_ok ?vs" using Cons.prems(2) k(1) by (simp add: released_ok_def v1)
  moreover have "locked_in ?vs j = locked_in vs j"
    using locked_in_other [of vs k j "if fin then None else Some v1"] k Cons.prems(3) by (auto simp: v1 split: if_splits)
  ultimately show ?case using Cons.IH [OF rest] Cons.prems(3) by (simp add: pos1 perm_def)
qed simp

lemma refresh_vesting_locks:
  assumes "locks_ok w" and "w_positions w (rv_position_key ctx) = Some (rv_position ctx)"
    and "handle_refresh_vesting env (w_vestings w) ctx keys = Inr (vs', pos')"
  shows "locks_ok (w\<lparr> w_positions := (w_positions w)(rv_position_key ctx \<mapsto> pos'), w_vestings := vs' \<rparr>)"
proof -
  let ?k = "rv_position_key ctx"
  obtain point where r: "refresh_vestings (w_vestings w) (rv_position ctx) ?k point keys = Inr (vs', pos')"
    using assms(3) by (auto simp: handle_refresh_vesting_def bindr_eq_Inr split: prod.splits)
  have ok: "released_ok (w_vestings w)" using assms(1) by (simp add: locks_ok_def)
  note others = refresh_vestings_others [OF r ok]
  obtain j where "j \<noteq> ?k" by (metis add_cancel_right_right zero_neq_one)
  then have perm: "perm pos' = perm (rv_position ctx)" and released: "released_ok vs'" using others by blast+
  have "total perm ((w_positions w)(?k \<mapsto> pos')) = total perm (w_positions w)"
    using total_update [of "w_positions w" ?k "rv_position ctx" perm pos', OF assms(2)] perm by simp
  moreover have "locked_in vs' j = vested_at (w\<lparr> w_positions := (w_positions w)(?k \<mapsto> pos'), w_vestings := vs' \<rparr>) j" for j
  proof (cases "j = ?k")
    case True
    then show ?thesis
      using refresh_vestings_backed [OF r locks_ok_backed [OF assms(1,2)]] by (simp add: vesting_backed_def vested_at_def)
  next
    case False
    then show ?thesis using others [OF False] assms(1) by (simp add: locks_ok_def vested_at_def)
  qed
  ultimately show ?thesis using assms(1) released by (simp add: locks_ok_def)
qed

section \<open>All reachable states\<close>

lemma pool_step_locks:
  assumes "pool_step ch w w'" and "locks_ok w"
  shows "locks_ok w'"
  using assms(1)
proof cases
  case (swap env ctx mints params p sr trs b)
  then show ?thesis
    using handle_swap_terms [of env ctx params p sr trs] by (intro locks_quiet [OF assms(2)]) (simp_all add: terms_step_def)
next
  case (add_liquidity env ctx k mints params p pos trs b)
  then show ?thesis
    using locks_same [OF assms(2), of w' k "lc_position ctx" pos] handle_add_liquidity_terms [of env ctx params p pos trs]
      add_liquidity_locks [of env ctx params p pos trs] by simp
next
  case (remove_liquidity env ctx k d min_a min_b p pos trs mints b)
  then show ?thesis
    using locks_same [OF assms(2), of w' k "lc_position ctx" pos] handle_remove_liquidity_terms [of env ctx d min_a min_b p pos trs]
      remove_liquidity_locks [of env ctx d min_a min_b p pos trs] by simp
next
  case (claim_position_fee env ctx k pos trs mints b)
  then show ?thesis
    using locks_same [OF assms(2), of w' k "lc_position ctx" pos] claim_fee_locks [of env ctx pos trs] by simp
next
  case (claim_protocol_fee env ctx ma mb p trs mints b)
  then show ?thesis
    using claim_protocol_terms [of env ctx ma mb p trs] by (intro locks_quiet [OF assms(2)]) (simp_all add: terms_step_def)
next
  case (claim_partner_fee env ctx ma mb p trs mints b)
  then show ?thesis
    using claim_partner_terms [of env ctx ma mb p trs] by (intro locks_quiet [OF assms(2)]) (simp_all add: terms_step_def)
next
  case create_position then show ?thesis using create_position_locks assms(2) by blast
next
  case close_position then show ?thesis using close_position_locks assms(2) by blast
next
  case permanent_lock_position then show ?thesis using permanent_lock_locks assms(2) by blast
next
  case split_position then show ?thesis using split_position_locks assms(2) by blast
next
  case lock_position then show ?thesis using lock_position_locks assms(2) by blast
next
  case refresh_vesting then show ?thesis using refresh_vesting_locks assms(2) by blast
next
  case (set_pool_status admin status p)
  then show ?thesis by (intro locks_quiet [OF assms(2)]) (simp_all add: set_pool_status_eq_Inr)
next
  case (initialize_reward ctx env i duration funder p)
  then show ?thesis
    using reward_terms(1) [of env ctx i duration funder p] by (intro locks_quiet [OF assms(2)]) (simp_all add: terms_step_def)
next
  case (fund_reward ctx env i amount carry p x trs mints b)
  then show ?thesis
    using fund_reward_terms [of env ctx i amount carry p x trs] by (intro locks_quiet [OF assms(2)]) (simp_all add: terms_step_def)
next
  case (withdraw_ineligible_reward ctx env i p trs mints b)
  then show ?thesis
    using reward_terms(2) [of env ctx i p trs] by (intro locks_quiet [OF assms(2)]) (simp_all add: terms_step_def)
next
  case (update_reward_duration env signer i duration p)
  then show ?thesis
    using reward_terms(3) [of env "w_pool w" signer i duration p] by (intro locks_quiet [OF assms(2)]) (simp_all add: terms_step_def)
next
  case (update_reward_funder signer i funder p)
  then show ?thesis
    using reward_terms(4) [of "w_pool w" signer i funder p] by (intro locks_quiet [OF assms(2)]) (simp_all add: terms_step_def)
next
  case (claim_reward ctx k env i skip p pos trs mints b)
  then show ?thesis
    using locks_same [OF assms(2), of w' k "cr_position ctx" pos] claim_reward_terms [of env ctx i skip p pos trs]
      claim_reward_locks [of env ctx i skip p pos trs] by simp
next
  case elsewhere then show ?thesis by (intro locks_quiet [OF assms(2)]) simp_all
qed

lemma open_pool_locks:
  assumes "open_pool ctx fees av partner lo hi P point ty l mode kind = Inr (p, pos, nft)"
  shows "pool_permanent_lock_liquidity p = 0 \<and> pos_vested_liquidity pos = 0 \<and> pos_permanent_locked_liquidity pos = 0"
  using assms
  by (auto simp: open_pool_def Let_def bindr_eq_Inr pos_initialize_def pool_initialize_def default_pool_def
      default_position_def split: prod.splits)

lemma initialize_locks:
  "handle_initialize_pool env ctx params = Inr (p, pos, nft, trs) \<Longrightarrow>
     pool_permanent_lock_liquidity p = 0 \<and> pos_vested_liquidity pos = 0 \<and> pos_permanent_locked_liquidity pos = 0"
  "handle_initialize_pool_with_dynamic_config env ctx cparams = Inr (p, pos, nft, trs) \<Longrightarrow>
     pool_permanent_lock_liquidity p = 0 \<and> pos_vested_liquidity pos = 0 \<and> pos_permanent_locked_liquidity pos = 0"
  "handle_initialize_customizable_pool env ctx cparams = Inr (p, pos, nft, trs) \<Longrightarrow>
     pool_permanent_lock_liquidity p = 0 \<and> pos_vested_liquidity pos = 0 \<and> pos_permanent_locked_liquidity pos = 0"
  by (auto simp: handle_initialize_pool_def handle_initialize_pool_with_dynamic_config_def
      handle_initialize_customizable_pool_def open_customizable_pool_def Let_def bindr_eq_Inr
      dest: open_pool_locks split: prod.splits)

lemma pool_start_locks: "pool_start ch w \<Longrightarrow> locks_ok w"
proof (induction rule: pool_start.induct)
  case (initialize env ctx params p pos nft trs cparams mints b b')
  have "pool_permanent_lock_liquidity p = 0 \<and> pos_vested_liquidity pos = 0 \<and> pos_permanent_locked_liquidity pos = 0"
    using initialize(1) by (auto dest: initialize_locks)
  then show ?case
    by (simp add: locks_ok_def released_ok_def vested_at_def locked_in_def vestings_of_def total_def perm_def)
qed

interpretation pool_locks: state_invariant "pool_start ch" "pool_step ch" locks_ok for ch
  by unfold_locales (rule pool_start_locks, assumption, rule pool_step_locks)

lemmas pool_reachable_locks = pool_locks.always

section \<open>Vesting can always be refreshed\<close>

lemma position_fits:
  assumes "books_ok p ps" and "ps k = Some pos"
  shows "pos_liquidity pos < 2 ^ 128"
proof -
  have "real (pos_liquidity pos) \<le> total (\<lambda>pos. real (pos_liquidity pos)) ps"
    by (rule total_member [of ps k pos "\<lambda>pos. real (pos_liquidity pos)", OF assms(2)]) simp
  then have "real (pos_liquidity pos) \<le> real (unat (pool_liquidity p))" using assms(1) by (simp add: books_ok_def)
  then have "pos_liquidity pos \<le> unat (pool_liquidity p)" by (simp only: of_nat_le_iff)
  also have "\<dots> < 2 ^ LENGTH(128)" by (rule unsigned_less)
  finally show ?thesis by simp
qed

lemma refresh_possible:
  assumes "locks_ok w" and "pos_liquidity pos < 2 ^ 128" and "w_positions w k = Some pos"
    and "w_vestings w vk = Some v" and "v_position v = k"
    and "unat (v_total_released_liquidity v) \<le> unlocked_at v (unat point)"
  shows "\<exists>vs' pos'. refresh_vestings (w_vestings w) pos k point [vk] = Inr (vs', pos') \<and>
    unat (pos_unlocked_liquidity pos') =
      unat (pos_unlocked_liquidity pos) + (unlocked_at v (unat point) - unat (v_total_released_liquidity v)) \<and>
    (unlocked_at v (unat point) = total_lock v \<longrightarrow> vs' vk = None)"
proof -
  have tl: "total_lock v < 2 ^ 128" using assms(1,4) by (auto simp: locks_ok_def released_ok_def)
  have "locked_in (w_vestings w) k = unat (pos_vested_liquidity pos)"
    using assms(1,3) by (simp add: locks_ok_def vested_at_def)
  then have "still_locked v \<le> unat (pos_vested_liquidity pos)"
    using locked_in_remove [of "w_vestings w" vk v k] assms(4,5) by simp
  then obtain v' pos' where rel: "release_vesting_liquidity_to_position v pos point = Inr (v', pos')"
    using release_total [OF assms(6) tl _ assms(2)] by (auto simp: still_locked_def)
  have load: "load_and_validate (w_vestings w) vk k = Inr v" using assms(4,5) by (simp add: load_and_validate_def)
  obtain r u x where v': "v' = v\<lparr> v_total_released_liquidity := r \<rparr>" and r: "unat r = unlocked_at v (unat point)"
    and pos': "pos' = pos\<lparr> pos_vested_liquidity := x, pos_unlocked_liquidity := u \<rparr>"
    and u: "unat u = unat (pos_unlocked_liquidity pos) + (unat r - unat (v_total_released_liquidity v))"
    by (rule release_frame [OF rel])
  obtain t :: u128 where t: "unat t = total_lock v" using ex_unat [of "total_lock v", where 'a = 128] tl by auto
  have "total_lock v' = total_lock v" by (simp add: v' total_lock_def)
  then have fin: "v_done v' = Inr (r = t)"
    using t by (auto simp: v_done_def bindr_eq_Inr v_total_lock_eq_Inr v')
  show ?thesis
    using load rel fin u t r by (auto simp: pos' word_eq_unat)
qed

end
