(* ===== verification/Payouts.thy ===== *)
theory Payouts
  imports PoolLocks
begin

text \<open>
  What a solvent pool can always pay: the requests of a withdrawal or of a claim are covered by the
  vaults, and the arithmetic of a fee claim cannot fail while the vaults hold amounts of \<open>u64\<close>.
\<close>

section \<open>Requests are covered\<close>

lemma protocol_fee_pays:
  assumes "handle_claim_protocol_fee env ctx ma mb = Inr (p', trs)" and "books_ok (cc_pool ctx) ps"
  shows "books_ok p' ps" and "owes s p' ps + real (paid_from (vault s (cc_pool ctx)) trs) \<le> owes s (cc_pool ctx) ps"
proof -
  obtain x y where c: "claim_fee_constraints env ctx = Inr ()" and cl: "claim_protocol_fee (cc_pool ctx) ma mb = Inr (p', x, y)"
    and trs: "trs = (if x > 0 then [transfer_from_pool (cc_pool_authority ctx) (cc_token_a_mint ctx) (cc_token_a_vault ctx)
                (cc_token_a_account ctx) x] else []) @
               (if y > 0 then [transfer_from_pool (cc_pool_authority ctx) (cc_token_b_mint ctx) (cc_token_b_vault ctx)
                (cc_token_b_account ctx) y] else [])"
    by (rule claim_protocol_fee_frame [OF assms(1)])
  show "books_ok p' ps" using claim_protocol_books(1) [OF cl] assms(2) .
  show "owes s p' ps + real (paid_from (vault s (cc_pool ctx)) trs) \<le> owes s (cc_pool ctx) ps"
    using claim_pays [OF c assms(2) trs, of s] claim_protocol_books(2) [OF cl, of s ps]
    by (simp flip: of_nat_le_iff)
qed

lemma partner_fee_pays:
  assumes "handle_claim_partner_fee env ctx ma mb = Inr (p', trs)" and "books_ok (cc_pool ctx) ps"
  shows "books_ok p' ps" and "owes s p' ps + real (paid_from (vault s (cc_pool ctx)) trs) \<le> owes s (cc_pool ctx) ps"
proof -
  obtain x y where c: "claim_fee_constraints env ctx = Inr ()" and cl: "claim_partner_fee (cc_pool ctx) ma mb = Inr (p', x, y)"
    and trs: "trs = (if ma > 0 then [transfer_from_pool (cc_pool_authority ctx) (cc_token_a_mint ctx) (cc_token_a_vault ctx)
                (cc_token_a_account ctx) x] else []) @
               (if mb > 0 then [transfer_from_pool (cc_pool_authority ctx) (cc_token_b_mint ctx) (cc_token_b_vault ctx)
                (cc_token_b_account ctx) y] else [])"
    by (rule claim_partner_fee_frame [OF assms(1)])
  show "books_ok p' ps" using claim_partner_books(1) [OF cl] assms(2) .
  show "owes s p' ps + real (paid_from (vault s (cc_pool ctx)) trs) \<le> owes s (cc_pool ctx) ps"
    using claim_pays [OF c assms(2) trs, of s] claim_partner_books(2) [OF cl, of s ps]
    by (simp flip: of_nat_le_iff)
qed

section \<open>A claim of fees cannot get stuck\<close>

text \<open>What accrues to a position fits if what the position is owed does.\<close>

lemma accrual_fits:
  assumes "real p + real L * (real G - real c) / 2 ^ n < 2 ^ 64" and "c \<le> G"
  shows "p + L * (G - c) div 2 ^ n < 2 ^ 64"
proof -
  have "real (L * (G - c) div 2 ^ n) \<le> real (L * (G - c)) / 2 ^ n"
    using div_le_real [of "L * (G - c)" "2 ^ n"] by simp
  then have "real (p + L * (G - c) div 2 ^ n) < 2 ^ 64"
    using assms by (simp add: of_nat_diff)
  then have "real (p + L * (G - c) div 2 ^ n) < real (2 ^ 64)" by simp
  then show ?thesis by (simp only: of_nat_less_iff)
qed

lemma update_fee_possible:
  assumes "books_ok p ps" and "ps k = Some pos" and "\<And>s. owed s p pos < 2 ^ 64"
  shows "\<exists>pos'. update_fee pos (pool_fee_a_per_liquidity p) (pool_fee_b_per_liquidity p) = Inr pos'"
proof -
  obtain l :: u128 where l: "unat l = pos_liquidity pos"
    using position_fits [OF assms(1,2)] ex_unat [of "pos_liquidity pos", where 'a = 128] by auto
  then have tot: "get_total_liquidity pos = Inr l" by (simp add: get_total_liquidity_eq_Inr)
  show ?thesis
  proof (cases "0 < l")
    case True
    then have "0 < pos_liquidity pos" by (simp add: word_less_nat_alt l)
    then have c: "checkpoint s pos \<le> growth s p" for s using assms(1,2) by (auto simp: books_ok_def)
    have f: "fee_pending s pos + pos_liquidity pos * (growth s p - checkpoint s pos) div 2 ^ 128 < 2 ^ 64" for s
      by (rule accrual_fits [OF _ c]) (use assms(3) [of s] in \<open>simp add: owed_def\<close>)
    have ex: "\<exists>x :: u64. unat x = fee_pending s pos + pos_liquidity pos * (growth s p - checkpoint s pos) div 2 ^ 128 \<and>
        pos_liquidity pos * (growth s p - checkpoint s pos) div 2 ^ 128 < 2 ^ 128" for s
    proof -
      have "pos_liquidity pos * (growth s p - checkpoint s pos) div 2 ^ 128 < 2 ^ 64" using f [of s] by linarith
      then have "pos_liquidity pos * (growth s p - checkpoint s pos) div 2 ^ 128 < 2 ^ 128" by (rule less_trans) simp
      then show ?thesis using f [of s] ex_unat [where 'a = 64] by auto
    qed
    obtain a b :: u64 where
      "unat a = unat (pos_fee_a_pending pos) + unat l * (unat (pool_fee_a_per_liquidity p) - unat (pos_fee_a_per_token_checkpoint pos)) div 2 ^ 128"
      "unat l * (unat (pool_fee_a_per_liquidity p) - unat (pos_fee_a_per_token_checkpoint pos)) div 2 ^ 128 < 2 ^ 128"
      "unat b = unat (pos_fee_b_pending pos) + unat l * (unat (pool_fee_b_per_liquidity p) - unat (pos_fee_b_per_token_checkpoint pos)) div 2 ^ 128"
      "unat l * (unat (pool_fee_b_per_liquidity p) - unat (pos_fee_b_per_token_checkpoint pos)) div 2 ^ 128 < 2 ^ 128"
      using ex [of SideA] ex [of SideB] by (auto simp: side_defs l)
    moreover have "pos_fee_a_per_token_checkpoint pos \<le> pool_fee_a_per_liquidity p"
      "pos_fee_b_per_token_checkpoint pos \<le> pool_fee_b_per_liquidity p"
      using c [of SideA] c [of SideB] by (simp_all add: side_defs word_le_nat_alt)
    ultimately show ?thesis
      using True by (auto simp: update_fee_def tot accrual_eq_Inr LIQUIDITY_SCALE_def)
  qed (simp add: update_fee_def tot)
qed

lemma solvent_owed:
  assumes "solvent ch w" and "w_positions w k = Some pos"
  shows "owed s (w_pool w) pos \<le> real (balance (w_tokens w) (vault s (w_pool w)))"
proof -
  have ok: "books_ok (w_pool w) (w_positions w)"
    and covered: "owes s (w_pool w) (w_positions w) \<le> real (balance (w_tokens w) (vault s (w_pool w)))"
    using assms(1) by (simp_all add: solvent_def)
  have "owed s (w_pool w) pos \<le> total (owed s (w_pool w)) (w_positions w)"
    by (rule total_member [of "w_positions w" k, OF assms(2)]) (rule owed_nonneg [OF ok])
  moreover have "0 \<le> reserve s (w_pool w)" by (rule reserve_nonneg [OF ok])
  ultimately show ?thesis using covered by (simp add: owes_def)
qed

definition claimed :: "side \<Rightarrow> position \<Rightarrow> nat" where
  "claimed s pos = (case s of SideA \<Rightarrow> unat (pm_total_claimed_a_fee (pos_metrics pos))
                            | SideB \<Rightarrow> unat (pm_total_claimed_b_fee (pos_metrics pos)))"

lemma claim_fee_possible:
  assumes "solvent ch w" and "lc_pool ctx = w_pool w" and pos: "w_positions w k = Some (lc_position ctx)"
    and "liquidity_constraints ctx = Inr ()" and "lc_pool_authority ctx = env_pool_authority env"
    and room: "\<And>s. balance (w_tokens w) (vault s (w_pool w)) + claimed s (lc_position ctx) < 2 ^ 64"
  shows "\<exists>pos' trs. handle_claim_position_fee env ctx = Inr (pos', trs)"
proof -
  have ok: "books_ok (w_pool w) (w_positions w)" using assms(1) by (simp add: solvent_def)
  have owed: "owed s (w_pool w) (lc_position ctx) \<le> real (balance (w_tokens w) (vault s (w_pool w)))" for s
    by (rule solvent_owed [OF assms(1) pos])
  have "owed s (w_pool w) (lc_position ctx) < 2 ^ 64" for s
  proof -
    have "balance (w_tokens w) (vault s (w_pool w)) < 2 ^ 64" using room [of s] by simp
    then have "real (balance (w_tokens w) (vault s (w_pool w))) < real (2 ^ 64)" by (simp only: of_nat_less_iff)
    then show ?thesis using owed [of s] by simp
  qed
  then obtain pos1 where u: "update_fee (lc_position ctx) (pool_fee_a_per_liquidity (w_pool w))
      (pool_fee_b_per_liquidity (w_pool w)) = Inr pos1"
    using update_fee_possible [OF ok pos] by blast
  have room1: "claimed s pos1 + fee_pending s pos1 < 2 ^ 64" for s
  proof -
    have "real (fee_pending s pos1) \<le> real (balance (w_tokens w) (vault s (w_pool w)))"
      using update_fee_owed(1,3) [OF u, of s] owed [of s] by simp
    moreover have "claimed s pos1 = claimed s (lc_position ctx)"
      using update_fee_liquidity(8) [OF u] by (cases s) (simp_all add: claimed_def)
    ultimately show ?thesis using room [of s] by (simp add: add.commute)
  qed
  obtain x y :: u64 where "unat x = claimed SideA pos1 + fee_pending SideA pos1"
    and "unat y = claimed SideB pos1 + fee_pending SideB pos1"
    using room1 ex_unat [where 'a = 64] by fastforce
  then have "\<exists>m. accumulate_claimed_fee (pos_metrics pos1) (pos_fee_a_pending pos1) (pos_fee_b_pending pos1) = Inr m"
    by (auto simp: accumulate_claimed_fee_def bindr_eq_Inr safe_add_eq_Inr claimed_def fee_pending_def)
  then show ?thesis
    using assms(2,4,5) u by (auto simp: handle_claim_position_fee_def check_pool_authority_def)
qed

end
