(* ===== verification/RewardTimes.thy ===== *)
theory RewardTimes
  imports RewardSolvency
begin

text \<open>
  The clocks of the campaigns: a campaign is never brought up to date past its end, and the seconds
  without liquidity are counted once. With the books of the rewards this keeps every operation on
  a campaign from overflowing, but for the growth accumulator.
\<close>

section \<open>The clock of a campaign\<close>

definition times_ok :: "reward_info \<Rightarrow> bool" where
  "times_ok ri \<longleftrightarrow> ri_cumulative_seconds_with_empty_liquidity_reward ri \<le> ri_last_update_time ri \<and>
     ri_last_update_time ri \<le> ri_reward_duration_end ri"

definition campaigns_on_time :: "pool \<Rightarrow> bool" where
  "campaigns_on_time p \<longleftrightarrow> (\<forall>i. times_ok (campaign p i))"

lemma campaigns_on_time_same: "pool_reward_infos p' = pool_reward_infos p \<Longrightarrow> campaigns_on_time p \<Longrightarrow> campaigns_on_time p'"
  using same_reward_infos(1) [of p' p] by (simp add: campaigns_on_time_def)

lemma campaigns_on_time_set:
  fixes i :: u8
  assumes "campaigns_on_time p" and "unat i < NUM_REWARDS" and "times_ok z"
  shows "campaigns_on_time (p\<lparr> pool_reward_infos := arr_set (pool_reward_infos p) (unat i) z \<rparr>)"
  using assms(1,3) by (simp add: campaigns_on_time_def campaign_arr_set [OF assms(2)])

lemma ri_update_times:
  assumes "ri_update_rewards ri l now = Inr ri'" and "times_ok ri"
  shows "times_ok ri'"
proof (cases "ri_is_initialized ri")
  case True
  obtain s c where ri': "ri' = ri\<lparr> ri_reward_per_token_stored := s, ri_cumulative_seconds_with_empty_liquidity_reward := c,
               ri_last_update_time := min now (ri_reward_duration_end ri) \<rparr>"
    and le: "ri_last_update_time ri \<le> min now (ri_reward_duration_end ri)"
    and c: "unat c = unat (ri_cumulative_seconds_with_empty_liquidity_reward ri) +
      (if 0 < l then 0 else unat (min now (ri_reward_duration_end ri)) - unat (ri_last_update_time ri))"
    by (rule update_rewards_frame [OF assms(1) True])
  have "unat (ri_cumulative_seconds_with_empty_liquidity_reward ri) \<le> unat (ri_last_update_time ri)"
    "unat (ri_last_update_time ri) \<le> unat (min now (ri_reward_duration_end ri))"
    using le assms(2) by (simp_all only: times_ok_def word_le_nat_alt)
  moreover have "unat c \<le> unat (ri_cumulative_seconds_with_empty_liquidity_reward ri) +
      (unat (min now (ri_reward_duration_end ri)) - unat (ri_last_update_time ri))" using c by simp
  ultimately have "unat c \<le> unat (min now (ri_reward_duration_end ri))" by linarith
  then show ?thesis by (simp add: times_ok_def ri' word_le_nat_alt [symmetric])
qed (use assms in \<open>simp add: ri_update_rewards_def\<close>)

lemma pool_update_times: "pool_update_rewards p now = Inr p' \<Longrightarrow> campaigns_on_time p \<Longrightarrow> campaigns_on_time p'"
  using ri_update_times [OF campaign_updated] by (auto simp: campaigns_on_time_def)

lemma pos_update_times: "pos_update_rewards pos p now = Inr (pos', p') \<Longrightarrow> campaigns_on_time p \<Longrightarrow> campaigns_on_time p'"
  by (auto simp: pos_update_rewards_def bindr_eq_Inr pool_update_times split: if_splits)

section \<open>Every instruction keeps them\<close>

lemma funded_zero:
  "update_rate_after_funding (ri\<lparr> ri_cumulative_seconds_with_empty_liquidity_reward := 0 \<rparr>) now x = Inr ri' \<Longrightarrow>
     ri_cumulative_seconds_with_empty_liquidity_reward ri' = 0"
  by (auto simp: update_rate_after_funding_def bindr_eq_Inr simp del: bindr_assoc)

lemma fund_times:
  assumes "handle_fund_reward env ctx i amount carry = Inr (p', funded, trs)" and "campaigns_on_time (fd_pool ctx)"
  shows "campaigns_on_time p'"
proof -
  obtain p where u: "pool_update_rewards (fd_pool ctx) (current_time env) = Inr p"
    using assms(1) by (auto simp: handle_fund_reward_def Let_def bindr_eq_Inr simp del: bindr_assoc)
  have rate: "update_rate_after_funding ((campaign p i)\<lparr> ri_cumulative_seconds_with_empty_liquidity_reward := 0 \<rparr>)
       (current_time env) funded = Inr (campaign p' i)"
    and i: "unat i < NUM_REWARDS"
    and p': "p' = p\<lparr> pool_reward_infos := arr_set (pool_reward_infos p) (unat i) (campaign p' i) \<rparr>"
    by (rule handle_fund_reward_frame [OF assms(1) u]; assumption)+
  note zero = funded_zero [OF rate]
  have "ri_last_update_time (campaign p' i) \<le> ri_reward_duration_end (campaign p' i)"
    by (rule rate_after_funding_exact [OF rate]) (simp add: word_le_nat_alt)
  then have "times_ok (campaign p' i)" by (simp add: times_ok_def zero)
  then show ?thesis
    by (subst p') (rule campaigns_on_time_set [OF pool_update_times [OF u assms(2)] i])
qed

lemma withdraw_times:
  assumes "handle_withdraw_ineligible_reward env ctx i = Inr (p', trs)" and "campaigns_on_time (fd_pool ctx)"
  shows "campaigns_on_time p'"
proof -
  obtain p r where v: "withdraw_ineligible_validate env ctx (unat i) = Inr ()"
    and u: "pool_update_rewards (fd_pool ctx) (current_time env) = Inr p"
    and c: "claim_ineligible_reward p (unat i) = Inr (p', r)"
    using assms(1) by (auto simp: handle_withdraw_ineligible_reward_def bindr_eq_Inr Let_def split: if_splits prod.splits)
  have i: "unat i < NUM_REWARDS" using v by (auto simp: withdraw_ineligible_validate_def bindr_eq_Inr require_eq_Inr)
  have p': "p' = p\<lparr> pool_reward_infos := arr_set (pool_reward_infos p) (unat i)
      ((campaign p i)\<lparr> ri_cumulative_seconds_with_empty_liquidity_reward := 0 \<rparr>) \<rparr>"
    using c i by (auto simp: claim_ineligible_reward_def bindr_eq_Inr index_campaign)
  have ok: "campaigns_on_time p" by (rule pool_update_times [OF u assms(2)])
  then have "times_ok ((campaign p i)\<lparr> ri_cumulative_seconds_with_empty_liquidity_reward := 0 \<rparr>)"
    by (simp add: campaigns_on_time_def times_ok_def)
  then show ?thesis unfolding p' by (rule campaigns_on_time_set [OF ok i])
qed

lemma reward_admin_times:
  "handle_initialize_reward env ctx i d f = Inr p' \<Longrightarrow> campaigns_on_time (ra_pool ctx) \<Longrightarrow> campaigns_on_time p'"
  "handle_update_reward_duration env p signer i d = Inr p' \<Longrightarrow> campaigns_on_time p \<Longrightarrow> campaigns_on_time p'"
  "handle_update_reward_funder p signer i f = Inr p' \<Longrightarrow> campaigns_on_time p \<Longrightarrow> campaigns_on_time p'"
proof -
  have i: "unat i < NUM_REWARDS" if "handle_initialize_reward env ctx i d f = Inr p' \<or> handle_update_reward_duration env p signer i d = Inr p' \<or>
      handle_update_reward_funder p signer i f = Inr p'"
    using that by (auto simp: handle_initialize_reward_def initialize_reward_validate_def handle_update_reward_duration_def
      update_reward_duration_validate_def handle_update_reward_funder_def update_reward_funder_validate_def Let_def
      bindr_eq_Inr require_eq_Inr)
  show "handle_initialize_reward env ctx i d f = Inr p' \<Longrightarrow> campaigns_on_time (ra_pool ctx) \<Longrightarrow> campaigns_on_time p'"
    using i by (auto simp: handle_initialize_reward_def Let_def bindr_eq_Inr index_campaign init_reward_def
      intro!: campaigns_on_time_set) (auto simp: campaigns_on_time_def times_ok_def)
  show "handle_update_reward_duration env p signer i d = Inr p' \<Longrightarrow> campaigns_on_time p \<Longrightarrow> campaigns_on_time p'"
    using i by (auto simp: handle_update_reward_duration_def Let_def bindr_eq_Inr index_campaign
      intro!: campaigns_on_time_set) (auto simp: campaigns_on_time_def times_ok_def)
  show "handle_update_reward_funder p signer i f = Inr p' \<Longrightarrow> campaigns_on_time p \<Longrightarrow> campaigns_on_time p'"
    using i by (auto simp: handle_update_reward_funder_def Let_def bindr_eq_Inr index_campaign
      intro!: campaigns_on_time_set) (auto simp: campaigns_on_time_def times_ok_def)
qed

lemma claim_reward_times:
  "handle_claim_reward env ctx i skip = Inr (p', pos', trs) \<Longrightarrow> campaigns_on_time (cr_pool ctx) \<Longrightarrow> campaigns_on_time p'"
  by (auto simp: handle_claim_reward_def bindr_eq_Inr Let_def dest: pos_update_times split: if_splits prod.splits)

lemma liquidity_times:
  "handle_add_liquidity env ctx params = Inr (p', pos', trs) \<Longrightarrow> campaigns_on_time (lc_pool ctx) \<Longrightarrow> campaigns_on_time p'"
  "handle_remove_liquidity env ctx d ma mb = Inr (p', pos', trs) \<Longrightarrow> campaigns_on_time (lc_pool ctx) \<Longrightarrow> campaigns_on_time p'"
  by (auto elim!: handle_add_liquidity_frame handle_remove_liquidity_frame apply_add_liquidity_frame apply_remove_liquidity_frame
    dest!: pos_update_times intro: campaigns_on_time_same)

lemma pool_step_times:
  assumes "pool_step ch w w'" and ok: "campaigns_on_time (w_pool w)"
  shows "campaigns_on_time (w_pool w')"
  using assms(1)
proof cases
  case swap then show ?thesis using campaigns_on_time_same [OF swap_reward_infos] ok by simp
next
  case add_liquidity then show ?thesis using liquidity_times(1) ok by simp
next
  case remove_liquidity then show ?thesis using liquidity_times(2) ok by simp
next
  case claim_protocol_fee then show ?thesis using campaigns_on_time_same [OF claim_reward_infos [OF disjI1]] ok by simp
next
  case claim_partner_fee then show ?thesis using campaigns_on_time_same [OF claim_reward_infos [OF disjI2]] ok by simp
next
  case (create_position ctx env p pos nft)
  then have "pool_reward_infos p = pool_reward_infos (w_pool w)"
    by (auto simp: handle_create_position_def bindr_eq_Inr Let_def pos_initialize_def split: prod.splits)
  then show ?thesis using create_position ok campaigns_on_time_same by simp
next
  case (close_position ctx k env p nft)
  then have "pool_reward_infos p = pool_reward_infos (w_pool w)" by (auto simp: handle_close_position_def bindr_eq_Inr)
  then show ?thesis using close_position ok campaigns_on_time_same by simp
next
  case (permanent_lock_position ctx k env l p pos)
  then show ?thesis using permanent_lock_books(3) campaigns_on_time_same ok by simp
next
  case split_position
  then show ?thesis using ok by (auto elim!: handle_split_frame dest: pool_update_times)
next
  case set_pool_status then show ?thesis using ok campaigns_on_time_same by (auto simp: set_pool_status_eq_Inr)
next
  case initialize_reward then show ?thesis using reward_admin_times(1) ok by simp
next
  case fund_reward then show ?thesis using fund_times ok by simp
next
  case withdraw_ineligible_reward then show ?thesis using withdraw_times ok by simp
next
  case update_reward_duration then show ?thesis using reward_admin_times(2) ok by simp
next
  case update_reward_funder then show ?thesis using reward_admin_times(3) ok by simp
next
  case claim_reward then show ?thesis using claim_reward_times ok by simp
qed (use ok in simp_all)

lemma pool_start_times: "pool_start ch w \<Longrightarrow> campaigns_on_time (w_pool w)"
  by (erule pool_start_opened)
    (simp add: opened_def fresh_pool_def campaigns_on_time_def campaign_def times_ok_def default_reward_info_def)

interpretation reward_times: state_invariant "pool_start ch" "pool_step ch" "\<lambda>w. campaigns_on_time (w_pool w)" for ch
  by unfold_locales (rule pool_start_times, assumption, rule pool_step_times)

end
