(* ===== verification/Exits.thy ===== *)
theory Exits
  imports RewardTimes PoolLocks Payouts
begin

text \<open>
  That holders can always get out what is theirs: in a world a pool can reach, claims of rewards and
  withdrawals of liquidity succeed. The one thing that can stand in the way is the growth
  accumulator of a reward, which the code adds up without wrapping around.
\<close>

section \<open>Campaigns can be brought up to date\<close>

text \<open>The clock has not run backwards, and the accumulators have room for the seconds that passed.\<close>

definition reward_room :: "reward_info \<Rightarrow> u128 \<Rightarrow> u64 \<Rightarrow> bool" where
  "reward_room ri l now \<longleftrightarrow> ri_is_initialized ri \<longrightarrow> ri_last_update_time ri \<le> now \<and>
     unat (ri_reward_per_token_stored ri) +
       (unat (min now (ri_reward_duration_end ri)) - unat (ri_last_update_time ri)) * unat (ri_reward_rate ri) * 2 ^ 128 div unat l < 2 ^ 256"

definition rewards_have_room :: "pool \<Rightarrow> u64 \<Rightarrow> bool" where
  "rewards_have_room p now \<longleftrightarrow> reward_room (elem0 (pool_reward_infos p)) (pool_liquidity p) now \<and>
     reward_room (elem1 (pool_reward_infos p)) (pool_liquidity p) now"

lemma rate_fits:
  assumes "reward_promised ri < 2 ^ 64" and "t \<le> remaining_seconds ri"
  shows "t * unat (ri_reward_rate ri) < 2 ^ 128"
proof -
  define R where "R = unat (ri_reward_rate ri)"
  have "real R * (real (remaining_seconds ri) + real (unat (ri_cumulative_seconds_with_empty_liquidity_reward ri))) / 2 ^ 64 < 2 ^ 64"
    using assms(1) unfolding reward_promised_def R_def .
  then have "real R * (real (remaining_seconds ri) + real (unat (ri_cumulative_seconds_with_empty_liquidity_reward ri))) < 2 ^ 64 * 2 ^ 64"
    by (simp only: divide_less_eq) simp
  moreover have "real R * real t \<le> real R * (real (remaining_seconds ri) + real (unat (ri_cumulative_seconds_with_empty_liquidity_reward ri)))"
    by (rule mult_left_mono) (use assms(2) in \<open>simp_all add: add_increasing2\<close>)
  ultimately have "real (t * R) < real (2 ^ 128)" by (simp add: mult.commute)
  then show ?thesis unfolding R_def by (simp only: of_nat_less_iff)
qed

lemma ri_update_possible:
  assumes "times_ok ri" and "reward_promised ri < 2 ^ 64" and "reward_room ri l now"
  shows "\<exists>ri'. ri_update_rewards ri l now = Inr ri'"
proof (cases "ri_is_initialized ri")
  case True
  define stop where "stop = min now (ri_reward_duration_end ri)"
  define t where "t = unat stop - unat (ri_last_update_time ri)"
  have le: "ri_last_update_time ri \<le> stop" and end_le: "unat stop \<le> unat (ri_reward_duration_end ri)"
    using assms(1,3) True by (simp_all add: stop_def times_ok_def reward_room_def word_le_nat_alt [symmetric])
  then have "t \<le> remaining_seconds ri" by (simp add: t_def remaining_seconds_def)
  then have small: "t * unat (ri_reward_rate ri) < 2 ^ 128" by (rule rate_fits [OF assms(2)])
  have "t < 2 ^ 64" using unat_less [of stop] by (simp add: t_def)
  then obtain dt :: u64 where dt: "unat dt = t" using ex_unat [of t, where 'a = 64] by auto
  have elapsed: "get_seconds_elapsed_since_last_update ri now = Inr dt"
    using le dt by (simp add: get_seconds_elapsed_since_last_update_def Let_def safe_sub_eq_Inr stop_def [symmetric] t_def word_le_nat_alt)
  show ?thesis
  proof (cases "0 < l")
    case True
    obtain tot :: u128 where tot: "unat tot = t * unat (ri_reward_rate ri)"
      using small ex_unat [of "t * unat (ri_reward_rate ri)", where 'a = 128] by auto
    have mul: "safe_mul (ucast dt :: u128) (ri_reward_rate ri) = Inr tot" using tot dt by (simp add: safe_mul_eq_Inr)
    have "unat tot * 2 ^ 128 < 2 ^ 256" using small by (simp add: tot)
    then have "unat tot * 2 ^ 128 div unat l < 2 ^ 256" by (rule le_less_trans [OF div_le_dividend])
    then obtain g :: u256 where g: "unat g = unat tot * 2 ^ 128 div unat l" using ex_unat [where 'a = 256] by auto
    then have shl: "shl_div_256 tot l LIQUIDITY_SCALE = Some g"
      using True \<open>unat tot * 2 ^ 128 < 2 ^ 256\<close> by (simp add: shl_div_256_eq_Some LIQUIDITY_SCALE_def word_neq_0_conv)
    have "unat (ri_reward_per_token_stored ri) + unat g < 2 ^ 256"
      using assms(3) \<open>ri_is_initialized ri\<close> by (simp add: reward_room_def g tot t_def stop_def)
    then obtain s :: u256 where "unat s = unat (ri_reward_per_token_stored ri) + unat g" using ex_unat [where 'a = 256] by auto
    then show ?thesis
      using True \<open>ri_is_initialized ri\<close>
      by (auto simp: ri_update_rewards_def calculate_reward_per_token_stored_since_last_update_def elapsed mul shl ok_or_def
          accumulate_reward_per_token_stored_def bindr_eq_Inr safe_add_eq_Inr)
  next
    case False
    have "unat (ri_cumulative_seconds_with_empty_liquidity_reward ri) \<le> unat (ri_last_update_time ri)"
      "unat (ri_last_update_time ri) \<le> unat stop" "unat stop < 2 ^ 64"
      using assms(1) le unat_less [of stop] by (simp_all add: times_ok_def word_le_nat_alt)
    then have "unat (ri_cumulative_seconds_with_empty_liquidity_reward ri) + unat dt < 2 ^ 64" unfolding dt t_def by linarith
    then obtain c :: u64 where "unat c = unat (ri_cumulative_seconds_with_empty_liquidity_reward ri) + unat dt"
      using ex_unat [where 'a = 64] by auto
    then show ?thesis
      using False \<open>ri_is_initialized ri\<close> by (auto simp: ri_update_rewards_def elapsed bindr_eq_Inr safe_add_eq_Inr)
  qed
qed (simp add: ri_update_rewards_def)

lemma pool_update_possible:
  assumes "campaigns_on_time p" and "\<And>i. reward_promised (campaign p i) < 2 ^ 64" and "rewards_have_room p now"
  shows "\<exists>p'. pool_update_rewards p now = Inr p'"
proof -
  have c: "campaign p 0 = elem0 (pool_reward_infos p)" "campaign p 1 = elem1 (pool_reward_infos p)" by (simp_all add: campaign_def)
  have t: "times_ok (campaign p i)" for i using assms(1) by (simp add: campaigns_on_time_def)
  obtain r0 r1 where "ri_update_rewards (campaign p 0) (pool_liquidity p) now = Inr r0"
    and "ri_update_rewards (campaign p 1) (pool_liquidity p) now = Inr r1"
    using ri_update_possible [OF t assms(2)] assms(3) unfolding rewards_have_room_def c [symmetric] by metis
  then show ?thesis by (simp add: pool_update_rewards_def c)
qed

section \<open>Positions can be settled\<close>

text \<open>Token accounts hold 64-bit amounts.\<close>

definition ledger_fits :: "ledger \<Rightarrow> bool" where
  "ledger_fits b \<longleftrightarrow> (\<forall>k. balance b k < 2 ^ 64)"

lemma fits_real: "ledger_fits b \<Longrightarrow> x \<le> real (balance b k) \<Longrightarrow> x < 2 ^ 64"
proof -
  assume "ledger_fits b" and le: "x \<le> real (balance b k)"
  then have "real (balance b k) < real (2 ^ 64)" unfolding ledger_fits_def of_nat_less_iff by blast
  then show ?thesis using le by simp
qed

lemma reward_owes_fits:
  assumes "reward_solvent ch w" and "ledger_fits (w_tokens w)"
  shows "reward_owes i (w_pool w) (w_positions w) < 2 ^ 64"
proof (cases "ri_is_initialized (campaign (w_pool w) i)")
  case True
  then have "reward_owes i (w_pool w) (w_positions w) \<le> real (balance (w_tokens w) (reward_vault i (w_pool w)))"
    using assms(1) by (simp add: reward_solvent_def)
  then show ?thesis by (rule fits_real [OF assms(2)])
next
  case False
  then have "reward_owes i (w_pool w) (w_positions w) \<le> 0"
    using assms(1) unfolding reward_solvent_def reward_books_ok_def by blast
  then show ?thesis by simp
qed

lemma settle_possible:
  assumes "reward_books_ok p ps" and "books_ok p ps" and "ps k = Some pos" and "\<And>i. reward_owes i p ps < 2 ^ 64"
  shows "\<exists>pos'. update_position_reward pos p = Inr pos'"
proof -
  obtain l :: u128 where l: "unat l = pos_liquidity pos"
    using position_fits [OF assms(2,3)] ex_unat [of "pos_liquidity pos", where 'a = 128] by auto
  have at: "\<exists>u. update_position_reward_at (campaign p i) l (pending_reward pos i) = Inr u" for i
  proof (cases "ri_is_initialized (campaign p i)")
    case True
    have c: "reward_checkpoint i pos \<le> reward_growth i p" by (rule reward_books_le [of p ps k, OF assms(1,3)])
    have "reward_earned i p pos < 2 ^ 64"
      using reward_member(2) [OF assms(1,3), of i] reward_promised_nonneg [of "campaign p i"] assms(4) [of i]
      by (simp add: reward_owes_def)
    then have fits: "reward_pending i pos + pos_liquidity pos * (reward_growth i p - reward_checkpoint i pos) div 2 ^ 192 < 2 ^ 64"
      by (intro accrual_fits c) (simp add: reward_earned_def)
    then have "pos_liquidity pos * (reward_growth i p - reward_checkpoint i pos) div 2 ^ 192 < 2 ^ 64" by linarith
    then have "pos_liquidity pos * (reward_growth i p - reward_checkpoint i pos) div 2 ^ 192 < 2 ^ 128" by (rule less_trans) simp
    moreover obtain x :: u64 where "unat x = reward_pending i pos + pos_liquidity pos * (reward_growth i p - reward_checkpoint i pos) div 2 ^ 192"
      using fits ex_unat [where 'a = 64] by auto
    ultimately show ?thesis
      using True c
      by (auto simp: update_position_reward_at_def uri_update_rewards_def accrual_eq_Inr TOTAL_REWARD_SCALE_def l reward_defs
          word_le_nat_alt)
  qed (simp add: update_position_reward_at_def)
  have c: "campaign p 0 = elem0 (pool_reward_infos p)" "campaign p 1 = elem1 (pool_reward_infos p)"
    "pending_reward pos 0 = elem0 (pos_reward_infos pos)" "pending_reward pos 1 = elem1 (pos_reward_infos pos)"
    by (simp_all add: campaign_def pending_reward_def)
  obtain u0 u1 where "update_position_reward_at (elem0 (pool_reward_infos p)) l (elem0 (pos_reward_infos pos)) = Inr u0"
    and "update_position_reward_at (elem1 (pool_reward_infos p)) l (elem1 (pos_reward_infos pos)) = Inr u1"
    using at [of 0] at [of 1] unfolding c by blast
  moreover have "get_total_liquidity pos = Inr l" by (simp add: get_total_liquidity_eq_Inr l)
  ultimately show ?thesis by (simp add: update_position_reward_def)
qed

lemma rewards_updatable:
  assumes "solvent ch w" and "reward_solvent ch w" and "campaigns_on_time (w_pool w)" and "ledger_fits (w_tokens w)"
    and "rewards_have_room (w_pool w) now" and "w_positions w k = Some pos"
  shows "\<exists>pos' p'. pos_update_rewards pos (w_pool w) now = Inr (pos', p')"
proof (cases "pool_reward_initialized (w_pool w)")
  case True
  have books: "books_ok (w_pool w) (w_positions w)" and rb: "reward_books_ok (w_pool w) (w_positions w)"
    using assms(1,2) by (simp_all add: solvent_def reward_solvent_def)
  have owes: "reward_owes i (w_pool w) (w_positions w) < 2 ^ 64" for i by (rule reward_owes_fits [OF assms(2,4)])
  have "reward_promised (campaign (w_pool w) i) < 2 ^ 64" for i
    using owes [of i] reward_total_nonneg [OF rb, of i] by (simp add: reward_owes_def)
  then obtain p' where u: "pool_update_rewards (w_pool w) now = Inr p'"
    using pool_update_possible [OF assms(3) _ assms(5)] by blast
  note b = pool_update_rewards_books [OF u rb books]
  have "books_ok p' (w_positions w)"
    using books reward_step_books(1) [OF pool_update_rewards_step [OF u]] by (simp add: same_books_ok)
  then obtain pos' where "update_position_reward pos p' = Inr pos'"
    using settle_possible [OF b(1) _ assms(6) le_less_trans [OF b(2) owes]] by blast
  then show ?thesis using True u by (simp add: pos_update_rewards_def)
qed (simp add: pos_update_rewards_def)

section \<open>Claims of rewards\<close>

lemma claim_reward_possible:
  assumes "solvent ch w" and "reward_solvent ch w" and "campaigns_on_time (w_pool w)" and "ledger_fits (w_tokens w)"
    and "rewards_have_room (w_pool w) (current_time env)" and "w_positions w k = Some (cr_position ctx)" and "cr_pool ctx = w_pool w"
    and "cr_pool_authority ctx = env_pool_authority env" and "pos_pool (cr_position ctx) = cr_pool_key ctx"
    and "check_position_nft (cr_position_nft_account ctx) (pos_nft_mint (cr_position ctx)) (cr_owner ctx) = Inr ()"
    and "claim_reward_validate ctx (unat i) = Inr ()" and "\<not> ta_frozen (cr_reward_vault ctx)"
  shows "\<exists>p pos trs. handle_claim_reward env ctx i skip = Inr (p, pos, trs)"
proof -
  obtain pos p where u: "pos_update_rewards (cr_position ctx) (cr_pool ctx) (current_time env) = Inr (pos, p)"
    using rewards_updatable [OF assms(1-6)] assms(7) by auto
  have i: "unat i < NUM_REWARDS" using assms(11) by (auto simp: claim_reward_validate_def bindr_eq_Inr require_eq_Inr)
  then have "\<exists>q r. pos_claim_reward pos (unat i) = Inr (q, r)"
    by (cases "unat i = 0") (auto simp: pos_claim_reward_def get_total_reward_def accumulate_total_claimed_rewards_def
      reset_all_pending_reward_def bindr_eq_Inr arr_get_eq_Inr NUM_REWARDS_def)
  then show ?thesis
    using assms(8-12) u by (auto simp: handle_claim_reward_def check_pool_authority_def Let_def)
qed

section \<open>Withdrawals\<close>

text \<open>What part of the liquidity stands for is part of the reserve, so the amounts fit.\<close>

lemma amounts_possible:
  assumes "books_ok p ps" and "unat d \<le> unat (pool_liquidity p)" and "\<And>s. reserve s p < 2 ^ 64"
  shows "\<exists>m. get_amounts_for_modify_liquidity p d Down = Inr m"
proof -
  define D L P lo hi where v: "D = unat d" "L = unat (pool_liquidity p)" "P = unat (pool_sqrt_price p)"
    "lo = unat (pool_sqrt_min_price p)" "hi = unat (pool_sqrt_max_price p)"
  have b: "lo \<le> P" "P \<le> hi" "0 < P" "D \<le> L"
    using assms(1,2) by (simp_all add: books_ok_def word_le_nat_alt v)
  have "real D * (1 / real P - 1 / real hi) \<le> real L * (1 / real P - 1 / real hi)"
    using b by (intro mult_right_mono) (simp_all add: frac_le)
  also have "\<dots> = reserve SideA p" by (simp add: reserve_def curve_reserve_a_def algebra_simps flip: v)
  also have "real D * (1 / real P - 1 / real hi) = real (D * (hi - P)) / real (P * hi)"
    using b by (simp add: of_nat_diff field_simps)
  finally have "real (D * (hi - P) div (P * hi)) < real (2 ^ 64)"
    using div_le_real [of "D * (hi - P)" "P * hi"] assms(3) [of SideA] by simp
  then have a: "D * (hi - P) div (P * hi) < 2 ^ 64" by (simp only: of_nat_less_iff)
  have "real D * (real P - real lo) / 2 ^ 128 \<le> real L * (real P - real lo) / 2 ^ 128"
    using b by (intro divide_right_mono mult_right_mono) simp_all
  also have "\<dots> = reserve SideB p" by (simp add: reserve_def curve_reserve_b_def algebra_simps diff_divide_distrib flip: v)
  also have "real D * (real P - real lo) / 2 ^ 128 = real (D * (P - lo)) / 2 ^ 128"
    using b by (simp add: of_nat_diff)
  finally have "real (D * (P - lo) div 2 ^ 128) < real (2 ^ 64)"
    using div_le_real [of "D * (P - lo)" "2 ^ 128"] assms(3) [of SideB] by simp
  then have "D * (P - lo) div 2 ^ 128 < 2 ^ 64" by (simp only: of_nat_less_iff)
  then obtain x y :: u64 where "unat x = D * (hi - P) div (P * hi)" "unat y = D * (P - lo) div 2 ^ 128"
    using a ex_unat [where 'a = 64] by fastforce
  then show ?thesis
    using b by (auto simp: get_amounts_for_modify_liquidity_def bindr_eq_Inr delta_a_eq_Inr delta_b_eq_Inr v
      word_le_nat_alt word_less_nat_alt)
qed

lemma excluded_possible: "received m x \<noteq> None \<Longrightarrow> \<exists>r. calculate_transfer_fee_excluded_amount m x = Inr r"
  by (auto simp: received_def calculate_transfer_fee_excluded_amount_def ok_or_def checked_sub_def word_le_nat_alt
    split: option.splits if_splits)

lemma part_of_liquidity:
  assumes "books_ok p ps" and "ps k = Some pos"
  shows "unat (pos_unlocked_liquidity pos) \<le> unat (pool_liquidity p)"
proof -
  have "real (pos_liquidity pos) \<le> total (\<lambda>pos. real (pos_liquidity pos)) ps"
    by (rule total_member [of ps k pos "\<lambda>pos. real (pos_liquidity pos)", OF assms(2)]) simp
  then have "real (pos_liquidity pos) \<le> real (unat (pool_liquidity p))" using assms(1) by (simp add: books_ok_def)
  then have "pos_liquidity pos \<le> unat (pool_liquidity p)" by (simp only: of_nat_le_iff)
  then show ?thesis by (simp add: pos_liquidity_def)
qed

lemma remove_liquidity_possible:
  assumes "solvent ch w" and "reward_solvent ch w" and "campaigns_on_time (w_pool w)" and "ledger_fits (w_tokens w)"
    and "rewards_have_room (w_pool w) (current_time env)" and "w_positions w k = Some (lc_position ctx)" and "lc_pool ctx = w_pool w"
    and "lc_pool_authority ctx = env_pool_authority env" and "liquidity_constraints ctx = Inr ()"
    and "get_pool_access_validator (env_clock env) (w_pool w) = Inr v" and "can_remove_liquidity v"
    and "\<And>x. received (lc_token_a_mint ctx) x \<noteq> None" and "\<And>x. received (lc_token_b_mint ctx) x \<noteq> None"
    and "0 < d" and "d \<le> pos_unlocked_liquidity (lc_position ctx)"
    and "\<And>m. get_amounts_for_modify_liquidity (w_pool w) d Down = Inr m \<Longrightarrow> 0 < ml_token_a_amount m \<or> 0 < ml_token_b_amount m"
  shows "\<exists>p pos trs. handle_remove_liquidity env ctx (Some d) 0 0 = Inr (p, pos, trs)"
proof -
  obtain pos p where u: "pos_update_rewards (lc_position ctx) (lc_pool ctx) (current_time env) = Inr (pos, p)"
    using rewards_updatable [OF assms(1-6)] assms(7) by auto
  have books: "books_ok (lc_pool ctx) (w_positions w)" using assms(1,7) by (simp add: solvent_def)
  have owed: "owed s (w_pool w) (lc_position ctx) < 2 ^ 64" for s
    by (rule fits_real [OF assms(4) solvent_owed [OF assms(1,6)]])
  have res: "reserve s (w_pool w) < 2 ^ 64" for s
  proof -
    have "0 \<le> total (owed s (w_pool w)) (w_positions w)"
      by (rule total_nonneg) (rule owed_nonneg [OF books [unfolded assms(7)]])
    then have "reserve s (w_pool w) \<le> real (balance (w_tokens w) (vault s (w_pool w)))"
      using assms(1) by (fastforce simp: solvent_def owes_def intro: order_trans [rotated])
    then show ?thesis by (rule fits_real [OF assms(4)])
  qed
  obtain ri uri where p: "p = (lc_pool ctx)\<lparr> pool_reward_infos := ri \<rparr>" and pos: "pos = (lc_position ctx)\<lparr> pos_reward_infos := uri \<rparr>"
    by (rule pos_update_rewards_frame [OF u])
  have le: "unat d \<le> unat (pos_unlocked_liquidity (lc_position ctx))" "unat d \<le> unat (pool_liquidity (w_pool w))"
    using assms(15) part_of_liquidity [of _ "w_positions w" k, OF books assms(6)] by (simp_all add: word_le_nat_alt assms(7))
  obtain m where m: "get_amounts_for_modify_liquidity (w_pool w) d Down = Inr m"
    using amounts_possible [OF books [unfolded assms(7)] le(2) res] by blast
  have m': "get_amounts_for_modify_liquidity p d Down = Inr m"
    using m by (simp add: get_amounts_for_modify_liquidity_def p assms(7))
  obtain ea eb where ea: "calculate_transfer_fee_excluded_amount (lc_token_a_mint ctx) (ml_token_a_amount m) = Inr ea"
    and eb: "calculate_transfer_fee_excluded_amount (lc_token_b_mint ctx) (ml_token_b_amount m) = Inr eb"
    using excluded_possible assms(12,13) by metis
  have ub: "books_ok p ((w_positions w)(k \<mapsto> pos))" by (rule update_rewards_books [of _ _ _ _ _ "w_positions w" k, OF u assms(6) books])
  have same: "owed s p pos = owed s (w_pool w) (lc_position ctx)" for s
    by (cases s) (simp_all add: owed_def side_defs p pos assms(7))
  obtain pos1 where f: "update_fee pos (pool_fee_a_per_liquidity p) (pool_fee_b_per_liquidity p) = Inr pos1"
    using update_fee_possible [of p "(w_positions w)(k \<mapsto> pos)" k, OF ub] owed by (auto simp: same)
  have "unat d \<le> unat (pos_unlocked_liquidity pos1)" "unat d \<le> unat (pool_liquidity p)"
    using le update_fee_liquidity(2) [OF f] by (simp_all add: pos p assms(7))
  then have "unat (pos_unlocked_liquidity pos1) = unat d + unat (pos_unlocked_liquidity pos1 - d)"
    "unat (pool_liquidity p) = unat d + unat (pool_liquidity p - d)"
    by (simp_all add: unat_sub word_le_nat_alt)
  then have "\<exists>p' pos'. apply_remove_liquidity p pos d = Inr (p', pos')"
    using f unfolding apply_remove_liquidity_def bindr_eq_Inr remove_unlocked_liquidity_eq_Inr safe_sub_eq_Inr by blast
  then show ?thesis
    using u m' ea eb assms(7-11,14,15) assms(16) [OF m]
    by (auto simp: handle_remove_liquidity_def check_pool_authority_def)
qed

section \<open>What the accumulators have room for\<close>

text \<open>Without room for the seconds that passed, nothing that settles rewards succeeds.\<close>

lemma ri_update_needs_room:
  assumes "ri_update_rewards ri l now = Inr ri'"
  shows "reward_room ri l now"
proof (cases "ri_is_initialized ri")
  case True
  define t where "t = unat (min now (ri_reward_duration_end ri)) - unat (ri_last_update_time ri)"
  obtain s :: u256 where le: "ri_last_update_time ri \<le> min now (ri_reward_duration_end ri)"
    and s: "unat s = unat (ri_reward_per_token_stored ri) + t * unat (ri_reward_rate ri) * 2 ^ 128 div unat l"
    unfolding t_def by (rule update_rewards_frame [OF assms True])
  have "unat s < 2 ^ 256" using unat_less [of s] by simp
  then show ?thesis using le by (simp add: reward_room_def s flip: t_def)
qed (simp add: reward_room_def)

lemma rewards_need_room:
  assumes "pos_update_rewards pos p now = Inr (pos', p')"
  shows "rewards_have_room p now"
proof (cases "pool_reward_initialized p")
  case True
  then have "pool_update_rewards p now = Inr p'" using assms by (auto simp: pos_update_rewards_def bindr_eq_Inr)
  then show ?thesis
    by (auto simp: pool_update_rewards_def bindr_eq_Inr rewards_have_room_def dest: ri_update_needs_room)
qed (simp add: pool_reward_initialized_def rewards_have_room_def reward_room_def)

text \<open>A withdrawal that is worth at least one unit of one of the tokens.\<close>

definition worth_a_unit :: "pool \<Rightarrow> u128 \<Rightarrow> bool" where
  "worth_a_unit p d \<longleftrightarrow> (let P = unat (pool_sqrt_price p) in
     P * unat (pool_sqrt_max_price p) \<le> unat d * (unat (pool_sqrt_max_price p) - P) \<or>
     2 ^ 128 \<le> unat d * (P - unat (pool_sqrt_min_price p)))"

lemma worth_a_unit_amounts:
  assumes "get_amounts_for_modify_liquidity p d Down = Inr m" and "worth_a_unit p d"
  shows "0 < ml_token_a_amount m \<or> 0 < ml_token_b_amount m"
proof -
  note x = get_amounts_exact [OF assms(1)]
  have pos: "0 < unat (pool_sqrt_price p) * unat (pool_sqrt_max_price p)" using x(4,5) by simp
  have one: "0 < n div q" if "q \<le> n" "0 < q" for n q :: nat using that by (simp add: div_greater_zero_iff)
  from assms(2) consider
      "unat (pool_sqrt_price p) * unat (pool_sqrt_max_price p) \<le> unat d * (unat (pool_sqrt_max_price p) - unat (pool_sqrt_price p))"
    | "2 ^ 128 \<le> unat d * (unat (pool_sqrt_price p) - unat (pool_sqrt_min_price p))"
    unfolding worth_a_unit_def Let_def by blast
  then show ?thesis
  proof cases
    case 1
    then have "0 < unat (ml_token_a_amount m)" using one [OF 1 pos] x(1) by simp
    then show ?thesis by (simp add: unat_gt_0 word_pos)
  next
    case 2
    have "0 < unat (ml_token_b_amount m)" using one [OF 2] x(2) by simp
    then show ?thesis by (simp add: unat_gt_0 word_pos)
  qed
qed

text \<open>Withdrawals are open from the activation of the pool on, whatever its status.\<close>

lemma removal_open:
  assumes "pool_ok p"
    and "pool_activation_point p \<le> (if pool_activation_type p = 0 then clk_slot clk else clk_unix_timestamp clk)"
  obtains v where "get_pool_access_validator clk p = Inr v" and "can_remove_liquidity v"
proof -
  have "pool_activation_type p = 0 \<or> pool_activation_type p = 1"
    using assms(1) by (auto simp: pool_ok_def word_eq_unat)
  then obtain t where t: "to_activation_type (pool_activation_type p) = Inr t"
    and point: "pool_activation_point p \<le> (case t of Slot \<Rightarrow> clk_slot clk | Timestamp \<Rightarrow> clk_unix_timestamp clk)"
    using assms(2) by (auto simp: to_activation_type_def activation_type_try_from_def ok_or_def)
  have sub: "\<exists>x. safe_sub a b = Inr x" if "b \<le> a" for a b :: u64
    using that unat_sub [of b a] by (auto simp: safe_sub_eq_Inr word_le_nat_alt intro!: exI [of _ "a - b"])
  have pre: "\<exists>x. (if b \<le> a then safe_sub a b else Inr 0) = Inr x" for a b :: u64 using sub [of b a] by auto
  have "\<exists>v. get_pool_access_validator clk p = Inr v \<and> can_remove_liquidity v"
  proof (cases t)
    case Slot
    then show ?thesis
      using pre [of SLOT_BUFFER "pool_activation_point p"] point
      by (auto simp: get_pool_access_validator_def permissionless_new_def t can_remove_liquidity_def simp del: split_paired_Ex)
  next
    case Timestamp
    then show ?thesis
      using pre [of TIME_BUFFER "pool_activation_point p"] point
      by (auto simp: get_pool_access_validator_def permissionless_new_def t can_remove_liquidity_def simp del: split_paired_Ex)
  qed
  then show ?thesis using that by blast
qed

end
