(* ===== verification/Spec2Isabelle.thy ===== *)
theory Spec2Isabelle
  imports TradeProperties FeeProperties PositionProperties GovernanceProperties RewardProperties
    LendingProperties LogProperties Payouts Exits
begin

text \<open>
  A model of the automated market maker under \<open>programs/cp-amm\<close>, of the quote function of
  \<open>rust-sdk\<close> and of the lending program under \<open>programs/lending-pool\<close> that trades through it,
  translated from the Rust source, with the theorems that make them correct.

  \<^bold>\<open>The program.\<close> A pool holds two tokens in two vaults and trades them on a constant product curve that is
  cut off at a minimum and a maximum price. Liquidity belongs to positions, each owned by the
  holder of an NFT. Swaps pay a fee (a base fee that may decay on a schedule, plus a fee that
  follows the volatility), shared between the liquidity, the protocol, a partner and a referrer.
  Fees and up to two farming rewards accrue to positions through growth accumulators on the pool
  and checkpoints on the position. Liquidity can be locked on a vesting schedule or for good. An
  admin manages configurations and the status of pools. The lending program opens, closes and
  liquidates short positions by swapping on a pool.

  \<^bold>\<open>Conventions.\<close> Integers are words of the width of the source, accounts are records with one field per
  field of the struct, public keys are words of 256 bits. A fallible function returns a sum: \<open>Inl\<close> an
  error of the program's own enum, a violated account constraint, or a panic; \<open>Inr\<close> the result. A
  handler takes the environment (clock, derived addresses) and the record of its accounts with
  their contents, checks the constraints of the accounts struct in its order, and returns the
  accounts it changes together with the token transfers it requests. The token programs are not
  part of the repository: the transfer fee of a mint and the function that carries out a transfer
  are parameters, and \<open>token_program_ok\<close> (PoolWorld) states what is relied on.

  \<^bold>\<open>Theories and code.\<close>
  \<^item> Prelude, SafeMath, U128x128Math: results, \<open>math/safe_math.rs\<close>, \<open>math/u128x128_math.rs\<close>,
    \<open>math/utils_math.rs\<close>. Each operation has a lemma \<open>..._eq_Inr\<close> that says exactly when it succeeds and
    with which natural number; the proofs below use only those.
  \<^item> Curve, Market: \<open>curve.rs\<close>; the abstract constant product market, as a locale, with its theorems on
    sequences of trades. The locale is interpreted in SwapHandler, on the whole instruction.
  \<^item> Constants, FeeMath, Fee, Config, FeeSchedule: \<open>constants.rs\<close>, \<open>math/fee_math.rs\<close>, \<open>state/fee.rs\<close>,
    \<open>params/fee_parameters.rs\<close>, \<open>state/config.rs\<close>. The loop of \<open>pow\<close> is a recursion over the 19 bits of the
    exponent, so it needs no fuel; it is characterised for every base and every signed exponent. The base fee is bounded over its whole life.
  \<^item> Checkpoint, Position, Pool, PoolPosition: the contract of a growth accumulator, as a locale, and
    \<open>state/position.rs\<close>, \<open>state/pool.rs\<close>; the two fees and the rewards are interpretations of it.
  \<^item> Activation, Access, Token: \<open>utils/activation_handler.rs\<close>, \<open>params/activation.rs\<close>, \<open>pool_action_access\<close>,
    \<open>utils/token.rs\<close>.
  \<^item> SwapHandler, LiquidityHandlers, PositionHandlers, Vesting, RewardHandlers, AdminHandlers,
    InitializePool: the handlers under \<open>instructions\<close>, and \<open>state/vesting.rs\<close>.
  \<^item> Quote: \<open>rust-sdk/src/quote.rs\<close>. Lending: \<open>programs/lending-pool\<close>.
  \<^item> Solvency, Claims, PoolWorld, PoolSteps: a pool with all its positions, vesting accounts and the
    token balances, as a step relation with one rule per entry point of \<open>lib.rs\<close> and one for all other
    programs; what a pool owes, and that every step keeps it covered.
  \<^item> RewardBooks, RewardSteps, RewardSolvency: the same for the vaults of the farming rewards: what a
    campaign has still to give and what positions have earned, what each instruction does to the sum,
    and that every step keeps it covered.
  \<^item> Events, Entry: \<open>event.rs\<close> with what each handler emits, and the entry points of \<open>lib.rs\<close> as data: the
    handler each runs, the accounts it writes, its transfers and its events. The values of an event
    that a handler does not return are computed again; that this never fails is proved.
  \<^item> EventLog, LogReader: a call in the world of a pool, that it is a step of PoolWorld, the log of all
    calls, and the summary that a reader of the log alone can keep of the accounts.
  \<^item> Governance: the entry points on configurations, fee operators and token badges as steps of a
    registry, what it can come to hold, and the pools that are opened from it.
  \<^item> LendingWorld: the lending program beside its pool: every step of the lending program is some steps of
    the pool (a simulation), and what its lenders are owed.
  \<^item> Machine: state machines, the contracts of their invariants, of what no step undoes, of a machine seen as
    another and of a machine that keeps a log, as locales; interpreted on the pool, the registry and the
    lending pool.
  \<^item> PoolTerms, PoolLocks, Payouts, RewardTimes, Exits: what no step changes, what backs the locks, what
    a pool can always pay, the clocks of the campaigns, and that claims and withdrawals succeed.
  \<^item> Samples: concrete accounts and calls, for the witnesses. TradeProperties, FeeProperties,
    PositionProperties, GovernanceProperties, RewardProperties, LendingProperties, LogProperties: the
    properties of single components, of the log and of the registry; the ones below span the program.

  \<^bold>\<open>What the theorems show.\<close> Every world a pool can reach is solvent, whoever does what: its vaults
  cover the curve, the fees and every position together, its reward vaults cover every reward, payouts
  are funded, fees, rewards and liquidity never get stuck (but for a full accumulator of a reward, and for a
  reward whose vault is frozen, which the claim can only give up), the
  terms never change, locks are backed and vested liquidity is always released. No sequence of swaps
  takes value out of the curve, a swap refines the abstract market, meets the stated minimum and is
  what the quote said. Fees are the stated fractions, computable at all times and within their bounds.
  Gates and authority hold whatever accounts are passed. The lending program's books balance,
  no instruction rewrites a loan, its lenders keep their principal, liquidations follow the ratio of the code
  (which is not the worth of the debt), and all it does to the pool is steps
  of the pool, so that the theorems on pools hold with it around. The log of events tells the state of a
  pool exactly, but for the volatility, the reward accumulators, and which part of a position is unlocked.
  Every pool has a valid price range and valid fees, from whichever configuration it was opened.

  \<^bold>\<open>Not modelled.\<close> The serialization of events and accounts, address constants, the allocation and the rent
  of accounts are the runtime's; the entry points of the lending program only pass their arguments
  on. A derived address is a function of its seeds. A transaction is one instruction: the runtime undoes
  all of it when a requested transfer fails.
\<close>

section \<open>The vaults cover what the pool owes\<close>

text \<open>C1: Solvency. Whatever sequence of instructions a pool has been through since its initialization, and
  whatever other programs did meanwhile, each of its two vaults holds at least the reserve of the
  curve, the fees of the protocol and the partner and all the fees of all the positions together;
  none of these is negative, so each claim is covered on its own as well.\<close>

theorem vaults_cover_everything:
  assumes "pool_reachable ch w" and "token_program_ok ch"
  shows "reserve s (w_pool w) + real (protocol_due s (w_pool w)) + real (partner_due s (w_pool w))
      + total (owed s (w_pool w)) (w_positions w) \<le> real (balance (w_tokens w) (vault s (w_pool w))) \<and>
    0 \<le> reserve s (w_pool w) \<and>
    (\<forall>k pos. w_positions w k = Some pos \<longrightarrow> real (fee_pending s pos) \<le> owed s (w_pool w) pos)"
proof -
  have solvent: "solvent ch w" by (rule pool_reachable_solvent [OF assms])
  then have ok: "books_ok (w_pool w) (w_positions w)" by (simp add: solvent_def)
  have "real (fee_pending s pos) \<le> owed s (w_pool w) pos" if "w_positions w k = Some pos" for k pos
    by (rule pending_le_owed [OF ok that])
  then show ?thesis using solvent reserve_nonneg [OF ok, of s] by (simp add: solvent_def owes_def)
qed

lemma vaults_cover_everything_witness:
  "reserve SideA (w_pool sample_world) + total (owed SideA (w_pool sample_world)) (w_positions sample_world) \<le> 68719476720"
proof -
  have "balance (w_tokens sample_world) (vault SideA (w_pool sample_world)) = 68719476720"
    by (simp add: sample_world_def sample_tokens_def sample_pool_def vault_def balance_def pool_initialize_def)
  then show ?thesis using vaults_cover_everything [OF sample_reachable sample_chain_ok, of SideA] by simp
qed

text \<open>C8: Every payout a handler requests is funded: in a world a pool can reach, a withdrawal of liquidity, a claim
  of a position's fees and a claim of the protocol's or the partner's fees never ask a vault for more
  than it holds.\<close>

theorem payouts_are_funded:
  assumes "pool_reachable ch w" and "token_program_ok ch"
  defines "funded \<equiv> \<lambda>trs. \<forall>s. paid_from (vault s (w_pool w)) trs \<le> balance (w_tokens w) (vault s (w_pool w))"
  shows "(\<forall>env ctx k d a b p pos trs. lc_pool ctx = w_pool w \<longrightarrow> w_positions w k = Some (lc_position ctx) \<longrightarrow>
      handle_remove_liquidity env ctx d a b = Inr (p, pos, trs) \<longrightarrow> funded trs) \<and>
    (\<forall>env ctx k pos trs. lc_pool ctx = w_pool w \<longrightarrow> w_positions w k = Some (lc_position ctx) \<longrightarrow>
      handle_claim_position_fee env ctx = Inr (pos, trs) \<longrightarrow> funded trs) \<and>
    (\<forall>env ctx ma mb p trs. cc_pool ctx = w_pool w \<longrightarrow>
      handle_claim_protocol_fee env ctx ma mb = Inr (p, trs) \<longrightarrow> funded trs) \<and>
    (\<forall>env ctx ma mb p trs. cc_pool ctx = w_pool w \<longrightarrow>
      handle_claim_partner_fee env ctx ma mb = Inr (p, trs) \<longrightarrow> funded trs)"
proof -
  have solvent: "solvent ch w" by (rule pool_reachable_solvent [OF assms(1,2)])
  then have ok: "books_ok (w_pool w) (w_positions w)" by (simp add: solvent_def)
  note covers = solvent_covers [OF solvent]
  have "funded trs" if "lc_pool ctx = w_pool w" "w_positions w k = Some (lc_position ctx)"
      "handle_remove_liquidity env ctx d a b = Inr (p, pos, trs)" for env ctx k d a b p pos trs
    using remove_liquidity_pays [of ctx "w_positions w" k, OF _ that(2,3)] ok that(1)
    unfolding funded_def by (auto intro!: covers)
  moreover have "funded trs" if "lc_pool ctx = w_pool w" "w_positions w k = Some (lc_position ctx)"
      "handle_claim_position_fee env ctx = Inr (pos, trs)" for env ctx k pos trs
    using claim_position_fee_pays [of ctx "w_positions w" k, OF _ that(2,3)] ok that(1)
    unfolding funded_def by (auto intro!: covers)
  moreover have "funded trs" if "cc_pool ctx = w_pool w" "handle_claim_protocol_fee env ctx ma mb = Inr (p, trs)"
    for env ctx ma mb p trs
    using protocol_fee_pays [OF that(2), of "w_positions w"] ok that(1) unfolding funded_def by (auto intro!: covers)
  moreover have "funded trs" if "cc_pool ctx = w_pool w" "handle_claim_partner_fee env ctx ma mb = Inr (p, trs)"
    for env ctx ma mb p trs
    using partner_fee_pays [OF that(2), of "w_positions w"] ok that(1) unfolding funded_def by (auto intro!: covers)
  ultimately show ?thesis by (intro conjI allI impI) metis+
qed

lemma payouts_are_funded_witness:
  "\<exists>pos trs. handle_claim_position_fee sample_env (sample_liquidity_ctx sample_pool sample_position) = Inr (pos, trs) \<and>
     paid_from 50 trs \<le> 68719476720"
proof -
  let ?ctx = "sample_liquidity_ctx sample_pool sample_position"
  obtain pos trs where c: "handle_claim_position_fee sample_env ?ctx = Inr (pos, trs)"
    by (simp add: sample_eval sample_liquidity_ctx_def liquidity_handlers_eval cong: bindr_weak_cong)
  have "lc_pool ?ctx = w_pool sample_world" "w_positions sample_world 68 = Some (lc_position ?ctx)"
    "vault SideA (w_pool sample_world) = 50" "balance (w_tokens sample_world) 50 = 68719476720"
    by (simp_all add: sample_liquidity_ctx_def sample_world_def sample_tokens_def sample_pool_def vault_def balance_def
        pool_initialize_def)
  with payouts_are_funded [OF sample_reachable sample_chain_ok] c show ?thesis by metis
qed

text \<open>C9: Rewards are covered like fees: in every world a pool can reach, the vault of a farming reward holds at
  least what the campaign has still to pay out (the seconds to come, and the seconds without liquidity
  that go back to the funder) plus what all positions have earned of it; so no claim of a reward and
  no withdrawal of undistributed rewards asks the vault for more than it holds.\<close>

theorem reward_vaults_cover_everything:
  assumes "pool_reachable ch w" and "token_program_ok ch" and "ri_is_initialized (campaign (w_pool w) i)"
  defines "held \<equiv> balance (w_tokens w) (reward_vault i (w_pool w))"
  shows "reward_promised (campaign (w_pool w) i) + total (reward_earned i (w_pool w)) (w_positions w) \<le> real held \<and>
    0 \<le> reward_promised (campaign (w_pool w) i) \<and>
    (\<forall>k pos. w_positions w k = Some pos \<longrightarrow> real (reward_pending i pos) \<le> reward_earned i (w_pool w) pos) \<and>
    (\<forall>env ctx k skip p pos trs. cr_pool ctx = w_pool w \<longrightarrow> w_positions w k = Some (cr_position ctx) \<longrightarrow>
      handle_claim_reward env ctx i skip = Inr (p, pos, trs) \<longrightarrow> paid_from (reward_vault i (w_pool w)) trs \<le> held) \<and>
    (\<forall>env ctx p trs. fd_pool ctx = w_pool w \<longrightarrow>
      handle_withdraw_ineligible_reward env ctx i = Inr (p, trs) \<longrightarrow> paid_from (reward_vault i (w_pool w)) trs \<le> held)"
proof -
  have rewards: "reward_solvent ch w" by (rule pool_reachable_reward_solvent [OF assms(1,2)])
  then have ok: "reward_books_ok (w_pool w) (w_positions w)" and apart: "reward_vaults_apart (w_pool w)"
    by (simp_all add: reward_solvent_def)
  have books: "books_ok (w_pool w) (w_positions w)" using pool_reachable_solvent [OF assms(1,2)] by (simp add: solvent_def)
  note covers = reward_solvent_covers [OF rewards assms(3), folded held_def]
  have "paid_from (reward_vault i (w_pool w)) trs \<le> held" if "cr_pool ctx = w_pool w" "w_positions w k = Some (cr_position ctx)"
      "handle_claim_reward env ctx i skip = Inr (p, pos, trs)" for env ctx k skip p pos trs
    using claim_reward_books [of _ _ _ _ _ _ _ "w_positions w" k, OF that(3,2), unfolded that(1), OF ok books apart] assms(3)
    by (auto intro!: covers)
  moreover have "paid_from (reward_vault i (w_pool w)) trs \<le> held" if "fd_pool ctx = w_pool w"
      "handle_withdraw_ineligible_reward env ctx i = Inr (p, trs)" for env ctx p trs
    using withdraw_ineligible_books [OF that(2), unfolded that(1), OF ok books apart] assms(3) by (auto intro!: covers)
  moreover have "reward_owes i (w_pool w) (w_positions w) \<le> real held"
    using rewards assms(3) by (simp add: reward_solvent_def held_def)
  ultimately show ?thesis
    using reward_promised_nonneg reward_member(1) [OF ok] unfolding reward_owes_def by blast
qed

lemma reward_vaults_cover_everything_witness:
  "reward_promised (campaign (w_pool sample_farm_world) 1) = 86400000 \<and>
   total (reward_earned 1 (w_pool sample_farm_world)) (w_positions sample_farm_world) \<le> 0"
proof -
  have c: "ri_is_initialized (campaign (w_pool sample_farm_world) 1)" "reward_vault 1 (w_pool sample_farm_world) = 41"
    "balance (w_tokens sample_farm_world) 41 = 86400000" "reward_promised (campaign (w_pool sample_farm_world) 1) = 86400000"
    by (simp_all add: sample_farm_world_def sample_farm_pool_def sample_campaign_def init_reward_def default_reward_info_def
        campaign_def ri_is_initialized_def reward_vault_def balance_def reward_promised_def remaining_seconds_def)
  then show ?thesis using reward_vaults_cover_everything [OF sample_farm_reachable sample_chain_ok c(1)] by simp
qed

text \<open>C5: Fees never get stuck: in a world a pool can reach, while the vault balances and the lifetime totals
  of the position fit in 64 bits, the holder of a position's NFT who passes the right accounts always
  succeeds in claiming all its fees, and the vaults cover what is claimed.\<close>

theorem fees_always_claimable:
  assumes "pool_reachable ch w" and "token_program_ok ch" and "lc_pool ctx = w_pool w"
    and "w_positions w k = Some (lc_position ctx)" and "liquidity_constraints ctx = Inr ()"
    and "lc_pool_authority ctx = env_pool_authority env"
    and "\<forall>s. balance (w_tokens w) (vault s (w_pool w)) + claimed s (lc_position ctx) < 2 ^ 64"
  shows "\<exists>pos trs. handle_claim_position_fee env ctx = Inr (pos, trs) \<and>
    (\<forall>s. fee_pending s pos = 0 \<and> paid_from (vault s (w_pool w)) trs \<le> balance (w_tokens w) (vault s (w_pool w)))"
proof -
  have solvent: "solvent ch w" by (rule pool_reachable_solvent [OF assms(1,2)])
  then have ok: "books_ok (lc_pool ctx) (w_positions w)" using assms(3) by (simp add: solvent_def)
  obtain pos trs where c: "handle_claim_position_fee env ctx = Inr (pos, trs)"
    using claim_fee_possible [OF solvent assms(3-6)] assms(7) by blast
  have "fee_pending s pos = 0" for s
    by (rule claim_position_fee_frame [OF c]) (cases s; simp add: reset_pending_fee_def fee_pending_def)
  moreover have "paid_from (vault s (w_pool w)) trs \<le> balance (w_tokens w) (vault s (w_pool w))" for s
    using claim_position_fee_pays [OF ok assms(4) c] assms(3) by (auto intro: solvent_covers [OF solvent])
  ultimately show ?thesis using c by blast
qed

lemma fees_always_claimable_witness:
  "\<exists>pos trs. handle_claim_position_fee sample_env (sample_liquidity_ctx sample_pool sample_position) = Inr (pos, trs)"
proof -
  let ?ctx = "sample_liquidity_ctx sample_pool sample_position"
  have "lc_pool ?ctx = w_pool sample_world" "w_positions sample_world 68 = Some (lc_position ?ctx)"
    "lc_pool_authority ?ctx = env_pool_authority sample_env"
    "\<forall>s. balance (w_tokens sample_world) (vault s (w_pool sample_world)) + claimed s (lc_position ?ctx) < 2 ^ 64"
    by (auto simp: sample_liquidity_ctx_def sample_world_def sample_tokens_def sample_pool_def vault_def balance_def
        sample_env_def sample_position_def default_position_def claimed_def pool_initialize_def split: side.splits)
  moreover have "liquidity_constraints ?ctx = Inr ()"
    by (simp add: sample_eval sample_liquidity_ctx_def liquidity_handlers_eval cong: bindr_weak_cong)
  ultimately show ?thesis using fees_always_claimable [OF sample_reachable sample_chain_ok] by blast
qed

section \<open>Holders get out what is theirs\<close>

text \<open>C6: Withdrawals cannot be stopped: in a world a pool can reach, from its activation on and whatever its
  status, the holder of a position's NFT who passes the right accounts can withdraw any part of the
  unlocked liquidity that is worth a unit of a token, while balances fit in 64 bits and the mints can
  compute their transfer fees. The one obstacle is a reward: the withdrawal succeeds if and only if the
  growth accumulators of the campaigns, which are added up with a check, have room for the seconds
  that passed.\<close>

theorem withdrawals_always_possible:
  fixes env :: environment
  assumes "pool_reachable ch w" and "token_program_ok ch" and "ledger_fits (w_tokens w)"
    and "lc_pool ctx = w_pool w" and "w_positions w k = Some (lc_position ctx)" and "liquidity_constraints ctx = Inr ()"
    and "lc_pool_authority ctx = env_pool_authority env"
    and "\<forall>x. received (lc_token_a_mint ctx) x \<noteq> None \<and> received (lc_token_b_mint ctx) x \<noteq> None"
    and "pool_activation_point (w_pool w) \<le> (if pool_activation_type (w_pool w) = 0
           then clk_slot (env_clock env) else clk_unix_timestamp (env_clock env))"
    and "d \<le> pos_unlocked_liquidity (lc_position ctx)" and "0 < d" and "worth_a_unit (w_pool w) d"
  shows "(\<exists>p pos trs. handle_remove_liquidity env ctx (Some d) 0 0 = Inr (p, pos, trs)) \<longleftrightarrow>
    rewards_have_room (w_pool w) (current_time env)"
proof
  assume "\<exists>p pos trs. handle_remove_liquidity env ctx (Some d) 0 0 = Inr (p, pos, trs)"
  then show "rewards_have_room (w_pool w) (current_time env)"
    using rewards_need_room assms(4) by (auto elim!: handle_remove_liquidity_frame)
next
  assume room: "rewards_have_room (w_pool w) (current_time env)"
  obtain v where "get_pool_access_validator (env_clock env) (w_pool w) = Inr v" and "can_remove_liquidity v"
    by (rule removal_open [OF pool_reachable_ok [OF assms(1)] assms(9)])
  then show "\<exists>p pos trs. handle_remove_liquidity env ctx (Some d) 0 0 = Inr (p, pos, trs)"
    using assms(8,10-12) worth_a_unit_amounts
    by (intro remove_liquidity_possible [OF pool_reachable_solvent pool_reachable_reward_solvent reward_times.always,
      OF assms(1,2) assms(1,2) assms(1) assms(3) room assms(5,4,7,6)]) auto
qed

lemma withdrawals_always_possible_witness:
  "\<exists>p pos trs. handle_remove_liquidity (sample_env\<lparr> env_clock := \<lparr> clk_slot = 7, clk_unix_timestamp = 2000 \<rparr> \<rparr>)
     (sample_liquidity_ctx sample_farm_pool sample_position) (Some (2 ^ 99)) 0 0 = Inr (p, pos, trs)"
proof -
  let ?env = "sample_env\<lparr> env_clock := \<lparr> clk_slot = 7, clk_unix_timestamp = 2000 \<rparr> \<rparr>"
    and ?ctx = "sample_liquidity_ctx sample_farm_pool sample_position"
  have ctx: "lc_pool ?ctx = w_pool sample_farm_world" "w_positions sample_farm_world 68 = Some (lc_position ?ctx)"
    "lc_pool_authority ?ctx = env_pool_authority ?env" "lc_position ?ctx = sample_position"
    "\<forall>x. received (lc_token_a_mint ?ctx) x \<noteq> None \<and> received (lc_token_b_mint ?ctx) x \<noteq> None"
    by (simp_all add: sample_liquidity_ctx_def sample_farm_world_def sample_world_def sample_env_def sample_received)
  have c: "liquidity_constraints ?ctx = Inr ()"
    by (simp add: sample_eval sample_liquidity_ctx_def sample_farm_pool_def liquidity_handlers_eval cong: bindr_weak_cong)
  have p: "pool_activation_point sample_farm_pool = 5" "pool_activation_type sample_farm_pool = 0"
    "unat (pool_sqrt_price sample_farm_pool) = 2 ^ 64" "unat (pool_sqrt_min_price sample_farm_pool) = 4295048016"
    "pos_unlocked_liquidity sample_position = 2 ^ 100" "w_pool sample_farm_world = sample_farm_pool"
    "current_time ?env = 2000"
    by (simp_all add: sample_farm_world_def sample_farm_pool_def sample_pool_def pool_initialize_def sample_position_def
        current_time_def)
  have room: "rewards_have_room sample_farm_pool 2000"
    by (simp add: rewards_have_room_def reward_room_def sample_farm_pool_def sample_pool_def pool_initialize_def
        sample_campaign_def init_reward_def default_reward_info_def ri_is_initialized_def)
  have "ledger_fits (w_tokens sample_farm_world)"
    by (simp add: ledger_fits_def balance_def sample_farm_world_def sample_tokens_def)
  note possible = withdrawals_always_possible [OF sample_farm_reachable sample_chain_ok this ctx(1,2) c ctx(3,5)]
  have "worth_a_unit sample_farm_pool (2 ^ 99)" by (simp add: worth_a_unit_def p Let_def)
  then show ?thesis using possible [of "2 ^ 99"] room by (simp add: p ctx(4))
qed

text \<open>C7: Rewards never get stuck either: in a world a pool can reach, while balances fit in 64 bits and the
  accumulators have room, the holder of a position's NFT always succeeds in claiming what the position
  earned of a reward whose vault is not frozen; nothing stays pending, and the vault covers the payment.\<close>

theorem rewards_always_claimable:
  assumes "pool_reachable ch w" and "token_program_ok ch" and "ledger_fits (w_tokens w)"
    and "cr_pool ctx = w_pool w" and "w_positions w k = Some (cr_position ctx)"
    and "cr_pool_authority ctx = env_pool_authority env" and "pos_pool (cr_position ctx) = cr_pool_key ctx"
    and "check_position_nft (cr_position_nft_account ctx) (pos_nft_mint (cr_position ctx)) (cr_owner ctx) = Inr ()"
    and "claim_reward_validate ctx (unat i) = Inr ()" and "\<not> ta_frozen (cr_reward_vault ctx)"
    and "rewards_have_room (w_pool w) (current_time env)"
  shows "\<exists>p pos trs. handle_claim_reward env ctx i skip = Inr (p, pos, trs) \<and> reward_pending i pos = 0 \<and>
    paid_from (reward_vault i (w_pool w)) trs \<le> balance (w_tokens w) (reward_vault i (w_pool w))"
proof -
  have solvent: "solvent ch w" and rewards: "reward_solvent ch w"
    using pool_reachable_solvent pool_reachable_reward_solvent assms(1,2) by blast+
  obtain p pos trs where c: "handle_claim_reward env ctx i skip = Inr (p, pos, trs)"
    using claim_reward_possible [OF solvent rewards reward_times.always [OF assms(1)] assms(3,11,5,4,6-10)] by blast
  have i: "unat i < NUM_REWARDS" and init: "ri_is_initialized (campaign (w_pool w) i)"
    using assms(4,9) by (auto simp: claim_reward_validate_def bindr_eq_Inr require_eq_Inr index_campaign)
  have "books_ok (w_pool w) (w_positions w)" "reward_books_ok (w_pool w) (w_positions w)" "reward_vaults_apart (w_pool w)"
    using solvent rewards by (simp_all add: solvent_def reward_solvent_def)
  note b = claim_reward_books [of _ _ _ _ _ _ _ "w_positions w" k, OF c assms(5), unfolded assms(4), OF this(2,1,3)]
  have "reward_pending i pos = 0"
    using c i by (auto simp: handle_claim_reward_def Let_def bindr_eq_Inr pos_claim_reward_def reset_all_pending_reward_def
      reward_pending_def pending_reward_set split: if_splits prod.splits)
  then show ?thesis using c reward_solvent_covers [OF rewards init b(1) b(2) [OF init]] by blast
qed

lemma rewards_always_claimable_witness:
  "\<exists>p pos trs. handle_claim_reward (sample_env\<lparr> env_clock := \<lparr> clk_slot = 7, clk_unix_timestamp = 2000 \<rparr> \<rparr>)
     \<lparr> cr_pool_authority = 1, cr_pool_key = 28, cr_pool = sample_farm_pool, cr_position = sample_position,
       cr_reward_vault = sample_account 41 13 1, cr_reward_mint = sample_mint 13,
       cr_user_token_account = sample_account 33 13 40, cr_position_nft_account = sample_account 80 60 40, cr_owner = 40 \<rparr>
     1 0 = Inr (p, pos, trs) \<and> paid_from 41 trs \<le> 86400000"
proof -
  let ?env = "sample_env\<lparr> env_clock := \<lparr> clk_slot = 7, clk_unix_timestamp = 2000 \<rparr> \<rparr>"
  let ?ctx = "\<lparr> cr_pool_authority = 1, cr_pool_key = 28, cr_pool = sample_farm_pool, cr_position = sample_position,
       cr_reward_vault = sample_account 41 13 1, cr_reward_mint = sample_mint 13,
       cr_user_token_account = sample_account 33 13 40, cr_position_nft_account = sample_account 80 60 40, cr_owner = 40 \<rparr>"
  have w: "w_pool sample_farm_world = sample_farm_pool" "w_positions sample_farm_world 68 = Some sample_position"
    "reward_vault 1 sample_farm_pool = 41" "balance (w_tokens sample_farm_world) 41 = 86400000" "current_time ?env = 2000"
    "cr_pool_authority ?ctx = env_pool_authority ?env" "pos_pool sample_position = 28" "ledger_fits (w_tokens sample_farm_world)"
    by (simp_all add: sample_farm_world_def sample_world_def sample_farm_pool_def sample_campaign_def init_reward_def
        reward_vault_def campaign_def sample_tokens_def balance_def current_time_def sample_env_def sample_position_def ledger_fits_def)
  have "check_position_nft (cr_position_nft_account ?ctx) (pos_nft_mint (cr_position ?ctx)) (cr_owner ?ctx) = Inr ()"
    "claim_reward_validate ?ctx (unat (1 :: u8)) = Inr ()" "\<not> ta_frozen (cr_reward_vault ?ctx)"
    by (simp_all add: sample_account_def sample_position_def sample_farm_pool_def sample_campaign_def reward_handlers_eval pool_eval)
  moreover have "rewards_have_room sample_farm_pool 2000"
    by (simp add: rewards_have_room_def reward_room_def sample_farm_pool_def sample_pool_def pool_initialize_def
        sample_campaign_def init_reward_def default_reward_info_def ri_is_initialized_def)
  ultimately show ?thesis
    using rewards_always_claimable [OF sample_farm_reachable sample_chain_ok w(8), of ?ctx 68 ?env 1 0] w by auto
qed

section \<open>The terms of a pool\<close>

text \<open>C12: The terms a pool was opened with never change: no sequence of instructions alters its mints, vaults,
  price range, fee schedule and shares, activation, partner, creator, whitelisted vault or fee mode, and
  the liquidity locked for good never decreases.\<close>

theorem terms_never_change:
  assumes "(pool_step ch)\<^sup>*\<^sup>* w w'"
  shows "pool_terms (w_pool w') = pool_terms (w_pool w) \<and>
    pool_permanent_lock_liquidity (w_pool w) \<le> pool_permanent_lock_liquidity (w_pool w')"
  using terms.steps_le [OF assms] by (simp add: terms_kept_def)

text \<open>C35: Well-formedness of the pool account: in every world a pool can reach its status is enabled or disabled,
  its activation type is by slot or by time, and the volatility accumulator respects its maximum.\<close>

theorem pool_account_well_formed:
  assumes "pool_reachable ch w"
  shows "unat (pool_pool_status (w_pool w)) \<le> 1 \<and> unat (pool_activation_type (w_pool w)) \<le> 1 \<and>
    unat (df_volatility_accumulator (pf_dynamic_fee (pool_fees (w_pool w)))) \<le>
      unat (df_max_volatility_accumulator (pf_dynamic_fee (pool_fees (w_pool w))))"
  using pool_reachable_ok [OF assms] by (simp add: pool_ok_def volatility_ok_def)

lemma terms_never_change_witness:
  "pool_terms (w_pool sample_locked_world) = pool_terms (w_pool sample_world)"
  using terms_never_change [OF r_into_rtranclp [of "pool_step sample_chain", OF sample_lock_step]] by simp

lemma pool_account_well_formed_witness: "unat (pool_pool_status (w_pool sample_locked_world)) \<le> 1"
  using pool_account_well_formed [OF sample_locked_reachable] by simp

text \<open>Fees can never block a pool: in every world that a pool opened with validated fee parameters reaches,
  the fee of every amount can be computed at every time, however the volatility has moved.\<close>

theorem fees_computable_forever:
  assumes "pool_reachable ch w" and "(pool_step ch)\<^sup>*\<^sup>* w w'"
    and "base_fee_validate (pp_base_fee pp) = Inr u" and "fees_from pp (pool_fees (w_pool w))"
  shows "\<exists>r. get_fee_on_amount (pool_fees (w_pool w')) amount referral point
    (pool_activation_point (w_pool w')) partner = Inr r"
proof -
  have "volatility_ok (w_pool w')"
    using pool_reachable_ok [OF reachable_steps [OF assms(2,1)]] by (simp add: pool_ok_def)
  then have "fees_from pp (pool_fees (w_pool w'))"
    using terms.steps_le [OF assms(2)] by (intro pool_terms_fees [OF _ _ assms(4)]) (simp_all add: terms_kept_def)
  then show ?thesis by (rule fees_from_total [OF assms(3)])
qed

lemma fees_computable_forever_witness:
  "\<exists>r. get_fee_on_amount (pool_fees (w_pool sample_locked_world)) 12345 False 77 5 False = Inr r"
proof -
  have "base_fee_validate (pp_base_fee sample_fee_parameters) = Inr ()"
    by (simp add: sample_fee_parameters_def config_eval fee_eval fee_const_defs cong: bindr_weak_cong)
  moreover have "fees_from sample_fee_parameters (pool_fees (w_pool sample_world))"
    by (simp add: sample_world_def sample_pool_def pool_initialize_def fees_from_new)
  moreover have "pool_activation_point (w_pool sample_locked_world) = 5"
    by (simp add: sample_locked_world_def sample_world_def sample_pool_def pool_initialize_def)
  ultimately show ?thesis
    using fees_computable_forever [OF sample_reachable r_into_rtranclp [of "pool_step sample_chain", OF sample_lock_step]]
    by metis
qed

section \<open>Locked liquidity\<close>

text \<open>C15: Locks are backed, whatever happens: in every world a pool can reach, the vested liquidity of each
  position is exactly what its open vesting accounts have still to release, the liquidity the pool
  counts as locked for good is the sum over its positions, and no vesting account has released more
  than it locked.\<close>

theorem locks_are_backed:
  assumes "pool_reachable ch w"
  shows "total perm (w_positions w) = real (unat (pool_permanent_lock_liquidity (w_pool w))) \<and>
    (\<forall>k pos. w_positions w k = Some pos \<longrightarrow> unat (pos_vested_liquidity pos) = locked_in (w_vestings w) k) \<and>
    (\<forall>k v. w_vestings w k = Some v \<longrightarrow> unat (v_total_released_liquidity v) \<le> total_lock v)"
  using pool_reachable_locks [OF assms] by (auto simp: locks_ok_def released_ok_def vested_at_def split: option.splits)

lemma locks_are_backed_witness: "locked_in (w_vestings sample_locked_world) 68 = 1000"
proof -
  have "w_positions sample_locked_world 68 = Some (sample_position\<lparr> pos_unlocked_liquidity := 2 ^ 100 - 1000,
     pos_vested_liquidity := 1000 \<rparr>)" by (simp add: sample_locked_world_def)
  then show ?thesis using locks_are_backed [OF sample_locked_reachable] by fastforce
qed

text \<open>C16: Vested liquidity is always released: in a world a pool can reach, the owner of a position can refresh each
  of its vesting accounts at any time, whatever the status of the pool; the position gets unlocked exactly
  what the schedule has unlocked since the last refresh, and the account is closed once all is released.\<close>

theorem vesting_always_released:
  fixes env :: environment
  assumes "pool_reachable ch w" and "token_program_ok ch" and "rv_pool ctx = w_pool w"
    and "w_positions w (rv_position_key ctx) = Some (rv_position ctx)"
    and "w_vestings w vk = Some v" and "v_position v = rv_position_key ctx"
    and "pos_pool (rv_position ctx) = rv_pool_key ctx"
    and "check_position_nft (rv_position_nft_account ctx) (pos_nft_mint (rv_position ctx)) (rv_owner ctx) = Inr ()"
  defines "point \<equiv> (if pool_activation_type (w_pool w) = 0 then clk_slot (env_clock env) else clk_unix_timestamp (env_clock env))"
  assumes "unat (v_total_released_liquidity v) \<le> unlocked_at v (unat point)"
  shows "\<exists>vs' pos'. handle_refresh_vesting env (w_vestings w) ctx [vk] = Inr (vs', pos') \<and>
    unat (pos_unlocked_liquidity pos') = unat (pos_unlocked_liquidity (rv_position ctx)) +
      (unlocked_at v (unat point) - unat (v_total_released_liquidity v)) \<and>
    (unlocked_at v (unat point) = total_lock v \<longrightarrow> vs' vk = None)"
proof -
  have "books_ok (w_pool w) (w_positions w)"
    using pool_reachable_solvent [OF assms(1,2)] by (simp add: solvent_def)
  note fits = position_fits [OF this assms(4)]
  have "unat (pool_activation_type (w_pool w)) \<le> 1"
    using pool_reachable_ok [OF assms(1)] by (simp add: pool_ok_def)
  then have "pool_activation_type (w_pool w) = 0 \<or> pool_activation_type (w_pool w) = 1"
    by (auto simp: word_eq_unat)
  then obtain buffer where now: "get_current_point_and_buffer_duration (env_clock env) (pool_activation_type (w_pool w)) =
      Inr (point, buffer)"
    by (auto simp: get_current_point_and_buffer_duration_def to_activation_type_def activation_type_try_from_def
        ok_or_def point_def)
  show ?thesis
    using refresh_possible [OF pool_reachable_locks [OF assms(1)] fits assms(4-6,10)] assms(3,7,8) now
    by (simp add: handle_refresh_vesting_def)
qed

lemma vesting_always_released_witness:
  "\<exists>vs pos. handle_refresh_vesting (sample_env\<lparr> env_clock := \<lparr> clk_slot = 200, clk_unix_timestamp = 1000 \<rparr> \<rparr>)
       (w_vestings sample_locked_world)
       \<lparr> rv_pool_key = 28, rv_pool = w_pool sample_locked_world, rv_position_key = 68,
         rv_position = the (w_positions sample_locked_world 68),
         rv_position_nft_account = sample_account 80 60 40, rv_owner = 40 \<rparr> [90] = Inr (vs, pos) \<and>
     unat (pos_unlocked_liquidity pos) = 2 ^ 100 \<and> vs 90 = None"
proof -
  let ?env = "sample_env\<lparr> env_clock := \<lparr> clk_slot = 200, clk_unix_timestamp = 1000 \<rparr> \<rparr>"
  let ?ctx = "\<lparr> rv_pool_key = 28, rv_pool = w_pool sample_locked_world, rv_position_key = 68,
         rv_position = the (w_positions sample_locked_world 68),
         rv_position_nft_account = sample_account 80 60 40, rv_owner = 40 \<rparr>"
  have "w_vestings sample_locked_world 90 = Some sample_vesting" "v_position sample_vesting = 68"
    "w_positions sample_locked_world (rv_position_key ?ctx) = Some (rv_position ?ctx)"
    "pos_pool (rv_position ?ctx) = rv_pool_key ?ctx" "pool_activation_type (w_pool sample_locked_world) = 0"
    "unlocked_at sample_vesting 200 = 1000" "total_lock sample_vesting = 1000" "v_total_released_liquidity sample_vesting = 0"
    "unat (pos_unlocked_liquidity (rv_position ?ctx)) = 2 ^ 100 - 1000"
    by (simp_all add: sample_locked_world_def sample_world_def sample_vesting_def v_initialize_def default_vesting_def
        sample_position_def default_position_def sample_pool_def pool_initialize_def unlocked_at_def total_lock_def)
  moreover have "check_position_nft (rv_position_nft_account ?ctx) (pos_nft_mint (rv_position ?ctx)) (rv_owner ?ctx) = Inr ()"
    by (simp add: sample_locked_world_def sample_position_def sample_account_def position_handlers_eval liquidity_handlers_eval)
  ultimately show ?thesis
    using vesting_always_released [OF sample_locked_reachable sample_chain_ok, of ?ctx 90 sample_vesting ?env] by auto
qed

end
